(* ===== verification/NB_Prelude.thy ===== *)
theory NB_Prelude
  imports Main "HOL-Library.Word" "HOL-Library.Signed_Division" "HOL-Library.Monad_Syntax"
begin

unbundle bit_operations_syntax

text \<open>
  Shared vocabulary of the development.

  The C integer types of the 32-bit RTEMS targets (\<open>LONG64\<close> is not defined in
  \<open>pointer.h\<close>, so \<open>u32\<close> is \<open>unsigned long\<close> and \<open>int32\<close> is \<open>long\<close>) are word types; a
  signed variable is the same word, read with \<open>sint\<close>.

  C memory is partial: an access outside an object is undefined behaviour.  The
  accessors \<open>rd\<close> and \<open>wr\<close> return \<open>None\<close> there, and every model built from them
  propagates \<open>None\<close>.  A theorem that a model returns \<open>Some\<close> is therefore also a
  memory-safety theorem.
\<close>

type_synonym u8 = "8 word"
type_synonym u16 = "16 word"
type_synonym u32 = "32 word"
type_synonym int32 = "32 word"

named_theorems mem_simps \<open>reads and writes of arrays inside their bounds\<close>

section \<open>Array accesses\<close>

definition rd :: "'a list \<Rightarrow> nat \<Rightarrow> 'a option" where
  "rd xs i = (if i < length xs then Some (xs ! i) else None)"

definition wr :: "'a list \<Rightarrow> nat \<Rightarrow> 'a \<Rightarrow> 'a list option" where
  "wr xs i v = (if i < length xs then Some (xs[i := v]) else None)"

lemma rd_in [mem_simps]: "i < length xs \<Longrightarrow> rd xs i = Some (xs ! i)"
  by (simp add: rd_def)

lemma wr_in [mem_simps]: "i < length xs \<Longrightarrow> wr xs i v = Some (xs[i := v])"
  by (simp add: wr_def)

lemma rd_Some_iff: "rd xs i = Some v \<longleftrightarrow> i < length xs \<and> xs ! i = v"
  by (auto simp: rd_def)

lemma wr_Some_iff: "wr xs i v = Some ys \<longleftrightarrow> i < length xs \<and> ys = xs[i := v]"
  by (auto simp: wr_def)

lemma rd_out: "length xs \<le> i \<Longrightarrow> rd xs i = None"
  by (simp add: rd_def)

section \<open>Word ranges\<close>

lemma unat8_less: "unat (x :: u8) < 256"
  by (rule order_less_le_trans [OF unsigned_less]) simp

lemma unat16_less: "unat (x :: u16) < 65536"
  by (rule order_less_le_trans [OF unsigned_less]) simp

lemma unat32_less: "unat (x :: u32) < 2 ^ 32"
  by (rule order_less_le_trans [OF unsigned_less]) simp

section \<open>Signed 32-bit arithmetic\<close>

text \<open>
  C's \<open>%\<close> on signed operands truncates towards zero; division by zero traps and is
  \<open>None\<close>.
\<close>

definition smod32 :: "int32 \<Rightarrow> int32 \<Rightarrow> int32 option" where
  "smod32 a b = (if b = 0 then None else Some (word_of_int (sint a smod sint b)))"

lemma sint_range32: "- (2 ^ 31) \<le> sint (w :: int32)" "sint (w :: int32) < 2 ^ 31"
  using sint_range_size [of w] by (simp_all add: word_size)

lemma sint_word_of_int_small:
  assumes "- (2 ^ 31) \<le> k" "k < 2 ^ 31"
  shows "sint (word_of_int k :: int32) = k"
  using assms by (simp add: sint_sbintrunc' signed_take_bit_int_eq_self)

lemma smod32_Some:
  assumes "0 < sint b"
  shows "\<exists>r. smod32 a b = Some r \<and> \<bar>sint r\<bar> < sint b \<and> sint r = sint a smod sint b"
proof -
  have nz: "b \<noteq> 0" using assms by auto
  have rng: "sint a smod sint b \<in> {- \<bar>sint b\<bar> + 1..\<bar>sint b\<bar> - 1}"
    by (rule smod_int_range) (use assms in simp)
  have b31: "sint b < 2 ^ 31" by (rule sint_range32)
  have "sint (word_of_int (sint a smod sint b) :: int32) = sint a smod sint b"
    by (rule sint_word_of_int_small) (use rng b31 assms in auto)
  then show ?thesis using nz rng assms by (auto simp: smod32_def)
qed

text \<open>The pattern \<open>if (t < 0) t = 0 - t;\<close> on an \<open>int32\<close>, then read as unsigned.\<close>

lemma unat_nonneg_sint: "0 \<le> sint (w :: int32) \<Longrightarrow> int (unat w) = sint w"
  using sint_range32 [of w] uint_sint [of w] by (simp add: take_bit_int_eq_self)

lemma sint_minus32: "sint (w :: int32) \<noteq> - (2 ^ 31) \<Longrightarrow> sint (- w) = - sint w"
  using sint_range32 [of w] by (simp add: sint_word_minus signed_take_bit_int_eq_self)

section \<open>Loops that count\<close>

text \<open>\<open>for (i = lo; i < hi; i++) s = body i s\<close>, with a body that may fail.\<close>

fun for_loop :: "nat \<Rightarrow> nat \<Rightarrow> (nat \<Rightarrow> 's \<Rightarrow> 's option) \<Rightarrow> 's \<Rightarrow> 's option" where
  "for_loop i 0 f s = Some s"
| "for_loop i (Suc n) f s = f i s \<bind> for_loop (Suc i) n f"

abbreviation for_range :: "nat \<Rightarrow> nat \<Rightarrow> (nat \<Rightarrow> 's \<Rightarrow> 's option) \<Rightarrow> 's \<Rightarrow> 's option" where
  "for_range lo hi f s \<equiv> for_loop lo (hi - lo) f s"

lemma for_loop_rule:
  assumes "P i s"
    and "\<And>j s. i \<le> j \<Longrightarrow> j < i + n \<Longrightarrow> P j s \<Longrightarrow> \<exists>s'. f j s = Some s' \<and> P (Suc j) s'"
  shows "\<exists>s'. for_loop i n f s = Some s' \<and> P (i + n) s'"
  using assms
proof (induction n arbitrary: i s)
  case 0
  then show ?case by simp
next
  case (Suc n)
  obtain s1 where s1: "f i s = Some s1" "P (Suc i) s1"
    using Suc.prems(2) [of i s] Suc.prems(1) by auto
  have "\<exists>s'. for_loop (Suc i) n f s1 = Some s' \<and> P (Suc i + n) s'"
    by (rule Suc.IH [OF s1(2)]) (use Suc.prems(2) in auto)
  then show ?case using s1(1) by simp
qed

lemma for_loop_append:
  "for_loop i (m + n) f s = for_loop i m f s \<bind> for_loop (i + m) n f"
  proof (induction m arbitrary: i s)
  case 0
  then show ?case by simp
next
  case (Suc m)
  then show ?case by (cases "f i s") simp_all
qed

text \<open>\<open>for (i = n; i > 0; --i) s = body i s\<close>.\<close>

fun down_loop :: "nat \<Rightarrow> (nat \<Rightarrow> 's \<Rightarrow> 's option) \<Rightarrow> 's \<Rightarrow> 's option" where
  "down_loop 0 f s = Some s"
| "down_loop (Suc n) f s = f (Suc n) s \<bind> down_loop n f"

lemma down_loop_rule:
  assumes "P n s"
    and "\<And>j s. Suc j \<le> n \<Longrightarrow> P (Suc j) s \<Longrightarrow> \<exists>s'. f (Suc j) s = Some s' \<and> P j s'"
  shows "\<exists>s'. down_loop n f s = Some s' \<and> P 0 s'"
  using assms
proof (induction n arbitrary: s)
  case 0
  then show ?case by simp
next
  case (Suc n)
  obtain s1 where s1: "f (Suc n) s = Some s1" "P n s1"
    using Suc.prems(2) [of n s] Suc.prems(1) by auto
  have "\<exists>s'. down_loop n f s1 = Some s' \<and> P 0 s'"
    by (rule Suc.IH [OF s1(2)]) (use Suc.prems(2) in auto)
  then show ?case using s1(1) by simp
qed

text \<open>The unsigned subtraction \<open>a - b\<close> on \<open>unsigned long\<close> read as a number.\<close>

definition usub32 :: "nat \<Rightarrow> nat \<Rightarrow> nat" where
  "usub32 a b = (a + 2 ^ 32 - b) mod 2 ^ 32"

lemma usub32_le: "b \<le> a \<Longrightarrow> a < 2 ^ 32 \<Longrightarrow> usub32 a b = a - b"
  using mod_add_self2 [of "a - b" "2 ^ 32"] unfolding usub32_def
  by (metis Nat.add_diff_assoc2 less_imp_diff_less mod_less)

section \<open>Copying inside one memory\<close>

text \<open>\<open>for (i = 0; i < n; i++) m[q + i] = m[i];\<close> with disjoint source and target.\<close>

lemma copy_loop:
  assumes "n \<le> q" "q + n \<le> length m"
  shows "for_loop 0 n (\<lambda>i m. do { v \<leftarrow> rd m i; wr m (q + i) v }) m =
     Some (take q m @ take n m @ drop (q + n) m)"
proof -
  define P where "P j m' \<longleftrightarrow> m' = take q m @ take j m @ drop (q + j) m" for j m'
  have "\<exists>m'. for_loop 0 n (\<lambda>i m. do { v \<leftarrow> rd m i; wr m (q + i) v }) m = Some m' \<and> P (0 + n) m'"
  proof (rule for_loop_rule)
    show "P 0 m" by (simp add: P_def)
    fix j m' assume j: "0 \<le> j" "j < 0 + n" "P j m'"
    have m': "m' = take q m @ take j m @ drop (q + j) m" using j(3) by (simp add: P_def)
    have len: "length m' = length m" using m' assms j by simp
    have rdj: "rd m' j = Some (m ! j)" using m' assms j len by (simp add: rd_def nth_append)
    have dr: "drop (q + j) m = m ! (q + j) # drop (Suc (q + j)) m"
      by (rule Cons_nth_drop_Suc [symmetric]) (use assms j in simp)
    have "m'[q + j := m ! j] = take q m @ (take j m @ [m ! j]) @ drop (Suc (q + j)) m"
      using m' dr assms j by (simp add: list_update_append)
    then have "P (Suc j) (m'[q + j := m ! j])"
      using assms j by (simp add: P_def take_Suc_conv_app_nth)
    then show "\<exists>s'. do { v \<leftarrow> rd m' j; wr m' (q + j) v } = Some s' \<and> P (Suc j) s'"
      using rdj len assms j by (simp add: mem_simps)
  qed
  then show ?thesis by (simp add: P_def)
qed

end
