(* ===== verification/Misc_Rand.thy ===== *)
theory Misc_Rand
  imports NB_Prelude
begin

text \<open>
  The pseudo-random generator of \<open>misc.c\<close>: the static array \<open>randw\<close> is the state record
  \<open>rng\<close>, passed and returned by each call.  Signed multiplication and addition wrap at
  32 bits, as the targets compute them (C leaves the overflow undefined, see
  \<open>randnum_overflows\<close>).
\<close>

record rng =
  randw0 :: int32
  randw1 :: int32

definition rng_init :: rng where
  "rng_init = \<lparr>randw0 = 13, randw1 = 117\<rparr>"

definition randnum :: "int32 \<Rightarrow> rng \<Rightarrow> (int32 \<times> rng) option" where
  "randnum lngval s =
     (let s = (if lngval \<noteq> 0 then s\<lparr>randw0 := 13, randw1 := 117\<rparr> else s) in
      do {
        interm \<leftarrow> smod32 (randw0 s * 254754 + randw1 s * 529562) 999563;
        Some (interm, s\<lparr>randw1 := randw0 s, randw0 := interm\<rparr>)
      })"

definition randwc :: "int32 \<Rightarrow> rng \<Rightarrow> (int32 \<times> rng) option" where
  "randwc num s =
     do {
       (v, s) \<leftarrow> randnum 0 s;
       r \<leftarrow> smod32 v num;
       Some (r, s)
     }"

definition abs_randwc :: "u32 \<Rightarrow> rng \<Rightarrow> (u32 \<times> rng) option" where
  "abs_randwc num s =
     do {
       (temp, s) \<leftarrow> randwc num s;
       let temp = (if sint temp < 0 then 0 - temp else temp);
       Some (temp, s)
     }"

section \<open>Ranges\<close>

definition rng_ok :: "rng \<Rightarrow> bool" where
  "rng_ok s \<longleftrightarrow> \<bar>sint (randw0 s)\<bar> < 999563 \<and> \<bar>sint (randw1 s)\<bar> < 999563"

lemma rng_ok_init: "rng_ok rng_init"
  by (simp add: rng_ok_def rng_init_def)

lemma randnum_Some:
  "\<exists>v s'. randnum x s = Some (v, s') \<and> \<bar>sint v\<bar> < 999563 \<and> randw0 s' = v \<and>
     randw1 s' = (if x \<noteq> 0 then 13 else randw0 s)"
proof -
  define t where "t = (if x \<noteq> 0 then s\<lparr>randw0 := 13, randw1 := 117\<rparr> else s)"
  have "0 < sint (999563 :: int32)" by simp
  from smod32_Some [OF this, of "randw0 t * 254754 + randw1 t * 529562"]
  obtain r where "smod32 (randw0 t * 254754 + randw1 t * 529562) 999563 = Some r"
    "\<bar>sint r\<bar> < 999563"
    by auto
  then show ?thesis by (auto simp: randnum_def Let_def t_def split: if_splits)
qed

lemma randnum_ok: "rng_ok s \<Longrightarrow> randnum x s = Some (v, s') \<Longrightarrow> rng_ok s'"
  using randnum_Some [of x s] by (auto simp: rng_ok_def)

lemma randwc_Some:
  assumes "0 < sint num"
  shows "\<exists>r s'. randwc num s = Some (r, s') \<and> \<bar>sint r\<bar> < sint num"
proof -
  obtain v s' where v: "randnum 0 s = Some (v, s')" using randnum_Some by blast
  from smod32_Some [OF assms, of v] obtain r where "smod32 v num = Some r" "\<bar>sint r\<bar> < sint num"
    by auto
  then show ?thesis by (simp add: randwc_def v)
qed

lemma abs_randwc_Some:
  assumes "0 < sint num"
  shows "\<exists>r s'. abs_randwc num s = Some (r, s') \<and> unat r < unat num"
proof -
  obtain t s' where t: "randwc num s = Some (t, s')" "\<bar>sint t\<bar> < sint num"
    using randwc_Some [OF assms] by blast
  have num: "int (unat num) = sint num" by (rule unat_nonneg_sint) (use assms in simp)
  have nb: "sint num < 2 ^ 31" by (rule sint_range32)
  define r where "r = (if sint t < 0 then 0 - t else t)"
  have "sint r = \<bar>sint t\<bar>"
    using t(2) nb by (auto simp: r_def sint_minus32)
  then have "int (unat r) = \<bar>sint t\<bar>" using unat_nonneg_sint [of r] by simp
  then have "unat r < unat num" using t(2) num by linarith
  moreover have "abs_randwc num s = Some (r, s')"
    by (simp add: abs_randwc_def t(1) r_def)
  ultimately show ?thesis by blast
qed

lemma randnum_reset: "x \<noteq> 0 \<Longrightarrow> randnum x s = randnum x s0"
  by (cases s; cases s0) (simp add: randnum_def)

section \<open>The interface the benchmarks use\<close>

text \<open>A source of numbers below a given bound, as \<open>abs_randwc\<close> promises.\<close>

locale bounded_random =
  fixes draw :: "u32 \<Rightarrow> 's \<Rightarrow> (u32 \<times> 's) option"
  assumes draw_below: "0 < sint num \<Longrightarrow> \<exists>r s'. draw num s = Some (r, s') \<and> unat r < unat num"
begin

text \<open>An offset below \<open>num\<close> and a length below \<open>num - offset\<close>: the run ends below \<open>num\<close>.\<close>

lemma draw_run:
  assumes "0 < sint num"
  shows "\<exists>off s1 len s2. draw num s = Some (off, s1) \<and> draw (num - off) s1 = Some (len, s2) \<and>
     unat off + unat len < unat num"
proof -
  obtain off s1 where off: "draw num s = Some (off, s1)" "unat off < unat num"
    using draw_below [OF assms] by blast
  have n31: "int (unat num) = sint num" by (rule unat_nonneg_sint) (use assms in simp)
  have "off \<le> num" using off(2) by (simp add: word_le_nat_alt)
  then have sub: "unat (num - off) = unat num - unat off" by (simp add: unat_sub_if' word_le_nat_alt)
  have "sint (num - off) = int (unat num - unat off)"
  proof -
    have "num - off = word_of_int (int (unat num - unat off))"
      using sub by (metis of_nat_unat word_of_int_uint uint_nat)
    then show ?thesis
      using n31 sint_range32 [of num] by (simp only:) (rule sint_word_of_int_small; linarith)
  qed
  then have "0 < sint (num - off)" using off(2) by (simp only: of_nat_0_less_iff zero_less_diff)
  then obtain len s2 where "draw (num - off) s1 = Some (len, s2)" "unat len < unat (num - off)"
    using draw_below by blast
  then show ?thesis using off sub by (intro exI) auto
qed

end

interpretation nbrand: bounded_random abs_randwc
  by unfold_locales (rule abs_randwc_Some)

text \<open>
  For a modulus that is positive as a signed number, abs_randwc always returns, and its
  result is below the modulus.
\<close>

theorem abs_randwc_range:
  assumes "0 < sint num"
  shows "\<exists>r s'. abs_randwc num s = Some (r, s') \<and> unat r < unat num"
  by (rule nbrand.draw_below [OF assms])

theorem abs_randwc_range_witness:
  "\<exists>r s'. abs_randwc 76 rng_init = Some (r, s') \<and> unat r < 76"
  using abs_randwc_range [of 76 rng_init] by simp

text \<open>
  From a state whose two words are below the modulus 999563 in absolute value, randnum
  returns a number in that range and a state of the same kind, whatever the seed argument.
\<close>

theorem randnum_total_ok:
  assumes "rng_ok s"
  shows "\<exists>v s'. randnum x s = Some (v, s') \<and> rng_ok s' \<and> \<bar>sint v\<bar> < 999563"
  using randnum_Some [of x s] randnum_ok [OF assms, of x] by blast

theorem randnum_total_ok_witness:
  "\<exists>v s'. randnum 13 rng_init = Some (v, s') \<and> rng_ok s' \<and> \<bar>sint v\<bar> < 999563"
  using randnum_total_ok [OF rng_ok_init, of 13] by simp

text \<open>
  The exact signed product sum of one step, before it is reduced.  C leaves the overflow of
  a 32-bit \<open>long\<close> undefined.
\<close>

definition randnum_exact :: "rng \<Rightarrow> int" where
  "randnum_exact s = sint (randw0 s) * 254754 + sint (randw1 s) * 529562"

text \<open>
  The second draw after seeding computes a sum above the largest signed 32-bit number, so the
  result is that of the wrapped sum and differs from the exact recurrence modulo 999563.
\<close>

theorem randnum_overflows:
  "\<exists>v1 s1 v2 s2. randnum 13 rng_init = Some (v1, s1) \<and> randnum_exact s1 > 2 ^ 31 \<and>
     randnum 0 s1 = Some (v2, s2) \<and> sint v2 \<noteq> randnum_exact s1 mod 999563"
  by (simp add: randnum_def rng_init_def Let_def smod32_def randnum_exact_def)

end
