(* ===== verification/Sysspec.thy ===== *)
theory Sysspec
  imports NB_Prelude
begin

text \<open>
  Memory and timing services of \<open>sysspec.c\<close>, in the configuration the repository builds
  (\<open>MALLOCMEM\<close>, \<open>LINUX\<close>, \<open>CLOCKWCPS\<close>).

  \<open>mem_true\<close>/\<open>mem_adj\<close> are the rows \<open>mem_array[0]\<close>/\<open>mem_array[1]\<close>; \<open>heap\<close> lists the blocks
  obtained from \<open>malloc\<close> and not yet freed, \<open>clock_calls\<close> counts the readings of
  \<open>clock()\<close>.  The C library's \<open>malloc\<close> is an argument of the model: the address it
  returns for a size, given the live blocks.  \<open>clock\<close> is the sequence of its readings.
\<close>

type_synonym malloc_fn = "u32 \<Rightarrow> u32 list \<Rightarrow> u32"
type_synonym clock_fn = "nat \<Rightarrow> u32"

record sys =
  mem_true :: "u32 list"
  mem_adj :: "u32 list"
  mem_array_ents :: nat
  global_align :: u32
  heap :: "u32 list"
  clock_calls :: nat

abbreviation (input) MEM_ARRAY_SIZE :: nat where "MEM_ARRAY_SIZE \<equiv> 20"

abbreviation (input) ERROR_MEMORY :: nat where "ERROR_MEMORY \<equiv> 1"
abbreviation (input) ERROR_MEMARRAY_FULL :: nat where "ERROR_MEMARRAY_FULL \<equiv> 2"
abbreviation (input) ERROR_MEMARRAY_NFOUND :: nat where "ERROR_MEMARRAY_NFOUND \<equiv> 3"

section \<open>The table of aligned blocks\<close>

definition InitMemArray :: "sys \<Rightarrow> sys" where
  "InitMemArray s = s\<lparr>mem_array_ents := 0\<rparr>"

text \<open>The Boolean is the C return value 0 (success) or -1.\<close>

definition AddMemArray :: "u32 \<Rightarrow> u32 \<Rightarrow> sys \<Rightarrow> (bool \<times> sys) option" where
  "AddMemArray true_addr adj_addr s =
     (if mem_array_ents s \<ge> MEM_ARRAY_SIZE then Some (False, s)
      else do {
        t \<leftarrow> wr (mem_true s) (mem_array_ents s) true_addr;
        a \<leftarrow> wr (mem_adj s) (mem_array_ents s) adj_addr;
        Some (True, s\<lparr>mem_true := t, mem_adj := a, mem_array_ents := mem_array_ents s + 1\<rparr>)
      })"

text \<open>The search loop: the first index below \<open>n\<close> that holds the address.\<close>

fun find_adj :: "u32 list \<Rightarrow> u32 \<Rightarrow> nat \<Rightarrow> nat \<Rightarrow> nat option option" where
  "find_adj xs x i 0 = Some None"
| "find_adj xs x i (Suc n) =
     do {
       y \<leftarrow> rd xs i;
       if y = x then Some (Some i) else find_adj xs x (Suc i) n
     }"

definition shift_down :: "nat \<Rightarrow> u32 list \<times> u32 list \<Rightarrow> (u32 list \<times> u32 list) option" where
  "shift_down j p =
     do {
       t1 \<leftarrow> rd (fst p) (j + 1);
       t \<leftarrow> wr (fst p) j t1;
       a1 \<leftarrow> rd (snd p) (j + 1);
       a \<leftarrow> wr (snd p) j a1;
       Some (t, a)
     }"

definition RemoveMemArray :: "u32 \<Rightarrow> sys \<Rightarrow> (u32 option \<times> sys) option" where
  "RemoveMemArray adj_addr s =
     do {
       r \<leftarrow> find_adj (mem_adj s) adj_addr 0 (mem_array_ents s);
       case r of
         None \<Rightarrow> Some (None, s)
       | Some i \<Rightarrow>
           do {
             true_addr \<leftarrow> rd (mem_true s) i;
             (t, a) \<leftarrow> for_range i (mem_array_ents s - 1) shift_down (mem_true s, mem_adj s);
             Some (Some true_addr,
                   s\<lparr>mem_true := t, mem_adj := a, mem_array_ents := mem_array_ents s - 1\<rparr>)
           }
     }"

section \<open>Allocation\<close>

text \<open>\<open>while (adj_addr % global_align != 0) ++adj_addr;\<close> with unsigned wrap-around.\<close>

function align_up :: "u32 \<Rightarrow> u32 \<Rightarrow> u32" where
  "align_up al adj = (if adj mod al = 0 then adj else align_up al (adj + 1))"
  by pat_completeness auto
termination
proof (relation "measure (\<lambda>(al, adj). unat (- adj))")
  fix al adj :: u32
  assume nz: "adj mod al \<noteq> 0"
  then have "adj \<noteq> 0" by auto
  then have "unat (1 + - (adj + 1)) = Suc (unat (- (adj + 1)))"
    by (intro unatSuc) simp
  then have "unat (- (adj + 1)) < unat (- adj)" by simp
  then show "((al, adj + 1), al, adj) \<in> measure (\<lambda>(al, adj). unat (- adj))" by simp
qed simp

declare align_up.simps [simp del]

definition adjust_addr :: "u32 \<Rightarrow> u32 \<Rightarrow> u32 option" where
  "adjust_addr al true_addr =
     (if al = 1 then Some (if true_addr mod 2 = 0 then true_addr + 1 else true_addr)
      else let adj = align_up al true_addr in
        if al * 2 = 0 then None
        else Some (if adj mod (al * 2) = 0 then adj + al else adj))"

text \<open>The result: the returned pointer and the error code.\<close>

definition AllocateMemory :: "malloc_fn \<Rightarrow> u32 \<Rightarrow> sys \<Rightarrow> (u32 \<times> nat \<times> sys) option" where
  "AllocateMemory malloc nbytes s =
     (let true_addr = malloc (nbytes + 2 * global_align s) (heap s);
          err = (if true_addr = 0 then ERROR_MEMORY else 0);
          s = (if true_addr = 0 then s else s\<lparr>heap := true_addr # heap s\<rparr>) in
      do {
        adj_addr \<leftarrow> (if global_align s = 0 then Some true_addr
                     else adjust_addr (global_align s) true_addr);
        (ok, s) \<leftarrow> AddMemArray true_addr adj_addr s;
        Some (adj_addr, if ok then err else ERROR_MEMARRAY_FULL, s)
      })"

definition free :: "u32 \<Rightarrow> sys \<Rightarrow> sys option" where
  "free p s = (if p = 0 then Some s
               else if p \<in> set (heap s) then Some (s\<lparr>heap := remove1 p (heap s)\<rparr>) else None)"

definition FreeMemory :: "u32 \<Rightarrow> sys \<Rightarrow> (nat \<times> sys) option" where
  "FreeMemory mempointer s =
     do {
       (r, s) \<leftarrow> RemoveMemArray mempointer s;
       case r of
         None \<Rightarrow> Some (ERROR_MEMARRAY_NFOUND, s)
       | Some true_addr \<Rightarrow> do { s \<leftarrow> free true_addr s; Some (0, s) }
     }"

section \<open>Timing\<close>

definition StartStopwatch :: "clock_fn \<Rightarrow> sys \<Rightarrow> u32 \<times> sys" where
  "StartStopwatch clk s = (clk (clock_calls s), s\<lparr>clock_calls := clock_calls s + 1\<rparr>)"

definition StopStopwatch :: "clock_fn \<Rightarrow> u32 \<Rightarrow> sys \<Rightarrow> u32 \<times> sys" where
  "StopStopwatch clk startticks s =
     (clk (clock_calls s) - startticks, s\<lparr>clock_calls := clock_calls s + 1\<rparr>)"

definition TicksToSecs :: "u32 \<Rightarrow> u32" where
  "TicksToSecs tickamount = tickamount div 10000"

text \<open>\<open>TicksToFracSecs\<close> returns a double; its exact value is this pair (numerator, denominator).\<close>

definition TicksToFracSecs :: "u32 \<Rightarrow> nat \<times> nat" where
  "TicksToFracSecs tickamount = (unat tickamount, 1000)"

section \<open>The table as an association list\<close>

text \<open>
  What the table promises: a list of pairs (true address, aligned address), extended at
  its end, from which the first pair with a given aligned address is removed.
\<close>

definition table_wf :: "sys \<Rightarrow> bool" where
  "table_wf s \<longleftrightarrow> length (mem_true s) = MEM_ARRAY_SIZE \<and> length (mem_adj s) = MEM_ARRAY_SIZE \<and>
     mem_array_ents s \<le> MEM_ARRAY_SIZE"

definition table :: "sys \<Rightarrow> (u32 \<times> u32) list" where
  "table s = take (mem_array_ents s) (zip (mem_true s) (mem_adj s))"

fun remove_adj :: "u32 \<Rightarrow> (u32 \<times> u32) list \<Rightarrow> (u32 option \<times> (u32 \<times> u32) list)" where
  "remove_adj x [] = (None, [])"
| "remove_adj x ((t, a) # ps) =
     (if a = x then (Some t, ps) else (let (r, qs) = remove_adj x ps in (r, (t, a) # qs)))"


lemma remove_adj_first:
  "i < length ps \<Longrightarrow> snd (ps ! i) = x \<Longrightarrow> \<forall>m < i. snd (ps ! m) \<noteq> x \<Longrightarrow>
   remove_adj x ps = (Some (fst (ps ! i)), take i ps @ drop (Suc i) ps)"
proof (induction x ps arbitrary: i rule: remove_adj.induct)
  case (2 x t a ps)
  show ?case
  proof (cases i)
    case 0
    then show ?thesis using "2.prems" by simp
  next
    case (Suc k)
    have "a \<noteq> x" using "2.prems"(3) Suc by auto
    moreover have "\<forall>m<k. snd (ps ! m) \<noteq> x" using "2.prems"(3) Suc by auto
    ultimately show ?thesis using "2.IH" [of k] "2.prems" Suc by simp
  qed
qed simp

lemma remove_adj_none: "\<forall>p \<in> set ps. snd p \<noteq> x \<Longrightarrow> remove_adj x ps = (None, ps)"
  by (induction x ps rule: remove_adj.induct) auto

lemma find_adj_spec:
  "i + n \<le> length xs \<Longrightarrow> \<exists>r. find_adj xs x i n = Some r \<and>
     (case r of None \<Rightarrow> \<forall>m \<in> {i..<i + n}. xs ! m \<noteq> x
      | Some k \<Rightarrow> k \<in> {i..<i + n} \<and> xs ! k = x \<and> (\<forall>m \<in> {i..<k}. xs ! m \<noteq> x))"
proof (induction n arbitrary: i)
  case 0
  then show ?case by simp
next
  case (Suc n)
  show ?case
  proof (cases "xs ! i = x")
    case True
    then show ?thesis using Suc.prems by (simp add: mem_simps)
  next
    case False
    obtain r where r: "find_adj xs x (Suc i) n = Some r"
      "case r of None \<Rightarrow> \<forall>m \<in> {Suc i..<Suc i + n}. xs ! m \<noteq> x
       | Some k \<Rightarrow> k \<in> {Suc i..<Suc i + n} \<and> xs ! k = x \<and> (\<forall>m \<in> {Suc i..<k}. xs ! m \<noteq> x)"
      using Suc.IH [of "Suc i"] Suc.prems by auto
    have "find_adj xs x i (Suc n) = Some r" using r(1) False Suc.prems by (simp add: mem_simps)
    moreover have "{i..<i + Suc n} = insert i {Suc i..<Suc i + n}"
      "\<And>k. i < k \<Longrightarrow> {i..<k} = insert i {Suc i..<k}" by auto
    ultimately show ?thesis using r(2) False by (cases r) auto
  qed
qed

lemma table_nth:
  "table_wf s \<Longrightarrow> i < mem_array_ents s \<Longrightarrow> table s ! i = (mem_true s ! i, mem_adj s ! i)"
  by (simp add: table_wf_def table_def)

lemma length_table: "table_wf s \<Longrightarrow> length (table s) = mem_array_ents s"
  by (simp add: table_wf_def table_def)

lemma zip_update: "zip (xs[i := x]) (ys[i := y]) = (zip xs ys)[i := (x, y)]"
  by (simp add: update_zip)

lemma AddMemArray_table:
  assumes "table_wf s" "mem_array_ents s < MEM_ARRAY_SIZE"
  shows "\<exists>s'. AddMemArray t a s = Some (True, s') \<and> table_wf s' \<and> table s' = table s @ [(t, a)] \<and>
           heap s' = heap s \<and> global_align s' = global_align s"
  using assms
  by (simp add: AddMemArray_def table_wf_def table_def mem_simps take_Suc_conv_app_nth)
    (simp add: zip_update)

lemma AddMemArray_full:
  "MEM_ARRAY_SIZE \<le> mem_array_ents s \<Longrightarrow> AddMemArray t a s = Some (False, s)"
  by (simp add: AddMemArray_def)

lemma shift_down_loop:
  assumes "i + n < length t" "length a = length t"
  shows "\<exists>t' a'. for_loop i n shift_down (t, a) = Some (t', a') \<and> length t' = length t \<and>
     length a' = length t \<and>
     (\<forall>m < length t. t' ! m = t ! (if i \<le> m \<and> m < i + n then Suc m else m) \<and>
        a' ! m = a ! (if i \<le> m \<and> m < i + n then Suc m else m))"
proof -
  define P where "P j p \<longleftrightarrow> length (fst p) = length t \<and> length (snd p) = length t \<and>
    (\<forall>m < length t. fst p ! m = t ! (if i \<le> m \<and> m < j then Suc m else m) \<and>
       snd p ! m = a ! (if i \<le> m \<and> m < j then Suc m else m))" for j and p :: "u32 list \<times> u32 list"
  have "\<exists>s'. for_loop i n shift_down (t, a) = Some s' \<and> P (i + n) s'"
  proof (rule for_loop_rule)
    show "P i (t, a)" using assms by (auto simp: P_def)
    fix j s assume j: "i \<le> j" "j < i + n" "P j s"
    obtain u v where s: "s = (u, v)" by (cases s)
    have len: "length u = length t" "length v = length t" using j(3) by (auto simp: P_def s)
    have "u ! Suc j = t ! Suc j" "v ! Suc j = a ! Suc j"
      using j assms by (auto simp: P_def s)
    then have "shift_down j s = Some (u[j := t ! Suc j], v[j := a ! Suc j])"
      using len j assms by (simp add: shift_down_def s mem_simps)
    moreover have "P (Suc j) (u[j := t ! Suc j], v[j := a ! Suc j])"
      using j len assms by (auto simp: P_def s nth_list_update less_Suc_eq)
    ultimately show "\<exists>s'. shift_down j s = Some s' \<and> P (Suc j) s'" by blast
  qed
  then show ?thesis by (fastforce simp: P_def)
qed

lemma RemoveMemArray_table:
  assumes wf: "table_wf s"
  shows "\<exists>s'. RemoveMemArray x s = Some (fst (remove_adj x (table s)), s') \<and> table_wf s' \<and>
           table s' = snd (remove_adj x (table s)) \<and> heap s' = heap s \<and>
           global_align s' = global_align s"
proof -
  let ?n = "mem_array_ents s"
  have len: "length (mem_true s) = 20" "length (mem_adj s) = 20" "?n \<le> 20"
    using wf by (auto simp: table_wf_def)
  have "0 + ?n \<le> length (mem_adj s)" using len by simp
  from find_adj_spec [OF this, of x] obtain r where r: "find_adj (mem_adj s) x 0 ?n = Some r"
    "case r of None \<Rightarrow> \<forall>m \<in> {0..<0 + ?n}. mem_adj s ! m \<noteq> x
     | Some k \<Rightarrow> k \<in> {0..<0 + ?n} \<and> mem_adj s ! k = x \<and> (\<forall>m \<in> {0..<k}. mem_adj s ! m \<noteq> x)"
    by blast
  show ?thesis
  proof (cases r)
    case None
    have "\<forall>p \<in> set (table s). snd p \<noteq> x"
      using r(2) None wf by (auto simp: in_set_conv_nth table_nth length_table)
    then have "remove_adj x (table s) = (None, table s)" by (rule remove_adj_none)
    then show ?thesis using r(1) None wf by (simp add: RemoveMemArray_def)
  next
    case (Some k)
    then have k: "k < ?n" "mem_adj s ! k = x" "\<forall>m < k. mem_adj s ! m \<noteq> x" using r(2) by auto
    have rem: "remove_adj x (table s) = (Some (mem_true s ! k), take k (table s) @ drop (Suc k) (table s))"
      using remove_adj_first [of k "table s" x] k wf by (simp add: table_nth length_table)
    have "k + (?n - 1 - k) < length (mem_true s)" using k len by simp
    from shift_down_loop [OF this, of "mem_adj s"] len obtain t' a' where
      l: "for_loop k (?n - 1 - k) shift_down (mem_true s, mem_adj s) = Some (t', a')"
      "length t' = 20" "length a' = 20"
      "\<forall>m < 20. t' ! m = mem_true s ! (if k \<le> m \<and> m < ?n - 1 then Suc m else m) \<and>
         a' ! m = mem_adj s ! (if k \<le> m \<and> m < ?n - 1 then Suc m else m)"
      using k by auto
    define s' where "s' = s\<lparr>mem_true := t', mem_adj := a', mem_array_ents := ?n - 1\<rparr>"
    have wf': "table_wf s'" using l len by (simp add: s'_def table_wf_def)
    have "table s' = take k (table s) @ drop (Suc k) (table s)"
    proof (rule nth_equalityI)
      show "length (table s') = length (take k (table s) @ drop (Suc k) (table s))"
        using k by (simp add: length_table [OF wf] length_table [OF wf']) (simp add: s'_def)
      fix m assume "m < length (table s')"
      then have m: "m < ?n - 1" using length_table [OF wf'] by (simp add: s'_def)
      have "table s' ! m = (t' ! m, a' ! m)"
        using table_nth [OF wf', of m] m by (simp add: s'_def)
      then show "table s' ! m = (take k (table s) @ drop (Suc k) (table s)) ! m"
        using m k l(4) len by (auto simp: nth_append length_table [OF wf] table_nth [OF wf] min_def)
    qed
    then have "RemoveMemArray x s = Some (Some (mem_true s ! k), s') \<and> table_wf s' \<and>
        table s' = take k (table s) @ drop (Suc k) (table s)"
      using r(1) Some k len l(1) wf' by (simp add: RemoveMemArray_def mem_simps s'_def)
    then show ?thesis by (simp add: rem s'_def)
  qed
qed


section \<open>The table contract and its client\<close>

text \<open>
  What \<open>AllocateMemory\<close> and \<open>FreeMemory\<close> need of the table: \<open>add\<close> appends while there is
  room, \<open>remove\<close> takes out the first pair with the address.
\<close>

locale block_table =
  fixes add :: "u32 \<Rightarrow> u32 \<Rightarrow> 's \<Rightarrow> (bool \<times> 's) option"
    and remove :: "u32 \<Rightarrow> 's \<Rightarrow> (u32 option \<times> 's) option"
    and tab :: "'s \<Rightarrow> (u32 \<times> u32) list"
    and wf :: "'s \<Rightarrow> bool"
    and cap :: nat
  assumes add_room: "wf s \<Longrightarrow> length (tab s) < cap \<Longrightarrow>
      \<exists>s'. add t a s = Some (True, s') \<and> wf s' \<and> tab s' = tab s @ [(t, a)]"
    and add_full: "wf s \<Longrightarrow> cap \<le> length (tab s) \<Longrightarrow> add t a s = Some (False, s)"
    and remove_spec: "wf s \<Longrightarrow> \<exists>s'. remove a s = Some (fst (remove_adj a (tab s)), s') \<and> wf s' \<and>
      tab s' = snd (remove_adj a (tab s))"
begin

lemma remove_appended:
  "a \<notin> snd ` set ps \<Longrightarrow> remove_adj a (ps @ [(t, a)]) = (Some t, ps)"
  by (induction a ps rule: remove_adj.induct) (auto simp: rev_image_eqI)

lemma add_remove:
  assumes "wf s" "length (tab s) < cap" "a \<notin> snd ` set (tab s)"
  shows "\<exists>s1 s2. add t a s = Some (True, s1) \<and> remove a s1 = Some (Some t, s2) \<and>
           wf s2 \<and> tab s2 = tab s"
proof -
  obtain s1 where s1: "add t a s = Some (True, s1)" "wf s1" "tab s1 = tab s @ [(t, a)]"
    using add_room [OF assms(1,2)] by blast
  then show ?thesis using remove_spec [OF s1(2), of a] remove_appended [OF assms(3), of t] by auto
qed

lemma add_full_remove:
  assumes "wf s" "cap \<le> length (tab s)" "a \<notin> snd ` set (tab s)"
  shows "\<exists>s2. add t a s = Some (False, s) \<and> remove a s = Some (None, s2) \<and> tab s2 = tab s"
proof -
  have "remove_adj a (tab s) = (None, tab s)"
    by (rule remove_adj_none) (use assms(3) in auto)
  then show ?thesis using add_full [OF assms(1,2)] remove_spec [OF assms(1), of a] by auto
qed

end

interpretation memtab: block_table AddMemArray RemoveMemArray table table_wf MEM_ARRAY_SIZE
proof
  fix s t a
  assume "table_wf s" "length (table s) < MEM_ARRAY_SIZE"
  then show "\<exists>s'. AddMemArray t a s = Some (True, s') \<and> table_wf s' \<and> table s' = table s @ [(t, a)]"
    using AddMemArray_table [of s t a] by (auto simp: length_table)
next
  fix s t a
  assume "table_wf s" "MEM_ARRAY_SIZE \<le> length (table s)"
  then show "AddMemArray t a s = Some (False, s)" by (simp add: AddMemArray_full length_table)
next
  fix s a
  assume "table_wf s"
  then show "\<exists>s'. RemoveMemArray a s = Some (fst (remove_adj a (table s)), s') \<and> table_wf s' \<and>
      table s' = snd (remove_adj a (table s))"
    using RemoveMemArray_table [of s a] by auto
qed

text \<open>The table operations touch neither the heap nor the alignment.\<close>

lemma AddMemArray_frame:
  "AddMemArray t a s = Some (b, s') \<Longrightarrow> heap s' = heap s \<and> global_align s' = global_align s"
  by (auto simp: AddMemArray_def bind_eq_Some_conv split: if_splits)

lemma RemoveMemArray_frame:
  "RemoveMemArray a s = Some (r, s') \<Longrightarrow> heap s' = heap s \<and> global_align s' = global_align s"
  by (auto simp: RemoveMemArray_def bind_eq_Some_conv split: option.splits)

section \<open>Alignment\<close>

lemma align_up_steps:
  "unat a + d < 2 ^ 32 \<Longrightarrow> unat al dvd unat a + d \<Longrightarrow> \<forall>e < d. \<not> unat al dvd unat a + e \<Longrightarrow>
   unat (align_up al a) = unat a + d"
proof (induction d arbitrary: a)
  case 0
  then have "a mod al = 0" by (simp add: unat_arith_simps(3) unat_mod)
  then show ?case by (subst align_up.simps) simp
next
  case (Suc d)
  have "\<not> unat al dvd unat a" using Suc.prems(3) by (metis add_0_right zero_less_Suc)
  then have nz: "a mod al \<noteq> 0" by (simp add: unat_arith_simps(3) unat_mod dvd_eq_mod_eq_0)
  have "unat (a + 1) = Suc (unat a)" using Suc.prems(1) by (simp add: unat_word_ariths)
  then have "unat (align_up al (a + 1)) = unat (a + 1) + d"
    using Suc.prems by (intro Suc.IH) (auto dest: spec [of _ "Suc _"])
  then show ?case using nz \<open>unat (a + 1) = Suc (unat a)\<close> by (subst align_up.simps) simp
qed

lemma align_up_spec:
  assumes "0 < unat al" "unat a + unat al \<le> 2 ^ 32"
  shows "unat a \<le> unat (align_up al a) \<and> unat (align_up al a) < unat a + unat al \<and>
     unat al dvd unat (align_up al a)"
proof -
  define d where "d = (LEAST d. unat al dvd unat a + d)"
  have ex: "unat al dvd unat a + (unat al - unat a mod unat al)"
  proof -
    have "unat a + (unat al - unat a mod unat al) = (unat a div unat al + 1) * unat al"
      using div_mult_mod_eq [of "unat a" "unat al"] mod_less_divisor [OF assms(1), of "unat a"]
      by (simp only: distrib_right mult_1)
    then show ?thesis by (metis dvd_triv_right)
  qed
  have d: "unat al dvd unat a + d" unfolding d_def by (rule LeastI [where P = "\<lambda>d. unat al dvd unat a + d", OF ex])
  have least: "\<forall>e < d. \<not> unat al dvd unat a + e" unfolding d_def using not_less_Least by blast
  have "d < unat al"
  proof (rule ccontr)
    assume "\<not> d < unat al"
    then have "unat al dvd unat a + (d - unat al)"
      using d by (metis add.assoc add.commute dvd_add_triv_right_iff le_add_diff_inverse2 not_less)
    then show False using least \<open>\<not> d < unat al\<close> assms(1) by (meson diff_less leD less_le_trans not_less)
  qed
  then show ?thesis using align_up_steps [OF _ d least] assms d by simp
qed


text \<open>The returned address is aligned to \<open>al\<close> and not to \<open>2 al\<close>, within the slack.\<close>

lemma adjust_addr_spec:
  assumes al: "1 < unat al" and room: "unat a + 2 * unat al \<le> 2 ^ 32" and al31: "unat al < 2 ^ 31"
  shows "\<exists>r. adjust_addr al a = Some r \<and> unat a \<le> unat r \<and> unat r < unat a + 2 * unat al \<and>
     unat r mod unat al = 0 \<and> unat r mod (2 * unat al) \<noteq> 0"
proof -
  define b where "b = align_up al a"
  have b: "unat a \<le> unat b" "unat b < unat a + unat al" "unat al dvd unat b"
    using align_up_spec [of al a] al room by (auto simp: b_def)
  have al2: "unat (al * 2) = 2 * unat al" using al31 by (simp add: unat_word_ariths)
  then have ne: "al * 2 \<noteq> 0" using al by (metis mult_eq_0_iff not_one_less_zero unat_0 zero_neq_numeral)
  have "al \<noteq> 1" using al by auto
  then have adj: "adjust_addr al a = Some (if b mod (al * 2) = 0 then b + al else b)"
    using ne by (simp add: adjust_addr_def Let_def b_def)
  have cond: "b mod (al * 2) = 0 \<longleftrightarrow> 2 * unat al dvd unat b"
    using al2 by (simp add: word_unat_eq_iff unat_mod dvd_eq_mod_eq_0)
  show ?thesis
  proof (cases "2 * unat al dvd unat b")
    case True
    have sum: "unat (b + al) = unat b + unat al"
      using b room by (simp add: unat_word_ariths)
    have "\<not> 2 * unat al dvd unat al" using al by (auto dest: dvd_imp_le)
    then have "\<not> 2 * unat al dvd unat (b + al)"
      unfolding sum using True dvd_add_right_iff by blast
    then show ?thesis using True adj cond b sum by (simp add: dvd_eq_mod_eq_0)
  next
    case False
    then show ?thesis using adj cond b by (simp add: dvd_eq_mod_eq_0)
  qed
qed

section \<open>Allocating and freeing\<close>

lemma AllocateMemory_unfold:
  assumes "malloc (nbytes + 2 * global_align s) (heap s) = tr" "tr \<noteq> 0"
    and "1 < unat (global_align s)" "unat (global_align s) < 2 ^ 31"
    and "unat tr + 2 * unat (global_align s) \<le> 2 ^ 32"
  shows "\<exists>p. adjust_addr (global_align s) tr = Some p \<and> unat tr \<le> unat p \<and>
     unat p < unat tr + 2 * unat (global_align s) \<and>
     unat p mod unat (global_align s) = 0 \<and> unat p mod (2 * unat (global_align s)) \<noteq> 0 \<and>
     AllocateMemory malloc nbytes s =
       AddMemArray tr p (s\<lparr>heap := tr # heap s\<rparr>) \<bind>
         (\<lambda>(ok, s). Some (p, if ok then 0 else ERROR_MEMARRAY_FULL, s))"
proof -
  have "global_align s \<noteq> 0" using assms(3) by auto
  then show ?thesis
    using adjust_addr_spec [OF assms(3,5,4)] assms(1,2) by (auto simp: AllocateMemory_def Let_def)
qed

lemma table_wf_heap [simp]: "table_wf (s\<lparr>heap := h\<rparr>) = table_wf s"
  by (simp add: table_wf_def)

lemma table_heap [simp]: "table (s\<lparr>heap := h\<rparr>) = table s"
  by (simp add: table_def)

text \<open>
  For an alignment above one, AllocateMemory returns an address that is an odd multiple of
  the alignment and whose requested bytes lie inside the block malloc returned; the error code is
  0 exactly when the table had room.
\<close>

theorem allocate_aligned_in_block:
  assumes "table_wf s" and "1 < unat (global_align s)" "unat (global_align s) < 2 ^ 31"
    and "malloc (nbytes + 2 * global_align s) (heap s) = tr" "tr \<noteq> 0"
    and "unat tr + unat nbytes + 2 * unat (global_align s) \<le> 2 ^ 32"
  shows "\<exists>p err s'. AllocateMemory malloc nbytes s = Some (p, err, s') \<and>
     unat p mod unat (global_align s) = 0 \<and> unat p mod (2 * unat (global_align s)) \<noteq> 0 \<and>
     unat tr \<le> unat p \<and>
     unat p + unat nbytes \<le> unat tr + (unat nbytes + 2 * unat (global_align s)) \<and>
     (err = 0 \<longleftrightarrow> length (table s) < MEM_ARRAY_SIZE)"
proof -
  obtain p where p: "unat tr \<le> unat p" "unat p < unat tr + 2 * unat (global_align s)"
    "unat p mod unat (global_align s) = 0" "unat p mod (2 * unat (global_align s)) \<noteq> 0"
    and eq: "AllocateMemory malloc nbytes s = AddMemArray tr p (s\<lparr>heap := tr # heap s\<rparr>) \<bind>
         (\<lambda>(ok, s). Some (p, if ok then 0 else ERROR_MEMARRAY_FULL, s))"
    using AllocateMemory_unfold [of malloc nbytes s tr] assms by auto
  have "\<exists>s'. AddMemArray tr p (s\<lparr>heap := tr # heap s\<rparr>) = Some (length (table s) < MEM_ARRAY_SIZE, s')"
    using memtab.add_room [of "s\<lparr>heap := tr # heap s\<rparr>" tr p]
      memtab.add_full [of "s\<lparr>heap := tr # heap s\<rparr>" tr p] assms(1)
    by (cases "length (table s) < MEM_ARRAY_SIZE") auto
  then show ?thesis using eq p by auto
qed

definition sys0 :: sys where
  "sys0 = \<lparr>mem_true = replicate 20 0, mem_adj = replicate 20 0, mem_array_ents = 0,
     global_align = 8, heap = [], clock_calls = 0\<rparr>"

lemma sys0_simps [simp]: "table_wf sys0" "table sys0 = []" "heap sys0 = []" "global_align sys0 = 8"
  by (simp_all add: sys0_def table_wf_def table_def)

theorem allocate_aligned_in_block_witness:
  "\<exists>p err s'. AllocateMemory (\<lambda>_ _. 4096) 100 sys0 = Some (p, err, s') \<and>
     unat p mod 8 = 0 \<and> unat p mod 16 \<noteq> 0 \<and> err = 0"
  using allocate_aligned_in_block [of sys0 "\<lambda>_ _. 4096" 100 4096] by auto

text \<open>
  With room in the table, a block obtained from AllocateMemory and given back to FreeMemory
  by its adjusted address is freed by its true address: both calls report success, and the table
  and the set of live blocks are what they were.
\<close>

theorem allocate_free_roundtrip:
  assumes "table_wf s" and "length (table s) < MEM_ARRAY_SIZE"
    and "1 < unat (global_align s)" "unat (global_align s) < 2 ^ 31"
    and "malloc (nbytes + 2 * global_align s) (heap s) = tr" "tr \<noteq> 0"
    and "unat tr + 2 * unat (global_align s) \<le> 2 ^ 32"
    and "\<forall>a \<in> snd ` set (table s). unat a < unat tr \<or> unat tr + 2 * unat (global_align s) \<le> unat a"
  shows "\<exists>p s1 s2. AllocateMemory malloc nbytes s = Some (p, 0, s1) \<and> heap s1 = tr # heap s \<and>
     FreeMemory p s1 = Some (0, s2) \<and> heap s2 = heap s \<and> table s2 = table s \<and> table_wf s2"
proof -
  obtain p where p: "unat tr \<le> unat p" "unat p < unat tr + 2 * unat (global_align s)"
    and eq: "AllocateMemory malloc nbytes s = AddMemArray tr p (s\<lparr>heap := tr # heap s\<rparr>) \<bind>
         (\<lambda>(ok, s). Some (p, if ok then 0 else ERROR_MEMARRAY_FULL, s))"
    using AllocateMemory_unfold [of malloc nbytes s tr] assms by auto
  have "p \<notin> snd ` set (table s)" using p assms(8) by fastforce
  then obtain s1 s2 where st: "AddMemArray tr p (s\<lparr>heap := tr # heap s\<rparr>) = Some (True, s1)"
    "RemoveMemArray p s1 = Some (Some tr, s2)" "table_wf s2" "table s2 = table s"
    using memtab.add_remove [of "s\<lparr>heap := tr # heap s\<rparr>" p tr] assms(1,2) by auto
  have h: "heap s1 = tr # heap s" "heap s2 = tr # heap s"
    using AddMemArray_frame [OF st(1)] RemoveMemArray_frame [OF st(2)] by auto
  have "FreeMemory p s1 = Some (0, s2\<lparr>heap := heap s\<rparr>)"
    using st(2) h assms(6) by (simp add: FreeMemory_def free_def)
  then show ?thesis using eq st h by auto
qed

theorem allocate_free_roundtrip_witness:
  "\<exists>p s1 s2. AllocateMemory (\<lambda>_ _. 4096) 100 sys0 = Some (p, 0, s1) \<and> heap s1 = [4096] \<and>
     FreeMemory p s1 = Some (0, s2) \<and> heap s2 = []"
  using allocate_free_roundtrip [of sys0 "\<lambda>_ _. 4096" 100 4096] by auto

text \<open>
  With the table full, AllocateMemory reports ERROR_MEMARRAY_FULL but keeps the block it got
  from malloc; FreeMemory cannot find the address it returned, so the block is never freed.
\<close>

theorem allocate_full_leaks:
  assumes "table_wf s" and "length (table s) = MEM_ARRAY_SIZE"
    and "1 < unat (global_align s)" "unat (global_align s) < 2 ^ 31"
    and "malloc (nbytes + 2 * global_align s) (heap s) = tr" "tr \<noteq> 0"
    and "unat tr + 2 * unat (global_align s) \<le> 2 ^ 32"
    and "\<forall>a \<in> snd ` set (table s). unat a < unat tr \<or> unat tr + 2 * unat (global_align s) \<le> unat a"
  shows "\<exists>p s1 s2. AllocateMemory malloc nbytes s = Some (p, ERROR_MEMARRAY_FULL, s1) \<and>
     FreeMemory p s1 = Some (ERROR_MEMARRAY_NFOUND, s2) \<and> tr \<in> set (heap s2)"
proof -
  obtain p where p: "unat tr \<le> unat p" "unat p < unat tr + 2 * unat (global_align s)"
    and eq: "AllocateMemory malloc nbytes s = AddMemArray tr p (s\<lparr>heap := tr # heap s\<rparr>) \<bind>
         (\<lambda>(ok, s). Some (p, if ok then 0 else ERROR_MEMARRAY_FULL, s))"
    using AllocateMemory_unfold [of malloc nbytes s tr] assms by auto
  have "p \<notin> snd ` set (table s)" using p assms(8) by fastforce
  then obtain s2 where st: "AddMemArray tr p (s\<lparr>heap := tr # heap s\<rparr>) = Some (False, s\<lparr>heap := tr # heap s\<rparr>)"
    "RemoveMemArray p (s\<lparr>heap := tr # heap s\<rparr>) = Some (None, s2)"
    using memtab.add_full_remove [of "s\<lparr>heap := tr # heap s\<rparr>" p tr] assms(1,2) by auto
  then have "heap s2 = tr # heap s" using RemoveMemArray_frame [OF st(2)] by auto
  then show ?thesis using eq st by (auto simp: FreeMemory_def)
qed

theorem allocate_full_leaks_witness:
  "\<exists>p s1 s2. AllocateMemory (\<lambda>_ _. 4096) 100 (sys0\<lparr>mem_array_ents := 20\<rparr>) = Some (p, 2, s1) \<and>
     FreeMemory p s1 = Some (3, s2) \<and> 4096 \<in> set (heap s2)"
proof -
  have "table (sys0\<lparr>mem_array_ents := 20\<rparr>) = replicate 20 (0, 0)"
    by (simp add: table_def sys0_def zip_replicate)
  moreover have "table_wf (sys0\<lparr>mem_array_ents := 20\<rparr>)"
    by (simp add: table_wf_def sys0_def)
  ultimately show ?thesis
    using allocate_full_leaks [of "sys0\<lparr>mem_array_ents := 20\<rparr>" "\<lambda>_ _. 4096" 100 4096] by auto
qed

end
