(* ===== verification/Heap_Order.thy ===== *)
theory Heap_Order
  imports NB_Prelude "HOL-Library.Multiset"
begin

text \<open>
  The heap shape shared by \<open>NumSift\<close>/\<open>NumHeapSort\<close> and \<open>strsift\<close>/\<open>StrHeapSort\<close>.  The
  code numbers its heap from 0 but takes \<open>i + i\<close> and \<open>i + i + 1\<close> as the children of
  \<open>i\<close>: every \<open>k > 0\<close> has the parent \<open>k div 2\<close>, so 0 has the single child 1 and the
  nodes from 1 on form the usual binary heap.

  The locale \<open>sort_order\<close> is the contract between the sorts and their comparison: a
  strict weak order.  Its lemmas are the correctness of the pure sift \<open>gsift\<close>; both
  benchmarks interpret it with their own comparison.
\<close>

section \<open>The pure sift\<close>

definition larger_child :: "('a \<Rightarrow> 'a \<Rightarrow> bool) \<Rightarrow> 'a list \<Rightarrow> nat \<Rightarrow> nat \<Rightarrow> nat" where
  "larger_child lt a i j =
     (if i + i < j \<and> lt (a ! (i + i)) (a ! (i + i + 1)) then i + i + 1 else i + i)"

function gsift :: "('a \<Rightarrow> 'a \<Rightarrow> bool) \<Rightarrow> 'a list \<Rightarrow> nat \<Rightarrow> nat \<Rightarrow> 'a list" where
  "gsift lt a i j =
     (let k = larger_child lt a i j in
      if i + i \<le> j \<and> i < k \<and> lt (a ! i) (a ! k)
      then gsift lt (a[k := a ! i, i := a ! k]) k j else a)"
  by pat_completeness auto
termination
  by (relation "measure (\<lambda>(lt, a, i, j). Suc j - i)") (auto simp: larger_child_def split: if_splits)

declare gsift.simps [simp del]

lemma mset_swap2:
  "i < length a \<Longrightarrow> k < length a \<Longrightarrow> mset (a[k := a ! i, i := a ! k]) = mset a"
  using mset_swap [of i a k] by (cases "i = k") (simp_all add: list_update_swap)

lemma length_gsift [simp]: "length (gsift lt a i j) = length a"
proof (induction lt a i j rule: gsift.induct)
  case (1 lt a i j)
  then show ?case by (subst gsift.simps) (auto simp: Let_def)
qed

lemma mset_gsift: "j < length a \<Longrightarrow> mset (gsift lt a i j) = mset a"
proof (induction lt a i j rule: gsift.induct)
  case (1 lt a i j)
  let ?k = "larger_child lt a i j"
  show ?case
  proof (cases "i + i \<le> j \<and> i < ?k \<and> lt (a ! i) (a ! ?k)")
    case True
    then have "i < length a" "?k < length a"
      using "1.prems" by (auto simp: larger_child_def)
    then show ?thesis
      using True "1.IH" [OF refl True] "1.prems"
      by (subst gsift.simps) (simp add: Let_def mset_swap2)
  next
    case False
    then show ?thesis by (subst gsift.simps) (auto simp: Let_def)
  qed
qed

lemma gsift_outside: "j < m \<or> m < i \<Longrightarrow> gsift lt a i j ! m = a ! m"
proof (induction lt a i j rule: gsift.induct)
  case (1 lt a i j)
  let ?k = "larger_child lt a i j"
  show ?case
  proof (cases "i + i \<le> j \<and> i < ?k \<and> lt (a ! i) (a ! ?k)")
    case True
    then have "?k \<le> j" by (auto simp: larger_child_def)
    then have "m \<noteq> i" "m \<noteq> ?k" using "1.prems" True by auto
    then show ?thesis
      using True "1.IH" [OF refl True] "1.prems"
      by (subst gsift.simps) (auto simp: Let_def)
  next
    case False
    then show ?thesis by (subst gsift.simps) (auto simp: Let_def)
  qed
qed

lemma gsift_prefix: "j < length a \<Longrightarrow> m \<le> j \<Longrightarrow> \<exists>m' \<le> j. gsift lt a i j ! m = a ! m'"
proof (induction lt a i j arbitrary: m rule: gsift.induct)
  case (1 lt a i j)
  let ?k = "larger_child lt a i j"
  show ?case
  proof (cases "i + i \<le> j \<and> i < ?k \<and> lt (a ! i) (a ! ?k)")
    case True
    then have k: "?k \<le> j" by (auto simp: larger_child_def)
    obtain m' where m': "m' \<le> j"
      "gsift lt (a[?k := a ! i, i := a ! ?k]) ?k j ! m = a[?k := a ! i, i := a ! ?k] ! m'"
      using "1.IH" [OF refl True, of m] "1.prems" by auto
    have "\<exists>m'' \<le> j. a[?k := a ! i, i := a ! ?k] ! m' = a ! m''"
    proof -
      have "i \<le> j" "?k < length a" "i < length a" using True k "1.prems" by auto
      then have "a[?k := a ! i, i := a ! ?k] ! m' = a ! (if m' = i then ?k else if m' = ?k then i else m')"
        using m'(1) "1.prems"(1) by (simp add: nth_list_update)
      then show ?thesis using k \<open>i \<le> j\<close> m'(1) by (metis (full_types))
    qed
    then show ?thesis using True m' by (subst gsift.simps) (simp add: Let_def)
  next
    case False
    then show ?thesis using "1.prems" by (subst gsift.simps) (auto simp: Let_def)
  qed
qed

section \<open>The pure heap sort\<close>

fun gbuild :: "('a \<Rightarrow> 'a \<Rightarrow> bool) \<Rightarrow> nat \<Rightarrow> nat \<Rightarrow> 'a list \<Rightarrow> 'a list" where
  "gbuild lt tp 0 a = a"
| "gbuild lt tp (Suc i) a = gbuild lt tp i (gsift lt a (Suc i) tp)"

definition gexchange :: "('a \<Rightarrow> 'a \<Rightarrow> bool) \<Rightarrow> nat \<Rightarrow> 'a list \<Rightarrow> 'a list" where
  "gexchange lt i a = (let b = gsift lt a 0 i in b[0 := b ! i, i := b ! 0])"

fun gextract :: "('a \<Rightarrow> 'a \<Rightarrow> bool) \<Rightarrow> nat \<Rightarrow> 'a list \<Rightarrow> 'a list" where
  "gextract lt 0 a = a"
| "gextract lt (Suc i) a = gextract lt i (gexchange lt (Suc i) a)"

definition gheapsort :: "('a \<Rightarrow> 'a \<Rightarrow> bool) \<Rightarrow> nat \<Rightarrow> 'a list \<Rightarrow> 'a list" where
  "gheapsort lt tp a = gextract lt tp (gbuild lt tp (tp div 2) a)"

lemma length_gbuild [simp]: "length (gbuild lt tp n a) = length a"
  by (induction n arbitrary: a) auto

lemma length_gexchange [simp]: "length (gexchange lt i a) = length a"
  by (simp add: gexchange_def Let_def)

lemma length_gextract [simp]: "length (gextract lt n a) = length a"
  by (induction n arbitrary: a) auto

lemma mset_gbuild: "tp < length a \<Longrightarrow> mset (gbuild lt tp n a) = mset a"
  by (induction n arbitrary: a) (auto simp: mset_gsift)

lemma mset_gexchange: "i < length a \<Longrightarrow> mset (gexchange lt i a) = mset a"
  using mset_swap2 [of i "gsift lt a 0 i" 0] mset_gsift [of i a lt 0]
  by (cases "a = []") (simp_all add: gexchange_def Let_def)

lemma mset_gextract: "n < length a \<Longrightarrow> mset (gextract lt n a) = mset a"
  by (induction n arbitrary: a) (auto simp: mset_gexchange)

lemma gexchange_outside: "i < m \<Longrightarrow> gexchange lt i a ! m = a ! m"
  by (simp add: gexchange_def Let_def gsift_outside)

lemma gextract_outside: "n < m \<Longrightarrow> gextract lt n a ! m = a ! m"
  by (induction n arbitrary: a) (auto simp: gexchange_outside)

section \<open>The comparison contract\<close>

locale sort_order =
  fixes lt :: "'a \<Rightarrow> 'a \<Rightarrow> bool"
  assumes asym: "lt x y \<Longrightarrow> \<not> lt y x"
    and neg_trans: "\<not> lt y x \<Longrightarrow> \<not> lt z y \<Longrightarrow> \<not> lt z x"
begin

definition le :: "'a \<Rightarrow> 'a \<Rightarrow> bool" where
  "le x y \<longleftrightarrow> \<not> lt y x"

lemma irrefl [simp]: "\<not> lt x x"
  using asym by blast

lemma le_refl [simp]: "le x x"
  by (simp add: le_def)

lemma le_trans: "le x y \<Longrightarrow> le y z \<Longrightarrow> le x z"
  using neg_trans by (auto simp: le_def)

lemma lt_le: "lt x y \<Longrightarrow> le x y"
  using asym by (auto simp: le_def)

text \<open>Nodes \<open>k \<le> j\<close> whose parent is at least \<open>m\<close> are below their parent.\<close>

definition heap_from :: "nat \<Rightarrow> nat \<Rightarrow> 'a list \<Rightarrow> bool" where
  "heap_from m j a \<longleftrightarrow> (\<forall>k. 0 < k \<and> k \<le> j \<and> m \<le> k div 2 \<longrightarrow> le (a ! k) (a ! (k div 2)))"

text \<open>The same with one node \<open>i\<close> that may be too small.\<close>

definition heap_except :: "nat \<Rightarrow> nat \<Rightarrow> nat \<Rightarrow> 'a list \<Rightarrow> bool" where
  "heap_except m i j a \<longleftrightarrow>
     (\<forall>k. 0 < k \<and> k \<le> j \<and> m \<le> k div 2 \<longrightarrow>
        (k div 2 \<noteq> i \<longrightarrow> le (a ! k) (a ! (k div 2))) \<and>
        (k div 2 = i \<and> 0 < i \<and> m \<le> i div 2 \<longrightarrow> le (a ! k) (a ! (i div 2))))"

lemma heap_except_start: "heap_from (Suc i) j a \<Longrightarrow> heap_except i i j a"
  unfolding heap_from_def heap_except_def
  by (metis Suc_leI div_less_dividend le_neq_implies_less less_imp_le_nat not_less one_less_numeral_iff semiring_norm(76))

lemma heap_from_root:
  assumes "heap_from 0 j a" "k \<le> j"
  shows "le (a ! k) (a ! 0)"
  using assms(2)
proof (induction k rule: less_induct)
  case (less k)
  show ?case
  proof (cases "k = 0")
    case False
    then have "le (a ! k) (a ! (k div 2))" "le (a ! (k div 2)) (a ! 0)"
      using assms(1) less by (auto simp: heap_from_def)
    then show ?thesis by (rule le_trans)
  qed simp
qed

text \<open>The child chosen by the sift dominates both children.\<close>

lemma larger_child_le:
  assumes "i + i \<le> j" "0 < k" "k \<le> j" "k div 2 = i" "i = 0 \<Longrightarrow> larger_child lt a i j \<noteq> 0"
  shows "le (a ! k) (a ! larger_child lt a i j)"
proof -
  have "k = i + i \<or> k = i + i + 1" using assms(4) by auto
  then show ?thesis
    using assms lt_le by (auto simp: larger_child_def le_def split: if_splits)
qed

lemma heap_except_step:
  assumes he: "heap_except m i j a" and mi: "m \<le> i" and j: "j < length a"
    and c: "i + i \<le> j" "i < larger_child lt a i j" "lt (a ! i) (a ! larger_child lt a i j)"
  shows "heap_except m (larger_child lt a i j) j
           (a[larger_child lt a i j := a ! i, i := a ! larger_child lt a i j])"
proof -
  define k where "k = larger_child lt a i j"
  have kdiv: "k div 2 = i" and kj: "k \<le> j" and k0: "0 < k"
    using c by (auto simp: k_def larger_child_def split: if_splits)
  have ilen: "i < length a" "k < length a" using c(1) kj j by auto
  define b where "b = a[k := a ! i, i := a ! k]"
  have bk: "b ! k = a ! i" and bi: "b ! i = a ! k"
    and bo: "\<And>n. n \<noteq> i \<Longrightarrow> n \<noteq> k \<Longrightarrow> b ! n = a ! n"
    using ilen c(2) by (auto simp: b_def k_def)
  have ik: "i < k" using c(2) by (simp add: k_def)
  have "(n div 2 \<noteq> k \<longrightarrow> le (b ! n) (b ! (n div 2))) \<and>
        (n div 2 = k \<and> 0 < k \<and> m \<le> k div 2 \<longrightarrow> le (b ! n) (b ! (k div 2)))"
    if n: "0 < n" "n \<le> j" "m \<le> n div 2" for n
  proof (intro conjI impI)
    assume "n div 2 = k \<and> 0 < k \<and> m \<le> k div 2"
    then have nk: "n div 2 = k" by simp
    then have "n \<noteq> i" "n \<noteq> k" using ik k0 by auto
    moreover have "le (a ! n) (a ! k)"
      using he n nk ik by (auto simp: heap_except_def)
    ultimately show "le (b ! n) (b ! (k div 2))" by (simp add: bo bi kdiv)
  next
    assume nk: "n div 2 \<noteq> k"
    consider "n div 2 = i" | "n = i" "n div 2 \<noteq> i" | "n \<noteq> i" "n div 2 \<noteq> i" by blast
    then show "le (b ! n) (b ! (n div 2))"
    proof cases
      case 1
      have "le (a ! n) (a ! k)"
        unfolding k_def by (rule larger_child_le) (use c n 1 in auto)
      moreover have "le (a ! i) (a ! k)" using c(3) lt_le by (simp add: k_def)
      ultimately show ?thesis using 1 ik n bi bk bo [of n] by (cases "n = k"; cases "n = i"; simp)
    next
      case 2
      then have "m \<le> i div 2" "0 < i" using n by auto
      then have "le (a ! k) (a ! (i div 2))"
        using he k0 kj kdiv mi by (auto simp: heap_except_def)
      moreover have "i div 2 \<noteq> i" "i div 2 \<noteq> k" using 2 nk by auto
      ultimately show ?thesis using 2 by (simp add: bi bo)
    next
      case 3
      then have "n \<noteq> k" using kdiv by auto
      have "le (a ! n) (a ! (n div 2))" using he n 3 by (auto simp: heap_except_def)
      then show ?thesis using 3 nk \<open>n \<noteq> k\<close> by (simp add: bo)
    qed
  qed
  then show ?thesis by (auto simp: heap_except_def b_def k_def)
qed

lemma gsift_heap:
  "heap_except m i j a \<Longrightarrow> m \<le> i \<Longrightarrow> j < length a \<Longrightarrow> heap_from m j (gsift lt a i j)"
proof (induction "Suc j - i" arbitrary: a i rule: less_induct)
  case less
  let ?k = "larger_child lt a i j"
  show ?case
  proof (cases "i + i \<le> j \<and> i < ?k \<and> lt (a ! i) (a ! ?k)")
    case True
    have "heap_from m j (gsift lt (a[?k := a ! i, i := a ! ?k]) ?k j)"
      by (rule less.hyps) (use True less.prems heap_except_step [of m i j a] in auto)
    then show ?thesis using True by (subst gsift.simps) (simp add: Let_def)
  next
    case False
    have "heap_from m j a"
      unfolding heap_from_def
    proof (intro allI impI)
      fix k assume k: "0 < k \<and> k \<le> j \<and> m \<le> k div 2"
      show "le (a ! k) (a ! (k div 2))"
      proof (cases "k div 2 = i")
        case i: True
        then have ij: "i + i \<le> j" using k by auto
        show ?thesis
        proof (cases "i < ?k")
          case True
          then have "le (a ! ?k) (a ! i)" using False ij by (simp add: le_def)
          moreover have "le (a ! k) (a ! ?k)"
            by (rule larger_child_le) (use ij k i True in auto)
          ultimately show ?thesis using le_trans i by blast
        next
          case False
          then have "i = 0" "k = 1" "?k = 0" using i k by (auto simp: larger_child_def split: if_splits)
          then show ?thesis using k False by (auto simp: larger_child_def le_def split: if_splits)
        qed
      next
        case False
        then show ?thesis using less.prems(1) k by (auto simp: heap_except_def)
      qed
    qed
    then show ?thesis using False by (subst gsift.simps) (auto simp: Let_def)
  qed
qed

lemma gbuild_heap:
  "tp < length a \<Longrightarrow> heap_from (Suc n) tp a \<Longrightarrow> heap_from 1 tp (gbuild lt tp n a)"
proof (induction n arbitrary: a)
  case (Suc n)
  have "heap_from (Suc n) tp (gsift lt a (Suc n) tp)"
    by (rule gsift_heap) (use Suc.prems heap_except_start in auto)
  then show ?case using Suc.IH [of "gsift lt a (Suc n) tp"] Suc.prems by simp
qed simp

text \<open>One round of the extraction: \<open>a\<close> is sorted above \<open>i\<close> and a heap from 1 below.\<close>

definition extract_inv :: "nat \<Rightarrow> nat \<Rightarrow> 'a list \<Rightarrow> bool" where
  "extract_inv tp i a \<longleftrightarrow> heap_from 1 i a \<and>
     (\<forall>x y. x \<le> y \<and> i < y \<and> y \<le> tp \<longrightarrow> le (a ! x) (a ! y))"

lemma extract_step:
  assumes inv: "extract_inv tp (Suc i) a" and tp: "tp < length a" "Suc i \<le> tp"
  shows "extract_inv tp i (gexchange lt (Suc i) a)"
proof -
  define b where "b = gsift lt a 0 (Suc i)"
  define c where "c = gexchange lt (Suc i) a"
  have len: "Suc i < length b" using tp by (simp add: b_def)
  have c: "c ! 0 = b ! Suc i" "c ! Suc i = b ! 0" "\<And>m. 0 < m \<Longrightarrow> m \<noteq> Suc i \<Longrightarrow> c ! m = b ! m"
    using len length_greater_0_conv [of b]
    by (auto simp: c_def gexchange_def Let_def b_def [symmetric] nth_list_update simp del: length_greater_0_conv)
  have hb: "heap_from 0 (Suc i) b"
    unfolding b_def
    by (rule gsift_heap) (use inv tp heap_except_start [of 0] in \<open>auto simp: extract_inv_def\<close>)
  have hc: "heap_from 1 i c"
    using hb by (auto simp: heap_from_def c)
  have cpre: "\<exists>m' \<le> Suc i. c ! m = a ! m'" if "m \<le> Suc i" for m
  proof -
    have "\<exists>m1 \<le> Suc i. c ! m = b ! m1"
      using that c by (cases "m = 0"; cases "m = Suc i") auto
    then show ?thesis using gsift_prefix [of "Suc i" a] tp by (auto simp: b_def)
  qed
  have "le (c ! x) (c ! y)" if xy: "x \<le> y" "i < y" "y \<le> tp" for x y
  proof (cases "y = Suc i")
    case True
    have "\<exists>m1 \<le> Suc i. c ! x = b ! m1"
      using xy True c by (cases "x = 0"; cases "x = Suc i") auto
    then show ?thesis using True c(2) heap_from_root [OF hb] by auto
  next
    case False
    then have y: "c ! y = a ! y" using xy by (simp add: c_def gexchange_outside)
    show ?thesis
    proof (cases "x \<le> Suc i")
      case True
      then obtain m' where "m' \<le> Suc i" "c ! x = a ! m'" using cpre by blast
      then show ?thesis using inv y xy False by (auto simp: extract_inv_def)
    next
      case False
      then have "c ! x = a ! x" by (simp add: c_def gexchange_outside)
      then show ?thesis using inv y xy \<open>y \<noteq> Suc i\<close> by (auto simp: extract_inv_def)
    qed
  qed
  then show ?thesis using hc by (auto simp: extract_inv_def c_def)
qed

lemma gextract_inv:
  "tp < length a \<Longrightarrow> n \<le> tp \<Longrightarrow> extract_inv tp n a \<Longrightarrow> extract_inv tp 0 (gextract lt n a)"
proof (induction n arbitrary: a)
  case (Suc n)
  then show ?case using extract_step [of tp n a] by simp
qed simp

lemma gheapsort_sorted:
  assumes "tp < length a" "x \<le> y" "y \<le> tp"
  shows "le (gheapsort lt tp a ! x) (gheapsort lt tp a ! y)"
proof -
  have "heap_from (Suc (tp div 2)) tp a" by (auto simp: heap_from_def)
  then have "heap_from 1 tp (gbuild lt tp (tp div 2) a)"
    by (rule gbuild_heap [OF assms(1)])
  then have "extract_inv tp tp (gbuild lt tp (tp div 2) a)"
    by (auto simp: extract_inv_def)
  then have "extract_inv tp 0 (gheapsort lt tp a)"
    unfolding gheapsort_def by (intro gextract_inv) (use assms in auto)
  then show ?thesis using assms by (cases "y = 0") (auto simp: extract_inv_def)
qed

end

lemma length_gheapsort [simp]: "length (gheapsort lt tp a) = length a"
  by (simp add: gheapsort_def)

lemma gbuild_outside: "tp < m \<Longrightarrow> gbuild lt tp n a ! m = a ! m"
  by (induction n arbitrary: a) (auto simp: gsift_outside)

lemma gheapsort_outside: "tp < m \<Longrightarrow> gheapsort lt tp a ! m = a ! m"
  by (simp add: gheapsort_def gextract_outside gbuild_outside)

lemma mset_gheapsort: "tp < length a \<Longrightarrow> mset (gheapsort lt tp a) = mset a"
  by (simp add: gheapsort_def mset_gextract mset_gbuild)

text \<open>What lies above \<open>tp\<close> plays no part.\<close>

lemma gsift_append:
  "j < length a \<Longrightarrow> gsift lt (a @ b) i j = gsift lt a i j @ b"
proof (induction lt a i j rule: gsift.induct)
  case (1 lt a i j)
  have k: "larger_child lt (a @ b) i j = larger_child lt a i j"
    using "1.prems" by (auto simp: larger_child_def nth_append)
  let ?k = "larger_child lt a i j"
  show ?case
  proof (cases "i + i \<le> j \<and> i < ?k \<and> lt (a ! i) (a ! ?k)")
    case True
    then have "?k < length a" "i < length a" using "1.prems" by (auto simp: larger_child_def)
    then show ?thesis
      using True "1.IH" [OF refl True] "1.prems" k
      by (subst (1 2) gsift.simps) (simp add: Let_def nth_append list_update_append)
  next
    case False
    then have "i + i \<le> j \<Longrightarrow> i < ?k \<Longrightarrow> ?k < length a \<and> i < length a"
      using "1.prems" by (auto simp: larger_child_def)
    then show ?thesis using False k
      by (subst (1 2) gsift.simps) (auto simp: Let_def nth_append)
  qed
qed

lemma gbuild_append: "tp < length a \<Longrightarrow> gbuild lt tp n (a @ b) = gbuild lt tp n a @ b"
  by (induction n arbitrary: a) (simp_all add: gsift_append)

lemma gexchange_append: "i < length a \<Longrightarrow> gexchange lt i (a @ b) = gexchange lt i a @ b"
  by (cases "a = []")
    (simp_all add: gexchange_def Let_def gsift_append nth_append list_update_append)

lemma gextract_append: "n < length a \<Longrightarrow> gextract lt n (a @ b) = gextract lt n a @ b"
  by (induction n arbitrary: a) (simp_all add: gexchange_append)

lemma gheapsort_append: "tp < length a \<Longrightarrow> gheapsort lt tp (a @ b) = gheapsort lt tp a @ b"
  by (simp add: gheapsort_def gbuild_append gextract_append)

end
