(* ===== verification/Num_Sort.thy ===== *)
theory Num_Sort
  imports Heap_Order Misc_Rand Sysspec
begin

text \<open>
  The numeric heapsort benchmark of \<open>nbench1.c\<close>.  An array parameter \<open>farlong *array\<close> is a
  memory \<open>mem\<close> (the allocated block) with the offset \<open>p\<close> of the pointer inside it; an
  access outside the block is \<open>None\<close>.  The elements are \<open>long\<close>s, compared with \<open><s\<close>.
  Indices are numbers: they stay below the length of an array of 4-byte elements, hence
  below \<open>2 ^ 30\<close>; the one unsigned subtraction that can wrap (\<open>arraysize - 1\<close>,
  \<open>--numarrays\<close>) is \<open>usub32\<close>.
\<close>

section \<open>The code\<close>

function NumSift :: "nat \<Rightarrow> nat \<Rightarrow> nat \<Rightarrow> int32 list \<Rightarrow> int32 list option" where
  "NumSift p i j mem =
     (if i + i \<le> j then
        do {
          let k = i + i;
          k \<leftarrow> (if k < j
               then do {
                 x \<leftarrow> rd mem (p + k);
                 y \<leftarrow> rd mem (p + k + 1);
                 Some (if x <s y then k + 1 else k)
               }
               else Some k);
          x \<leftarrow> rd mem (p + i);
          temp \<leftarrow> rd mem (p + k);
          if x <s temp then
            do {
              mem \<leftarrow> wr mem (p + k) x;
              mem \<leftarrow> wr mem (p + i) temp;
              NumSift p k j mem
            }
          else Some mem
        }
      else Some mem)"
  by pat_completeness auto
termination
proof (relation "measure (\<lambda>(p, i, j, mem). Suc j - i)", goal_cases)
  case (2 p i j mem k k' x y mem1 mem2)
  then have "k' \<noteq> i" by (auto simp: rd_Some_iff)
  moreover have "k' = i + i \<or> k' = i + i + 1"
    using 2 by (auto simp: bind_eq_Some_conv split: if_splits)
  ultimately have "i < k'" by auto
  then show ?case using 2(1) by auto
qed simp

declare NumSift.simps [simp del]

definition NumHeapSort :: "nat \<Rightarrow> nat \<Rightarrow> nat \<Rightarrow> int32 list \<Rightarrow> int32 list option" where
  "NumHeapSort p bottom top_ix mem =
     do {
       mem \<leftarrow> down_loop (top_ix div 2) (\<lambda>i. NumSift p i top_ix) mem;
       down_loop top_ix (\<lambda>i mem.
         do {
           mem \<leftarrow> NumSift p bottom i mem;
           temp \<leftarrow> rd mem p;
           v \<leftarrow> rd mem (p + i);
           mem \<leftarrow> wr mem p v;
           wr mem (p + i) temp
         }) mem
     }"

definition LoadNumArrayWithRand ::
    "nat \<Rightarrow> nat \<Rightarrow> int32 list \<Rightarrow> rng \<Rightarrow> (int32 list \<times> rng) option" where
  "LoadNumArrayWithRand arraysize numarrays mem s =
     do {
       (_, s) \<leftarrow> randnum 13 s;
       (mem, s) \<leftarrow> for_range 0 arraysize (\<lambda>i (mem, s).
          do {
            (v, s) \<leftarrow> randnum 0 s;
            mem \<leftarrow> wr mem i v;
            Some (mem, s)
          }) (mem, s);
       mem \<leftarrow> for_range 1 (1 + usub32 numarrays 1) (\<lambda>d mem.
          for_range 0 arraysize (\<lambda>i mem.
            do {
              v \<leftarrow> rd mem i;
              wr mem (d * arraysize + i) v
            }) mem) mem;
       Some (mem, s)
     }"

definition DoNumSortIteration ::
    "clock_fn \<Rightarrow> nat \<Rightarrow> nat \<Rightarrow> int32 list \<Rightarrow> rng \<Rightarrow> sys \<Rightarrow> (u32 \<times> int32 list \<times> rng \<times> sys) option" where
  "DoNumSortIteration clk arraysize numarrays mem s w =
     do {
       (mem, s) \<leftarrow> LoadNumArrayWithRand arraysize numarrays mem s;
       let (elapsed, w) = StartStopwatch clk w;
       mem \<leftarrow> for_range 0 numarrays (\<lambda>i. NumHeapSort (i * arraysize) 0 (usub32 arraysize 1)) mem;
       let (elapsed, w) = StopStopwatch clk elapsed w;
       Some (elapsed, mem, s, w)
     }"

section \<open>The sift computes the pure sift\<close>

interpretation num: sort_order "(<s) :: int32 \<Rightarrow> int32 \<Rightarrow> bool"
  by unfold_locales auto

lemma update_append_right [simp]:
  "(xs @ ys)[length xs + i := v] = xs @ ys[i := v]"
  by (simp add: list_update_append)

lemma rd_append_right [simp]: "rd (xs @ ys) (length xs + i) = rd ys i"
  by (simp add: rd_def nth_append)

lemma wr_append_right [simp]:
  "wr (xs @ ys) (length xs + i) v = map_option ((@) xs) (wr ys i v)"
  by (simp add: wr_def)

lemma NumSift_gsift:
  "j < length a \<Longrightarrow> NumSift (length pre) i j (pre @ a) = Some (pre @ gsift (<s) a i j)"
proof (induction "(<s) :: int32 \<Rightarrow> int32 \<Rightarrow> bool" a i j rule: gsift.induct)
  case (1 a i j)
  let ?k = "larger_child (<s) a i j"
  show ?case
  proof (cases "i + i \<le> j")
    case True
    have k: "?k \<le> j" using True by (auto simp: larger_child_def)
    have ch: "(if i + i < j
               then do {
                 x \<leftarrow> rd (pre @ a) (length pre + (i + i));
                 y \<leftarrow> rd (pre @ a) (length pre + (i + i) + 1);
                 Some (if x <s y then i + i + 1 else i + i)
               }
               else Some (i + i)) = Some ?k"
      using "1.prems" rd_append_right [of pre a "i + i + 1"] True
      by (auto simp: larger_child_def mem_simps add.assoc)
    show ?thesis
    proof (cases "a ! i <s a ! ?k")
      case lt: True
      then have ik: "i < ?k" using True by (auto simp: larger_child_def split: if_splits intro: ccontr)
      have "NumSift (length pre) ?k j (pre @ a[?k := a ! i, i := a ! ?k]) =
          Some (pre @ gsift (<s) (a[?k := a ! i, i := a ! ?k]) ?k j)"
        using "1.hyps" [OF refl] True ik lt "1.prems" by simp
      then show ?thesis
        using True k lt ik ch "1.prems"
        by (subst NumSift.simps, subst gsift.simps) (simp add: Let_def mem_simps)
    next
      case False
      then show ?thesis
        using True k ch "1.prems"
        by (subst NumSift.simps, subst gsift.simps) (simp add: Let_def mem_simps)
    qed
  next
    case False
    then show ?thesis by (subst NumSift.simps, subst gsift.simps) (simp add: Let_def)
  qed
qed

section \<open>The sort\<close>

lemma NumSift_build:
  "tp < length a \<Longrightarrow>
   down_loop n (\<lambda>i. NumSift (length pre) i tp) (pre @ a) = Some (pre @ gbuild (<s) tp n a)"
  by (induction n arbitrary: a) (simp_all add: NumSift_gsift)

lemma NumSift_extract:
  "n < length a \<Longrightarrow>
   down_loop n (\<lambda>i mem.
         do {
           mem \<leftarrow> NumSift (length pre) 0 i mem;
           temp \<leftarrow> rd mem (length pre);
           v \<leftarrow> rd mem (length pre + i);
           mem \<leftarrow> wr mem (length pre) v;
           wr mem (length pre + i) temp
         }) (pre @ a) = Some (pre @ gextract (<s) n a)"
proof (induction n arbitrary: a)
  case 0
  then show ?case by simp
next
  case (Suc n)
  define b where "b = gsift (<s) a 0 (Suc n)"
  have len: "length b = length a" by (simp add: b_def)
  have "NumSift (length pre) 0 (Suc n) (pre @ a) = Some (pre @ b)"
    unfolding b_def by (rule NumSift_gsift) (rule Suc.prems)
  moreover have "rd (pre @ b) (length pre) = Some (b ! 0)"
    using rd_append_right [of pre b 0] rd_in [of 0 b] len Suc.prems by (cases a) simp_all
  moreover have "wr (pre @ b) (length pre) (b ! Suc n) = Some (pre @ b[0 := b ! Suc n])"
    using wr_append_right [of pre b 0 "b ! Suc n"] wr_in [of 0 b "b ! Suc n"] len Suc.prems by (cases a) simp_all
  moreover have "rd (pre @ b) (length pre + Suc n) = Some (b ! Suc n)"
    using Suc.prems len by (simp only: rd_append_right) (simp add: mem_simps)
  moreover have "wr (pre @ b[0 := b ! Suc n]) (length pre + Suc n) (b ! 0) =
      Some (pre @ b[0 := b ! Suc n, Suc n := b ! 0])"
    using Suc.prems len by (simp only: wr_append_right) (simp add: mem_simps)
  moreover have "gexchange (<s) (Suc n) a = b[0 := b ! Suc n, Suc n := b ! 0]"
    by (simp add: gexchange_def b_def Let_def)
  ultimately show ?case using Suc.IH [of "gexchange (<s) (Suc n) a"] Suc.prems len
    by (simp del: add_Suc_right)
qed

lemma NumHeapSort_gheapsort:
  "tp < length a \<Longrightarrow> NumHeapSort (length pre) 0 tp (pre @ a) = Some (pre @ gheapsort (<s) tp a)"
  by (simp add: NumHeapSort_def NumSift_build NumSift_extract gheapsort_def)

lemma gheapsort_sorted_sint:
  assumes "a \<noteq> []"
  shows "sorted (map sint (gheapsort (<s) (length a - 1) (a :: int32 list)))"
  unfolding sorted_iff_nth_mono
  using num.gheapsort_sorted [of "length a - 1" a] assms
  by (auto simp: num.le_def word_sless_alt not_less)

text \<open>
  NumHeapSort on a non-empty array embedded in a larger memory returns, never accesses an
  element outside the array, and leaves it an ascending permutation of itself in the signed order,
  with the memory around it unchanged.
\<close>

theorem NumHeapSort_sorts:
  assumes "a \<noteq> []"
  shows "\<exists>b. NumHeapSort (length pre) 0 (length a - 1) (pre @ a @ post) = Some (pre @ b @ post) \<and>
     mset b = mset a \<and> sorted (map sint b)"
proof -
  have l: "length a - 1 < length (a @ post)" "length a - 1 < length a" using assms by (cases a; simp)+
  have "NumHeapSort (length pre) 0 (length a - 1) (pre @ a @ post) =
      Some (pre @ gheapsort (<s) (length a - 1) a @ post)"
    using NumHeapSort_gheapsort [OF l(1)] gheapsort_append [OF l(2), of "(<s)" post] by simp
  then show ?thesis
    using mset_gheapsort [OF l(2), of "(<s)"] gheapsort_sorted_sint [OF assms] by auto
qed

theorem NumHeapSort_sorts_witness:
  "\<exists>b. NumHeapSort 1 0 2 ([9] @ [3, -1, 2] @ [0]) = Some ([9] @ b @ [0]) \<and>
     mset b = {#3, -1, 2#} \<and> sorted (map sint b)"
  using NumHeapSort_sorts [of "[3, -1, 2]" "[9]" "[0]"] by (simp add: numeral_2_eq_2)

section \<open>Loading the arrays\<close>

fun draws :: "nat \<Rightarrow> rng \<Rightarrow> int32 list \<times> rng" where
  "draws 0 s = ([], s)"
| "draws (Suc n) s =
     (case randnum 0 s of
        Some (v, s') \<Rightarrow> (let (vs, s'') = draws n s' in (v # vs, s''))
      | None \<Rightarrow> ([], s))"

lemma length_draws [simp]: "length (fst (draws n s)) = n"
proof (induction n arbitrary: s)
  case (Suc n)
  obtain v s' where "randnum 0 s = Some (v, s')" using randnum_Some by blast
  then show ?case using Suc.IH [of s'] by (simp split: prod.splits) (metis fst_conv)
qed simp

lemma load_first:
  assumes "length pre = i" "length junk = n"
  shows "for_loop i n (\<lambda>i (mem, s).
          do {
            (v, s) \<leftarrow> randnum 0 s;
            mem \<leftarrow> wr mem i v;
            Some (mem, s)
          }) (pre @ junk @ post, s) = Some (pre @ fst (draws n s) @ post, snd (draws n s))"
  using assms
proof (induction n arbitrary: i pre junk s)
  case (Suc n)
  obtain x xs where junk: "junk = x # xs" using Suc.prems(2) by (cases junk) auto
  obtain v s' where v: "randnum 0 s = Some (v, s')" using randnum_Some by blast
  have "wr (pre @ x # xs @ post) i v = Some ((pre @ [v]) @ xs @ post)"
    using Suc.prems by (simp add: wr_def list_update_append)
  then show ?case
    using Suc.IH [of "pre @ [v]" "Suc i" xs s'] Suc.prems v junk
    by (simp split: prod.splits)
qed simp

lemma LoadNumArrayWithRand_spec:
  assumes n: "0 < numarrays" "numarrays < 2 ^ 32" and len: "numarrays * sz \<le> length mem"
    and s1: "randnum 13 s = Some (v1, s1)"
  shows "LoadNumArrayWithRand sz numarrays mem s =
     Some (concat (replicate numarrays (fst (draws sz s1))) @ drop (numarrays * sz) mem,
           snd (draws sz s1))"
proof -
  define vs where "vs = fst (draws sz s1)"
  have lvs: "length vs = sz" by (simp add: vs_def)
  have sz: "sz \<le> length mem" using len n(1) by (metis One_nat_def Suc_leI le_trans mult.left_neutral mult_le_mono1)
  have first: "for_loop 0 sz (\<lambda>i (mem, s).
          do {
            (v, s) \<leftarrow> randnum 0 s;
            mem \<leftarrow> wr mem i v;
            Some (mem, s)
          }) (mem, s1) = Some (vs @ drop sz mem, snd (draws sz s1))"
    using load_first [of "[]" 0 "take sz mem" sz "drop sz mem" s1] sz by (simp add: vs_def)
  define P where "P d m \<longleftrightarrow> m = concat (replicate d vs) @ drop (d * sz) mem" for d m
  have "\<exists>m. for_loop 1 (numarrays - 1) (\<lambda>d mem.
          for_range 0 sz (\<lambda>i mem. do { v \<leftarrow> rd mem i; wr mem (d * sz + i) v }) mem)
          (vs @ drop sz mem) = Some m \<and> P (1 + (numarrays - 1)) m"
  proof (rule for_loop_rule)
    show "P 1 (vs @ drop sz mem)" by (simp add: P_def)
    fix d m assume d: "1 \<le> d" "d < 1 + (numarrays - 1)" "P d m"
    define cv where "cv = concat (replicate d vs)"
    have lcv: "length cv = d * sz" by (simp add: cv_def length_concat sum_list_replicate lvs)
    have room: "d * sz + sz \<le> length mem"
    proof -
      have "(d + 1) * sz \<le> numarrays * sz" by (rule mult_le_mono1) (use d in simp)
      then show ?thesis using len by simp
    qed
    have m: "m = cv @ drop (d * sz) mem" using d(3) by (simp add: P_def cv_def)
    have tk: "take sz m = vs"
    proof -
      obtain d' where d': "d = Suc d'" using d(1) by (cases d) auto
      show ?thesis using lvs by (simp add: m cv_def d')
    qed
    have "for_loop 0 sz (\<lambda>i mem. do { v \<leftarrow> rd mem i; wr mem (d * sz + i) v }) m =
        Some (take (d * sz) m @ take sz m @ drop (d * sz + sz) m)"
      by (rule copy_loop) (use d(1) room lcv in \<open>auto simp: m\<close>)
    moreover have "take (d * sz) m = cv" using lcv by (simp add: m)
    moreover have "drop (d * sz + sz) m = drop (Suc d * sz) mem"
      using lcv by (simp add: m add.commute)
    moreover have "cv @ vs = concat (replicate (Suc d) vs)"
      by (simp add: cv_def flip: replicate_append_same)
    ultimately have "for_loop 0 sz (\<lambda>i mem. do { v \<leftarrow> rd mem i; wr mem (d * sz + i) v }) m =
        Some (concat (replicate (Suc d) vs) @ drop (Suc d * sz) mem)"
      using tk by (metis append.assoc)
    then show "\<exists>s'. for_range 0 sz (\<lambda>i mem. do { v \<leftarrow> rd mem i; wr mem (d * sz + i) v }) m =
        Some s' \<and> P (Suc d) s'"
      by (simp add: P_def)
  qed
  then have "for_loop 1 (numarrays - 1) (\<lambda>d mem.
          for_range 0 sz (\<lambda>i mem. do { v \<leftarrow> rd mem i; wr mem (d * sz + i) v }) mem)
          (vs @ drop sz mem) = Some (concat (replicate numarrays vs) @ drop (numarrays * sz) mem)"
    using n(1) by (simp add: P_def)
  moreover have "usub32 numarrays 1 = numarrays - 1" by (rule usub32_le) (use n in auto)
  ultimately show ?thesis
    using first s1 by (simp add: LoadNumArrayWithRand_def vs_def)
qed

text \<open>
  C40: An iteration of the numeric sort loads every array with the same random draws after
  reseeding, and every array ends as the ascending permutation of those draws; the memory past the
  arrays is untouched and the elapsed ticks are the difference of two clock readings.
\<close>

theorem DoNumSortIteration_sorts:
  assumes "0 < numarrays" "numarrays < 2 ^ 32" "0 < sz" "sz < 2 ^ 32" "numarrays * sz \<le> length mem"
  shows "\<exists>loaded sorted_arr s'. DoNumSortIteration clk sz numarrays mem s w =
       Some (clk (clock_calls w + 1) - clk (clock_calls w),
             concat (replicate numarrays sorted_arr) @ drop (numarrays * sz) mem, s',
             w\<lparr>clock_calls := clock_calls w + 2\<rparr>) \<and>
     length loaded = sz \<and> mset sorted_arr = mset loaded \<and> sorted (map sint sorted_arr) \<and>
     (\<exists>v s1. randnum 13 s = Some (v, s1) \<and> draws sz s1 = (loaded, s'))"
proof -
  obtain v1 s1 where s1: "randnum 13 s = Some (v1, s1)" using randnum_Some by blast
  define vs where "vs = fst (draws sz s1)"
  define st where "st = gheapsort (<s) (sz - 1) vs"
  have lvs: "length vs = sz" by (simp add: vs_def)
  have lst: "length st = sz" by (simp add: st_def lvs)
  note load = LoadNumArrayWithRand_spec [OF assms(1,2,5) s1]
  define rest where "rest = drop (numarrays * sz) mem"
  define P where "P i m \<longleftrightarrow> m = concat (replicate i st) @ concat (replicate (numarrays - i) vs) @ rest"
    for i m
  have "\<exists>m. for_loop 0 numarrays (\<lambda>i. NumHeapSort (i * sz) 0 (sz - 1))
      (concat (replicate numarrays vs) @ rest) = Some m \<and> P (0 + numarrays) m"
  proof (rule for_loop_rule)
    show "P 0 (concat (replicate numarrays vs) @ rest)" by (simp add: P_def)
    fix i m assume i: "0 \<le> i" "i < 0 + numarrays" "P i m"
    define pre where "pre = concat (replicate i st)"
    define post where "post = concat (replicate (numarrays - Suc i) vs) @ rest"
    have lp: "length pre = i * sz" by (simp add: pre_def length_concat sum_list_replicate lst)
    have "numarrays - i = Suc (numarrays - Suc i)" using i by simp
    then have m: "m = pre @ vs @ post" using i(3) by (simp add: P_def pre_def post_def)
    have ne: "vs \<noteq> []" using lvs assms(3) by auto
    have "gheapsort (<s) (sz - 1) (vs @ post) = st @ post"
    proof (rule nth_equalityI)
      fix n assume "n < length (gheapsort (<s) (sz - 1) (vs @ post))"
      then show "gheapsort (<s) (sz - 1) (vs @ post) ! n = (st @ post) ! n"
        using gheapsort_append [of "sz - 1" vs "(<s)" post] lvs assms(3) by (simp add: st_def)
    qed (simp add: lst lvs)
    then have "NumHeapSort (length pre) 0 (sz - 1) (pre @ vs @ post) = Some (pre @ st @ post)"
      using NumHeapSort_gheapsort [of "sz - 1" "vs @ post" pre] lvs assms(3) by simp
    moreover have "pre @ st @ post = concat (replicate (Suc i) st) @ post"
      by (simp add: pre_def flip: replicate_append_same)
    ultimately show "\<exists>s'. NumHeapSort (i * sz) 0 (sz - 1) m = Some s' \<and> P (Suc i) s'"
      using lp m by (simp add: P_def post_def)
  qed
  then have run: "for_loop 0 numarrays (\<lambda>i. NumHeapSort (i * sz) 0 (sz - 1))
      (concat (replicate numarrays vs) @ rest) = Some (concat (replicate numarrays st) @ rest)"
    by (simp add: P_def)
  have us: "usub32 sz 1 = sz - 1" by (rule usub32_le) (use assms in auto)
  have "DoNumSortIteration clk sz numarrays mem s w =
       Some (clk (clock_calls w + 1) - clk (clock_calls w),
             concat (replicate numarrays st) @ rest, snd (draws sz s1),
             w\<lparr>clock_calls := clock_calls w + 2\<rparr>)"
    using load run us
    by (simp add: DoNumSortIteration_def StartStopwatch_def StopStopwatch_def vs_def rest_def)
  moreover have "mset st = mset vs"
    unfolding st_def by (rule mset_gheapsort) (use lvs assms(3) in simp)
  moreover have "sorted (map sint st)"
    using gheapsort_sorted_sint [of vs] lvs assms(3) by (auto simp: st_def)
  ultimately show ?thesis
    using s1 lvs by (intro exI [of _ vs] exI [of _ st] exI [of _ "snd (draws sz s1)"])
      (simp add: rest_def vs_def)
qed

theorem DoNumSortIteration_sorts_witness:
  "\<exists>loaded sorted_arr s'. DoNumSortIteration (\<lambda>n. of_nat (7 * n)) 3 2 (replicate 7 0) rng_init sys0 =
       Some (7, concat (replicate 2 sorted_arr) @ [0], s', sys0\<lparr>clock_calls := 2\<rparr>) \<and>
     length loaded = 3 \<and> mset sorted_arr = mset loaded \<and> sorted (map sint sorted_arr)"
  using DoNumSortIteration_sorts [of 2 3 "replicate 7 0" "\<lambda>n. of_nat (7 * n)" rng_init sys0]
  by (clarsimp simp: sys0_def) blast

end
