(* ===== verification/Bitfield.thy ===== *)
theory Bitfield
  imports Misc_Rand Sysspec
begin

text \<open>
  The bitfield benchmark of \<open>nbench1.c\<close> in its 32-bit variant: a bitmap is an array of
  \<open>unsigned long\<close>, bit \<open>k\<close> of the map is bit \<open>k % 32\<close> of word \<open>k / 32\<close>.  The bit address is an
  \<open>unsigned long\<close> and wraps; a word index outside the array is \<open>None\<close>.
\<close>

section \<open>The code\<close>

fun ToggleBitRun_loop :: "u32 list \<Rightarrow> u32 \<Rightarrow> nat \<Rightarrow> u32 \<Rightarrow> u32 list option" where
  "ToggleBitRun_loop bitmap bit_addr 0 val = Some bitmap"
| "ToggleBitRun_loop bitmap bit_addr (Suc nbits) val =
     do {
       let bindex = unat (drop_bit 5 bit_addr);
       let bitnumb = unat (bit_addr mod 32);
       w \<leftarrow> rd bitmap bindex;
       bitmap \<leftarrow> (if val \<noteq> 0 then wr bitmap bindex (w OR push_bit bitnumb 1)
                  else wr bitmap bindex (w AND NOT (push_bit bitnumb 1)));
       ToggleBitRun_loop bitmap (bit_addr + 1) nbits val
     }"

definition ToggleBitRun :: "u32 list \<Rightarrow> u32 \<Rightarrow> u32 \<Rightarrow> u32 \<Rightarrow> u32 list option" where
  "ToggleBitRun bitmap bit_addr nbits val = ToggleBitRun_loop bitmap bit_addr (unat nbits) val"

fun FlipBitRun_loop :: "u32 list \<Rightarrow> u32 \<Rightarrow> nat \<Rightarrow> u32 list option" where
  "FlipBitRun_loop bitmap bit_addr 0 = Some bitmap"
| "FlipBitRun_loop bitmap bit_addr (Suc nbits) =
     do {
       let bindex = unat (drop_bit 5 bit_addr);
       let bitnumb = unat (bit_addr mod 32);
       w \<leftarrow> rd bitmap bindex;
       bitmap \<leftarrow> wr bitmap bindex (w XOR push_bit bitnumb 1);
       FlipBitRun_loop bitmap (bit_addr + 1) nbits
     }"

definition FlipBitRun :: "u32 list \<Rightarrow> u32 \<Rightarrow> u32 \<Rightarrow> u32 list option" where
  "FlipBitRun bitmap bit_addr nbits = FlipBitRun_loop bitmap bit_addr (unat nbits)"

text \<open>The loop that draws the runs: \<open>bitoparray[2i]\<close> is the offset, \<open>bitoparray[2i+1]\<close> the length.\<close>

definition load_runs ::
    "nat \<Rightarrow> u32 list \<times> u32 \<times> rng \<Rightarrow> (u32 list \<times> u32 \<times> rng) option" where
  "load_runs i st =
     (case st of (bitop, nbitops, s) \<Rightarrow>
        do {
          (bitoffset, s) \<leftarrow> abs_randwc 262140 s;
          bitop \<leftarrow> wr bitop (i + i) bitoffset;
          (len, s) \<leftarrow> abs_randwc (262140 - bitoffset) s;
          bitop \<leftarrow> wr bitop (i + i + 1) len;
          Some (bitop, nbitops + len, s)
        })"

definition run_op :: "u32 list \<Rightarrow> nat \<Rightarrow> u32 list \<Rightarrow> u32 list option" where
  "run_op bitop i bitmap =
     do {
       off \<leftarrow> rd bitop (i + i);
       len \<leftarrow> rd bitop (i + i + 1);
       if i mod 3 = 0 then ToggleBitRun bitmap off len 1
       else if i mod 3 = 1 then ToggleBitRun bitmap off len 0
       else FlipBitRun bitmap off len
     }"

definition DoBitfieldIteration ::
    "clock_fn \<Rightarrow> nat \<Rightarrow> nat \<Rightarrow> u32 list \<Rightarrow> u32 list \<Rightarrow> rng \<Rightarrow> sys \<Rightarrow>
     (u32 \<times> u32 \<times> u32 list \<times> u32 list \<times> rng \<times> sys) option" where
  "DoBitfieldIteration clk bitfieldarraysize bitoparraysize bitarray bitop s w =
     do {
       (_, s) \<leftarrow> randnum 13 s;
       bitarray \<leftarrow> for_range 0 bitfieldarraysize (\<lambda>i m. wr m i 0x55555555) bitarray;
       (_, s) \<leftarrow> randnum 13 s;
       (bitop, nbitops, s) \<leftarrow> for_range 0 bitoparraysize load_runs (bitop, 0, s);
       let (elapsed, w) = StartStopwatch clk w;
       bitarray \<leftarrow> for_range 0 bitoparraysize (run_op bitop) bitarray;
       let (elapsed, w) = StopStopwatch clk elapsed w;
       Some (elapsed, nbitops, bitarray, bitop, s, w)
     }"

section \<open>The bitmap as a function from bit addresses\<close>

definition map_bit :: "u32 list \<Rightarrow> nat \<Rightarrow> bool" where
  "map_bit bm k = bit (bm ! (k div 32)) (k mod 32)"

text \<open>One step of a run: a single bit changes.\<close>

lemma bit_addr_parts:
  "unat (drop_bit 5 (a :: u32)) = unat a div 32" "unat (a mod 32) = unat a mod 32"
  by (simp_all add: drop_bit_eq_div unat_div unat_mod)

lemma map_bit_update:
  assumes "a div 32 < length bm" "k div 32 < length bm"
    and "\<And>n. n < 32 \<Longrightarrow> bit w n = (if n = a mod 32 then v else bit (bm ! (a div 32)) n)"
  shows "map_bit (bm[a div 32 := w]) k = (if k = a then v else map_bit bm k)"
proof (cases "k div 32 = a div 32")
  case True
  then have "k = a \<longleftrightarrow> k mod 32 = a mod 32" by (metis div_mult_mod_eq)
  then show ?thesis using assms True by (simp add: map_bit_def)
next
  case False
  then show ?thesis using assms by (auto simp: map_bit_def)
qed

lemma set_bit_word:
  "n < 32 \<Longrightarrow> m < 32 \<Longrightarrow> bit ((w :: u32) OR 2 ^ m) n = (if n = m then True else bit w n)"
  by (auto simp: bit_or_iff bit_exp_iff)

lemma clear_bit_word:
  "n < 32 \<Longrightarrow> m < 32 \<Longrightarrow> bit ((w :: u32) AND NOT (2 ^ m)) n = (if n = m then False else bit w n)"
  by (auto simp: bit_and_iff bit_not_iff bit_exp_iff)

lemma flip_bit_word:
  "n < 32 \<Longrightarrow> m < 32 \<Longrightarrow> bit ((w :: u32) XOR 2 ^ m) n = (if n = m then \<not> bit w m else bit w n)"
  by (auto simp: bit_xor_iff bit_exp_iff)

lemma ToggleBitRun_loop_spec:
  "unat a + n \<le> 32 * length bm \<Longrightarrow> 32 * length bm < 2 ^ 32 \<Longrightarrow>
   \<exists>bm'. ToggleBitRun_loop bm a n val = Some bm' \<and> length bm' = length bm \<and>
     (\<forall>k < 32 * length bm. map_bit bm' k =
        (if unat a \<le> k \<and> k < unat a + n then val \<noteq> 0 else map_bit bm k))"
proof (induction n arbitrary: bm a)
  case 0
  show ?case by (intro exI [of _ bm]) auto
next
  case (Suc n)
  let ?i = "unat a div 32"
  define w where "w = (if val \<noteq> 0 then bm ! ?i OR push_bit (unat a mod 32) 1
      else bm ! ?i AND NOT (push_bit (unat a mod 32) 1))"
  have i: "?i < length bm" using Suc.prems by auto
  have a1: "unat (a + 1) = unat a + 1" using Suc.prems by (simp add: unat_word_ariths)
  obtain bm' where bm': "ToggleBitRun_loop (bm[?i := w]) (a + 1) n val = Some bm'"
    "length bm' = length bm"
    "\<forall>k < 32 * length bm. map_bit bm' k =
       (if unat a + 1 \<le> k \<and> k < unat a + 1 + n then val \<noteq> 0 else map_bit (bm[?i := w]) k)"
    using Suc.IH [of "a + 1" "bm[?i := w]"] Suc.prems a1 by auto
  have "map_bit (bm[?i := w]) k = (if k = unat a then val \<noteq> 0 else map_bit bm k)"
    if "k < 32 * length bm" for k
    by (rule map_bit_update) (use i that in \<open>auto simp: w_def set_bit_word clear_bit_word\<close>)
  then have "\<forall>k < 32 * length bm. map_bit bm' k =
      (if unat a \<le> k \<and> k < unat a + Suc n then val \<noteq> 0 else map_bit bm k)"
    using bm'(3) by auto
  moreover have "ToggleBitRun_loop bm a (Suc n) val = Some bm'"
    using bm'(1) i by (cases "val = 0") (simp_all add: bit_addr_parts mem_simps w_def Let_def)
  ultimately show ?case using bm'(2) by blast
qed

lemma FlipBitRun_loop_spec:
  "unat a + n \<le> 32 * length bm \<Longrightarrow> 32 * length bm < 2 ^ 32 \<Longrightarrow>
   \<exists>bm'. FlipBitRun_loop bm a n = Some bm' \<and> length bm' = length bm \<and>
     (\<forall>k < 32 * length bm. map_bit bm' k =
        (if unat a \<le> k \<and> k < unat a + n then \<not> map_bit bm k else map_bit bm k))"
proof (induction n arbitrary: bm a)
  case 0
  show ?case by (intro exI [of _ bm]) auto
next
  case (Suc n)
  let ?i = "unat a div 32"
  define w where "w = bm ! ?i XOR push_bit (unat a mod 32) 1"
  have i: "?i < length bm" using Suc.prems by auto
  have a1: "unat (a + 1) = unat a + 1" using Suc.prems by (simp add: unat_word_ariths)
  obtain bm' where bm': "FlipBitRun_loop (bm[?i := w]) (a + 1) n = Some bm'"
    "length bm' = length bm"
    "\<forall>k < 32 * length bm. map_bit bm' k =
       (if unat a + 1 \<le> k \<and> k < unat a + 1 + n then \<not> map_bit (bm[?i := w]) k
        else map_bit (bm[?i := w]) k)"
    using Suc.IH [of "a + 1" "bm[?i := w]"] Suc.prems a1 by auto
  have "map_bit (bm[?i := w]) k = (if k = unat a then \<not> map_bit bm (unat a) else map_bit bm k)"
    if "k < 32 * length bm" for k
    by (rule map_bit_update) (use i that in \<open>auto simp: w_def flip_bit_word map_bit_def\<close>)
  then have "\<forall>k < 32 * length bm. map_bit bm' k =
      (if unat a \<le> k \<and> k < unat a + Suc n then \<not> map_bit bm k else map_bit bm k)"
    using bm'(3) by auto
  moreover have "FlipBitRun_loop bm a (Suc n) = Some bm'"
    using bm'(1) i by (simp add: bit_addr_parts mem_simps w_def Let_def)
  ultimately show ?case using bm'(2) by blast
qed

text \<open>
  ToggleBitRun sets (val nonzero) or clears (val zero) exactly the nbits bits from bit_addr
  and keeps every other bit of the bitmap, without an access outside it.
\<close>

theorem ToggleBitRun_spec:
  assumes "unat bit_addr + unat nbits \<le> 32 * length bitmap" "32 * length bitmap < 2 ^ 32"
  shows "\<exists>bm'. ToggleBitRun bitmap bit_addr nbits val = Some bm' \<and> length bm' = length bitmap \<and>
     (\<forall>k < 32 * length bitmap. map_bit bm' k =
        (if unat bit_addr \<le> k \<and> k < unat bit_addr + unat nbits then val \<noteq> 0 else map_bit bitmap k))"
  unfolding ToggleBitRun_def by (rule ToggleBitRun_loop_spec [OF assms])

theorem ToggleBitRun_spec_witness:
  "\<exists>bm'. ToggleBitRun [0, 0] 30 4 1 = Some bm' \<and> length bm' = 2 \<and>
     (\<forall>k < 64. map_bit bm' k = (30 \<le> k \<and> k < 34))"
proof -
  have z: "\<not> map_bit [0, 0] k" if "k < 64" for k
    using that by (cases "k div 32") (auto simp: map_bit_def nth_Cons split: nat.splits)
  show ?thesis using ToggleBitRun_spec [of 30 4 "[0, 0]" 1] z by fastforce
qed

text \<open>
  FlipBitRun complements exactly the nbits bits from bit_addr and keeps every other bit of
  the bitmap, without an access outside it.
\<close>

theorem FlipBitRun_spec:
  assumes "unat bit_addr + unat nbits \<le> 32 * length bitmap" "32 * length bitmap < 2 ^ 32"
  shows "\<exists>bm'. FlipBitRun bitmap bit_addr nbits = Some bm' \<and> length bm' = length bitmap \<and>
     (\<forall>k < 32 * length bitmap. map_bit bm' k =
        (if unat bit_addr \<le> k \<and> k < unat bit_addr + unat nbits then \<not> map_bit bitmap k
         else map_bit bitmap k))"
  unfolding FlipBitRun_def by (rule FlipBitRun_loop_spec [OF assms])

theorem FlipBitRun_spec_witness:
  "\<exists>bm'. FlipBitRun [0xFF, 0] 4 40 = Some bm' \<and> length bm' = length [0xFF, 0 :: u32] \<and>
     (\<forall>k < 32 * length [0xFF, 0 :: u32]. map_bit bm' k =
        (if unat (4 :: u32) \<le> k \<and> k < unat (4 :: u32) + unat (40 :: u32)
         then \<not> map_bit [0xFF, 0] k else map_bit [0xFF, 0] k))"
  by (rule FlipBitRun_spec) simp_all

section \<open>One iteration of the benchmark\<close>

definition run_of :: "u32 list \<Rightarrow> nat \<Rightarrow> nat \<times> nat" where
  "run_of bitop i = (unat (bitop ! (i + i)), unat (bitop ! (i + i + 1)))"

definition apply_run :: "nat \<Rightarrow> nat \<times> nat \<Rightarrow> (nat \<Rightarrow> bool) \<Rightarrow> nat \<Rightarrow> bool" where
  "apply_run i r f k =
     (if fst r \<le> k \<and> k < fst r + snd r
      then (if i mod 3 = 0 then True else if i mod 3 = 1 then False else \<not> f k) else f k)"

primrec apply_upto :: "u32 list \<Rightarrow> nat \<Rightarrow> (nat \<Rightarrow> bool) \<Rightarrow> nat \<Rightarrow> bool" where
  "apply_upto bitop 0 f = f"
| "apply_upto bitop (Suc i) f = apply_run i (run_of bitop i) (apply_upto bitop i f)"

lemma alternating_word: "n < 32 \<Longrightarrow> bit (0x55555555 :: u32) n = even n"
proof -
  have "\<forall>n \<in> set [0..<32]. bit (0x55555555 :: u32) n = even n"
    by (simp add: upt_rec)
  then show "n < 32 \<Longrightarrow> bit (0x55555555 :: u32) n = even n" by simp
qed

lemma alternating_map: "k < 32 * n \<Longrightarrow> map_bit (replicate n 0x55555555) k = even k"
  using alternating_word [of "k mod 32"] by (simp add: map_bit_def div_less_iff_less_mult) presburger

lemma fill_loop:
  assumes "length m = n"
  shows "for_loop 0 n (\<lambda>i m. wr m i v) m = Some (replicate n v)"
proof -
  have "\<exists>m'. for_loop 0 n (\<lambda>i m. wr m i v) m = Some m' \<and>
     length m' = n \<and> (\<forall>j < 0 + n. m' ! j = v)"
    by (rule for_loop_rule) (auto simp: assms mem_simps nth_list_update less_Suc_eq)
  then obtain m' where m': "for_loop 0 n (\<lambda>i m. wr m i v) m = Some m'" "length m' = n"
    "\<forall>j < n. m' ! j = v" by auto
  have "m' = replicate n v" by (rule nth_equalityI) (use m' in auto)
  then show ?thesis using m'(1) by simp
qed

definition runs_ok :: "u32 list \<Rightarrow> nat \<Rightarrow> bool" where
  "runs_ok bitop n \<longleftrightarrow> (\<forall>i < n. fst (run_of bitop i) + snd (run_of bitop i) < 262140)"

lemma load_runs_loop:
  assumes "length bitop = 2 * n"
  shows "\<exists>bitop' nb s'. for_loop 0 n load_runs (bitop, 0, s) = Some (bitop', nb, s') \<and>
     length bitop' = 2 * n \<and> runs_ok bitop' n \<and>
     nb = of_nat (\<Sum>i < n. snd (run_of bitop' i))"
proof -
  define P where "P i st \<longleftrightarrow> length (fst st) = 2 * n \<and> runs_ok (fst st) i \<and>
      fst (snd st) = of_nat (\<Sum>i < i. snd (run_of (fst st) i))" for i and st :: "u32 list \<times> u32 \<times> rng"
  have "\<exists>st. for_loop 0 n load_runs (bitop, 0, s) = Some st \<and> P (0 + n) st"
  proof (rule for_loop_rule)
    show "P 0 (bitop, 0, s)" using assms by (simp add: P_def runs_ok_def)
    fix i st assume i: "0 \<le> i" "i < 0 + n" "P i st"
    obtain b nb s where st: "st = (b, nb, s)" by (cases st)
    have len: "length b = 2 * n" using i(3) by (simp add: P_def st)
    obtain off s1 l s2 where dr: "abs_randwc 262140 s = Some (off, s1)"
      "abs_randwc (262140 - off) s1 = Some (l, s2)" "unat off + unat l < unat (262140 :: u32)"
      using nbrand.draw_run [of 262140 s] by auto
    define b' where "b' = b[i + i := off, i + i + 1 := l]"
    have ro: "run_of b' j = (if j = i then (unat off, unat l) else run_of b j)" if "j \<le> i" for j
      using that i len by (auto simp: run_of_def b'_def nth_list_update)
    have "load_runs i st = Some (b', nb + l, s2)"
      using dr i len by (simp add: load_runs_def st mem_simps b'_def)
    moreover have "P (Suc i) (b', nb + l, s2)"
      using i(3) len dr(3) ro by (auto simp: P_def st runs_ok_def less_Suc_eq b'_def [symmetric])
        (simp add: b'_def)
    ultimately show "\<exists>s'. load_runs i st = Some s' \<and> P (Suc i) s'" by blast
  qed
  then show ?thesis by (auto simp: P_def)
qed

lemma run_op_spec:
  assumes "runs_ok bitop n" "i < n" "length bitop = 2 * n"
    and "262144 \<le> 32 * length bm" "32 * length bm < 2 ^ 32"
  shows "\<exists>bm'. run_op bitop i bm = Some bm' \<and> length bm' = length bm \<and>
     (\<forall>k < 32 * length bm. map_bit bm' k = apply_run i (run_of bitop i) (map_bit bm) k)"
proof -
  let ?o = "bitop ! (i + i)" and ?l = "bitop ! (i + i + 1)"
  have fit: "unat ?o + unat ?l \<le> 32 * length bm"
    using assms by (auto simp: runs_ok_def run_of_def)
  have rd: "rd bitop (i + i) = Some ?o" "rd bitop (i + i + 1) = Some ?l"
    using assms by (simp_all add: mem_simps)
  consider "i mod 3 = 0" | "i mod 3 = 1" | "i mod 3 = 2" by linarith
  then show ?thesis
  proof cases
    case 1
    obtain bm' where "ToggleBitRun_loop bm ?o (unat ?l) 1 = Some bm'" "length bm' = length bm"
      "\<forall>k < 32 * length bm. map_bit bm' k =
        (if unat ?o \<le> k \<and> k < unat ?o + unat ?l then (1 :: u32) \<noteq> 0 else map_bit bm k)"
      using ToggleBitRun_loop_spec [OF fit assms(5), of 1] by blast
    then show ?thesis using rd 1
      by (intro exI [of _ bm']) (simp add: run_op_def apply_run_def run_of_def ToggleBitRun_def)
  next
    case 2
    obtain bm' where "ToggleBitRun_loop bm ?o (unat ?l) 0 = Some bm'" "length bm' = length bm"
      "\<forall>k < 32 * length bm. map_bit bm' k =
        (if unat ?o \<le> k \<and> k < unat ?o + unat ?l then (0 :: u32) \<noteq> 0 else map_bit bm k)"
      using ToggleBitRun_loop_spec [OF fit assms(5), of 0] by blast
    then show ?thesis using rd 2
      by (intro exI [of _ bm']) (simp add: run_op_def apply_run_def run_of_def ToggleBitRun_def)
  next
    case 3
    obtain bm' where "FlipBitRun_loop bm ?o (unat ?l) = Some bm'" "length bm' = length bm"
      "\<forall>k < 32 * length bm. map_bit bm' k =
        (if unat ?o \<le> k \<and> k < unat ?o + unat ?l then \<not> map_bit bm k else map_bit bm k)"
      using FlipBitRun_loop_spec [OF fit assms(5)] by blast
    then show ?thesis using rd 3
      by (intro exI [of _ bm']) (simp add: run_op_def apply_run_def run_of_def FlipBitRun_def)
  qed
qed

text \<open>
  An iteration of the bitfield test resets the bitmap, draws runs that all lie inside it,
  reports the sum of their lengths, and leaves the bitmap that setting, clearing and complementing
  those runs in turn produces; no access leaves the arrays.
\<close>

theorem DoBitfieldIteration_spec:
  assumes "length bitarray = sz" "length bitop = 2 * n" "262144 \<le> 32 * sz" "32 * sz < 2 ^ 32"
  shows "\<exists>bm' bitop' nb s'. DoBitfieldIteration clk sz n bitarray bitop s w =
       Some (clk (clock_calls w + 1) - clk (clock_calls w), nb, bm', bitop', s',
             w\<lparr>clock_calls := clock_calls w + 2\<rparr>) \<and>
     length bm' = sz \<and> runs_ok bitop' n \<and> nb = of_nat (\<Sum>i < n. snd (run_of bitop' i)) \<and>
     (\<forall>k < 32 * sz. map_bit bm' k = apply_upto bitop' n even k)"
proof -
  obtain v1 s1 where s1: "randnum 13 s = Some (v1, s1)" using randnum_Some by blast
  obtain v2 s2 where s2: "randnum 13 s1 = Some (v2, s2)" using randnum_Some by blast
  obtain bitop' nb s3 where ld: "for_loop 0 n load_runs (bitop, 0, s2) = Some (bitop', nb, s3)"
    "length bitop' = 2 * n" "runs_ok bitop' n" "nb = of_nat (\<Sum>i < n. snd (run_of bitop' i))"
    using load_runs_loop [OF assms(2)] by blast
  define P where "P i bm \<longleftrightarrow> length bm = sz \<and>
    (\<forall>k < 32 * sz. map_bit bm k = apply_upto bitop' i even k)" for i bm
  have "\<exists>bm'. for_loop 0 n (run_op bitop') (replicate sz 0x55555555) = Some bm' \<and> P (0 + n) bm'"
  proof (rule for_loop_rule)
    show "P 0 (replicate sz 0x55555555)" by (simp add: P_def alternating_map)
    fix i bm assume i: "0 \<le> i" "i < 0 + n" "P i bm"
    then obtain bm' where bm': "run_op bitop' i bm = Some bm'" "length bm' = length bm"
      "\<forall>k < 32 * length bm. map_bit bm' k = apply_run i (run_of bitop' i) (map_bit bm) k"
      using run_op_spec [OF ld(3) _ ld(2), of i bm] assms by (auto simp: P_def)
    then have "P (Suc i) bm'" using i(3) by (auto simp: P_def apply_run_def)
    then show "\<exists>bm'. run_op bitop' i bm = Some bm' \<and> P (Suc i) bm'" using bm'(1) by blast
  qed
  then obtain bm' where bm': "for_loop 0 n (run_op bitop') (replicate sz 0x55555555) = Some bm'"
    "P n bm'" by auto
  have "DoBitfieldIteration clk sz n bitarray bitop s w =
       Some (clk (clock_calls w + 1) - clk (clock_calls w), nb, bm', bitop', s3,
             w\<lparr>clock_calls := clock_calls w + 2\<rparr>)"
    using s1 s2 ld(1) bm'(1) assms(1)
    by (simp add: DoBitfieldIteration_def fill_loop StartStopwatch_def StopStopwatch_def)
  then show ?thesis using ld bm'(2) by (auto simp: P_def)
qed

theorem DoBitfieldIteration_spec_witness:
  "\<exists>bm' bitop' nb s'. DoBitfieldIteration (\<lambda>n. of_nat n) 8192 30 (replicate 8192 0) (replicate 60 0)
       rng_init sys0 = Some (1, nb, bm', bitop', s', sys0\<lparr>clock_calls := 2\<rparr>) \<and>
     length bm' = 8192 \<and> runs_ok bitop' 30 \<and>
     (\<forall>k < 262144. map_bit bm' k = apply_upto bitop' 30 even k)"
  using DoBitfieldIteration_spec [of "replicate 8192 0" 8192 "replicate 60 0" 30 "\<lambda>n. of_nat n"
      rng_init sys0]
  by (clarsimp simp: sys0_def simp del: replicate.simps)

end
