(* ===== verification/Idea.thy ===== *)
theory Idea
  imports NB_Prelude
begin

text \<open>
  The IDEA cipher of \<open>nbench1.c\<close>.  Subkey arrays are lists; a pointer that is read and
  advanced (\<open>*Z++\<close>) is the list of what is still ahead of it, and reading past its end is
  \<open>None\<close>; \<open>*--p = v\<close> puts \<open>v\<close> in front.  Integer promotion to \<open>int\<close> followed by truncation
  to \<open>u16\<close> is arithmetic on 16-bit words.
\<close>

section \<open>The code\<close>

definition low16 :: "u16 \<Rightarrow> u16" where
  "low16 x = x AND 0xFFFF"

definition mul :: "u16 \<Rightarrow> u16 \<Rightarrow> u16" where
  "mul a b =
     (if a \<noteq> 0 then
        if b \<noteq> 0 then
          let p = (ucast a * ucast b :: u32);
              b = (ucast (p AND 0xFFFF) :: u16);
              a = (ucast (drop_bit 16 p) :: u16)
          in b - a + (if b < a then 1 else 0)
        else 1 - a
      else 1 - b)"

text \<open>The loop of \<open>inv\<close>; a division by zero traps.\<close>

function inv16_loop :: "u16 \<Rightarrow> u16 \<Rightarrow> u16 \<Rightarrow> u16 \<Rightarrow> u16 option" where
  "inv16_loop x y t0 t1 =
     (if y = 0 then None
      else let q = x div y; x' = x mod y; t0 = t0 + q * t1 in
        if x' = 1 then Some t0
        else if x' = 0 then None
        else let q = y div x'; y = y mod x'; t1 = t1 + q * t0 in
          if y \<noteq> 1 then inv16_loop x' y t0 t1 else Some (low16 (1 - t1)))"
  by pat_completeness auto
termination
proof (relation "measure (\<lambda>(x, y, t0, t1). unat y)", goal_cases)
  case (2 x y t0 t1 q x' t0' q' y' t1')
  then have "0 < unat y" "0 < unat x'" by (simp_all only: unat_gt_0) simp_all
  then have "unat x' < unat y" "unat y' < unat x'" using 2 by (simp_all only: unat_mod mod_less_divisor)
  then show ?case by simp
qed simp

declare inv16_loop.simps [simp del]

definition inv16 :: "u16 \<Rightarrow> u16 option" where
  "inv16 x =
     (if x \<le> 1 then Some x
      else let t1 = (ucast ((0x10001 :: u32) div ucast x) :: u16);
               y = (ucast ((0x10001 :: u32) mod ucast x) :: u16)
        in if y = 1 then Some (low16 (1 - t1)) else inv16_loop x y 1 t1)"

definition en_key_step :: "nat \<Rightarrow> u16 list \<times> nat \<times> nat \<Rightarrow> (u16 list \<times> nat \<times> nat) option" where
  "en_key_step j st =
     (case st of (Z, base, i) \<Rightarrow>
        do {
          let i = i + 1;
          a \<leftarrow> rd Z (base + (i AND 7));
          b \<leftarrow> rd Z (base + ((i + 1) AND 7));
          Z \<leftarrow> wr Z (base + (i + 7)) (push_bit 9 a OR drop_bit 7 b);
          Some (Z, base + (i AND 8), i AND 7)
        })"

definition en_key_idea :: "u16 list \<Rightarrow> u16 list \<Rightarrow> u16 list option" where
  "en_key_idea userkey Z =
     do {
       Z \<leftarrow> for_range 0 8 (\<lambda>j Z. do { v \<leftarrow> rd userkey j; wr Z j v }) Z;
       (Z, base, i) \<leftarrow> for_range 8 52 en_key_step (Z, 0, 0);
       Some Z
     }"

fun de_key_loop :: "nat \<Rightarrow> u16 list \<Rightarrow> u16 list \<Rightarrow> (u16 list \<times> u16 list) option" where
  "de_key_loop 0 Z p = Some (Z, p)"
| "de_key_loop (Suc j) (z0 # z1 # z2 # z3 # z4 # z5 # Z) p =
     do {
       let p = z0 # z1 # p;
       t1 \<leftarrow> inv16 z2;
       let t2 = - z3;
       let t3 = - z4;
       t4 \<leftarrow> inv16 z5;
       de_key_loop j Z (t1 # t3 # t2 # t4 # p)
     }"
| "de_key_loop (Suc j) _ p = None"

definition de_key_idea :: "u16 list \<Rightarrow> u16 list option" where
  "de_key_idea Z =
     (case Z of
        z0 # z1 # z2 # z3 # Z \<Rightarrow>
          do {
            t1 \<leftarrow> inv16 z0;
            let t2 = - z1;
            let t3 = - z2;
            t4 \<leftarrow> inv16 z3;
            (Z, p) \<leftarrow> de_key_loop 7 Z [t1, t2, t3, t4];
            case Z of
              z0 # z1 # z2 # z3 # z4 # z5 # _ \<Rightarrow>
                do {
                  let p = z0 # z1 # p;
                  t1 \<leftarrow> inv16 z2;
                  let t2 = - z3;
                  let t3 = - z4;
                  t4 \<leftarrow> inv16 z5;
                  Some (t1 # t2 # t3 # t4 # p)
                }
            | _ \<Rightarrow> None
          }
      | _ \<Rightarrow> None)"

type_synonym block = "u16 \<times> u16 \<times> u16 \<times> u16"

fun cipher_rounds :: "nat \<Rightarrow> u16 list \<Rightarrow> block \<Rightarrow> (block \<times> u16 list) option" where
  "cipher_rounds 0 Z st = Some (st, Z)"
| "cipher_rounds (Suc r) (z0 # z1 # z2 # z3 # z4 # z5 # Z) (x1, x2, x3, x4) =
     (let x1 = mul (low16 x1) z0;
          x2 = x2 + z1;
          x3 = x3 + z2;
          x4 = mul (low16 x4) z3;
          t2 = x1 XOR x3;
          t2 = mul (low16 t2) z4;
          t1 = t2 + (x2 XOR x4);
          t1 = mul (low16 t1) z5;
          t2 = t1 + t2;
          x1 = x1 XOR t1;
          x4 = x4 XOR t2;
          t2 = t2 XOR x2;
          x2 = x3 XOR t1;
          x3 = t2
      in cipher_rounds r Z (x1, x2, x3, x4))"
| "cipher_rounds (Suc r) _ st = None"

definition cipher_idea :: "block \<Rightarrow> u16 list \<Rightarrow> block option" where
  "cipher_idea in_blk Z =
     do {
       ((x1, x2, x3, x4), Z) \<leftarrow> cipher_rounds 8 Z in_blk;
       case Z of
         z0 # z1 # z2 # z3 # _ \<Rightarrow> Some (mul (low16 x1) z0, x3 + z1, x2 + z2, mul (low16 x4) z3)
       | _ \<Rightarrow> None
     }"

section \<open>Arithmetic modulo 65537\<close>

text \<open>The 16-bit word 0 stands for \<open>2 ^ 16\<close>.\<close>

definition rep :: "u16 \<Rightarrow> nat" where
  "rep x = (if x = 0 then 65536 else unat x)"

lemma rep_range: "0 < rep x" "rep x < 65537"
  using unat16_less [of x] by (auto simp: rep_def unat_gt_0)

lemma rep_inj: "rep x = rep y \<Longrightarrow> x = y"
  using unat16_less [of x] unat16_less [of y]
  by (auto simp: rep_def word_unat_eq_iff split: if_splits)

lemma no_small_divisor: "\<forall>d \<in> set [2..<257]. (65537 :: nat) mod d \<noteq> 0"
  by (simp add: upt_rec)

lemma fermat_dvd: "d dvd (65537 :: nat) \<Longrightarrow> d = 1 \<or> d = 65537"
proof -
  assume "d dvd 65537"
  then obtain e where e: "65537 = d * e" by (rule dvdE)
  have pos: "0 < d" "0 < e" using e by (auto intro: Nat.gr0I)
  have small: "x = 1" if x: "x dvd 65537" "0 < x" "x < 257" for x :: nat
    using no_small_divisor x by (metis atLeastLessThan_iff atLeastLessThan_upt dvd_eq_mod_eq_0
        less_one linorder_not_less nat_less_le Suc_1 Suc_leI One_nat_def)
  have "d < 257 \<or> e < 257"
  proof (rule ccontr)
    assume "\<not> (d < 257 \<or> e < 257)"
    then have "257 * 257 \<le> d * e" by (intro mult_le_mono) auto
    then show False using e by simp
  qed
  then show ?thesis using small [of d] small [of e] e pos by auto
qed

lemma coprime_65537: "0 < a \<Longrightarrow> a < 65537 \<Longrightarrow> gcd 65537 (a :: nat) = 1"
proof -
  assume a: "0 < a" "a < 65537"
  have "gcd 65537 a \<le> a" using a by (intro dvd_imp_le) auto
  then show ?thesis using fermat_dvd [of "gcd 65537 a"] a by (metis gcd_dvd1 not_less)
qed

lemma dvd_mult_small:
  assumes "(65537 :: nat) dvd a * b" "0 < a" "a < 65537" "0 < b" "b < 65537"
  shows False
proof -
  have "coprime 65537 a" using coprime_65537 [of a] assms by (simp add: coprime_iff_gcd_eq_1)
  then have "65537 dvd b" using assms(1) by (simp add: coprime_dvd_mult_right_iff)
  then show False using assms by (auto dest: dvd_imp_le)
qed

text \<open>The product of two nonzero words, split into its halves.\<close>

lemma mul_halves:
  fixes a b :: u16
  defines "p \<equiv> (ucast a * ucast b :: u32)"
  shows "unat (ucast (p AND 0xFFFF) :: u16) = (unat a * unat b) mod 65536"
    and "unat (ucast (drop_bit 16 p) :: u16) = (unat a * unat b) div 65536"
proof -
  have "unat a * unat b \<le> 65535 * 65535"
    using unat16_less [of a] unat16_less [of b] by (intro mult_le_mono) auto
  then have p: "unat p = unat a * unat b"
    using unat16_less [of a] unat16_less [of b]
    by (simp add: p_def unat_word_ariths unsigned_ucast_eq take_bit_nat_def)
  have m: "p AND 0xFFFF = p mod 65536"
    using take_bit_eq_mask [of 16 p] by (simp add: mask_eq_exp_minus_1 take_bit_eq_mod)
  show "unat (ucast (p AND 0xFFFF) :: u16) = (unat a * unat b) mod 65536"
    by (simp add: m unsigned_ucast_eq take_bit_nat_def unat_mod p)
  have "unat a * unat b div 65536 < 65536"
    using \<open>unat a * unat b \<le> 65535 * 65535\<close> by (simp add: div_less_iff_less_mult)
  then show "unat (ucast (drop_bit 16 p) :: u16) = (unat a * unat b) div 65536"
    by (simp add: unsigned_ucast_eq take_bit_nat_def drop_bit_eq_div unat_div p)
qed

lemma mod_fermat_ge:
  assumes "(p :: nat) = hi * 65536 + lo" "lo = hi + r" "r < 65537"
  shows "p mod 65537 = r"
proof -
  have "p = r + 65537 * hi" using assms by linarith
  then show ?thesis using assms(3) by simp
qed

lemma mod_fermat_lt:
  assumes "(p :: nat) = hi * 65536 + lo" "r + hi = lo + 65537" "r < 65537"
  shows "p mod 65537 = r"
proof -
  obtain h where h: "hi = Suc h" using assms(2,3) by (cases hi) auto
  have "p = r + 65537 * h" using assms(1,2) h by linarith
  then show ?thesis using assms(3) by simp
qed

lemma rep_unat_mod:
  assumes "unat (c :: u16) = j mod 65536" "0 < j" "j \<le> 65536"
  shows "rep c = j"
proof (cases "j = 65536")
  case True
  then have "c = 0" using assms(1) by (simp add: word_unat_eq_iff)
  then show ?thesis using True by (simp add: rep_def)
next
  case False
  then have "unat c = j" using assms by simp
  then show ?thesis using assms(2) by (auto simp: rep_def)
qed

lemma rep_one_minus:
  "rep (1 - a) = (65536 * rep a) mod 65537"
proof -
  obtain k where k: "rep a = Suc k" using rep_range(1) [of a] gr0_conv_Suc by blast
  obtain j where j: "rep a + j = 65537" using rep_range(2) [of a] le_Suc_ex less_imp_le by metis
  have j': "0 < j" "j \<le> 65536" using j k rep_range(2) [of a] by linarith+
  have "65536 * rep a = j + 65537 * k" using j k by linarith
  then have m: "(65536 * rep a) mod 65537 = j" using j' by simp
  have "unat (1 - a) = j mod 65536"
  proof (cases "a = 0")
    case True
    then show ?thesis using j by (simp add: rep_def)
  next
    case a: False
    then have r: "rep a = unat a" by (simp add: rep_def)
    show ?thesis
    proof (cases "a = 1")
      case True
      then show ?thesis using j r by simp
    next
      case False
      then have "unat a \<noteq> 1" "unat a \<noteq> 0" using a by (simp_all add: word_unat_eq_iff)
      then have nle: "\<not> unat a \<le> 1" and "j < 65536" using j r by linarith+
      have "unat (1 - a) + unat a = 65537"
        using nle unat16_less [of a] by (simp add: unat_sub_if')
      then have "unat (1 - a) = j" using j r by linarith
      then show ?thesis using \<open>j < 65536\<close> by simp
    qed
  qed
  then show ?thesis using rep_unat_mod j' m by simp
qed

lemma rep_mul: "rep (mul a b) = (rep a * rep b) mod 65537"
proof (cases "a = 0 \<or> b = 0")
  case True
  then show ?thesis
    using rep_one_minus [of a] rep_one_minus [of b]
    by (auto simp: mul_def rep_def [of 0] mult.commute)
next
  case nz: False
  define p where "p = unat a * unat b"
  define lo where "lo = p mod 65536"
  define hi where "hi = p div 65536"
  define b' :: u16 where "b' = ucast ((ucast a * ucast b :: u32) AND 0xFFFF)"
  define a' :: u16 where "a' = ucast (drop_bit 16 (ucast a * ucast b :: u32))"
  have u: "unat b' = lo" "unat a' = hi"
    using mul_halves [of a b] by (simp_all add: a'_def b'_def lo_def hi_def p_def)
  have hb: "hi < 65536" "lo < 65536" using u unat16_less by metis+
  have p: "p = hi * 65536 + lo" by (simp add: hi_def lo_def)
  have m: "mul a b = b' - a' + (if b' < a' then 1 else 0)"
    using nz by (simp add: mul_def Let_def a'_def b'_def)
  have pm: "p mod 65537 \<noteq> 0"
    using dvd_mult_small [of "unat a" "unat b"] nz unat16_less [of a] unat16_less [of b]
    by (auto simp: p_def dvd_eq_mod_eq_0 unat_gt_0)
  have "rep (mul a b) = p mod 65537"
  proof (cases "hi \<le> lo")
    case True
    then obtain r where r: "lo = hi + r" using le_Suc_ex by blast
    have pr: "p mod 65537 = r" by (rule mod_fermat_ge [OF p r]) (use r hb in linarith)
    have "mul a b = b' - a'" using u True by (simp add: m word_less_nat_alt)
    then have "unat (mul a b) = r" using u r by (simp add: unat_sub_if')
    moreover have "0 < r" "r < 65536" using pm pr r hb by linarith+
    ultimately show ?thesis using pr by (intro rep_unat_mod) simp_all
  next
    case False
    have "hi \<le> lo + 65537" using hb by linarith
    then obtain r where "lo + 65537 = hi + r" using le_Suc_ex by blast
    then have r: "r + hi = lo + 65537" by linarith
    have rl: "r < 65537" "0 < r" using r False hb by linarith+
    have pr: "p mod 65537 = r" by (rule mod_fermat_lt [OF p r rl(1)])
    have m1: "mul a b = b' - a' + 1" using u False by (simp add: m word_less_nat_alt)
    have "unat (b' - a') + hi = lo + 65536"
      using u False hb by (simp add: unat_sub_if')
    then have "unat (b' - a') + 1 = r" using r by linarith
    then have "unat (mul a b) = r mod 65536" by (simp add: m1 unat_word_ariths)
    then show ?thesis using pr rl by (intro rep_unat_mod) simp_all
  qed
  then show ?thesis using nz by (simp add: rep_def p_def)
qed

section \<open>The multiplicative inverse\<close>

lemma low16_id [simp]: "low16 x = x"
proof -
  have "(0xFFFF :: u16) = - 1" by simp
  then show ?thesis unfolding low16_def by (simp only: and.right_neutral)
qed

lemma unat16_muladd:
  fixes a b q :: u16
  assumes "unat a + unat q * unat b < 65536"
  shows "unat (a + q * b) = unat a + unat q * unat b"
  using assms by (simp add: unat_word_ariths mod_simps)

text \<open>One half-step of Euclid's algorithm keeps the linear combination.\<close>

lemma euclid_comb: "(x :: nat) * t1 + y * t0 = n \<Longrightarrow> (x mod y) * t1 + y * (t0 + (x div y) * t1) = n"
proof -
  assume "x * t1 + y * t0 = n"
  moreover have "x * t1 = (x mod y) * t1 + y * ((x div y) * t1)"
    by (metis add.commute distrib_right mult.assoc mult_div_mod_eq)
  ultimately show ?thesis by (simp add: distrib_left)
qed

lemma euclid_cong_pos:
  assumes "(n :: int) dvd int x - int t0 * X" "n dvd int y + int t1 * X"
  shows "n dvd int (x mod y) - int (t0 + (x div y) * t1) * X"
proof -
  have "int (x mod y) = int x - int (x div y) * int y"
    by (metis add_diff_cancel_left' div_mult_mod_eq of_nat_add of_nat_mult)
  then have "int (x mod y) - int (t0 + (x div y) * t1) * X =
      (int x - int t0 * X) - int (x div y) * (int y + int t1 * X)"
    by (simp add: algebra_simps)
  then show ?thesis using assms by (simp add: dvd_diff)
qed

lemma euclid_cong_neg:
  assumes "(n :: int) dvd int x - int t0 * X" "n dvd int y + int t1 * X"
  shows "n dvd int (y mod x) + int (t1 + (y div x) * t0) * X"
proof -
  have "int (y mod x) = int y - int (y div x) * int x"
    by (metis add_diff_cancel_left' div_mult_mod_eq of_nat_add of_nat_mult)
  then have "int (y mod x) + int (t1 + (y div x) * t0) * X =
      (int y + int t1 * X) - int (y div x) * (int x - int t0 * X)"
    by (simp add: algebra_simps)
  then show ?thesis using assms by (simp add: dvd_diff)
qed

lemma gcd_mod_left: "gcd (x mod y) y = gcd (x :: nat) y"
  by (metis gcd.commute gcd_red_nat)

lemma unat16_ge2: "unat (x :: u16) \<noteq> 0 \<Longrightarrow> x \<noteq> 1 \<Longrightarrow> 2 \<le> unat x"
proof -
  assume "unat x \<noteq> 0" "x \<noteq> 1"
  moreover from this have "unat x \<noteq> 1" by (simp add: word_unat_eq_iff)
  ultimately show ?thesis by linarith
qed

text \<open>\<open>1 - t\<close> on words is the negation modulo 65537.\<close>

lemma rep_one_minus_cong:
  assumes "unat (t :: u16) \<noteq> 0"
  shows "int (rep (1 - t)) = 65537 - int (unat t)"
proof -
  have "unat t \<le> 65537" using unat16_less [of t] by linarith
  then obtain j where j: "unat t + j = 65537" using le_Suc_ex [of "unat t" 65537] by metis
  have "rep (1 - t) = j"
  proof (rule rep_unat_mod)
    show "0 < j" "j \<le> 65536" using j assms unat16_less [of t] by linarith+
    show "unat (1 - t) = j mod 65536"
    proof (cases "t = 1")
      case True
      then show ?thesis using j by simp
    next
      case False
      then have "2 \<le> unat t" using assms unat16_ge2 by blast
      then have "unat (1 - t) + unat t = 65537" "j < 65536"
        using unat16_less [of t] j by (simp_all add: unat_sub_if')
      then show ?thesis using j by simp
    qed
  qed
  then show ?thesis using j by linarith
qed

definition inv_inv :: "int \<Rightarrow> nat \<Rightarrow> nat \<Rightarrow> nat \<Rightarrow> nat \<Rightarrow> bool" where
  "inv_inv X x y t0 t1 \<longleftrightarrow> 2 \<le> y \<and> 2 \<le> x \<and> 0 < t0 \<and> 0 < t1 \<and> x * t1 + y * t0 = 65537 \<and> gcd x y = 1 \<and>
     65537 dvd int x - int t0 * X \<and> 65537 dvd int y + int t1 * X"

lemma mult_ge2_less: "2 \<le> (x :: nat) \<Longrightarrow> x * t + z = 65537 \<Longrightarrow> t < 65536"
  using mult_le_mono1 [of 2 x t] by linarith

lemma rep_nonzero: "unat (t :: u16) \<noteq> 0 \<Longrightarrow> rep t = unat t"
  by (auto simp: rep_def)

lemma inv16_result:
  assumes "65537 dvd 1 + int t * X" "unat w = t" "0 < t"
  shows "65537 dvd int (rep (1 - w)) * X - 1"
proof -
  have e: "int (rep (1 - w)) = 65537 - int t" using rep_one_minus_cong [of w] assms by simp
  have "int (rep (1 - w)) * X - 1 = 65537 * X - (1 + int t * X)"
    unfolding e by (simp add: left_diff_distrib)
  then show ?thesis using assms(1) by (simp only: dvd_diff dvd_triv_left)
qed

lemma inv16_loop_ok:
  assumes "inv_inv X (unat x) (unat y) (unat t0) (unat t1)"
  shows "\<exists>r. inv16_loop x y t0 t1 = Some r \<and> 65537 dvd int (rep r) * X - 1"
  using assms
proof (induction x y t0 t1 rule: inv16_loop.induct)
  case (1 x y t0 t1)
  define q where "q = x div y"
  define x' where "x' = x mod y"
  define s0 where "s0 = t0 + q * t1"
  define q' where "q' = y div x'"
  define y' where "y' = y mod x'"
  define s1 where "s1 = t1 + q' * s0"
  have I: "2 \<le> unat y" "0 < unat t0" "0 < unat t1" "unat x * unat t1 + unat y * unat t0 = 65537"
      "gcd (unat x) (unat y) = 1" "65537 dvd int (unat x) - int (unat t0) * X"
      "65537 dvd int (unat y) + int (unat t1) * X"
    using 1(2) by (simp_all add: inv_inv_def)
  have ynz: "y \<noteq> 0" using I(1) by auto
  have e0: "unat x' * unat t1 + unat y * (unat t0 + unat q * unat t1) = 65537"
    using euclid_comb [OF I(4)] by (simp add: x'_def q_def unat_mod unat_div)
  have "unat t0 + unat q * unat t1 < 65536"
    using mult_ge2_less [OF I(1), of _ "unat x' * unat t1"] e0 by (simp add: add.commute)
  then have s0: "unat s0 = unat t0 + unat q * unat t1" unfolding s0_def by (rule unat16_muladd)
  have e0': "unat x' * unat t1 + unat y * unat s0 = 65537" using e0 s0 by simp
  have c0: "65537 dvd int (unat x') - int (unat s0) * X"
    using euclid_cong_pos [OF I(6,7)] s0 by (simp add: x'_def q_def unat_mod unat_div)
  have g0: "gcd (unat x') (unat y) = 1"
    using I(5) gcd_mod_left [of "unat x" "unat y"] by (simp add: x'_def unat_mod)
  have x'nz: "unat x' \<noteq> 0" using g0 I(1) by (intro notI) simp
  then have x'0: "x' \<noteq> 0" by auto
  have s0pos: "0 < unat s0" using s0 I(2) by simp
  show ?case
  proof (cases "x' = 1")
    case True
    then have "inv16_loop x y t0 t1 = Some s0"
      using ynz by (subst inv16_loop.simps) (simp add: Let_def x'_def [symmetric] q_def [symmetric] s0_def)
    moreover have "65537 dvd int (rep s0) * X - 1"
      using c0 True rep_nonzero [of s0] s0pos by (simp add: dvd_diff_commute)
    ultimately show ?thesis by blast
  next
    case x'1: False
    then have x'2: "2 \<le> unat x'" using x'nz unat16_ge2 by blast
    have e1: "unat x' * (unat t1 + unat q' * unat s0) + unat y' * unat s0 = 65537"
      using euclid_comb [of "unat y" "unat s0" "unat x'" "unat t1"] e0'
      by (simp add: y'_def q'_def unat_mod unat_div add.commute)
    have "unat t1 + unat q' * unat s0 < 65536" by (rule mult_ge2_less [OF x'2 e1])
    then have s1: "unat s1 = unat t1 + unat q' * unat s0" unfolding s1_def by (rule unat16_muladd)
    have e1': "unat x' * unat s1 + unat y' * unat s0 = 65537" using e1 s1 by simp
    have c1: "65537 dvd int (unat y') + int (unat s1) * X"
      using euclid_cong_neg [OF c0 I(7)] s1 by (simp add: y'_def q'_def unat_mod unat_div)
    have g1: "gcd (unat x') (unat y') = 1"
      using g0 gcd_mod_left [of "unat y" "unat x'"] by (simp add: y'_def unat_mod gcd.commute)
    have y'nz: "unat y' \<noteq> 0" using g1 x'2 by (intro notI) simp
    have s1pos: "0 < unat s1" using s1 I(3) by simp
    show ?thesis
    proof (cases "y' = 1")
      case True
      then have "inv16_loop x y t0 t1 = Some (low16 (1 - s1))"
        using ynz x'0 x'1 by (subst inv16_loop.simps)
          (simp add: Let_def x'_def [symmetric] q_def [symmetric] s0_def [symmetric]
            y'_def [symmetric] q'_def [symmetric] s1_def)
      moreover have "65537 dvd int (rep (1 - s1)) * X - 1"
        using c1 True s1pos by (intro inv16_result) simp_all
      ultimately show ?thesis by simp
    next
      case False
      then have "inv16_loop x y t0 t1 = inv16_loop x' y' s0 s1"
        using ynz x'0 x'1 by (subst inv16_loop.simps)
          (simp add: Let_def x'_def [symmetric] q_def [symmetric] s0_def [symmetric]
            y'_def [symmetric] q'_def [symmetric] s1_def)
      moreover have "inv_inv X (unat x') (unat y') (unat s0) (unat s1)"
        using False y'nz unat16_ge2 x'2 s0pos s1pos e1' g1 c0 c1 unfolding inv_inv_def by blast
      then have "\<exists>r. inv16_loop x' y' s0 s1 = Some r \<and> 65537 dvd int (rep r) * X - 1"
        using 1(1) [OF ynz q_def x'_def s0_def x'1 x'0 q'_def y'_def s1_def False] by blast
      ultimately show ?thesis by simp
    qed
  qed
qed

lemma inv16_ok: "\<exists>r. inv16 x = Some r \<and> (rep r * rep x) mod 65537 = 1"
proof -
  have "\<exists>r. inv16 x = Some r \<and> 65537 dvd int (rep r) * int (rep x) - 1"
  proof (cases "x \<le> 1")
    case True
    then have "x = 0 \<or> x = 1" by (metis word_le_less_eq word_less_1)
    then show ?thesis by (auto simp: inv16_def rep_def)
  next
    case False
    then have x2: "2 \<le> unat x" by (simp add: word_le_nat_alt)
    have rx: "rep x = unat x" using x2 by (intro rep_nonzero) simp
    define q where "q = (65537 :: nat) div unat x"
    define t where "t = (ucast ((0x10001 :: u32) div ucast x) :: u16)"
    define y where "y = (ucast ((0x10001 :: u32) mod ucast x) :: u16)"
    have xm: "unat x mod 4294967296 = unat x" using unat16_less [of x] by simp
    have "q < 65536" using x2 by (simp add: q_def div_less_iff_less_mult)
    then have t: "unat t = q"
      by (simp add: t_def q_def unsigned_ucast_eq take_bit_nat_def unat_div xm)
    have "65537 mod unat x < unat x" using x2 by (intro mod_less_divisor) linarith
    then have "65537 mod unat x < 65536" using unat16_less [of x] by linarith
    then have y: "unat y = 65537 mod unat x"
      by (simp add: y_def unsigned_ucast_eq take_bit_nat_def unat_mod xm)
    have sum: "unat x * unat t + unat y = 65537" using t y by (simp add: q_def)
    have tpos: "0 < unat t" using t unat16_less [of x] x2 by (simp add: q_def div_greater_zero_iff)
    have g: "gcd (unat x) (unat y) = 1"
    proof -
      have "gcd 65537 (unat x) = 1" using x2 unat16_less [of x] by (intro coprime_65537) linarith+
      then have "gcd (65537 mod unat x) (unat x) = 1" by (simp only: gcd_mod_left)
      then show ?thesis using y by (simp only: gcd.commute)
    qed
    have ynz: "unat y \<noteq> 0" using g x2 by (intro notI) simp
    have c: "65537 dvd int (unat y) + int (unat t) * int (unat x)"
      using sum by (metis add.commute dvd_refl mult.commute of_nat_add of_nat_mult of_nat_numeral)
    show ?thesis
    proof (cases "y = 1")
      case True
      then have "inv16 x = Some (1 - t)" using False by (simp add: inv16_def Let_def y_def t_def)
      moreover have "65537 dvd int (rep (1 - t)) * int (rep x) - 1"
        using c True tpos rx by (intro inv16_result) simp_all
      ultimately show ?thesis by blast
    next
      case y1: False
      have "inv_inv (int (rep x)) (unat x) (unat y) (unat 1) (unat t)"
        using x2 tpos sum g c rx unat16_ge2 [OF ynz y1] by (simp add: inv_inv_def)
      then have "\<exists>r. inv16_loop x y 1 t = Some r \<and> 65537 dvd int (rep r) * int (rep x) - 1"
        by (rule inv16_loop_ok)
      moreover have "inv16 x = inv16_loop x y 1 t"
        using False y1 by (simp add: inv16_def Let_def y_def t_def)
      ultimately show ?thesis by simp
    qed
  qed
  then obtain r where r: "inv16 x = Some r" "65537 dvd int (rep r) * int (rep x) - 1" by blast
  have "int (rep r * rep x) mod 65537 = 1 mod 65537"
    using r(2) by (simp only: mod_eq_dvd_iff of_nat_mult)
  then have "int ((rep r * rep x) mod 65537) = int 1" by (simp only: zmod_int) simp
  then have "(rep r * rep x) mod 65537 = 1" by (simp only: of_nat_eq_iff)
  then show ?thesis using r(1) by blast
qed

end
