(* ===== verification/Idea_Cipher.thy ===== *)
theory Idea_Cipher
  imports Idea Sysspec
begin

text \<open>
  What the IDEA routines of \<open>nbench1.c\<close> achieve: \<open>inv\<close> computes the inverse of \<open>mul\<close>, the
  key schedule rotates the 128-bit user key, and \<open>cipher_idea\<close> under \<open>de_key_idea Z\<close> undoes
  \<open>cipher_idea\<close> under \<open>Z\<close>.  The last one is proved once for any cipher that alternates an
  invertible key layer with an involution (locale \<open>layered_cipher\<close>) and then read off the
  code's round functions.
\<close>

section \<open>The buffers of the iteration\<close>

text \<open>
  The buffers are bytes; \<open>cipher_idea\<close> reads and writes them as 16-bit words in the byte
  order of the target, the flag \<open>be\<close>.
\<close>

definition load16 :: "bool \<Rightarrow> u8 list \<Rightarrow> nat \<Rightarrow> u16 option" where
  "load16 be m k =
     do {
       a \<leftarrow> rd m k;
       b \<leftarrow> rd m (k + 1);
       Some (if be then push_bit 8 (ucast a) OR ucast b else push_bit 8 (ucast b) OR ucast a)
     }"

definition store16 :: "bool \<Rightarrow> u8 list \<Rightarrow> nat \<Rightarrow> u16 \<Rightarrow> u8 list option" where
  "store16 be m k v =
     do {
       let hi = (ucast (drop_bit 8 v) :: u8);
       let lo = (ucast v :: u8);
       m \<leftarrow> wr m k (if be then hi else lo);
       wr m (k + 1) (if be then lo else hi)
     }"

definition cipher_at :: "bool \<Rightarrow> u16 list \<Rightarrow> u8 list \<Rightarrow> nat \<Rightarrow> u8 list \<Rightarrow> u8 list option" where
  "cipher_at be Z src j dst =
     do {
       x1 \<leftarrow> load16 be src j;
       x2 \<leftarrow> load16 be src (j + 2);
       x3 \<leftarrow> load16 be src (j + 4);
       x4 \<leftarrow> load16 be src (j + 6);
       (y1, y2, y3, y4) \<leftarrow> cipher_idea (x1, x2, x3, x4) Z;
       dst \<leftarrow> store16 be dst j y1;
       dst \<leftarrow> store16 be dst (j + 2) y2;
       dst \<leftarrow> store16 be dst (j + 4) y3;
       store16 be dst (j + 6) y4
     }"

text \<open>\<open>for (j = 0; j < arraysize; j += sizeof(u16) * 4)\<close>: \<open>(arraysize + 7) div 8\<close> blocks.\<close>

definition cipher_buffer :: "bool \<Rightarrow> u16 list \<Rightarrow> nat \<Rightarrow> u8 list \<Rightarrow> u8 list \<Rightarrow> u8 list option" where
  "cipher_buffer be Z arraysize src dst =
     for_range 0 ((arraysize + 7) div 8) (\<lambda>b. cipher_at be Z src (8 * b)) dst"

definition DoIDEAIteration ::
    "clock_fn \<Rightarrow> bool \<Rightarrow> u8 list \<Rightarrow> u8 list \<Rightarrow> u8 list \<Rightarrow> nat \<Rightarrow> nat \<Rightarrow> u16 list \<Rightarrow> u16 list \<Rightarrow> sys \<Rightarrow>
     (u32 \<times> u8 list \<times> u8 list \<times> sys) option" where
  "DoIDEAIteration clk be plain1 crypt1 plain2 arraysize nloops Z DK w =
     do {
       let (elapsed, w) = StartStopwatch clk w;
       (crypt1, plain2) \<leftarrow> for_range 0 nloops (\<lambda>i (crypt1, plain2).
          do {
            crypt1 \<leftarrow> cipher_buffer be Z arraysize plain1 crypt1;
            plain2 \<leftarrow> cipher_buffer be DK arraysize crypt1 plain2;
            Some (crypt1, plain2)
          }) (crypt1, plain2);
       let (elapsed, w) = StopStopwatch clk elapsed w;
       Some (elapsed, crypt1, plain2, w)
     }"

section \<open>The group of nonzero residues\<close>

lemma rep_1: "rep 1 = 1"
  by (simp add: rep_def)

lemma mul_comm: "mul a b = mul b a"
  by (rule rep_inj) (simp add: rep_mul mult.commute)

lemma mul_assoc: "mul (mul a b) c = mul a (mul b c)"
  by (rule rep_inj) (simp add: rep_mul mod_simps mult.assoc)

lemma mul_1: "mul a 1 = a"
  by (rule rep_inj) (simp add: rep_mul rep_1 rep_range)

definition iv :: "u16 \<Rightarrow> u16" where
  "iv x = the (inv16 x)"

lemma inv16_iv [simp]: "inv16 x = Some (iv x)"
  using inv16_ok [of x] by (auto simp: iv_def)

lemma mul_iv_left: "mul (iv k) k = 1"
  using inv16_ok [of k] by (intro rep_inj) (auto simp: rep_mul rep_1)

lemma mul_iv: "mul (mul x k) (iv k) = x"
  by (simp add: mul_assoc mul_comm [of k] mul_iv_left mul_1)

text \<open>
  The unrolled Euclid loop of inv terminates on every 16-bit word without dividing by zero,
  and its result is the multiplicative inverse for mul: multiplying by k and then by the result
  gives the original word back.
\<close>

theorem inv_inverts_mul:
  "\<exists>r. inv16 k = Some r \<and> mul r k = 1 \<and> (\<forall>x. mul (mul x k) r = x)"
  using mul_iv_left [of k] mul_iv [of _ k] by (intro exI [of _ "iv k"]) simp

text \<open>
  mul is multiplication modulo 65537 on the words read with 0 standing for 65536: the branch-
  free reduction of the 32-bit product by the difference of its halves is exact for all pairs of
  words.
\<close>

theorem mul_mod_fermat:
  "rep (mul a b) = (rep a * rep b) mod 65537 \<and> 0 < rep (mul a b)"
  by (simp add: rep_mul rep_range [of "mul a b", unfolded rep_mul])

section \<open>Ciphers made of layers\<close>

locale layered_cipher =
  fixes key :: "'k \<Rightarrow> 'b \<Rightarrow> 'b" and ikey :: "'k \<Rightarrow> 'k" and swk :: "'k \<Rightarrow> 'k"
    and mix :: "'m \<Rightarrow> 'b \<Rightarrow> 'b" and swp :: "'b \<Rightarrow> 'b"
  assumes key_ikey: "key (ikey k) (key k x) = x"
    and mix_mix: "mix m (mix m x) = x"
    and swp_swp: "swp (swp x) = x"
    and key_swk: "key (swk k) (swp x) = swp (key k x)"
begin

fun run :: "('k \<times> 'm) list \<Rightarrow> 'b \<Rightarrow> 'b" where
  "run [] x = x"
| "run ((k, m) # rs) x = run rs (swp (mix m (key k x)))"

text \<open>The rounds of the inverse cipher after its first one, over the reversed rounds.\<close>

fun unwind :: "'k \<Rightarrow> ('k \<times> 'm) list \<Rightarrow> 'b \<Rightarrow> 'b" where
  "unwind k [] z = key (ikey k) (swp z)"
| "unwind k ((k', m) # rs) z = unwind k' rs (swp (mix m (key (swk (ikey k)) z)))"

lemma run_append: "run (rs @ [(k, m)]) x = swp (mix m (key k (run rs x)))"
  by (induction rs x rule: run.induct) simp_all

lemma unwind_run: "unwind k rs (swp (key k (run (rev rs) x))) = x"
proof (induction rs arbitrary: k)
  case Nil
  then show ?case by (simp add: key_ikey swp_swp)
next
  case (Cons r rs)
  obtain k' m where r: "r = (k', m)" by (cases r)
  show ?case using Cons.IH [of k']
    by (simp add: r run_append key_swk key_ikey swp_swp mix_mix)
qed

lemma inverse_cipher:
  "unwind k rs (swp (mix m (key (ikey kf) (key kf (swp (run (rev ((k, m) # rs)) x)))))) = x"
  by (simp add: run_append key_ikey swp_swp mix_mix unwind_run)

end

section \<open>The layers of IDEA\<close>

fun tran :: "u16 \<times> u16 \<times> u16 \<times> u16 \<Rightarrow> block \<Rightarrow> block" where
  "tran (a, b, c, d) (x1, x2, x3, x4) = (mul x1 a, x2 + b, x3 + c, mul x4 d)"

fun itran :: "u16 \<times> u16 \<times> u16 \<times> u16 \<Rightarrow> u16 \<times> u16 \<times> u16 \<times> u16" where
  "itran (a, b, c, d) = (iv a, - b, - c, iv d)"

fun ma :: "u16 \<times> u16 \<Rightarrow> block \<Rightarrow> block" where
  "ma (e, f) (x1, x2, x3, x4) =
     (let s = mul (x1 XOR x3) e; t = mul (s + (x2 XOR x4)) f; u = t + s
      in (x1 XOR t, x2 XOR u, x3 XOR t, x4 XOR u))"

fun swp :: "block \<Rightarrow> block" where
  "swp (x1, x2, x3, x4) = (x1, x3, x2, x4)"

lemma xor_cancel_pair: "(a XOR t) XOR (b XOR t) = a XOR (b :: u16)"
  by (rule bit_word_eqI) (auto simp: bit_simps)

lemma xor_cancel: "(a XOR t) XOR t = (a :: u16)"
  by (rule bit_word_eqI) (auto simp: bit_simps)

interpretation idea: layered_cipher tran itran swp ma swp
proof
  show "tran (itran k) (tran k x) = x" for k x
    by (cases k; cases x) (simp add: mul_iv)
  show "ma m (ma m x) = x" for m x
    by (cases m; cases x) (simp add: Let_def xor_cancel_pair xor_cancel)
  show "swp (swp x) = x" for x by (cases x) simp
  show "tran (swp k) (swp x) = swp (tran k x)" for k x
    by (cases k; cases x) simp
qed

lemma cipher_rounds_Suc:
  "cipher_rounds (Suc r) (z0 # z1 # z2 # z3 # z4 # z5 # Z) st =
     cipher_rounds r Z (swp (ma (z4, z5) (tran (z0, z1, z2, z3) st)))"
  by (cases st) (simp add: Let_def ac_simps)

section \<open>The subkeys as layers\<close>

text \<open>\<open>k\<close> rounds of subkeys, six words each, followed by the four of the last layer.\<close>

fun rounds_of :: "nat \<Rightarrow> u16 list \<Rightarrow> ((u16 \<times> u16 \<times> u16 \<times> u16) \<times> (u16 \<times> u16)) list" where
  "rounds_of (Suc r) (z0 # z1 # z2 # z3 # z4 # z5 # Z) = ((z0, z1, z2, z3), (z4, z5)) # rounds_of r Z"
| "rounds_of _ _ = []"

fun last_of :: "u16 list \<Rightarrow> u16 \<times> u16 \<times> u16 \<times> u16" where
  "last_of (z0 # z1 # z2 # z3 # Z) = (z0, z1, z2, z3)"
| "last_of _ = (0, 0, 0, 0)"

lemma six_more: "length Z = Suc (Suc (Suc (Suc (Suc (Suc n))))) \<Longrightarrow>
    \<exists>z0 z1 z2 z3 z4 z5 Z'. Z = z0 # z1 # z2 # z3 # z4 # z5 # Z' \<and> length Z' = n"
  by (auto simp: length_Suc_conv)

lemma four_more: "length Z = 4 \<Longrightarrow> \<exists>z0 z1 z2 z3. Z = [z0, z1, z2, z3]"
  by (auto simp: length_Suc_conv eval_nat_numeral)

lemma six_suc: "6 * Suc n + 4 = Suc (Suc (Suc (Suc (Suc (Suc (6 * n + 4))))))"
  by simp

lemma cipher_rounds_run:
  "length Z = 6 * r + 4 \<Longrightarrow> cipher_rounds r Z st = Some (idea.run (rounds_of r Z) st, drop (6 * r) Z)"
proof (induction r arbitrary: Z st)
  case 0
  then show ?case by simp
next
  case (Suc r)
  obtain z0 z1 z2 z3 z4 z5 Z' where Z: "Z = z0 # z1 # z2 # z3 # z4 # z5 # Z'" "length Z' = 6 * r + 4"
    using six_more Suc.prems [unfolded six_suc] by blast
  have "drop (6 * Suc r) Z = drop (6 * r) Z'" by (simp add: Z(1) eval_nat_numeral)
  then show ?case using Suc.IH [OF Z(2)]
    by (simp add: Z(1) cipher_rounds_Suc del: cipher_rounds.simps mult_Suc_right)
qed

lemma cipher_idea_layers:
  assumes "length Z = 52"
  shows "cipher_idea x Z = Some (tran (last_of (drop 48 Z)) (swp (idea.run (rounds_of 8 Z) x)))"
proof -
  obtain z0 z1 z2 z3 where l: "drop 48 Z = [z0, z1, z2, z3]" using four_more [of "drop 48 Z"] assms by auto
  have "cipher_rounds 8 Z x = Some (idea.run (rounds_of 8 Z) x, drop 48 Z)"
    using cipher_rounds_run [of Z 8 x] assms by simp
  then show ?thesis
    by (cases "idea.run (rounds_of 8 Z) x") (simp add: cipher_idea_def l)
qed

lemma cut52:
  assumes "length Z = 52"
  obtains a1 b1 c1 d1 e1 f1
    a2 b2 c2 d2 e2 f2
    a3 b3 c3 d3 e3 f3
    a4 b4 c4 d4 e4 f4
    a5 b5 c5 d5 e5 f5
    a6 b6 c6 d6 e6 f6
    a7 b7 c7 d7 e7 f7
    a8 b8 c8 d8 e8 f8 a9 b9 c9 d9
  where "Z = [a1, b1, c1, d1, e1, f1,
    a2, b2, c2, d2, e2, f2,
    a3, b3, c3, d3, e3, f3,
    a4, b4, c4, d4, e4, f4,
    a5, b5, c5, d5, e5, f5,
    a6, b6, c6, d6, e6, f6,
    a7, b7, c7, d7, e7, f7,
    a8, b8, c8, d8, e8, f8, a9, b9, c9, d9]"
proof -
  obtain a1 b1 c1 d1 e1 f1 Z1 where Z1: "Z = a1 # b1 # c1 # d1 # e1 # f1 # Z1" "length Z1 = 46"
    using six_more [of Z 46] assms by auto
  obtain a2 b2 c2 d2 e2 f2 Z2 where Z2: "Z1 = a2 # b2 # c2 # d2 # e2 # f2 # Z2" "length Z2 = 40"
    using six_more [of Z1 40] Z1(2) by auto
  obtain a3 b3 c3 d3 e3 f3 Z3 where Z3: "Z2 = a3 # b3 # c3 # d3 # e3 # f3 # Z3" "length Z3 = 34"
    using six_more [of Z2 34] Z2(2) by auto
  obtain a4 b4 c4 d4 e4 f4 Z4 where Z4: "Z3 = a4 # b4 # c4 # d4 # e4 # f4 # Z4" "length Z4 = 28"
    using six_more [of Z3 28] Z3(2) by auto
  obtain a5 b5 c5 d5 e5 f5 Z5 where Z5: "Z4 = a5 # b5 # c5 # d5 # e5 # f5 # Z5" "length Z5 = 22"
    using six_more [of Z4 22] Z4(2) by auto
  obtain a6 b6 c6 d6 e6 f6 Z6 where Z6: "Z5 = a6 # b6 # c6 # d6 # e6 # f6 # Z6" "length Z6 = 16"
    using six_more [of Z5 16] Z5(2) by auto
  obtain a7 b7 c7 d7 e7 f7 Z7 where Z7: "Z6 = a7 # b7 # c7 # d7 # e7 # f7 # Z7" "length Z7 = 10"
    using six_more [of Z6 10] Z6(2) by auto
  obtain a8 b8 c8 d8 e8 f8 Z8 where Z8: "Z7 = a8 # b8 # c8 # d8 # e8 # f8 # Z8" "length Z8 = 4"
    using six_more [of Z7 4] Z7(2) by auto
  obtain a9 b9 c9 d9 where l: "Z8 = [a9, b9, c9, d9]" using four_more [OF Z8(2)] by blast
  show ?thesis by (rule that) (simp only: Z1 Z2 Z3 Z4 Z5 Z6 Z7 Z8 l)
qed

lemma de_key_layers:
  assumes "length Z = 52"
  shows "\<exists>DK. de_key_idea Z = Some DK \<and> length DK = 52 \<and>
    (\<forall>y. tran (last_of (drop 48 DK)) (swp (idea.run (rounds_of 8 DK) y)) =
      idea.unwind (fst (last (rounds_of 8 Z))) (tl (rev (rounds_of 8 Z)))
        (swp (ma (snd (last (rounds_of 8 Z))) (tran (itran (last_of (drop 48 Z))) y))))"
  by (rule cut52 [OF assms]) (simp add: de_key_idea_def eval_nat_numeral)

lemma rounds_of_8_snoc: "length Z = 52 \<Longrightarrow> \<exists>k m rs. rounds_of 8 Z = rev ((k, m) # rs)"
  by (erule cut52) (auto simp: eval_nat_numeral append_eq_Cons_conv rev_swap intro: exI [of _ "rev _"])

lemma decrypt_encrypt:
  assumes "length Z = 52"
  shows "\<exists>DK. de_key_idea Z = Some DK \<and> length DK = 52 \<and>
    (\<forall>x. \<exists>y. cipher_idea x Z = Some y \<and> cipher_idea y DK = Some x)"
proof -
  obtain DK where DK: "de_key_idea Z = Some DK" "length DK = 52"
      "\<And>y. tran (last_of (drop 48 DK)) (swp (idea.run (rounds_of 8 DK) y)) =
        idea.unwind (fst (last (rounds_of 8 Z))) (tl (rev (rounds_of 8 Z)))
          (swp (ma (snd (last (rounds_of 8 Z))) (tran (itran (last_of (drop 48 Z))) y)))"
    using de_key_layers [OF assms] by blast
  obtain k m rs where rs: "rounds_of 8 Z = rev ((k, m) # rs)" using rounds_of_8_snoc [OF assms] by blast
  show ?thesis
  proof (intro exI conjI allI)
    fix x
    show "cipher_idea x Z = Some (tran (last_of (drop 48 Z)) (swp (idea.run (rounds_of 8 Z) x)))"
      by (rule cipher_idea_layers [OF assms])
    show "cipher_idea (tran (last_of (drop 48 Z)) (swp (idea.run (rounds_of 8 Z) x))) DK = Some x"
      using idea.inverse_cipher [of k rs m "last_of (drop 48 Z)" x]
      by (simp add: cipher_idea_layers [OF DK(2)] DK(3) rs)
  qed (rule DK)+
qed

text \<open>
  C39: For every full set of 52 encryption subkeys, de_key_idea computes 52 decryption subkeys
  under which cipher_idea maps every ciphertext block back to the plaintext block that cipher_idea
  encrypted: decryption inverts encryption for all blocks and all keys.
\<close>

theorem cipher_roundtrip:
  assumes "length Z = 52"
  shows "\<exists>DK. de_key_idea Z = Some DK \<and> length DK = 52 \<and>
    (\<forall>x. \<exists>y. cipher_idea x Z = Some y \<and> cipher_idea y DK = Some x)"
  by (rule decrypt_encrypt [OF assms])

theorem cipher_roundtrip_witness:
  "\<exists>DK. de_key_idea (replicate 52 7) = Some DK \<and> length DK = 52 \<and>
    (\<forall>x. \<exists>y. cipher_idea x (replicate 52 7) = Some y \<and> cipher_idea y DK = Some x)"
  by (rule cipher_roundtrip) simp

section \<open>The key schedule\<close>

text \<open>Bit \<open>q\<close> of the subkeys read as one big-endian string of bits.\<close>

definition kbit :: "u16 list \<Rightarrow> nat \<Rightarrow> bool" where
  "kbit Z q = bit (Z ! (q div 16)) (15 - q mod 16)"

lemma and_7: "(i :: nat) AND 7 = i mod 8"
  using take_bit_eq_mask [of 3 i] by (simp add: mask_eq_exp_minus_1 take_bit_eq_mod)

lemma and_8_Suc: "i < 8 \<Longrightarrow> (i + 1) AND 8 = 8 * ((i + 1) div (8 :: nat))"
proof -
  assume "i < 8"
  then have "i \<in> set [0, 1, 2, 3, 4, 5, 6, 7]" by auto
  then show ?thesis by (auto simp del: One_nat_def)
qed

definition key_rec :: "u16 list \<Rightarrow> nat \<Rightarrow> u16" where
  "key_rec Z k = push_bit 9 (Z ! (8 * (k div 8) + (k + 1) mod 8)) OR
                 drop_bit 7 (Z ! (8 * (k div 8) + (k + 2) mod 8))"

lemma en_key_step_Some:
  assumes "length Z = 52" "k + 8 < 52"
  shows "en_key_step (k + 8) (Z, 8 * (k div 8), k mod 8) =
     Some (Z[k + 8 := key_rec Z k], 8 * (Suc k div 8), Suc k mod 8)"
proof -
  have i: "k mod 8 < 8" by simp
  have k: "8 * (k div 8) + k mod 8 = k" by simp
  have m: "(k mod 8 + 1) mod 8 = (k + 1) mod 8" "(k mod 8 + 1 + 1) mod 8 = (k + 2) mod 8"
    by (simp_all add: mod_simps)
  have b: "8 * (k div 8) + 8 * ((k mod 8 + 1) div 8) = 8 * (Suc k div 8)"
    by (simp add: div_Suc mod_Suc)
  have bnd: "8 * (k div 8) + (k + 1) mod 8 < 52" "8 * (k div 8) + (k + 2) mod 8 < 52"
    using assms(2) k mod_less_divisor [of 8 "k + 1"] mod_less_divisor [of 8 "k + 2"] by linarith+
  have "8 * (k div 8) + (k mod 8 + 1 + 7) = k + 8" using k by linarith
  then show ?thesis
    using assms bnd
    by (simp only: en_key_step_def and_7 m rd_def wr_def key_rec_def Let_def prod.case
        and_8_Suc [OF i] b if_True bind.bind_lunit option.simps Option.bind.simps) (simp add: mod_simps)
qed

text \<open>The bits of one step of the schedule.\<close>

lemma bit_key_rec:
  assumes "p < 16"
  shows "bit (key_rec Z k) (15 - p) =
    (let w = 8 * (k div 8) + (if p < 7 then (k + 1) mod 8 else (k + 2) mod 8)
     in bit (Z ! w) (15 - (p + 9) mod 16))"
proof (cases "p < 7")
  case True
  then have "15 - (p + 9) mod 16 = 15 - p - 9" "9 \<le> 15 - p" "15 - p < 16" by simp_all
  moreover have "\<not> bit (v :: u16) (22 - p)" for v
    using True by (auto dest!: bit_imp_le_length)
  ultimately show ?thesis using True by (simp add: key_rec_def bit_simps Let_def)
next
  case False
  then obtain d where d: "p = 7 + d" using le_Suc_ex not_less by blast
  then have "(p + 9) mod 16 = d" "15 - p + 7 = 15 - d" "\<not> 9 \<le> 15 - p" using assms by simp_all
  then show ?thesis using False assms by (simp add: key_rec_def bit_simps Let_def)
qed

definition schedule_ok :: "u16 list \<Rightarrow> bool" where
  "schedule_ok Z \<longleftrightarrow> (\<forall>q < 16 * 44. kbit Z (q + 128) = kbit Z (128 * (q div 128) + (q + 25) mod 128))"

lemma rot_index:
  fixes q :: nat
  defines "k \<equiv> q div 16" and "p \<equiv> q mod 16"
  shows "(128 * (q div 128) + (q + 25) mod 128) div 16 =
      8 * (k div 8) + (if p < 7 then (k + 1) mod 8 else (k + 2) mod 8)"
    and "(128 * (q div 128) + (q + 25) mod 128) mod 16 = (p + 9) mod 16"
proof -
  have q: "q = 16 * k + p" by (simp add: k_def p_def)
  have p16: "p < 16" by (simp add: p_def)
  have d: "q div 128 = k div 8" by (simp add: k_def div_mult2_eq [symmetric])
  define c where "c = (if p < 7 then k + 1 else k + 2)"
  have s: "q + 25 = 16 * c + (p + 9) mod 16"
  proof (cases "p < 7")
    case True
    then show ?thesis by (simp add: q c_def)
  next
    case False
    then obtain e where e: "p = 7 + e" using le_Suc_ex not_less by blast
    then have "(p + 9) mod 16 = e" using p16 by simp
    then show ?thesis using False e by (simp add: q c_def)
  qed
  have m: "(16 * c + (p + 9) mod 16) mod 128 = 16 * (c mod 8) + (p + 9) mod 16"
    using mod_mult2_eq [of "16 * c + (p + 9) mod 16" 16 8] by simp
  have r: "128 * (k div 8) + (16 * (c mod 8) + (p + 9) mod 16) =
      (p + 9) mod 16 + 16 * (8 * (k div 8) + c mod 8)" by simp
  have c: "(if p < 7 then (k + 1) mod 8 else (k + 2) mod 8) = c mod 8" by (simp add: c_def)
  show "(128 * (q div 128) + (q + 25) mod 128) div 16 =
      8 * (k div 8) + (if p < 7 then (k + 1) mod 8 else (k + 2) mod 8)"
    unfolding d s m r c by (subst div_mult_self2) simp_all
  show "(128 * (q div 128) + (q + 25) mod 128) mod 16 = (p + 9) mod 16"
    unfolding d s m r by (simp only: mod_mult_self2 mod_mod_trivial)
qed

lemma en_key_rec:
  assumes "length userkey = 8" "length Z0 = 52"
  shows "\<exists>Z. en_key_idea userkey Z0 = Some Z \<and> length Z = 52 \<and> take 8 Z = userkey \<and>
    (\<forall>k < 44. Z ! (k + 8) = key_rec Z k)"
proof -
  define P where "P j Z \<longleftrightarrow> length Z = 52 \<and> take j Z = take j userkey" for j and Z :: "u16 list"
  have "\<exists>Z. for_loop 0 8 (\<lambda>j Z. do { v \<leftarrow> rd userkey j; wr Z j v }) Z0 = Some Z \<and> P (0 + 8) Z"
    by (rule for_loop_rule) (use assms in \<open>auto simp: P_def rd_def wr_def take_Suc_conv_app_nth\<close>)
  then obtain Z1 where Z1: "for_loop 0 8 (\<lambda>j Z. do { v \<leftarrow> rd userkey j; wr Z j v }) Z0 = Some Z1"
      "length Z1 = 52" "take 8 Z1 = userkey"
    using assms by (auto simp: P_def)
  define Q where "Q j st \<longleftrightarrow> (case st of (Z, base, i) \<Rightarrow> base = 8 * ((j - 8) div 8) \<and> i = (j - 8) mod 8 \<and>
      length Z = 52 \<and> take 8 Z = userkey \<and> (\<forall>k. k + 8 < j \<longrightarrow> Z ! (k + 8) = key_rec Z k))"
    for j and st :: "u16 list \<times> nat \<times> nat"
  have "\<exists>st. for_loop 8 44 en_key_step (Z1, 0, 0) = Some st \<and> Q (8 + 44) st"
  proof (rule for_loop_rule)
    show "Q 8 (Z1, 0, 0)" using Z1 by (simp add: Q_def)
    fix j st assume j: "8 \<le> j" "j < 8 + 44" "Q j st"
    obtain k where k: "j = k + 8" using j(1) le_Suc_ex by (metis add.commute)
    obtain Z where st: "st = (Z, 8 * (k div 8), k mod 8)" "length Z = 52" "take 8 Z = userkey"
        "\<forall>i. i < k \<longrightarrow> Z ! (i + 8) = key_rec Z i"
      using j(3) k by (cases st) (auto simp: Q_def)
    let ?Z = "Z[k + 8 := key_rec Z k]"
    have keep: "key_rec ?Z i = key_rec Z i" if "i \<le> k" for i
    proof -
      have "8 * (i div 8) + i mod 8 = i" by simp
      then have "8 * (i div 8) + (i + 1) mod 8 < k + 8" "8 * (i div 8) + (i + 2) mod 8 < k + 8"
        using that mod_less_divisor [of 8 "i + 1"] mod_less_divisor [of 8 "i + 2"]
        by linarith+
      then show ?thesis by (simp add: key_rec_def)
    qed
    show "\<exists>st'. en_key_step j st = Some st' \<and> Q (Suc j) st'"
      using en_key_step_Some [OF st(2), of k] j(2) k st keep
      by (auto simp: Q_def less_Suc_eq Suc_diff_le)
  qed
  then obtain Z where "for_loop 8 44 en_key_step (Z1, 0, 0) = Some (Z, 40, 4)" "length Z = 52"
      "take 8 Z = userkey" "\<forall>k. k + 8 < 52 \<longrightarrow> Z ! (k + 8) = key_rec Z k"
    by (auto simp: Q_def)
  then show ?thesis using Z1(1) by (auto simp: en_key_idea_def)
qed

text \<open>
  en_key_idea stays inside its arrays and produces the IDEA key schedule: the first 128 bits
  are the user key, and every later 128-bit group is the previous one rotated left by 25 bits.
\<close>

theorem en_key_rotates:
  assumes "length userkey = 8" "length Z0 = 52"
  shows "\<exists>Z. en_key_idea userkey Z0 = Some Z \<and> length Z = 52 \<and> take 8 Z = userkey \<and> schedule_ok Z"
proof -
  obtain Z where Z: "en_key_idea userkey Z0 = Some Z" "length Z = 52" "take 8 Z = userkey"
      "\<forall>k < 44. Z ! (k + 8) = key_rec Z k"
    using en_key_rec [OF assms] by blast
  have "schedule_ok Z"
    unfolding schedule_ok_def
  proof (intro allI impI)
    fix q :: nat assume "q < 16 * 44"
    then have k: "q div 16 < 44" by (simp add: div_less_iff_less_mult)
    have "128 = 16 * (8 :: nat)" by simp
    then have e: "(q + 128) div 16 = q div 16 + 8" "(q + 128) mod 16 = q mod 16"
      by (simp_all only: div_mult_self2 mod_mult_self2 add.commute [of 8])
    have Zk: "Z ! (q div 16 + 8) = key_rec Z (q div 16)" using Z(4) k by blast
    have p: "q mod 16 < 16" by simp
    show "kbit Z (q + 128) = kbit Z (128 * (q div 128) + (q + 25) mod 128)"
      unfolding kbit_def rot_index e Zk bit_key_rec [OF p] Let_def by (rule refl)
  qed
  then show ?thesis using Z by blast
qed

theorem en_key_rotates_witness:
  "\<exists>Z. en_key_idea [1, 2, 3, 4, 5, 6, 7, 8] (replicate 52 0) = Some Z \<and> length Z = 52 \<and>
    take 8 Z = [1, 2, 3, 4, 5, 6, 7, 8] \<and> schedule_ok Z"
  by (rule en_key_rotates) simp_all

section \<open>The iteration decrypts what it encrypted\<close>

lemma load16_Some: "k + 1 < length m \<Longrightarrow> \<exists>v. load16 be m k = Some v"
  by (simp add: load16_def rd_def)

lemma store16_Some:
  "k + 1 < length m \<Longrightarrow> \<exists>m'. store16 be m k v = Some m' \<and> length m' = length m"
  by (simp add: store16_def wr_def Let_def)

lemma ucast_halves:
  "push_bit 8 (ucast (ucast (drop_bit 8 v) :: u8)) OR ucast (ucast v :: u8) = (v :: u16)"
  by (rule bit_word_eqI) (auto simp: bit_simps)

lemma halves_ucast:
  "ucast (drop_bit 8 (push_bit 8 (ucast a) OR ucast b :: u16)) = (a :: u8)"
  "ucast (push_bit 8 (ucast a) OR ucast b :: u16) = (b :: u8)"
  by (rule bit_word_eqI; auto simp: bit_simps dest: bit_imp_le_length)+

text \<open>A block of eight bytes at \<open>j\<close>, as the four words the cipher sees.\<close>

definition block_at :: "bool \<Rightarrow> u8 list \<Rightarrow> nat \<Rightarrow> block" where
  "block_at be m j =
     (the (load16 be m j), the (load16 be m (j + 2)), the (load16 be m (j + 4)), the (load16 be m (j + 6)))"

lemma load_store_same:
  "k + 1 < length m \<Longrightarrow> store16 be m k v = Some m' \<Longrightarrow> load16 be m' k = Some v"
  by (auto simp: load16_def store16_def rd_def wr_def Let_def ucast_halves split: if_splits)

lemma store16_same_length: "store16 be m k v = Some m' \<Longrightarrow> length m' = length m"
  by (auto simp: store16_def wr_def Let_def split: if_splits)

lemma store16_other: "store16 be m k v = Some m' \<Longrightarrow> i \<noteq> k \<Longrightarrow> i \<noteq> k + 1 \<Longrightarrow> m' ! i = m ! i"
  by (auto simp: store16_def wr_def Let_def split: if_splits)

lemma load16_cong:
  "length m = length m' \<Longrightarrow> m ! k = m' ! k \<Longrightarrow> m ! (k + 1) = m' ! (k + 1) \<Longrightarrow> load16 be m k = load16 be m' k"
  by (simp add: load16_def rd_def)

lemma halves_inj:
  "push_bit 8 (ucast a) OR ucast b = (push_bit 8 (ucast c) OR ucast d :: u16) \<Longrightarrow> a = c \<and> b = d" for a b c d :: u8
  using halves_ucast [of a b] halves_ucast [of c d] by metis

lemma load16_eq_bytes:
  assumes "load16 be m k = Some v" "load16 be m' k = Some v"
  shows "m ! k = m' ! k" "m ! (k + 1) = m' ! (k + 1)"
  using assms by (auto simp: load16_def rd_def split: if_splits dest!: halves_inj [OF trans [OF _ sym]] halves_inj)

lemma cipher_at_spec:
  assumes "j + 7 < length src" "j + 7 < length dst" "cipher_idea (block_at be src j) Z = Some y"
  shows "\<exists>dst'. cipher_at be Z src j dst = Some dst' \<and> length dst' = length dst \<and>
    block_at be dst' j = y \<and> (\<forall>i. i < j \<or> j + 8 \<le> i \<longrightarrow> dst' ! i = dst ! i)"
proof -
  obtain y1 y2 y3 y4 where y: "y = (y1, y2, y3, y4)" by (cases y)
  obtain x1 x2 x3 x4 where x: "load16 be src j = Some x1" "load16 be src (j + 2) = Some x2"
      "load16 be src (j + 4) = Some x3" "load16 be src (j + 6) = Some x4"
    using load16_Some [of j src be] load16_Some [of "j + 2" src be] load16_Some [of "j + 4" src be]
      load16_Some [of "j + 6" src be] assms(1) by auto
  have c: "cipher_idea (x1, x2, x3, x4) Z = Some (y1, y2, y3, y4)"
    using assms(3) x by (simp add: block_at_def y)
  obtain d1 where d1: "store16 be dst j y1 = Some d1" using store16_Some [of j dst] assms(2) by force
  note l1 = store16_same_length [OF d1]
  obtain d2 where d2: "store16 be d1 (j + 2) y2 = Some d2"
    using store16_Some [of "j + 2" d1] assms(2) l1 by force
  note l2 = store16_same_length [OF d2]
  obtain d3 where d3: "store16 be d2 (j + 4) y3 = Some d3"
    using store16_Some [of "j + 4" d2] assms(2) l1 l2 by force
  note l3 = store16_same_length [OF d3]
  obtain d4 where d4: "store16 be d3 (j + 6) y4 = Some d4"
    using store16_Some [of "j + 6" d3] assms(2) l1 l2 l3 by force
  note l4 = store16_same_length [OF d4]
  note other = store16_other [OF d1] store16_other [OF d2] store16_other [OF d3] store16_other [OF d4]
  have "load16 be d4 j = load16 be d1 j" "load16 be d4 (j + 2) = load16 be d2 (j + 2)"
      "load16 be d4 (j + 4) = load16 be d3 (j + 4)"
    by (rule load16_cong; simp add: l2 l3 l4 other)+
  then have "block_at be d4 j = y"
    using load_store_same [OF _ d1] load_store_same [OF _ d2] load_store_same [OF _ d3]
      load_store_same [OF _ d4] assms(2) l1 l2 l3 by (simp add: block_at_def y)
  moreover have "cipher_at be Z src j dst = Some d4"
    by (simp only: cipher_at_def x c d1 d2 d3 d4 Option.bind.simps prod.case)
  ultimately show ?thesis using l1 l2 l3 l4 other by auto
qed

lemma block_at_cong:
  assumes "length m = length m'" "\<And>i. j \<le> i \<Longrightarrow> i < j + 8 \<Longrightarrow> m ! i = m' ! i"
  shows "block_at be m j = block_at be m' j"
proof -
  have "load16 be m k = load16 be m' k" if "j \<le> k" "k + 1 < j + 8" for k
    using assms that by (intro load16_cong) auto
  then show ?thesis by (simp add: block_at_def)
qed

lemma block_at_eq:
  assumes "block_at be m j = block_at be m' j" "length m = length m'" "j + 7 < length m" "j \<le> i" "i < j + 8"
  shows "m ! i = m' ! i"
proof -
  have two: "m ! k = m' ! k \<and> m ! (k + 1) = m' ! (k + 1)"
    if k: "the (load16 be m k) = the (load16 be m' k)" "k + 1 < length m" for k
  proof -
    obtain v v' where "load16 be m k = Some v" "load16 be m' k = Some v'"
      using load16_Some [of k m be] load16_Some [of k m' be] k(2) assms(2) by auto
    then show ?thesis using k(1) load16_eq_bytes [of be m k v m'] by simp
  qed
  have l: "j + 1 < length m" "j + 2 + 1 < length m" "j + 4 + 1 < length m" "j + 6 + 1 < length m"
    using assms(3) by linarith+
  obtain e where e: "i = j + e" "e < 8" using assms(4,5) le_Suc_ex by (metis add_less_cancel_left)
  then have "e \<in> set [0, 1, 2, 3, 4, 5, 6, 7]" by auto
  then show ?thesis
    using two [OF _ l(1)] two [OF _ l(2)] two [OF _ l(3)] two [OF _ l(4)] assms(1) e(1)
    by (auto simp: block_at_def add.commute [of _ j] eval_nat_numeral)
qed

lemma cipher_buffer_spec:
  assumes "length src = 8 * n" "length dst = 8 * n" "\<And>x. \<exists>y. cipher_idea x Z = Some y"
  shows "\<exists>dst'. cipher_buffer be Z (8 * n) src dst = Some dst' \<and> length dst' = 8 * n \<and>
    (\<forall>b < n. cipher_idea (block_at be src (8 * b)) Z = Some (block_at be dst' (8 * b)))"
proof -
  define P where "P b m \<longleftrightarrow> length m = 8 * n \<and>
    (\<forall>c < b. cipher_idea (block_at be src (8 * c)) Z = Some (block_at be m (8 * c)))" for b m
  have "\<exists>m. for_loop 0 n (\<lambda>b. cipher_at be Z src (8 * b)) dst = Some m \<and> P (0 + n) m"
  proof (rule for_loop_rule)
    show "P 0 dst" using assms(2) by (simp add: P_def)
    fix b m assume b: "0 \<le> b" "b < 0 + n" "P b m"
    then have m: "length m = 8 * n" by (simp add: P_def)
    obtain y where y: "cipher_idea (block_at be src (8 * b)) Z = Some y" using assms(3) by blast
    obtain m' where m': "cipher_at be Z src (8 * b) m = Some m'" "length m' = 8 * n"
        "block_at be m' (8 * b) = y" "\<forall>i. i < 8 * b \<or> 8 * b + 8 \<le> i \<longrightarrow> m' ! i = m ! i"
      using cipher_at_spec [OF _ _ y, of m] b m assms(1) by auto
    have "block_at be m' (8 * c) = block_at be m (8 * c)" if "c < b" for c
      using m m' that by (intro block_at_cong) auto
    then have "P (Suc b) m'" using b(3) y m' by (auto simp: P_def less_Suc_eq)
    then show "\<exists>m'. cipher_at be Z src (8 * b) m = Some m' \<and> P (Suc b) m'" using m'(1) by blast
  qed
  moreover have "(8 * n + 7) div 8 = n" by simp
  ultimately show ?thesis by (simp add: cipher_buffer_def P_def)
qed

lemma blocks_eq:
  assumes "length m = 8 * n" "length m' = 8 * n" "\<And>b. b < n \<Longrightarrow> block_at be m (8 * b) = block_at be m' (8 * b)"
  shows "m = m'"
proof (rule nth_equalityI)
  show "length m = length m'" using assms by simp
  fix i assume "i < length m"
  then have b: "i div 8 < n" using assms(1) by (simp add: div_less_iff_less_mult)
  show "m ! i = m' ! i"
    by (rule block_at_eq [OF assms(3) [OF b]]) (use assms b in \<open>auto simp: mult.commute\<close>)
qed

lemma encrypt_decrypt_buffer:
  assumes "de_key_idea Z = Some DK" "length Z = 52"
    and "length plain1 = 8 * n" "length crypt1 = 8 * n" "length plain2 = 8 * n"
  shows "\<exists>c. cipher_buffer be Z (8 * n) plain1 crypt1 = Some c \<and> length c = 8 * n \<and>
    cipher_buffer be DK (8 * n) c plain2 = Some plain1"
proof -
  have rt: "\<exists>y. cipher_idea x Z = Some y \<and> cipher_idea y DK = Some x" for x
    using decrypt_encrypt [OF assms(2)] assms(1) by (metis option.inject)
  have DK52: "length DK = 52" using decrypt_encrypt [OF assms(2)] assms(1) by auto
  have some: "\<exists>y. cipher_idea x DK = Some y" for x using cipher_idea_layers [OF DK52] by blast
  obtain c where c: "cipher_buffer be Z (8 * n) plain1 crypt1 = Some c" "length c = 8 * n"
      "\<forall>b < n. cipher_idea (block_at be plain1 (8 * b)) Z = Some (block_at be c (8 * b))"
    using cipher_buffer_spec [OF assms(3,4), of Z be] rt by blast
  obtain p where p: "cipher_buffer be DK (8 * n) c plain2 = Some p" "length p = 8 * n"
      "\<forall>b < n. cipher_idea (block_at be c (8 * b)) DK = Some (block_at be p (8 * b))"
    using cipher_buffer_spec [OF c(2) assms(5), of DK be] some by blast
  have "p = plain1"
  proof (rule blocks_eq [OF p(2) assms(3), of be])
    fix b assume b: "b < n"
    obtain y where "cipher_idea (block_at be plain1 (8 * b)) Z = Some y"
        "cipher_idea y DK = Some (block_at be plain1 (8 * b))" using rt by blast
    then show "block_at be p (8 * b) = block_at be plain1 (8 * b)" using c(3) p(3) b by auto
  qed
  then show ?thesis using c p by blast
qed

text \<open>
  One timed iteration of the IDEA test over byte buffers whose size is a multiple of the
  block size stays inside the buffers, reads the clock twice, and leaves the second plaintext
  buffer equal to the first, in either byte order of the target and for any number of loops.
\<close>

theorem DoIDEAIteration_decrypts:
  assumes "de_key_idea Z = Some DK" "length Z = 52" "0 < nloops"
    and "length plain1 = 8 * n" "length crypt1 = 8 * n" "length plain2 = 8 * n"
  shows "\<exists>c. DoIDEAIteration clk be plain1 crypt1 plain2 (8 * n) nloops Z DK w =
    Some (clk (clock_calls w + 1) - clk (clock_calls w), c, plain1, w\<lparr>clock_calls := clock_calls w + 2\<rparr>)"
proof -
  define P where "P i st \<longleftrightarrow> length (fst st) = 8 * n \<and> length (snd st) = 8 * n \<and> (0 < i \<longrightarrow> snd st = plain1)"
    for i :: nat and st :: "u8 list \<times> u8 list"
  let ?body = "\<lambda>i :: nat. \<lambda>(crypt1, plain2).
          do {
            crypt1 \<leftarrow> cipher_buffer be Z (8 * n) plain1 crypt1;
            plain2 \<leftarrow> cipher_buffer be DK (8 * n) crypt1 plain2;
            Some (crypt1, plain2)
          }"
  have "\<exists>st. for_loop 0 nloops ?body (crypt1, plain2) = Some st \<and> P (0 + nloops) st"
  proof (rule for_loop_rule)
    show "P 0 (crypt1, plain2)" using assms by (simp add: P_def)
    fix i and st :: "u8 list \<times> u8 list"
    assume "P i st"
    then obtain c p where "st = (c, p)" "length c = 8 * n" "length p = 8 * n"
      by (cases st) (auto simp: P_def)
    then show "\<exists>st'. ?body i st = Some st' \<and> P (Suc i) st'"
      using encrypt_decrypt_buffer [OF assms(1,2,4), of c p be] assms(4) by (auto simp: P_def)
  qed
  then obtain c where "for_loop 0 nloops ?body (crypt1, plain2) = Some (c, plain1)"
    using assms(3) by (auto simp: P_def)
  then show ?thesis
    by (simp add: DoIDEAIteration_def StartStopwatch_def StopStopwatch_def)
qed

theorem DoIDEAIteration_decrypts_witness:
  "\<exists>DK c. DoIDEAIteration (\<lambda>n. of_nat (5 * n)) True [1, 2, 3, 4, 5, 6, 7, 8] (replicate 8 0)
      (replicate 8 0) 8 2 (replicate 52 9) DK sys0 =
    Some (5, c, [1, 2, 3, 4, 5, 6, 7, 8], sys0\<lparr>clock_calls := 2\<rparr>)"
proof -
  obtain DK where "de_key_idea (replicate 52 9) = Some DK"
    using decrypt_encrypt [of "replicate 52 9"] by auto
  then show ?thesis
    using DoIDEAIteration_decrypts [of "replicate 52 9" DK 2 "[1, 2, 3, 4, 5, 6, 7, 8]" 1
        "replicate 8 0" "replicate 8 0" "\<lambda>n. of_nat (5 * n)" True sys0]
    by (auto simp: sys0_def numeral_2_eq_2)
qed

end
