(* ===== verification/Emfloat.thy ===== *)
theory Emfloat
  imports Misc_Rand Sysspec
begin

text \<open>
  The floating-point emulation of \<open>emfloat.c\<close>.  A number is the struct \<open>InternalFPF\<close>; its
  mantissa is an array of four 16-bit words, the most significant one first, kept as a list.
  Loops over the mantissa run from its end (\<open>i = 3\<close> down to 0) or from its start, as the
  recursion on the list does.  A loop that need not end is a \<open>partial_function\<close>: \<open>None\<close> is
  the call that does not return.  An operation on \<open>(x, y, z)\<close> returns all three objects, since
  the source writes through all three pointers.
\<close>

section \<open>The numbers\<close>

record InternalFPF =
  fp_type :: u8
  fp_sign :: u8
  fp_exp :: "16 word"
  mantissa :: "u16 list"

abbreviation (input) IFPF_IS_ZERO :: u8 where "IFPF_IS_ZERO \<equiv> 0"
abbreviation (input) IFPF_IS_SUBNORMAL :: u8 where "IFPF_IS_SUBNORMAL \<equiv> 1"
abbreviation (input) IFPF_IS_NORMAL :: u8 where "IFPF_IS_NORMAL \<equiv> 2"
abbreviation (input) IFPF_IS_INFINITY :: u8 where "IFPF_IS_INFINITY \<equiv> 3"
abbreviation (input) IFPF_IS_NAN :: u8 where "IFPF_IS_NAN \<equiv> 4"

abbreviation (input) MIN_EXP :: int where "MIN_EXP \<equiv> - 32767"

definition SetInternalFPFZero :: "u8 \<Rightarrow> InternalFPF" where
  "SetInternalFPFZero sign =
     \<lparr>fp_type = IFPF_IS_ZERO, fp_sign = sign, fp_exp = word_of_int MIN_EXP, mantissa = [0, 0, 0, 0]\<rparr>"

definition SetInternalFPFInfinity :: "u8 \<Rightarrow> InternalFPF" where
  "SetInternalFPFInfinity sign =
     \<lparr>fp_type = IFPF_IS_INFINITY, fp_sign = sign, fp_exp = word_of_int MIN_EXP, mantissa = [0, 0, 0, 0]\<rparr>"

definition SetInternalFPFNaN :: InternalFPF where
  "SetInternalFPFNaN =
     \<lparr>fp_type = IFPF_IS_NAN, fp_sign = 1, fp_exp = 32767, mantissa = [0x4000, 0, 0, 0]\<rparr>"

section \<open>Mantissa arithmetic\<close>

definition IsMantissaZero :: "u16 list \<Rightarrow> bool" where
  "IsMantissaZero mant = (foldl (\<lambda>n m. n OR m) 0 mant = 0)"

text \<open>Each returns the new carry (borrow) and the word stored through \<open>a\<close>.\<close>

definition Add16Bits :: "u16 \<Rightarrow> u16 \<Rightarrow> u16 \<Rightarrow> u16 \<times> u16" where
  "Add16Bits carry b c =
     (let accum = (ucast b :: u32) + ucast c + ucast carry
      in (if accum AND 0x10000 \<noteq> 0 then 1 else 0, ucast (accum AND 0xFFFF)))"

definition Sub16Bits :: "u16 \<Rightarrow> u16 \<Rightarrow> u16 \<Rightarrow> u16 \<times> u16" where
  "Sub16Bits borrow b c =
     (let accum = (ucast b :: u32) - ucast c - ucast borrow
      in (if accum AND 0x10000 \<noteq> 0 then 1 else 0, ucast (accum AND 0xFFFF)))"

text \<open>The loops \<open>for (i = PRECISION - 1; i >= 0; i--)\<close> around them.\<close>

fun add_mant :: "u16 \<Rightarrow> u16 list \<Rightarrow> u16 list \<Rightarrow> u16 \<times> u16 list" where
  "add_mant carry (b # bs) (c # cs) =
     (let (carry, as) = add_mant carry bs cs; (carry, a) = Add16Bits carry b c in (carry, a # as))"
| "add_mant carry _ _ = (carry, [])"

fun sub_mant :: "u16 \<Rightarrow> u16 list \<Rightarrow> u16 list \<Rightarrow> u16 \<times> u16 list" where
  "sub_mant borrow (b # bs) (c # cs) =
     (let (borrow, as) = sub_mant borrow bs cs; (borrow, a) = Sub16Bits borrow b c in (borrow, a # as))"
| "sub_mant borrow _ _ = (borrow, [])"

fun ShiftMantLeft1 :: "u16 \<Rightarrow> u16 list \<Rightarrow> u16 \<times> u16 list" where
  "ShiftMantLeft1 carry [] = (carry, [])"
| "ShiftMantLeft1 carry (a # as) =
     (let (carry, as) = ShiftMantLeft1 carry as;
          new_carry = a AND 0x8000;
          accum = push_bit 1 a;
          accum = (if carry \<noteq> 0 then accum OR 1 else accum)
      in (new_carry, accum # as))"

fun ShiftMantRight1 :: "u16 \<Rightarrow> u16 list \<Rightarrow> u16 \<times> u16 list" where
  "ShiftMantRight1 carry [] = (carry, [])"
| "ShiftMantRight1 carry (a # as) =
     (let new_carry = a AND 1;
          accum = drop_bit 1 a;
          accum = (if carry \<noteq> 0 then accum OR 0x8000 else accum);
          (carry, as) = ShiftMantRight1 new_carry as
      in (carry, accum # as))"

definition sticky_step :: "u16 list \<Rightarrow> u16 list" where
  "sticky_step m =
     (let (carry, m) = ShiftMantRight1 0 m in if carry \<noteq> 0 then m[3 := m ! 3 OR 1] else m)"

definition StickyShiftRightMant :: "int \<Rightarrow> InternalFPF \<Rightarrow> InternalFPF" where
  "StickyShiftRightMant amount ptr =
     (if fp_type ptr \<noteq> IFPF_IS_ZERO then
        if amount \<ge> 64 then ptr\<lparr>mantissa := [0, 0, 0, 1]\<rparr>
        else ptr\<lparr>mantissa := (sticky_step ^^ nat amount) (mantissa ptr)\<rparr>
      else ptr)"

section \<open>Normalizing and rounding\<close>

partial_function (option) normalize :: "InternalFPF \<Rightarrow> InternalFPF option" where
  "normalize ptr =
     (if mantissa ptr ! 0 AND 0x8000 = 0 then
        normalize (ptr\<lparr>mantissa := snd (ShiftMantLeft1 0 (mantissa ptr)), fp_exp := fp_exp ptr - 1\<rparr>)
      else Some ptr)"

declare normalize.simps [code]

text \<open>The message printed for a zero significand is left out.\<close>

definition denormalize :: "InternalFPF \<Rightarrow> int \<Rightarrow> InternalFPF" where
  "denormalize ptr minimum_exponent =
     (let exponent_difference = sint (fp_exp ptr) - minimum_exponent in
      if exponent_difference < 0 then
        let exponent_difference = - exponent_difference in
        if exponent_difference \<ge> 64 then SetInternalFPFZero (fp_sign ptr)
        else StickyShiftRightMant exponent_difference
               (ptr\<lparr>fp_exp := fp_exp ptr + word_of_int exponent_difference\<rparr>)
      else ptr)"

definition RoundInternalFPF :: "InternalFPF \<Rightarrow> InternalFPF" where
  "RoundInternalFPF ptr =
     (if fp_type ptr = IFPF_IS_NORMAL \<or> fp_type ptr = IFPF_IS_SUBNORMAL then
        let ptr = denormalize ptr MIN_EXP in
        if fp_type ptr \<noteq> IFPF_IS_ZERO then ptr\<lparr>mantissa := (mantissa ptr)[3 := mantissa ptr ! 3 AND 0xFFF8]\<rparr>
        else ptr
      else ptr)"

section \<open>The operand types\<close>

definition op_types :: "InternalFPF \<Rightarrow> InternalFPF \<Rightarrow> nat" where
  "op_types x y = unat (fp_type x) * 5 + unat (fp_type y)"

abbreviation (input) ZERO_ZERO :: nat where "ZERO_ZERO \<equiv> 0"
abbreviation (input) ZERO_SUBNORMAL :: nat where "ZERO_SUBNORMAL \<equiv> 1"
abbreviation (input) ZERO_NORMAL :: nat where "ZERO_NORMAL \<equiv> 2"
abbreviation (input) ZERO_INFINITY :: nat where "ZERO_INFINITY \<equiv> 3"
abbreviation (input) ZERO_NAN :: nat where "ZERO_NAN \<equiv> 4"
abbreviation (input) SUBNORMAL_ZERO :: nat where "SUBNORMAL_ZERO \<equiv> 5"
abbreviation (input) SUBNORMAL_SUBNORMAL :: nat where "SUBNORMAL_SUBNORMAL \<equiv> 6"
abbreviation (input) SUBNORMAL_NORMAL :: nat where "SUBNORMAL_NORMAL \<equiv> 7"
abbreviation (input) SUBNORMAL_INFINITY :: nat where "SUBNORMAL_INFINITY \<equiv> 8"
abbreviation (input) SUBNORMAL_NAN :: nat where "SUBNORMAL_NAN \<equiv> 9"
abbreviation (input) NORMAL_ZERO :: nat where "NORMAL_ZERO \<equiv> 10"
abbreviation (input) NORMAL_SUBNORMAL :: nat where "NORMAL_SUBNORMAL \<equiv> 11"
abbreviation (input) NORMAL_NORMAL :: nat where "NORMAL_NORMAL \<equiv> 12"
abbreviation (input) NORMAL_INFINITY :: nat where "NORMAL_INFINITY \<equiv> 13"
abbreviation (input) NORMAL_NAN :: nat where "NORMAL_NAN \<equiv> 14"
abbreviation (input) INFINITY_ZERO :: nat where "INFINITY_ZERO \<equiv> 15"
abbreviation (input) INFINITY_SUBNORMAL :: nat where "INFINITY_SUBNORMAL \<equiv> 16"
abbreviation (input) INFINITY_NORMAL :: nat where "INFINITY_NORMAL \<equiv> 17"
abbreviation (input) INFINITY_INFINITY :: nat where "INFINITY_INFINITY \<equiv> 18"
abbreviation (input) INFINITY_NAN :: nat where "INFINITY_NAN \<equiv> 19"
abbreviation (input) NAN_ZERO :: nat where "NAN_ZERO \<equiv> 20"
abbreviation (input) NAN_SUBNORMAL :: nat where "NAN_SUBNORMAL \<equiv> 21"
abbreviation (input) NAN_NORMAL :: nat where "NAN_NORMAL \<equiv> 22"
abbreviation (input) NAN_INFINITY :: nat where "NAN_INFINITY \<equiv> 23"
abbreviation (input) NAN_NAN :: nat where "NAN_NAN \<equiv> 24"

section \<open>Arithmetic\<close>

text \<open>The first difference of two mantissas: \<open>Some True\<close> when the left one is larger.\<close>

fun compare_mant :: "u16 list \<Rightarrow> u16 list \<Rightarrow> bool option" where
  "compare_mant (a # as) (b # bs) =
     (if a > b then Some True else if a < b then Some False else compare_mant as bs)"
| "compare_mant _ _ = None"

text \<open>
  \<open>memmove(x, z, ...)\<close> copies \<open>*z\<close> over \<open>*x\<close>: that is what the source does wherever it selects an
  operand as the result.
\<close>

definition choose_nan ::
    "InternalFPF \<Rightarrow> InternalFPF \<Rightarrow> InternalFPF \<Rightarrow> bool \<Rightarrow> InternalFPF \<times> InternalFPF \<times> InternalFPF" where
  "choose_nan x y z intel_flag =
     (case compare_mant (mantissa x) (mantissa y) of
        Some True \<Rightarrow> (z, y, z)
      | Some False \<Rightarrow> (x, z, z)
      | None \<Rightarrow> if \<not> intel_flag then (z, y, z) else (x, z, z))"

definition addsub_finish :: "u8 \<Rightarrow> InternalFPF \<Rightarrow> InternalFPF \<Rightarrow> InternalFPF \<Rightarrow> InternalFPF option" where
  "addsub_finish operation locx locy z =
     (if fp_sign locx XOR fp_sign locy XOR operation \<noteq> 0 then
        let (borrow, m) = sub_mant 0 (mantissa locx) (mantissa locy);
            z = z\<lparr>mantissa := m\<rparr>;
            z = (if borrow \<noteq> 0 then
                   z\<lparr>fp_sign := fp_sign locy XOR operation,
                     mantissa := snd (sub_mant 0 [0, 0, 0, 0] (mantissa z))\<rparr>
                 else z)
        in if IsMantissaZero (mantissa z) then Some (z\<lparr>fp_type := IFPF_IS_ZERO, fp_sign := 0\<rparr>)
           else if fp_type locx = IFPF_IS_NORMAL \<or> fp_type locy = IFPF_IS_NORMAL then normalize z
           else Some z
      else
        let (carry, m) = add_mant 0 (mantissa locx) (mantissa locy);
            z = z\<lparr>mantissa := m\<rparr>
        in if carry \<noteq> 0 then
             let m = snd (ShiftMantRight1 0 (mantissa z))
             in Some (z\<lparr>fp_exp := fp_exp z + 1, mantissa := m[0 := m ! 0 OR 0x8000],
                        fp_type := IFPF_IS_NORMAL\<rparr>)
           else if mantissa z ! 0 AND 0x8000 \<noteq> 0 then Some (z\<lparr>fp_type := IFPF_IS_NORMAL\<rparr>)
           else Some z)"

definition addsub_numbers :: "u8 \<Rightarrow> InternalFPF \<Rightarrow> InternalFPF \<Rightarrow> InternalFPF \<Rightarrow> InternalFPF option" where
  "addsub_numbers operation x y z =
     (let exponent_difference = sint (fp_exp x) - sint (fp_exp y) in
      if exponent_difference = 0 then
        Some (z\<lparr>fp_type :=
                 (if fp_type x = IFPF_IS_SUBNORMAL \<or> fp_type y = IFPF_IS_SUBNORMAL
                  then IFPF_IS_SUBNORMAL else IFPF_IS_NORMAL),
               fp_sign := fp_sign x, fp_exp := fp_exp x\<rparr>)
      else if exponent_difference > 0 then
        addsub_finish operation x (StickyShiftRightMant exponent_difference y)
          (z\<lparr>fp_type := fp_type x, fp_sign := fp_sign x, fp_exp := fp_exp x\<rparr>)
      else
        addsub_finish operation (StickyShiftRightMant (- exponent_difference) x) y
          (z\<lparr>fp_type := fp_type y, fp_sign := fp_sign y XOR operation, fp_exp := fp_exp y\<rparr>))"

definition AddSubInternalFPF ::
    "u8 \<Rightarrow> InternalFPF \<Rightarrow> InternalFPF \<Rightarrow> InternalFPF \<Rightarrow>
     (InternalFPF \<times> InternalFPF \<times> InternalFPF) option" where
  "AddSubInternalFPF operation x y z =
     do {
       (x, y, z) \<leftarrow>
         (let t = op_types x y in
          if t = ZERO_ZERO then
            let x' = z; z' = (if fp_sign x' XOR fp_sign y XOR operation \<noteq> 0 then z\<lparr>fp_sign := 0\<rparr> else z)
            in Some (x', y, z')
          else if t \<in> {NAN_ZERO, NAN_SUBNORMAL, NAN_NORMAL, NAN_INFINITY, SUBNORMAL_ZERO, NORMAL_ZERO,
                       INFINITY_ZERO, INFINITY_SUBNORMAL, INFINITY_NORMAL} then Some (z, y, z)
          else if t \<in> {ZERO_NAN, SUBNORMAL_NAN, NORMAL_NAN, INFINITY_NAN} then Some (x, z, z)
          else if t \<in> {ZERO_SUBNORMAL, ZERO_NORMAL, ZERO_INFINITY, SUBNORMAL_INFINITY, NORMAL_INFINITY}
            then Some (x, z, z\<lparr>fp_sign := fp_sign z XOR operation\<rparr>)
          else if t \<in> {SUBNORMAL_SUBNORMAL, SUBNORMAL_NORMAL, NORMAL_SUBNORMAL, NORMAL_NORMAL} then
            do { z \<leftarrow> addsub_numbers operation x y z; Some (x, y, z) }
          else if t = INFINITY_INFINITY then Some (x, y, SetInternalFPFNaN)
          else if t = NAN_NAN then Some (choose_nan x y z True)
          else Some (x, y, z));
       Some (x, y, RoundInternalFPF z)
     }"

text \<open>One turn of the shift-and-add loop, on the multiplier, the product and its extra bits.\<close>

definition mul_step :: "u16 list \<Rightarrow> u16 list \<times> u16 list \<times> u16 list \<Rightarrow> u16 list \<times> u16 list \<times> u16 list" where
  "mul_step xm st =
     (case st of (ym, zm, extra_bits) \<Rightarrow>
        let (carry, ym) = ShiftMantRight1 0 ym;
            (carry, zm) = (if carry \<noteq> 0 then add_mant 0 zm xm else (0, zm));
            (carry, zm) = ShiftMantRight1 carry zm;
            (carry, extra_bits) = ShiftMantRight1 carry extra_bits
        in (ym, zm, extra_bits))"

partial_function (option) mul_normalize ::
    "16 word \<Rightarrow> u16 list \<Rightarrow> u16 list \<Rightarrow> (16 word \<times> u16 list \<times> u16 list) option" where
  "mul_normalize e zm extra_bits =
     (if zm ! 0 AND 0x8000 = 0 then
        let (carry, extra_bits) = ShiftMantLeft1 0 extra_bits;
            (carry, zm) = ShiftMantLeft1 carry zm
        in mul_normalize (e - 1) zm extra_bits
      else Some (e, zm, extra_bits))"

declare mul_normalize.simps [code]

definition multiply_numbers :: "InternalFPF \<Rightarrow> InternalFPF \<Rightarrow> InternalFPF option" where
  "multiply_numbers x y =
     do {
       let (ym, zm, extra_bits) = (mul_step (mantissa x) ^^ 64) (mantissa y, [0, 0, 0, 0], [0, 0, 0, 0]);
       (e, zm, extra_bits) \<leftarrow> mul_normalize (fp_exp x + fp_exp y) zm extra_bits;
       let zm = (if IsMantissaZero extra_bits then zm[3 := zm ! 3 OR 1] else zm);
       Some \<lparr>fp_type = (if fp_type x = IFPF_IS_SUBNORMAL \<or> fp_type y = IFPF_IS_SUBNORMAL
                        then IFPF_IS_SUBNORMAL else IFPF_IS_NORMAL),
             fp_sign = fp_sign x XOR fp_sign y, fp_exp = e, mantissa = zm\<rparr>
     }"

definition MultiplyInternalFPF ::
    "InternalFPF \<Rightarrow> InternalFPF \<Rightarrow> InternalFPF \<Rightarrow> (InternalFPF \<times> InternalFPF \<times> InternalFPF) option" where
  "MultiplyInternalFPF x y z =
     do {
       (x, y, z) \<leftarrow>
         (let t = op_types x y in
          if t \<in> {INFINITY_SUBNORMAL, INFINITY_NORMAL, INFINITY_INFINITY, ZERO_ZERO, ZERO_SUBNORMAL,
                  ZERO_NORMAL} then Some (z, y, z\<lparr>fp_sign := fp_sign z XOR fp_sign y\<rparr>)
          else if t \<in> {SUBNORMAL_INFINITY, NORMAL_INFINITY, SUBNORMAL_ZERO, NORMAL_ZERO}
            then Some (x, z, z\<lparr>fp_sign := fp_sign z XOR fp_sign x\<rparr>)
          else if t \<in> {ZERO_INFINITY, INFINITY_ZERO} then Some (x, y, SetInternalFPFNaN)
          else if t \<in> {NAN_ZERO, NAN_SUBNORMAL, NAN_NORMAL, NAN_INFINITY} then Some (z, y, z)
          else if t \<in> {ZERO_NAN, SUBNORMAL_NAN, NORMAL_NAN, INFINITY_NAN} then Some (x, z, z)
          else if t \<in> {SUBNORMAL_SUBNORMAL, SUBNORMAL_NORMAL, NORMAL_SUBNORMAL, NORMAL_NORMAL} then
            do { z \<leftarrow> multiply_numbers x y; Some (x, y, z) }
          else if t = NAN_NAN then Some (choose_nan x y z False)
          else Some (x, y, z));
       Some (x, y, RoundInternalFPF z)
     }"

text \<open>
  One quotient bit per turn; \<open>carry\<close> out of the partial remainder forces a subtraction.  The
  \<open>goto no_subtract\<close> is the case that the divisor is larger.
\<close>

partial_function (option) div_loop ::
    "u16 list \<Rightarrow> u16 list \<Rightarrow> u16 list \<Rightarrow> u16 list \<Rightarrow> 16 word \<Rightarrow> (u16 list \<times> 16 word) option" where
  "div_loop ym xm extra_bits zm e =
     (if zm ! 0 AND 0x8000 = 0 then
        let (carry, xm) = ShiftMantLeft1 0 xm;
            (carry, extra_bits) = ShiftMantLeft1 carry extra_bits;
            (carry, extra_bits) =
              (if carry = 0 \<and> compare_mant ym extra_bits = Some True then (0, extra_bits)
               else (1, snd (sub_mant 0 extra_bits ym)));
            (carry, zm) = ShiftMantLeft1 carry zm
        in div_loop ym xm extra_bits zm (e - 1)
      else Some (zm, e))"

declare div_loop.simps [code]

definition divide_numbers :: "InternalFPF \<Rightarrow> InternalFPF \<Rightarrow> InternalFPF option" where
  "divide_numbers x y =
     (if IsMantissaZero (mantissa x) then
        Some (if IsMantissaZero (mantissa y) then SetInternalFPFNaN else SetInternalFPFZero 0)
      else if IsMantissaZero (mantissa y) then Some (SetInternalFPFInfinity 0)
      else do {
        (zm, e) \<leftarrow> div_loop (mantissa y) (mantissa x) [0, 0, 0, 0] [0, 0, 0, 0]
                    (fp_exp x - fp_exp y + 128);
        Some \<lparr>fp_type = fp_type x, fp_sign = fp_sign x XOR fp_sign y, fp_exp = e, mantissa = zm\<rparr>
      })"

definition DivideInternalFPF ::
    "InternalFPF \<Rightarrow> InternalFPF \<Rightarrow> InternalFPF \<Rightarrow> (InternalFPF \<times> InternalFPF \<times> InternalFPF) option" where
  "DivideInternalFPF x y z =
     do {
       (x, y, z) \<leftarrow>
         (let t = op_types x y; sgn = fp_sign x XOR fp_sign y in
          if t \<in> {ZERO_ZERO, INFINITY_INFINITY} then Some (x, y, SetInternalFPFNaN)
          else if t \<in> {ZERO_SUBNORMAL, ZERO_NORMAL} \<and> IsMantissaZero (mantissa y)
            then Some (x, y, SetInternalFPFNaN)
          else if t \<in> {ZERO_SUBNORMAL, ZERO_NORMAL, ZERO_INFINITY, SUBNORMAL_INFINITY, NORMAL_INFINITY}
            then Some (x, y, SetInternalFPFZero sgn)
          else if t \<in> {SUBNORMAL_ZERO, NORMAL_ZERO} \<and> IsMantissaZero (mantissa x)
            then Some (x, y, SetInternalFPFNaN)
          else if t \<in> {SUBNORMAL_ZERO, NORMAL_ZERO, INFINITY_ZERO, INFINITY_SUBNORMAL, INFINITY_NORMAL}
            then Some (x, y, SetInternalFPFInfinity sgn)
          else if t \<in> {NAN_ZERO, NAN_SUBNORMAL, NAN_NORMAL, NAN_INFINITY} then Some (z, y, z)
          else if t \<in> {ZERO_NAN, SUBNORMAL_NAN, NORMAL_NAN, INFINITY_NAN} then Some (x, z, z)
          else if t \<in> {SUBNORMAL_SUBNORMAL, NORMAL_SUBNORMAL, SUBNORMAL_NORMAL, NORMAL_NORMAL} then
            do { z \<leftarrow> divide_numbers x y; Some (x, y, z) }
          else if t = NAN_NAN then Some (choose_nan x y z False)
          else Some (x, y, z));
       Some (x, y, RoundInternalFPF z)
     }"

definition Int32ToInternalFPF :: "int32 \<Rightarrow> InternalFPF option" where
  "Int32ToInternalFPF mylong =
     (let (sgn, mylong) = (if sint mylong < 0 then (1, 0 - mylong) else (0, mylong)) in
      if mylong = 0 then
        Some \<lparr>fp_type = IFPF_IS_ZERO, fp_sign = sgn, fp_exp = 0, mantissa = [0, 0, 0, 0]\<rparr>
      else
        normalize \<lparr>fp_type = IFPF_IS_NORMAL, fp_sign = sgn, fp_exp = 32,
          mantissa = [ucast (signed_drop_bit 16 mylong AND 0xFFFF), ucast (mylong AND 0xFFFF), 0, 0]\<rparr>)"

section \<open>The benchmark\<close>

definition setup_element ::
    "nat \<Rightarrow> InternalFPF list \<times> InternalFPF list \<times> rng \<Rightarrow> (InternalFPF list \<times> InternalFPF list \<times> rng) option"
  where
  "setup_element i st =
     (case st of (abase, bbase, s) \<Rightarrow>
        do {
          (r, s) \<leftarrow> randwc 50000 s;
          locFPF1 \<leftarrow> Int32ToInternalFPF r;
          (r, s) \<leftarrow> randwc 50000 s;
          locFPF2 \<leftarrow> Int32ToInternalFPF (r + 1);
          a \<leftarrow> rd abase i;
          (locFPF1, locFPF2, a) \<leftarrow> DivideInternalFPF locFPF1 locFPF2 a;
          abase \<leftarrow> wr abase i a;
          (r, s) \<leftarrow> randwc 50000 s;
          locFPF2 \<leftarrow> Int32ToInternalFPF (r + 1);
          b \<leftarrow> rd bbase i;
          (locFPF1, locFPF2, b) \<leftarrow> DivideInternalFPF locFPF1 locFPF2 b;
          bbase \<leftarrow> wr bbase i b;
          Some (abase, bbase, s)
        })"

definition SetupCPUEmFloatArrays ::
    "InternalFPF list \<Rightarrow> InternalFPF list \<Rightarrow> nat \<Rightarrow> rng \<Rightarrow>
     (InternalFPF list \<times> InternalFPF list \<times> rng) option" where
  "SetupCPUEmFloatArrays abase bbase arraysize s =
     do {
       (_, s) \<leftarrow> randnum 13 s;
       for_range 0 arraysize setup_element (abase, bbase, s)
     }"

definition jtable :: "nat list" where
  "jtable = [0, 0, 0, 0, 1, 1, 1, 1, 2, 2, 2, 2, 2, 3, 3, 3]"

definition emfloat_op ::
    "nat \<Rightarrow> InternalFPF \<Rightarrow> InternalFPF \<Rightarrow> InternalFPF \<Rightarrow> (InternalFPF \<times> InternalFPF \<times> InternalFPF) option"
  where
  "emfloat_op j x y z =
     (if j = 0 then AddSubInternalFPF 0 x y z
      else if j = 1 then AddSubInternalFPF 1 x y z
      else if j = 2 then MultiplyInternalFPF x y z
      else if j = 3 then DivideInternalFPF x y z
      else Some (x, y, z))"

definition emfloat_element ::
    "nat \<Rightarrow> InternalFPF list \<times> InternalFPF list \<times> InternalFPF list \<Rightarrow>
     (InternalFPF list \<times> InternalFPF list \<times> InternalFPF list) option" where
  "emfloat_element i st =
     (case st of (abase, bbase, cbase) \<Rightarrow>
        do {
          a \<leftarrow> rd abase i;
          b \<leftarrow> rd bbase i;
          c \<leftarrow> rd cbase i;
          (a, b, c) \<leftarrow> emfloat_op (jtable ! (i mod 16)) a b c;
          abase \<leftarrow> wr abase i a;
          bbase \<leftarrow> wr bbase i b;
          cbase \<leftarrow> wr cbase i c;
          Some (abase, bbase, cbase)
        })"

definition DoEmFloatIteration ::
    "clock_fn \<Rightarrow> InternalFPF list \<Rightarrow> InternalFPF list \<Rightarrow> InternalFPF list \<Rightarrow> nat \<Rightarrow> nat \<Rightarrow> sys \<Rightarrow>
     (u32 \<times> InternalFPF list \<times> InternalFPF list \<times> InternalFPF list \<times> sys) option" where
  "DoEmFloatIteration clk abase bbase cbase arraysize loops w =
     do {
       let (elapsed, w) = StartStopwatch clk w;
       (abase, bbase, cbase) \<leftarrow>
         for_range 0 loops (\<lambda>_. for_range 0 arraysize emfloat_element) (abase, bbase, cbase);
       let (elapsed, w) = StopStopwatch clk elapsed w;
       Some (elapsed, abase, bbase, cbase, w)
     }"

end
