(* ===== verification/Emfloat_Mant.thy ===== *)
theory Emfloat_Mant
  imports Emfloat
begin

text \<open>
  The mantissa routines of \<open>emfloat.c\<close> as arithmetic.  \<open>mval\<close> reads a mantissa as a number in
  base 65536, the first word being the most significant one; \<open>cval\<close> reads a carry word.
\<close>

fun mval :: "u16 list \<Rightarrow> nat" where
  "mval [] = 0"
| "mval (a # as) = unat a * 65536 ^ length as + mval as"

definition cval :: "u16 \<Rightarrow> nat" where
  "cval c = (if c = 0 then 0 else 1)"

lemma cval_simps [simp]: "cval 0 = 0" "cval 1 = 1"
  by (simp_all add: cval_def)

lemma cval_le: "cval c \<le> 1"
  by (simp add: cval_def)

lemma mval_less: "mval m < 65536 ^ length m"
proof (induction m)
  case Nil
  then show ?case by simp
next
  case (Cons a m)
  have "unat a + 1 \<le> 65536" using unat16_less [of a] by simp
  then have "(unat a + 1) * 65536 ^ length m \<le> 65536 * 65536 ^ length m" by (rule mult_le_mono1)
  then have step: "unat a * 65536 ^ length m + 65536 ^ length m \<le> 65536 * 65536 ^ length m"
    by (simp only: distrib_right mult_1)
  have "mval (a # m) < unat a * 65536 ^ length m + 65536 ^ length m" using Cons.IH by simp
  also have "\<dots> \<le> 65536 ^ length (a # m)" using step by simp
  finally show ?case .
qed

lemma mval_zero_iff: "mval m = 0 \<longleftrightarrow> (\<forall>a \<in> set m. a = 0)"
  by (induction m) (auto simp: unat_gt_0 word_unat_eq_iff)

lemma foldl_or_zero: "foldl (\<lambda>n m. n OR m) (c :: u16) xs = 0 \<longleftrightarrow> c = 0 \<and> (\<forall>a \<in> set xs. a = 0)"
  by (induction xs arbitrary: c) (auto simp: or_eq_0_iff)

lemma IsMantissaZero_iff: "IsMantissaZero m \<longleftrightarrow> mval m = 0"
  by (simp add: IsMantissaZero_def foldl_or_zero mval_zero_iff)

section \<open>Single words\<close>

lemma and_8000: "(a :: u16) AND 0x8000 = 0 \<longleftrightarrow> unat a < 32768"
proof -
  have "a AND 2 ^ 15 = 0 \<longleftrightarrow> \<not> bit a 15" by (rule and_exp_eq_0_iff_not_bit)
  also have "bit a 15 \<longleftrightarrow> odd (unat a div 2 ^ 15)"
    using bit_iff_odd [of "unat a" 15] by (simp only: bit_unsigned_iff possible_bit_nat simp_thms)
  also have "\<not> odd (unat a div 2 ^ 15) \<longleftrightarrow> unat a < 32768"
  proof -
    have "unat a div 32768 < 2" using unat16_less [of a] by (simp add: div_less_iff_less_mult)
    then have "unat a div 32768 = 0 \<or> unat a div 32768 = 1" by linarith
    then show ?thesis by (auto simp: div_eq_0_iff)
  qed
  finally show ?thesis by simp
qed

lemma cval_8000: "cval (a AND 0x8000) = (if unat a < 32768 then 0 else 1)"
  by (simp add: cval_def and_8000)

lemma unat_and_1: "unat ((a :: u16) AND 1) = unat a mod 2"
  by (simp add: and_one_eq unat_mod)

lemma cval_and_1: "cval (a AND 1) = unat a mod 2"
proof -
  have "a AND 1 = 0 \<longleftrightarrow> unat a mod 2 = 0" using unat_and_1 [of a] by (metis unat_eq_zero)
  then show ?thesis by (auto simp: cval_def)
qed

lemma unat_push_1: "unat (push_bit 1 (a :: u16)) = (2 * unat a) mod 65536"
  by (simp add: push_bit_eq_mult unat_word_ariths mult.commute)

lemma unat_or_1: "even (unat (a :: u16)) \<Longrightarrow> unat (a OR 1) = unat a + 1"
proof -
  assume e: "even (unat a)"
  have "a AND 1 = 0" using unat_and_1 [of a] e by (metis even_iff_mod_2_eq_zero unat_eq_zero)
  then have "a OR 1 = a + 1" by (rule disjunctive_add_eq_or [symmetric])
  moreover have "unat a + 1 < 65536"
    using e unat16_less [of a] by (cases "unat a = 65535") auto
  ultimately show ?thesis by (simp add: unat_word_ariths)
qed

lemma unat_or_8000: "unat (a :: u16) < 32768 \<Longrightarrow> unat (a OR 0x8000) = unat a + 32768"
proof -
  assume l: "unat a < 32768"
  then have "a AND 0x8000 = 0" by (simp add: and_8000)
  then have "a OR 0x8000 = a + 0x8000" by (rule disjunctive_add_eq_or [symmetric])
  then show ?thesis using l by (simp add: unat_word_ariths)
qed

lemma unat_drop_1: "unat (drop_bit 1 (a :: u16)) = unat a div 2"
  by (simp add: drop_bit_eq_div unat_div)

section \<open>Shifts\<close>

lemma left_word:
  assumes "w = (if c \<noteq> 0 then push_bit 1 a OR 1 else push_bit 1 (a :: u16))"
  shows "65536 * cval (a AND 0x8000) + unat w = 2 * unat a + cval c"
proof -
  have e: "even (unat (push_bit 1 a))" unfolding unat_push_1 by (simp add: dvd_mod)
  then have w: "unat w = (2 * unat a) mod 65536 + cval c"
    by (cases "c = 0") (simp_all only: assms cval_def unat_or_1 [OF e] unat_push_1 if_True if_False
      simp_thms not_False_eq_True add_0_right)
  have "(2 * unat a) mod 65536 + 65536 * cval (a AND 0x8000) = 2 * unat a"
  proof (cases "unat a < 32768")
    case True
    then show ?thesis by (simp add: cval_8000)
  next
    case False
    then obtain k where k: "unat a = 32768 + k" using le_Suc_ex not_less by blast
    then show ?thesis using unat16_less [of a] by (simp add: cval_8000)
  qed
  then show ?thesis using w by linarith
qed

lemma right_word:
  assumes "w = (if c \<noteq> 0 then drop_bit 1 a OR 0x8000 else drop_bit 1 (a :: u16))"
  shows "2 * unat w + cval (a AND 1) = unat a + 65536 * cval c"
proof -
  have l: "unat (drop_bit 1 a) < 32768" using unat16_less [of a] unfolding unat_drop_1 by simp
  then have "unat w = unat a div 2 + 32768 * cval c"
    by (cases "c = 0") (simp_all only: assms cval_def unat_or_8000 unat_drop_1 if_True if_False
      simp_thms not_False_eq_True add_0_right mult_0_right mult_1_right)
  then show ?thesis unfolding cval_and_1 by simp
qed

lemma ShiftMantLeft1_val:
  "ShiftMantLeft1 c m = (c', m') \<Longrightarrow>
     length m' = length m \<and> cval c' * 65536 ^ length m + mval m' = 2 * mval m + cval c"
proof (induction m arbitrary: c' m')
  case Nil
  then show ?case by simp
next
  case (Cons a m)
  obtain d n where d: "ShiftMantLeft1 c m = (d, n)" by (cases "ShiftMantLeft1 c m")
  define w where "w = (if d \<noteq> 0 then push_bit 1 a OR 1 else push_bit 1 a)"
  have r: "c' = a AND 0x8000" "m' = w # n" using Cons.prems d by (auto simp: w_def Let_def)
  have IH: "length n = length m" "cval d * 65536 ^ length m + mval n = 2 * mval m + cval c"
    using Cons.IH [OF d] by auto
  have "(65536 * cval c' + unat w) * 65536 ^ length m = (2 * unat a + cval d) * 65536 ^ length m"
    using left_word [OF w_def] r(1) by simp
  then show ?case using IH r(2) by (simp add: algebra_simps)
qed

lemma ShiftMantRight1_val:
  "ShiftMantRight1 c m = (c', m') \<Longrightarrow>
     length m' = length m \<and> 2 * mval m' + cval c' = mval m + cval c * 65536 ^ length m"
proof (induction m arbitrary: c c' m')
  case Nil
  then show ?case by simp
next
  case (Cons a m)
  obtain d n where d: "ShiftMantRight1 (a AND 1) m = (d, n)" by (cases "ShiftMantRight1 (a AND 1) m")
  define w where "w = (if c \<noteq> 0 then drop_bit 1 a OR 0x8000 else drop_bit 1 a)"
  have r: "c' = d" "m' = w # n" using Cons.prems d by (auto simp: w_def Let_def)
  have IH: "length n = length m" "2 * mval n + cval d = mval m + cval (a AND 1) * 65536 ^ length m"
    using Cons.IH [OF d] by auto
  have "(2 * unat w + cval (a AND 1)) * 65536 ^ length m = (unat a + 65536 * cval c) * 65536 ^ length m"
    using right_word [OF w_def] by simp
  then show ?case using IH r by (simp add: algebra_simps)
qed

section \<open>Addition and subtraction\<close>

lemma and_10000: "((w :: u32) AND 0x10000 \<noteq> 0) = odd (unat w div 65536)"
proof -
  have "w AND 2 ^ 16 = 0 \<longleftrightarrow> \<not> bit w 16" by (rule and_exp_eq_0_iff_not_bit)
  moreover have "bit w 16 \<longleftrightarrow> odd (unat w div 2 ^ 16)"
    using bit_iff_odd [of "unat w" 16] by (simp only: bit_unsigned_iff possible_bit_nat simp_thms)
  ultimately show ?thesis by simp
qed

lemma unat_low_half: "unat (ucast ((w :: u32) AND 0xFFFF) :: u16) = unat w mod 65536"
proof -
  have "w AND 0xFFFF = w mod 65536"
    using take_bit_eq_mask [of 16 w] by (simp add: mask_eq_exp_minus_1 take_bit_eq_mod)
  then show ?thesis by (simp add: unsigned_ucast_eq take_bit_nat_def unat_mod)
qed

lemma unat_u32_of_u16: "unat (ucast (a :: u16) :: u32) = unat a"
proof -
  have "unat a mod 4294967296 = unat a" using unat16_less [of a] by simp
  then show ?thesis by (simp add: unsigned_ucast_eq take_bit_nat_def)
qed

lemma Add16Bits_val:
  assumes "Add16Bits k b c = (k', a)" "unat k \<le> 1"
  shows "unat k' * 65536 + unat a = unat b + unat c + unat k" "unat k' \<le> 1"
proof -
  define w where "w = (ucast b :: u32) + ucast c + ucast k"
  have r: "k' = (if w AND 0x10000 \<noteq> 0 then 1 else 0)" "a = ucast (w AND 0xFFFF)"
    using assms(1) by (auto simp: Add16Bits_def Let_def w_def)
  have w: "unat w = unat b + unat c + unat k"
    using unat16_less [of b] unat16_less [of c] assms(2)
    by (simp add: w_def unat_word_ariths unat_u32_of_u16)
  define q where "q = unat w div 65536"
  have "unat w < 2 * 65536" using w unat16_less [of b] unat16_less [of c] assms(2) by linarith
  then have "q < 2" by (simp add: q_def div_less_iff_less_mult)
  then have "unat k' = q" using r(1) and_10000 [of w] by (auto simp: q_def [symmetric] less_2_cases_iff)
  then show "unat k' * 65536 + unat a = unat b + unat c + unat k" "unat k' \<le> 1"
    using w r(2) \<open>q < 2\<close> by (auto simp: unat_low_half q_def)
qed

lemma Sub16Bits_val:
  assumes "Sub16Bits k b c = (k', a)" "unat k \<le> 1"
  shows "unat b + unat k' * 65536 = unat a + unat c + unat k" "unat k' \<le> 1"
proof -
  define w where "w = (ucast b :: u32) - ucast c - ucast k"
  have r: "k' = (if w AND 0x10000 \<noteq> 0 then 1 else 0)" "a = ucast (w AND 0xFFFF)"
    using assms(1) by (auto simp: Sub16Bits_def Let_def w_def)
  have ck: "unat ((ucast c :: u32) + ucast k) = unat c + unat k"
    using unat16_less [of c] assms(2) by (simp add: unat_word_ariths unat_u32_of_u16)
  have w': "w = ucast b - (ucast c + ucast k)" by (simp add: w_def)
  have "unat b + unat k' * 65536 = unat a + unat c + unat k \<and> unat k' \<le> 1"
  proof (cases "unat c + unat k \<le> unat b")
    case True
    then obtain d where d: "unat b = unat c + unat k + d" using le_Suc_ex by blast
    then have "unat w = d" using ck by (simp add: w' unat_sub_if' unat_u32_of_u16)
    moreover have "d < 65536" using d unat16_less [of b] by linarith
    ultimately show ?thesis using r d and_10000 [of w] unat_low_half [of w] by simp
  next
    case False
    then obtain d where d: "unat b + d = unat c + unat k" using le_Suc_ex less_imp_le not_less by metis
    have d1: "0 < d" "d \<le> 65536" using d False unat16_less [of c] assms(2) by linarith+
    then have w32: "unat w + d = 4294967296"
      using ck d False by (simp add: w' unat_sub_if' unat_u32_of_u16)
    obtain e where e: "e + d = 65536" using d1 le_Suc_ex [of d 65536] by (metis add.commute)
    have we: "unat w = 65535 * 65536 + e" using w32 e by linarith
    have e6: "e < 65536" using e d1 by linarith
    have "unat w mod 65536 = e" unfolding we using e6 by (simp only: mod_mult_self3 mod_less)
    moreover have "unat w div 65536 = 65535" using we e6 by simp
    ultimately have "unat w div 65536 = 65535" "unat w mod 65536 = e" by simp_all
    then have "unat k' = 1" "unat a = e" using r and_10000 [of w] unat_low_half [of w] by simp_all
    then show ?thesis using d e by simp
  qed
  then show "unat b + unat k' * 65536 = unat a + unat c + unat k" "unat k' \<le> 1" by auto
qed

lemma add_mant_val:
  "add_mant k b c = (k', a) \<Longrightarrow> unat k \<le> 1 \<Longrightarrow> length c = length b \<Longrightarrow>
     length a = length b \<and> unat k' \<le> 1 \<and>
     unat k' * 65536 ^ length b + mval a = mval b + mval c + unat k"
proof (induction k b c arbitrary: k' a rule: add_mant.induct)
  case (1 k b bs c cs)
  obtain d ds where d: "add_mant k bs cs = (d, ds)" by (cases "add_mant k bs cs")
  obtain e x where e: "Add16Bits d b c = (e, x)" by (cases "Add16Bits d b c")
  have IH: "length ds = length bs" "unat d \<le> 1"
      "unat d * 65536 ^ length bs + mval ds = mval bs + mval cs + unat k"
    using 1(1) [OF d] 1(3,4) by auto
  have r: "k' = e" "a = x # ds" using 1(2) d e by auto
  have "(unat e * 65536 + unat x) * 65536 ^ length bs = (unat b + unat c + unat d) * 65536 ^ length bs"
    using Add16Bits_val(1) [OF e IH(2)] by simp
  then show ?case using IH r 1(4) Add16Bits_val(2) [OF e IH(2)] by (simp add: algebra_simps)
qed auto

lemma sub_mant_val:
  "sub_mant k b c = (k', a) \<Longrightarrow> unat k \<le> 1 \<Longrightarrow> length c = length b \<Longrightarrow>
     length a = length b \<and> unat k' \<le> 1 \<and>
     mval b + unat k' * 65536 ^ length b = mval a + mval c + unat k"
proof (induction k b c arbitrary: k' a rule: sub_mant.induct)
  case (1 k b bs c cs)
  obtain d ds where d: "sub_mant k bs cs = (d, ds)" by (cases "sub_mant k bs cs")
  obtain e x where e: "Sub16Bits d b c = (e, x)" by (cases "Sub16Bits d b c")
  have IH: "length ds = length bs" "unat d \<le> 1"
      "mval bs + unat d * 65536 ^ length bs = mval ds + mval cs + unat k"
    using 1(1) [OF d] 1(3,4) by auto
  have r: "k' = e" "a = x # ds" using 1(2) d e by auto
  have "(unat b + unat e * 65536) * 65536 ^ length bs = (unat x + unat c + unat d) * 65536 ^ length bs"
    using Sub16Bits_val(1) [OF e IH(2)] by simp
  then show ?case using IH r 1(4) Sub16Bits_val(2) [OF e IH(2)] by (simp add: algebra_simps)
qed auto

lemma compare_mant_val:
  "length b = length a \<Longrightarrow>
     (compare_mant a b = Some True \<longleftrightarrow> mval b < mval a) \<and>
     (compare_mant a b = Some False \<longleftrightarrow> mval a < mval b) \<and> (compare_mant a b = None \<longleftrightarrow> mval a = mval b)"
proof (induction a b rule: compare_mant.induct)
  case (1 a as b bs)
  have lt: "mval (y # ys) < mval (x # xs)" if "y < x" "length xs = length ys" for x y :: u16 and xs ys
  proof -
    have "unat y + 1 \<le> unat x" using that(1) by (simp add: word_less_nat_alt)
    then have "(unat y + 1) * 65536 ^ length ys \<le> unat x * 65536 ^ length ys" by (rule mult_le_mono1)
    then show ?thesis using mval_less [of ys] that(2) by simp
  qed
  show ?case
  proof (cases "a = b")
    case True
    then show ?thesis using 1 by simp
  next
    case False
    then consider "a < b" | "b < a" by (meson linorder_neqE)
    then show ?thesis
      using lt [of a b bs as] lt [of b a as bs] 1(2) by cases (auto simp: not_less_iff_gr_or_eq)
  qed
qed auto

end
