(* ===== verification/Emfloat_Ops.thy ===== *)
theory Emfloat_Ops
  imports Emfloat_Mant
begin

text \<open>
  The loops of \<open>emfloat.c\<close> that normalize, shift with a sticky bit, multiply and divide,
  as arithmetic on 64-bit mantissas (\<open>mval\<close> of a list of four words).
\<close>

abbreviation (input) N64 :: nat where "N64 \<equiv> 18446744073709551616"
abbreviation (input) N63 :: nat where "N63 \<equiv> 9223372036854775808"

lemma pow4: "(65536 :: nat) ^ 4 = N64"
  by simp

lemma mval_less64: "length m = 4 \<Longrightarrow> mval m < N64"
  using mval_less [of m] by simp

lemma len4E:
  assumes "length m = 4"
  obtains a b c d where "m = [a, b, c, d]"
  using assms by (auto simp: length_Suc_conv eval_nat_numeral)

lemma top_bit: "length m = 4 \<Longrightarrow> m ! 0 AND 0x8000 = 0 \<longleftrightarrow> mval m < N63"
proof -
  assume "length m = 4"
  then obtain a as where m: "m = a # as" "length as = 3" by (cases m) auto
  have r: "mval as < 281474976710656" using mval_less [of as] m(2) by simp
  show ?thesis unfolding m(1) nth_Cons_0 and_8000 using r m(2) by auto
qed

lemma mval_1: "mval [0, 0, 0, 1] = 1" and mval_0: "mval [0, 0, 0, 0] = 0"
  by simp_all

text \<open>Changing the last word changes the number's low 16 bits.\<close>

lemma mval_upd3:
  assumes "length m = 4"
  shows "\<exists>h. mval m = 65536 * h + unat (m ! 3) \<and> (\<forall>w. mval (m[3 := w]) = 65536 * h + unat w)"
proof -
  obtain a b c d where "m = [a, b, c, d]" by (rule len4E [OF assms])
  moreover have "mval [a, b, c, w] = 65536 * (unat a * 4294967296 + unat b * 65536 + unat c) + unat w" for w
    by simp
  moreover have "[a, b, c, d] ! 3 = d" "[a, b, c, d][3 := w] = [a, b, c, w]" for w
    by (simp_all add: numeral_3_eq_3)
  ultimately show ?thesis by metis
qed

lemma unat_FFF8: "unat ((d :: u16) AND 0xFFF8) = 8 * (unat d div 8)"
proof -
  have f: "(0xFFF8 :: u16) = NOT (mask 3)" by (simp add: mask_eq_exp_minus_1)
  have "d AND NOT (mask 3) = push_bit 3 (drop_bit 3 d)"
    by (rule bit_word_eqI) (auto simp: bit_simps)
  then have "d AND 0xFFF8 = push_bit 3 (drop_bit 3 d)" unfolding f .
  moreover have "8 * (unat d div 8) < 65536" using unat16_less [of d] by (simp add: order.strict_trans1 [OF times_div_less_eq_dividend])
  ultimately show ?thesis
    by (simp add: push_bit_eq_mult drop_bit_eq_div unat_word_ariths unat_div mult.commute)
qed

lemma chop_val: "length m = 4 \<Longrightarrow> mval (m[3 := m ! 3 AND 0xFFF8]) = 8 * (mval m div 8)"
proof -
  assume "length m = 4"
  then obtain h where h: "mval m = 65536 * h + unat (m ! 3)"
      "\<forall>w. mval (m[3 := w]) = 65536 * h + unat w" using mval_upd3 by blast
  have "65536 * h + unat (m ! 3) = 8 * (8192 * h) + unat (m ! 3)" by simp
  then have "mval m div 8 = 8192 * h + unat (m ! 3) div 8" unfolding h(1) by (simp only: div_mult_self4)
  then show ?thesis using h(2) unat_FFF8 [of "m ! 3"] by simp
qed

lemma or1_val: "length m = 4 \<Longrightarrow> mval (m[3 := m ! 3 OR 1]) = (if even (mval m) then mval m + 1 else mval m)"
proof -
  assume "length m = 4"
  then obtain h where h: "mval m = 65536 * h + unat (m ! 3)"
      "\<forall>w. mval (m[3 := w]) = 65536 * h + unat w" using mval_upd3 by blast
  have e: "even (mval m) = even (unat (m ! 3))" unfolding h(1) by simp
  show ?thesis
  proof (cases "even (unat (m ! 3))")
    case True
    then show ?thesis using e h unat_or_1 by simp
  next
    case False
    then have "bit (m ! 3) 0"
      using bit_unsigned_iff [of "m ! 3" 0, where ?'a = nat] by (simp add: bit_0)
    then have "(m ! 3) OR 1 = m ! 3" by (intro bit_word_eqI) (auto simp: bit_simps)
    then show ?thesis using e h False by simp
  qed
qed

section \<open>Normalizing\<close>

lemma left_no_carry:
  assumes "ShiftMantLeft1 c m = (c', m')" "length m = 4" "mval m < N63"
  shows "length m' = 4" "mval m' = 2 * mval m + cval c" "c' = 0"
proof -
  have v: "length m' = 4" "cval c' * N64 + mval m' = 2 * mval m + cval c"
    using ShiftMantLeft1_val [OF assms(1)] assms(2) pow4 by simp_all
  have "2 * mval m + cval c < N64" using assms(3) cval_le [of c] by linarith
  then have z: "cval c' = 0" using v(2) by (cases "cval c'") auto
  show "length m' = 4" "mval m' = 2 * mval m + cval c" using v z by auto
  show "c' = 0" using z by (simp add: cval_def split: if_splits)
qed

lemma normalize_Some:
  assumes "length (mantissa p) = 4" "0 < mval (mantissa p)"
  shows "\<exists>m k. normalize p = Some (p\<lparr>mantissa := m, fp_exp := fp_exp p - of_nat k\<rparr>) \<and> length m = 4 \<and>
    mval m = 2 ^ k * mval (mantissa p) \<and> N63 \<le> mval m"
  using assms
proof (induction "N64 - mval (mantissa p)" arbitrary: p rule: less_induct)
  case less
  show ?case
  proof (cases "mval (mantissa p) < N63")
    case False
    then have "normalize p = Some p"
      using top_bit [OF less.prems(1)] by (subst normalize.simps) simp
    then show ?thesis using less.prems False by (intro exI [of _ "mantissa p"] exI [of _ 0]) simp
  next
    case True
    obtain c m1 where sh: "ShiftMantLeft1 0 (mantissa p) = (c, m1)"
      by (cases "ShiftMantLeft1 0 (mantissa p)")
    have m1: "length m1 = 4" "mval m1 = 2 * mval (mantissa p)"
      using left_no_carry [OF sh less.prems(1) True] by simp_all
    let ?q = "p\<lparr>mantissa := m1, fp_exp := fp_exp p - 1\<rparr>"
    have n: "normalize p = normalize ?q"
      using top_bit [OF less.prems(1)] True sh by (subst normalize.simps) simp
    have "N64 - mval m1 < N64 - mval (mantissa p)" using m1 less.prems(2) True by linarith
    then have "\<exists>m k. normalize ?q = Some (?q\<lparr>mantissa := m, fp_exp := fp_exp ?q - of_nat k\<rparr>) \<and> length m = 4 \<and>
        mval m = 2 ^ k * mval m1 \<and> N63 \<le> mval m"
      using less.hyps [of ?q] m1 less.prems(2) by simp
    then obtain m k where "normalize p = Some (p\<lparr>mantissa := m, fp_exp := fp_exp p - of_nat (Suc k)\<rparr>)"
        "length m = 4" "mval m = 2 ^ Suc k * mval (mantissa p)" "N63 \<le> mval m"
      using n m1(2) by (auto simp: algebra_simps)
    then show ?thesis by blast
  qed
qed

lemma left_zero: "\<forall>a \<in> set m. a = 0 \<Longrightarrow> ShiftMantLeft1 0 m = (0, m)"
  by (induction m) auto

lemma normalize_zero_diverges:
  assumes "mantissa p = [0, 0, 0, 0]"
  shows "normalize p = None"
proof (rule ccontr)
  assume "normalize p \<noteq> None"
  then obtain r where "normalize p = Some r" by auto
  then have "mantissa p \<noteq> [0, 0, 0, 0]"
    by (rule normalize.raw_induct [where P = "\<lambda>p r. mantissa p \<noteq> [0, 0, 0, 0]", rotated])
      (fastforce simp: left_zero split: if_splits)
  then show False using assms by simp
qed

section \<open>Sticky shifts\<close>

text \<open>A number shifted right by \<open>n\<close>, its last bit set when a one was shifted out.\<close>

definition sticky :: "nat \<Rightarrow> nat \<Rightarrow> nat" where
  "sticky m n = m div 2 ^ n + (if m mod 2 ^ n \<noteq> 0 \<and> even (m div 2 ^ n) then 1 else 0)"

lemma sticky_0: "sticky m 0 = m"
  by (simp add: sticky_def)

lemma sticky_div: "sticky m n div 2 = m div 2 ^ Suc n"
proof -
  have "sticky m n div 2 = m div 2 ^ n div 2" by (auto simp: sticky_def elim!: evenE)
  then show ?thesis by (simp only: power_Suc mult.commute [of 2] div_mult2_eq)
qed

lemma sticky_odd: "odd (sticky m n) \<longleftrightarrow> m mod 2 ^ Suc n \<noteq> 0"
proof -
  have "m mod 2 ^ Suc n = 2 ^ n * (m div 2 ^ n mod 2) + m mod 2 ^ n"
    using mod_mult2_eq [of m "2 ^ n" 2] by (simp add: mult.commute)
  moreover have "odd (sticky m n) \<longleftrightarrow> m mod 2 ^ n \<noteq> 0 \<or> odd (m div 2 ^ n)" by (auto simp: sticky_def)
  ultimately show ?thesis by (auto simp: odd_iff_mod_2_eq_one)
qed

lemma sticky_Suc: "sticky m (Suc n) = sticky m n div 2 + (if odd (sticky m n) \<and> even (sticky m n div 2) then 1 else 0)"
  unfolding sticky_div sticky_odd by (simp add: sticky_def)

lemma sticky_step_val:
  assumes "length m = 4"
  shows "length (sticky_step m) = 4 \<and>
    mval (sticky_step m) = mval m div 2 + (if odd (mval m) \<and> even (mval m div 2) then 1 else 0)"
proof -
  obtain c m1 where sh: "ShiftMantRight1 0 m = (c, m1)" by (cases "ShiftMantRight1 0 m")
  have v: "length m1 = 4" "2 * mval m1 + cval c = mval m" using ShiftMantRight1_val [OF sh] assms by simp_all
  have "cval c = mval m mod 2" "mval m1 = mval m div 2"
    using v(2) cval_le [of c] by presburger+
  then show ?thesis
    using v(1) or1_val [OF v(1)] sh
    by (auto simp: sticky_step_def cval_def odd_iff_mod_2_eq_one split: if_splits)
qed

lemma sticky_steps_val:
  "length m = 4 \<Longrightarrow> length ((sticky_step ^^ n) m) = 4 \<and> mval ((sticky_step ^^ n) m) = sticky (mval m) n"
proof (induction n)
  case 0
  then show ?case by (simp add: sticky_0)
next
  case (Suc n)
  then show ?case using sticky_step_val [of "(sticky_step ^^ n) m"] by (simp add: sticky_Suc)
qed

lemma sticky_large: "0 < m \<Longrightarrow> m < 2 ^ k \<Longrightarrow> k \<le> n \<Longrightarrow> sticky m n = 1"
proof -
  assume a: "0 < m" "m < 2 ^ k" "k \<le> n"
  then have "m < 2 ^ n" by (meson less_le_trans one_le_numeral power_increasing)
  then show ?thesis using a(1) by (simp add: sticky_def)
qed

lemma StickyShift_val:
  assumes "length (mantissa p) = 4" "fp_type p \<noteq> 0" "0 < mval (mantissa p)" "0 \<le> d"
  shows "\<exists>m. StickyShiftRightMant d p = p\<lparr>mantissa := m\<rparr> \<and> length m = 4 \<and>
    mval m = sticky (mval (mantissa p)) (nat d)"
proof (cases "64 \<le> d")
  case True
  then have "sticky (mval (mantissa p)) (nat d) = 1"
    using mval_less64 [OF assms(1)] assms(3) by (intro sticky_large [of _ 64]) auto
  then show ?thesis using True assms(2)
    by (intro exI [of _ "[0, 0, 0, 1]"]) (simp add: StickyShiftRightMant_def)
next
  case False
  then show ?thesis using sticky_steps_val [OF assms(1), of "nat d"] assms(2)
    by (intro exI [of _ "(sticky_step ^^ nat d) (mantissa p)"]) (simp add: StickyShiftRightMant_def)
qed

section \<open>The division loop\<close>

text \<open>
  \<open>n\<close> turns of the loop: \<open>X * 2 ^ n\<close> is split into the quotient so far, the partial
  remainder \<open>extra_bits\<close> and what is left of the dividend.
\<close>

definition div_inv :: "nat \<Rightarrow> nat \<Rightarrow> nat \<Rightarrow> u16 list \<Rightarrow> u16 list \<Rightarrow> u16 list \<Rightarrow> bool" where
  "div_inv X Y n xm r zm \<longleftrightarrow> length xm = 4 \<and> length r = 4 \<and> length zm = 4 \<and> mval r < Y \<and>
     X * 2 ^ n = (mval zm * Y + mval r) * N64 + mval xm"

lemma div_turn:
  assumes "div_inv X (mval ym) n xm r zm" "length ym = 4" "mval zm < N63"
    and "ShiftMantLeft1 0 xm = (c1, xm')" "ShiftMantLeft1 c1 r = (c2, r1)"
    and "(if c2 = 0 \<and> compare_mant ym r1 = Some True then (0, r1) else (1, snd (sub_mant 0 r1 ym))) = (c3, r2)"
    and "ShiftMantLeft1 c3 zm = (c4, zm')"
  shows "div_inv X (mval ym) (Suc n) xm' r2 zm'"
proof -
  let ?Y = "mval ym"
  have I: "length xm = 4" "length r = 4" "length zm = 4" "mval r < ?Y"
      "X * 2 ^ n = (mval zm * ?Y + mval r) * N64 + mval xm"
    using assms(1) by (simp_all add: div_inv_def)
  have x: "length xm' = 4" "cval c1 * N64 + mval xm' = 2 * mval xm"
    using ShiftMantLeft1_val [OF assms(4)] I pow4 by simp_all
  have r1: "length r1 = 4" "cval c2 * N64 + mval r1 = 2 * mval r + cval c1"
    using ShiftMantLeft1_val [OF assms(5)] I pow4 by simp_all
  have z: "length zm' = 4" "mval zm' = 2 * mval zm + cval c3"
    using left_no_carry [OF assms(7)] I assms(3) by simp_all
  have R: "2 * mval r + cval c1 < 2 * ?Y" using I(4) cval_le [of c1] by linarith
  have rem: "length r2 = 4 \<and> mval r2 < ?Y \<and> 2 * mval r + cval c1 = cval c3 * ?Y + mval r2"
  proof (cases "c2 = 0 \<and> compare_mant ym r1 = Some True")
    case True
    then have "mval r1 < ?Y" using compare_mant_val [of r1 ym] r1 assms(2) by simp
    then show ?thesis using True assms(6) r1 by auto
  next
    case False
    then have c3: "c3 = 1" and r2: "r2 = snd (sub_mant 0 r1 ym)" using assms(6) by (auto split: if_splits)
    obtain b s where s: "sub_mant 0 r1 ym = (b, s)" by (cases "sub_mant 0 r1 ym")
    have sv: "length s = 4" "mval r1 + unat b * N64 = mval s + ?Y"
      using sub_mant_val [OF s] r1(1) assms(2) pow4 by simp_all
    have sl: "mval s < N64" and yl: "?Y < N64" using mval_less64 sv(1) assms(2) by blast+
    have ge: "?Y \<le> cval c2 * N64 + mval r1"
      using False compare_mant_val [of r1 ym] r1(1) assms(2) yl by (auto simp: cval_def)
    have "unat b = cval c2"
    proof -
      have "unat b \<le> 1" using sub_mant_val [OF s] r1(1) assms(2) by simp
      moreover have "mval s < ?Y + N64" using sl by linarith
      ultimately show ?thesis using sv(2) r1(2) R ge sl yl cval_le [of c2] I(4)
        by (cases "unat b"; cases "cval c2") auto
    qed
    then have "cval c2 * N64 + mval r1 = mval s + ?Y" using sv(2) by simp
    then show ?thesis using sv(1) r1(2) R s r2 c3 by simp
  qed
  have "X * 2 ^ Suc n = 2 * (mval zm * ?Y + mval r) * N64 + 2 * mval xm" using I(5) by simp
  also have "\<dots> = (2 * mval zm * ?Y + (2 * mval r + cval c1)) * N64 + mval xm'"
    using x(2) by (simp add: algebra_simps)
  also have "\<dots> = (mval zm' * ?Y + mval r2) * N64 + mval xm'"
    using rem z(2) by (simp add: algebra_simps)
  finally show ?thesis using x(1) rem z(1) by (simp add: div_inv_def)
qed

text \<open>While the quotient is short, fewer than 191 bits have been produced.\<close>

lemma div_inv_bound:
  assumes "div_inv X Y n xm r zm" "0 < X" "Y < N64" "mval zm < N63"
  shows "n < 191"
proof -
  have I: "mval r < Y" "X * 2 ^ n = (mval zm * Y + mval r) * N64 + mval xm" "mval xm < N64"
    using assms(1) mval_less64 by (auto simp: div_inv_def)
  have "mval zm * Y + mval r + 1 \<le> (mval zm + 1) * Y" using I(1) by simp
  also have "\<dots> \<le> N63 * N64" using assms(3,4) by (intro mult_le_mono) simp_all
  finally have "(mval zm * Y + mval r + 1) * N64 \<le> N63 * N64 * N64" by (rule mult_le_mono1)
  then have "X * 2 ^ n < N63 * N64 * N64" using I(2,3) by simp
  moreover have "2 ^ n \<le> X * 2 ^ n" using assms(2) by simp
  ultimately have "2 ^ n < N63 * N64 * N64" by (rule order.strict_trans1 [rotated])
  also have "N63 * N64 * N64 = 2 ^ 191" by simp
  finally have "(2 :: nat) ^ n < 2 ^ 191" .
  then show ?thesis by (simp only: power_strict_increasing_iff one_less_numeral_iff semiring_norm)
qed

lemma div_loop_Some:
  assumes "div_inv X (mval ym) n xm r zm" "length ym = 4" "0 < X"
  shows "\<exists>k q. div_loop ym xm r zm e = Some (q, e - of_nat k) \<and> length q = 4 \<and> N63 \<le> mval q \<and>
    mval q = X * 2 ^ (n + k) div N64 div mval ym"
  using assms
proof (induction "191 - n" arbitrary: n xm r zm e rule: less_induct)
  case less
  note I = less.prems(1) [unfolded div_inv_def]
  have yl: "mval ym < N64" by (rule mval_less64 [OF less.prems(2)])
  show ?case
  proof (cases "mval zm < N63")
    case False
    then have d: "div_loop ym xm r zm e = Some (zm, e)"
      using top_bit [of zm] I by (subst div_loop.simps) simp
    have "X * 2 ^ n div N64 = mval zm * mval ym + mval r" using I mval_less64 [of xm] by simp
    then have "X * 2 ^ n div N64 div mval ym = mval zm" using I by simp
    then show ?thesis using d I False by (intro exI [of _ 0] exI [of _ zm]) simp
  next
    case True
    have n: "n < 191" by (rule div_inv_bound [OF less.prems(1,3) yl True])
    obtain c1 xm' where s1: "ShiftMantLeft1 0 xm = (c1, xm')" by (cases "ShiftMantLeft1 0 xm")
    obtain c2 r1 where s2: "ShiftMantLeft1 c1 r = (c2, r1)" by (cases "ShiftMantLeft1 c1 r")
    obtain c3 :: u16 and r2 where s3: "(if c2 = 0 \<and> compare_mant ym r1 = Some True then (0, r1)
        else (1, snd (sub_mant 0 r1 ym))) = (c3, r2)" by (rule prod.exhaust)
    obtain c4 zm' where s4: "ShiftMantLeft1 c3 zm = (c4, zm')" by (cases "ShiftMantLeft1 c3 zm")
    have turn: "div_inv X (mval ym) (Suc n) xm' r2 zm'"
      by (rule div_turn [OF less.prems(1,2) True s1 s2 s3 s4])
    have d: "div_loop ym xm r zm e = div_loop ym xm' r2 zm' (e - 1)"
      using top_bit [of zm] I True s1 s2 s3 s4 by (subst div_loop.simps) simp
    obtain k q where "div_loop ym xm' r2 zm' (e - 1) = Some (q, e - 1 - of_nat k)" "length q = 4"
        "N63 \<le> mval q" "mval q = X * 2 ^ (Suc n + k) div N64 div mval ym"
      using less.hyps [OF _ turn less.prems(2,3), of "e - 1"] diff_less_mono2 [OF lessI n] by blast
    then show ?thesis using d by (intro exI [of _ "Suc k"] exI [of _ q]) (simp add: algebra_simps)
  qed
qed

lemma divide_loop_quotient:
  assumes "length xm = 4" "length ym = 4" "0 < mval xm" "0 < mval ym"
  shows "\<exists>k q. div_loop ym xm [0, 0, 0, 0] [0, 0, 0, 0] e = Some (q, e - of_nat k) \<and> length q = 4 \<and>
    N63 \<le> mval q \<and> mval q = mval xm * 2 ^ k div (N64 * mval ym)"
proof -
  have "div_inv (mval xm) (mval ym) 0 xm [0, 0, 0, 0] [0, 0, 0, 0]"
    using assms by (simp add: div_inv_def)
  from div_loop_Some [OF this assms(2,3), of e] show ?thesis by (simp add: div_mult2_eq)
qed

section \<open>The multiplication loop\<close>

definition mul_inv :: "nat \<Rightarrow> nat \<Rightarrow> nat \<Rightarrow> u16 list \<times> u16 list \<times> u16 list \<Rightarrow> bool" where
  "mul_inv X Y i st \<longleftrightarrow> (case st of (ym, zm, ex) \<Rightarrow> length ym = 4 \<and> length zm = 4 \<and> length ex = 4 \<and>
     mval ym = Y div 2 ^ i \<and> mval zm * N64 + mval ex = X * (Y mod 2 ^ i) * 2 ^ (64 - i))"

lemma mod_2_Suc: "Y mod 2 ^ Suc i = 2 ^ i * (Y div 2 ^ i mod 2) + Y mod (2 ^ i :: nat)"
  using mod_mult2_eq [of Y "2 ^ i" 2] by (simp add: mult.commute)

lemma half_split: "2 * a + c = (d :: nat) \<Longrightarrow> c \<le> 1 \<Longrightarrow> c = d mod 2 \<and> a = d div 2"
  by presburger

lemma mul_turn:
  assumes "mul_inv (mval xm) Y i st" "length xm = 4" "i < 64"
  shows "mul_inv (mval xm) Y (Suc i) (mul_step xm st)"
proof -
  obtain ym zm ex where st: "st = (ym, zm, ex)" by (cases st)
  have I: "length ym = 4" "length zm = 4" "length ex = 4" "mval ym = Y div 2 ^ i"
      "mval zm * N64 + mval ex = mval xm * (Y mod 2 ^ i) * 2 ^ (64 - i)"
    using assms(1) by (simp_all add: mul_inv_def st)
  obtain c ym' where s1: "ShiftMantRight1 0 ym = (c, ym')" by (cases "ShiftMantRight1 0 ym")
  obtain c1 z1 where s2: "(if c \<noteq> 0 then add_mant 0 zm xm else (0, zm)) = (c1, z1)" by (rule prod.exhaust)
  obtain c2 z2 where s3: "ShiftMantRight1 c1 z1 = (c2, z2)" by (cases "ShiftMantRight1 c1 z1")
  obtain c3 ex' where s4: "ShiftMantRight1 c2 ex = (c3, ex')" by (cases "ShiftMantRight1 c2 ex")
  have r: "mul_step xm st = (ym', z2, ex')" using s1 s2 s3 s4 by (simp add: mul_step_def st)
  have y: "length ym' = 4" "2 * mval ym' + cval c = mval ym"
    using ShiftMantRight1_val [OF s1] I(1) by simp_all
  have cb: "cval c = Y div 2 ^ i mod 2" "mval ym' = Y div 2 ^ i div 2"
    using half_split [OF y(2) cval_le] I(4) by simp_all
  have z1: "length z1 = 4 \<and> cval c1 * N64 + mval z1 = mval zm + cval c * mval xm"
  proof (cases "c = 0")
    case True
    then show ?thesis using s2 I(2) by (auto simp: cval_def)
  next
    case False
    then have a: "add_mant 0 zm xm = (c1, z1)" using s2 by simp
    have "unat c1 \<le> 1" using add_mant_val [OF a] I(2) assms(2) by simp
    then have "unat c1 = cval c1" by (cases "c1 = 0") (auto simp: cval_def unat_eq_zero [symmetric] le_Suc_eq)
    then show ?thesis using add_mant_val [OF a] I(2) assms(2) pow4 False by (simp add: cval_def)
  qed
  have z2: "length z2 = 4" "2 * mval z2 + cval c2 = mval zm + cval c * mval xm"
    using ShiftMantRight1_val [OF s3] z1 pow4 by simp_all
  have e: "length ex' = 4" "2 * mval ex' + cval c3 = mval ex + cval c2 * N64"
    using ShiftMantRight1_val [OF s4] I(3) pow4 by simp_all
  obtain j where j: "64 - i = Suc j" using assms(3) by (metis Suc_diff_Suc)
  have "even (mval zm * N64 + mval ex)" unfolding I(5) j by simp
  then have "even (mval ex)" by simp
  then have "cval c3 = 0" using e(2) cval_le [of c3] by presburger
  then have e': "2 * mval ex' = mval ex + cval c2 * N64" using e(2) by simp
  have N: "N64 = 2 ^ i * 2 ^ Suc j"
    using assms(3) j by (simp only: power_add [symmetric]) (simp flip: j)
  have "2 * (mval z2 * N64 + mval ex') = (mval zm + cval c * mval xm) * N64 + mval ex"
    using z2(2) e' by (simp add: algebra_simps)
  also have "\<dots> = mval xm * (Y mod 2 ^ i) * 2 ^ Suc j + cval c * mval xm * N64"
    using I(5) j by (simp add: algebra_simps)
  also have "\<dots> = 2 * (mval xm * (2 ^ i * cval c + Y mod 2 ^ i) * 2 ^ j)"
    unfolding N by (simp add: algebra_simps)
  finally have "mval z2 * N64 + mval ex' = mval xm * (2 ^ i * cval c + Y mod 2 ^ i) * 2 ^ j"
    by (simp only: mult_cancel1) simp
  then have "mval z2 * N64 + mval ex' = mval xm * (Y mod 2 ^ Suc i) * 2 ^ j"
    unfolding mod_2_Suc cb(1) .
  moreover have "64 - Suc i = j" using j by simp
  moreover have "Y div 2 ^ i div 2 = Y div 2 ^ Suc i" by (simp only: power_Suc mult.commute [of 2] div_mult2_eq)
  ultimately show ?thesis using y(1) z2(1) e(1) cb(2) by (simp add: mul_inv_def r)
qed

lemma mul_loop_product:
  assumes "length xm = 4" "length ym = 4"
  shows "\<exists>y' zm ex. (mul_step xm ^^ 64) (ym, [0, 0, 0, 0], [0, 0, 0, 0]) = (y', zm, ex) \<and>
    length zm = 4 \<and> length ex = 4 \<and> mval zm * N64 + mval ex = mval xm * mval ym"
proof -
  let ?s0 = "(ym, [0, 0, 0, 0], [0, 0, 0, 0]) :: u16 list \<times> u16 list \<times> u16 list"
  have "i \<le> 64 \<Longrightarrow> mul_inv (mval xm) (mval ym) i ((mul_step xm ^^ i) ?s0)" for i
  proof (induction i)
    case 0
    then show ?case using assms(2) by (simp add: mul_inv_def)
  next
    case (Suc i)
    then show ?case using mul_turn [OF _ assms(1)] by simp
  qed
  then have "mul_inv (mval xm) (mval ym) 64 ((mul_step xm ^^ 64) ?s0)" by blast
  moreover have "mval ym mod 2 ^ 64 = mval ym" using mval_less64 [OF assms(2)] by simp
  ultimately show ?thesis by (cases "(mul_step xm ^^ 64) ?s0") (simp add: mul_inv_def)
qed

lemma double_closer: "p < c \<Longrightarrow> q = 2 * p \<Longrightarrow> 0 < p \<Longrightarrow> c - q < c - (p :: nat)"
  by linarith

lemma mul_normalize_Some:
  assumes "length zm = 4" "length ex = 4" "0 < mval zm * N64 + mval ex"
  shows "\<exists>k z' ex'. mul_normalize e zm ex = Some (e - of_nat k, z', ex') \<and> length z' = 4 \<and> length ex' = 4 \<and>
    mval z' * N64 + mval ex' = 2 ^ k * (mval zm * N64 + mval ex) \<and> N63 \<le> mval z'"
  using assms
proof (induction "N64 * N64 - (mval zm * N64 + mval ex)" arbitrary: zm ex e rule: less_induct)
  case less
  show ?case
  proof (cases "mval zm < N63")
    case False
    then have "mul_normalize e zm ex = Some (e, zm, ex)"
      using top_bit [OF less.prems(1)] by (subst mul_normalize.simps) simp
    then show ?thesis using less.prems False
      by (intro exI [of _ 0] exI [of _ zm] exI [of _ ex]) simp
  next
    case True
    obtain c ex1 where s1: "ShiftMantLeft1 0 ex = (c, ex1)" by (cases "ShiftMantLeft1 0 ex")
    obtain d z1 where s2: "ShiftMantLeft1 c zm = (d, z1)" by (cases "ShiftMantLeft1 c zm")
    have e1: "length ex1 = 4" "cval c * N64 + mval ex1 = 2 * mval ex"
      using ShiftMantLeft1_val [OF s1] less.prems(2) pow4 by simp_all
    have z1: "length z1 = 4" "mval z1 = 2 * mval zm + cval c"
      using left_no_carry [OF s2 less.prems(1) True] by simp_all
    have v: "mval z1 * N64 + mval ex1 = 2 * (mval zm * N64 + mval ex)"
      using e1(2) z1(2) by (simp add: algebra_simps)
    have "mval zm * N64 + mval ex < N64 * N64"
      using True mval_less64 [OF less.prems(2)] by simp
    then have m: "N64 * N64 - (mval z1 * N64 + mval ex1) < N64 * N64 - (mval zm * N64 + mval ex)"
      using double_closer [OF _ v less.prems(3)] by blast
    have pos: "0 < mval z1 * N64 + mval ex1" unfolding v using less.prems(3) by simp
    obtain k z' ex' where "mul_normalize (e - 1) z1 ex1 = Some (e - 1 - of_nat k, z', ex')" "length z' = 4"
        "length ex' = 4" "mval z' * N64 + mval ex' = 2 ^ k * (mval z1 * N64 + mval ex1)" "N63 \<le> mval z'"
      using less.hyps [OF m z1(1) e1(1) pos, of "e - 1"] by blast
    moreover have "mul_normalize e zm ex = mul_normalize (e - 1) z1 ex1"
      using top_bit [OF less.prems(1)] True s1 s2 by (subst mul_normalize.simps) simp
    ultimately show ?thesis unfolding v
      by (intro exI [of _ "Suc k"] exI [of _ z'] exI [of _ ex']) (simp add: algebra_simps)
  qed
qed

text \<open>The scale of a normalized result is determined by its size.\<close>

lemma scale_unique:
  assumes "N63 * b \<le> a * 2 ^ j" "a * 2 ^ j < N64 * b" "N63 * b \<le> a * 2 ^ k" "a * 2 ^ k < N64 * (b :: nat)"
  shows "j = k"
proof -
  have "\<not> i < l" if "N63 * b \<le> a * 2 ^ i" "a * 2 ^ l < N64 * b" for i l
  proof
    assume "i < l"
    then obtain e where e: "l = i + Suc e" using less_imp_Suc_add by fastforce
    have "2 * (N63 * b) \<le> a * 2 ^ i * 2 ^ Suc e"
    proof -
      have "(2 :: nat) \<le> 2 ^ Suc e" by simp
      then have "(N63 * b) * 2 \<le> (a * 2 ^ i) * 2 ^ Suc e" by (rule mult_le_mono [OF that(1)])
      then show ?thesis by (simp only: mult.commute)
    qed
    moreover have "a * 2 ^ l = a * 2 ^ i * 2 ^ Suc e" by (simp add: e power_add)
    ultimately show False using that(2) by linarith
  qed
  then show ?thesis using assms by (metis linorder_neqE_nat)
qed

lemma div_scale_iff:
  assumes "0 < (b :: nat)"
  shows "N63 \<le> a div b \<longleftrightarrow> N63 * b \<le> a" "a div b < N64 \<longleftrightarrow> a < N64 * b"
  using assms by (simp_all add: less_eq_div_iff_mult_less_eq div_less_iff_less_mult)

section \<open>Rounding\<close>

definition chop :: "u16 list \<Rightarrow> u16 list" where
  "chop m = m[3 := m ! 3 AND 0xFFF8]"

lemma chop_length [simp]: "length (chop m) = length m"
  by (simp add: chop_def)

lemma mval_chop: "length m = 4 \<Longrightarrow> mval (chop m) = 8 * (mval m div 8)"
  unfolding chop_def by (rule chop_val)

lemma sint16_range: "- 32768 \<le> sint (e :: 16 word)" "sint e < 32768"
  using sint_range_size [of e] by (simp_all add: word_size)

lemma Round_normal:
  assumes "fp_type p = 2" "sint (fp_exp p) \<noteq> - 32768"
  shows "RoundInternalFPF p = p\<lparr>mantissa := chop (mantissa p)\<rparr>"
  using assms sint16_range [of "fp_exp p"]
  by (simp add: RoundInternalFPF_def denormalize_def chop_def)

lemma Round_other: "fp_type p \<noteq> 1 \<Longrightarrow> fp_type p \<noteq> 2 \<Longrightarrow> RoundInternalFPF p = p"
  by (simp add: RoundInternalFPF_def)

text \<open>Exponent arithmetic that stays inside a \<open>short\<close>.\<close>

lemma sint16_of_int:
  assumes "- 32768 \<le> k" "k < 32768"
  shows "sint (word_of_int k :: 16 word) = k"
  using assms by (simp add: sint_sbintrunc' signed_take_bit_int_eq_self)

end
