(* ===== verification/Emfloat_Spec.thy ===== *)
theory Emfloat_Spec
  imports Emfloat_Ops
begin

text \<open>
  What the operations of \<open>emfloat.c\<close> return on normalized operands, exactly: which quotient,
  product, sum or difference the result's mantissa holds after chopping its last three bits,
  and its exponent and sign.
\<close>

definition fp_normal :: "InternalFPF \<Rightarrow> bool" where
  "fp_normal p \<longleftrightarrow> fp_type p = 2 \<and> length (mantissa p) = 4 \<and> N63 \<le> mval (mantissa p)"

lemma fp_normalD:
  assumes "fp_normal p"
  shows "fp_type p = 2" "length (mantissa p) = 4" "N63 \<le> mval (mantissa p)" "mval (mantissa p) < N64"
  using assms mval_less64 by (auto simp: fp_normal_def)

lemma op_types_normal: "fp_type x = 2 \<Longrightarrow> fp_type y = 2 \<Longrightarrow> op_types x y = 12"
  by (simp add: op_types_def)

lemma chop_ge: "length m = 4 \<Longrightarrow> N63 \<le> mval m \<Longrightarrow> N63 \<le> mval (chop m)"
  using mval_chop [of m] div_le_mono [of N63 "mval m" 8] by simp

section \<open>Conversion\<close>

lemma Int32_value:
  assumes "n \<noteq> 0"
  shows "\<exists>p k. Int32ToInternalFPF n = Some p \<and> fp_normal p \<and> (fp_sign p = 1 \<longleftrightarrow> sint n < 0) \<and>
    k \<le> 31 \<and> sint (fp_exp p) = 32 - int k \<and> int (mval (mantissa p)) = \<bar>sint n\<bar> * 2 ^ (32 + k)"
proof -
  define v where "v = (if sint n < 0 then - n else n)"
  define sg :: u8 where "sg = (if sint n < 0 then 1 else 0)"
  have v0: "v \<noteq> 0" using assms by (simp add: v_def)
  have uv: "int (unat v) = \<bar>sint n\<bar>"
  proof (cases "sint n = - (2 ^ 31)")
    case True
    then have "n = word_of_int (- (2 ^ 31))" using of_int_sint [of n, where ?'a = "32 word"] by simp
    then show ?thesis by (simp add: v_def)
  next
    case False
    show ?thesis
    proof (cases "sint n < 0")
      case True
      then have "sint v = - sint n" using sint_minus32 [OF False] by (simp add: v_def)
      then show ?thesis using True unat_nonneg_sint [of v] by simp
    next
      case nn: False
      then show ?thesis using unat_nonneg_sint [of n] by (simp add: v_def)
    qed
  qed
  define hi :: u16 where "hi = ucast (signed_drop_bit 16 v AND 0xFFFF)"
  define lo :: u16 where "lo = ucast (v AND 0xFFFF)"
  have "signed_drop_bit 16 v AND 0xFFFF = drop_bit 16 v"
  proof -
    have f: "(0xFFFF :: u32) = mask 16" by (simp add: mask_eq_exp_minus_1)
    show ?thesis unfolding f by (rule bit_word_eqI) (auto simp: bit_simps dest: bit_imp_le_length)
  qed
  then have "unat hi = unat v div 65536"
  proof -
    have "unat v div 65536 < 65536" using unat32_less [of v] by (simp add: div_less_iff_less_mult)
    then show ?thesis using \<open>signed_drop_bit 16 v AND 0xFFFF = drop_bit 16 v\<close>
      by (simp add: hi_def unsigned_ucast_eq take_bit_nat_def unat_drop_bit_eq drop_bit_eq_div unat_div)
  qed
  moreover have "unat lo = unat v mod 65536" unfolding lo_def by (rule unat_low_half)
  ultimately have split: "unat v = unat hi * 65536 + unat lo" by simp
  have mv: "mval [hi, lo, 0, 0] = unat v * 2 ^ 32" using split by simp
  let ?p = "\<lparr>fp_type = 2, fp_sign = sg, fp_exp = 32, mantissa = [hi, lo, 0, 0]\<rparr>"
  have c: "Int32ToInternalFPF n = normalize ?p"
    using assms v0 by (simp add: Int32ToInternalFPF_def v_def sg_def hi_def lo_def)
  have vpos: "0 < unat v" using v0 by (simp add: unat_gt_0)
  have "length (mantissa ?p) = 4" "0 < mval (mantissa ?p)"
    using vpos by (simp_all only: InternalFPF.select_convs mv) simp_all
  from normalize_Some [OF this] obtain m k where
      n: "normalize ?p = Some (?p\<lparr>mantissa := m, fp_exp := fp_exp ?p - of_nat k\<rparr>)" "length m = 4"
      "mval m = 2 ^ k * mval (mantissa ?p)" "N63 \<le> mval m" by blast
  have m: "normalize ?p = Some (?p\<lparr>mantissa := m, fp_exp := 32 - of_nat k\<rparr>)" "length m = 4"
      "mval m = 2 ^ k * (unat v * 2 ^ 32)" "N63 \<le> mval m"
    using n by (simp_all only: InternalFPF.select_convs mv)
  have "2 ^ k * 2 ^ 32 \<le> 2 ^ k * (unat v * 2 ^ 32)" using vpos by simp
  also have "\<dots> < N64" using m(2,3) mval_less64 by metis
  also have "N64 = 2 ^ 32 * 2 ^ 32" by simp
  finally have "(2 :: nat) ^ k < 2 ^ 32" by (simp only: mult_less_cancel2)
  then have k: "k \<le> 31" by (simp only: power_strict_increasing_iff one_less_numeral_iff semiring_norm)
  have "sint (word_of_int (32 - int k) :: 16 word) = 32 - int k" using k by (intro sint16_of_int) auto
  then have ex: "sint (32 - of_nat k :: 16 word) = 32 - int k" by simp
  have "int (mval m) = int (unat v) * 2 ^ (32 + k)" using m(3) by (simp add: power_add)
  then show ?thesis
    using c m k ex uv by (intro exI [of _ "?p\<lparr>mantissa := m, fp_exp := 32 - of_nat k\<rparr>"] exI [of _ k])
      (simp add: fp_normal_def sg_def)
qed

text \<open>
  Converting a nonzero 32-bit integer, the smallest one included, returns a normalized number
  whose sign, mantissa and exponent represent the integer exactly.
\<close>

theorem Int32ToInternalFPF_value:
  assumes "n \<noteq> 0"
  shows "\<exists>p k. Int32ToInternalFPF n = Some p \<and> fp_normal p \<and> (fp_sign p = 1 \<longleftrightarrow> sint n < 0) \<and>
    k \<le> 31 \<and> sint (fp_exp p) = 32 - int k \<and> int (mval (mantissa p)) = \<bar>sint n\<bar> * 2 ^ (32 + k)"
  by (rule Int32_value [OF assms])

theorem Int32ToInternalFPF_value_witness:
  "\<exists>p k. Int32ToInternalFPF 10 = Some p \<and> fp_normal p \<and> (fp_sign p = 1 \<longleftrightarrow> sint (10 :: int32) < 0) \<and>
    k \<le> 31 \<and> sint (fp_exp p) = 32 - int k \<and> int (mval (mantissa p)) = \<bar>sint (10 :: int32)\<bar> * 2 ^ (32 + k)"
  by (rule Int32ToInternalFPF_value) simp

section \<open>Division\<close>

lemma exp_word:
  assumes "(e :: 16 word) = word_of_int k" "- 32768 < k" "k < 32768"
  shows "sint e = k"
  unfolding assms(1) using assms(2,3) by (intro sint16_of_int) auto

lemma IsMantissaZero_normal: "fp_normal p \<Longrightarrow> \<not> IsMantissaZero (mantissa p)"
  using fp_normalD [of p] by (simp add: IsMantissaZero_iff)

lemma divide_numbers_normal:
  assumes "fp_normal x" "fp_normal y"
  defines "X \<equiv> mval (mantissa x)" and "Y \<equiv> mval (mantissa y)"
  shows "\<exists>q. divide_numbers x y = Some \<lparr>fp_type = 2, fp_sign = fp_sign x XOR fp_sign y,
      fp_exp = fp_exp x - fp_exp y + 128 - of_nat (if Y \<le> X then 127 else 128), mantissa = q\<rparr> \<and>
    length q = 4 \<and> N63 \<le> mval q \<and> mval q = X * (if Y \<le> X then 2 ^ 63 else 2 ^ 64) div Y"
proof -
  note x = fp_normalD [OF assms(1)] and y = fp_normalD [OF assms(2)]
  have pos: "0 < X" "0 < Y" using x y by (auto simp: X_def Y_def)
  let ?e = "fp_exp x - fp_exp y + 128"
  obtain k q where q: "div_loop (mantissa y) (mantissa x) [0, 0, 0, 0] [0, 0, 0, 0] ?e = Some (q, ?e - of_nat k)"
      "length q = 4" "N63 \<le> mval q" "mval q = X * 2 ^ k div (N64 * Y)"
    using divide_loop_quotient [OF x(2) y(2), of ?e] pos unfolding X_def Y_def by blast
  define j :: nat where "j = (if Y \<le> X then 127 else 128)"
  have b: "0 < N64 * Y" using pos by simp
  have "mval q < N64" using q(2) by (rule mval_less64)
  then have k1: "N63 * (N64 * Y) \<le> X * 2 ^ k" "X * 2 ^ k < N64 * (N64 * Y)"
    using q(3,4) div_scale_iff [OF b] by metis+
  have "N63 * (N64 * Y) \<le> X * 2 ^ j \<and> X * 2 ^ j < N64 * (N64 * Y)"
  proof (cases "Y \<le> X")
    case True
    have "X < 2 * Y" using x(4) y(3) by (simp add: X_def Y_def)
    then show ?thesis using True by (simp add: j_def)
  next
    case False
    have "Y < 2 * X" using y(4) x(3) by (simp add: X_def Y_def)
    then show ?thesis using False by (simp add: j_def)
  qed
  then have kj: "k = j" using scale_unique k1 by blast
  have "mval q = X * (if Y \<le> X then 2 ^ 63 else 2 ^ 64) div Y"
  proof -
    have "X * 2 ^ j = (X * (if Y \<le> X then 2 ^ 63 else 2 ^ 64)) * N64" by (simp add: j_def)
    then have "X * 2 ^ j div (N64 * Y) = X * (if Y \<le> X then 2 ^ 63 else 2 ^ 64) div Y"
      by (simp only: mult.commute [of N64 Y] div_mult_mult2)
    then show ?thesis using q(4) kj by simp
  qed
  moreover have "divide_numbers x y = Some \<lparr>fp_type = 2, fp_sign = fp_sign x XOR fp_sign y,
      fp_exp = ?e - of_nat j, mantissa = q\<rparr>"
    using q(1) kj x(1) IsMantissaZero_normal [OF assms(1)] IsMantissaZero_normal [OF assms(2)]
    by (simp add: divide_numbers_def)
  ultimately show ?thesis using q(2,3) unfolding j_def by blast
qed

text \<open>
  Dividing two normalized emulated numbers returns: the bit-by-bit loop with its carry and
  its goto terminates, leaves the operands alone, and the result is normalized, with the exclusive
  or of the signs, the exact exponent, and as mantissa the 64-bit quotient of the mantissas with
  its last three bits chopped.
\<close>

theorem DivideInternalFPF_normal:
  assumes "fp_normal x" "fp_normal y" "\<bar>sint (fp_exp x) - sint (fp_exp y)\<bar> \<le> 32000"
  shows "\<exists>r. DivideInternalFPF x y z = Some (x, y, r) \<and> fp_normal r \<and>
    fp_sign r = fp_sign x XOR fp_sign y \<and>
    (let X = mval (mantissa x); Y = mval (mantissa y); s = (if Y \<le> X then 1 else 0) in
      sint (fp_exp r) = sint (fp_exp x) - sint (fp_exp y) + int s \<and>
      mval (mantissa r) = 8 * (X * 2 ^ (64 - s) div Y div 8))"
proof -
  define s :: nat where "s = (if mval (mantissa y) \<le> mval (mantissa x) then 1 else 0)"
  obtain q where q: "divide_numbers x y = Some \<lparr>fp_type = 2, fp_sign = fp_sign x XOR fp_sign y,
      fp_exp = fp_exp x - fp_exp y + 128 - of_nat (128 - s), mantissa = q\<rparr>"
    "length q = 4" "N63 \<le> mval q" "mval q = mval (mantissa x) * 2 ^ (64 - s) div mval (mantissa y)"
    using divide_numbers_normal [OF assms(1,2)] unfolding s_def by (auto split: if_splits)
  let ?r = "\<lparr>fp_type = 2, fp_sign = fp_sign x XOR fp_sign y,
      fp_exp = fp_exp x - fp_exp y + 128 - of_nat (128 - s), mantissa = q\<rparr>"
  have e: "sint (fp_exp ?r) = sint (fp_exp x) - sint (fp_exp y) + int s"
    using assms(3) by (intro exp_word) (auto simp: s_def)
  have "RoundInternalFPF ?r = ?r\<lparr>mantissa := chop q\<rparr>"
    using Round_normal [of ?r] e assms(3) by (auto simp: s_def)
  then have "DivideInternalFPF x y z = Some (x, y, ?r\<lparr>mantissa := chop q\<rparr>)"
    using op_types_normal [of x y] fp_normalD(1) assms(1,2) q(1) by (simp add: DivideInternalFPF_def Let_def)
  then show ?thesis
    using q chop_ge [OF q(2,3)] mval_chop [OF q(2)] e
    unfolding Let_def s_def [symmetric] by (intro exI conjI) (auto simp: fp_normal_def)
qed

definition fp_three :: InternalFPF where
  "fp_three = \<lparr>fp_type = 2, fp_sign = 0, fp_exp = 2, mantissa = [0xC000, 0, 0, 0]\<rparr>"

definition fp_minus_ten :: InternalFPF where
  "fp_minus_ten = \<lparr>fp_type = 2, fp_sign = 1, fp_exp = 4, mantissa = [0xA000, 0, 0, 0]\<rparr>"

lemma fp_samples [simp]:
  "fp_normal fp_three" "fp_normal fp_minus_ten" "sint (fp_exp fp_three) = 2" "sint (fp_exp fp_minus_ten) = 4"
  "fp_sign fp_three = 0" "fp_sign fp_minus_ten = 1"
  "mval (mantissa fp_three) = 13835058055282163712" "mval (mantissa fp_minus_ten) = 11529215046068469760"
  by (simp_all add: fp_three_def fp_minus_ten_def fp_normal_def)

theorem DivideInternalFPF_normal_witness:
  "\<exists>r. DivideInternalFPF fp_minus_ten fp_three fp_three = Some (fp_minus_ten, fp_three, r) \<and> fp_normal r \<and>
    fp_sign r = 1 \<and> sint (fp_exp r) = 2 \<and> mval (mantissa r) = 8 * (11529215046068469760 * 2 ^ 64 div
      13835058055282163712 div 8)"
  using DivideInternalFPF_normal [of fp_minus_ten fp_three fp_three] by simp

section \<open>Multiplication\<close>

lemma or1_div8: "length m = 4 \<Longrightarrow> mval (m[3 := m ! 3 OR 1]) div 8 = mval m div 8"
proof -
  assume "length m = 4"
  moreover have "even k \<Longrightarrow> (k + 1) div 8 = k div (8 :: nat)" for k by presburger
  ultimately show ?thesis by (simp only: or1_val) simp
qed

lemma multiply_numbers_normal:
  assumes "fp_normal x" "fp_normal y"
  defines "P \<equiv> mval (mantissa x) * mval (mantissa y)"
  defines "k \<equiv> (if 2 ^ 127 \<le> P then 0 else 1 :: nat)"
  shows "\<exists>q. multiply_numbers x y = Some \<lparr>fp_type = 2, fp_sign = fp_sign x XOR fp_sign y,
      fp_exp = fp_exp x + fp_exp y - of_nat k, mantissa = q\<rparr> \<and>
    length q = 4 \<and> N63 \<le> mval q \<and> mval q div 8 = 2 ^ k * P div 2 ^ 64 div 8"
proof -
  note x = fp_normalD [OF assms(1)] and y = fp_normalD [OF assms(2)]
  have "N63 * N63 \<le> P" unfolding P_def using x(3) y(3) by (rule mult_le_mono)
  then have P: "2 ^ 126 \<le> P" by simp
  obtain y' zm ex where l: "(mul_step (mantissa x) ^^ 64) (mantissa y, [0, 0, 0, 0], [0, 0, 0, 0]) = (y', zm, ex)"
      "length zm = 4" "length ex = 4" "mval zm * N64 + mval ex = P"
    using mul_loop_product [OF x(2) y(2)] unfolding P_def by blast
  have pos: "0 < mval zm * N64 + mval ex" unfolding l(4) using P by simp
  let ?e = "fp_exp x + fp_exp y"
  obtain j q ex' where n: "mul_normalize ?e zm ex = Some (?e - of_nat j, q, ex')" "length q = 4" "length ex' = 4"
      "mval q * N64 + mval ex' = 2 ^ j * P" "N63 \<le> mval q"
    using mul_normalize_Some [OF l(2,3) pos, of ?e] unfolding l(4) by blast
  have ex': "mval ex' < N64" and q': "mval q < N64" using n(2,3) mval_less64 by blast+
  have qv: "mval q = 2 ^ j * P div 2 ^ 64" unfolding n(4) [symmetric] using ex' by simp
  have "j = k"
  proof -
    have "N63 * N64 \<le> P * 2 ^ j" "P * 2 ^ j < N64 * N64"
      using n(4,5) ex' q' by (simp_all add: mult.commute)
    moreover have "N63 * N64 \<le> P * 2 ^ k \<and> P * 2 ^ k < N64 * N64"
    proof (cases "2 ^ 127 \<le> P")
      case True
      have "P < N64 * N64" unfolding P_def using x(4) y(4) by (intro mult_strict_mono) auto
      then show ?thesis using True by (simp add: k_def)
    next
      case False
      then show ?thesis using P by (simp add: k_def)
    qed
    ultimately show ?thesis using scale_unique by blast
  qed
  define q2 where "q2 = (if IsMantissaZero ex' then q[3 := q ! 3 OR 1] else q)"
  have q2: "length q2 = 4" "mval q2 div 8 = mval q div 8" "N63 \<le> mval q2"
    using n(2,5) or1_div8 [OF n(2)] or1_val [OF n(2)] by (auto simp: q2_def)
  have "multiply_numbers x y = Some \<lparr>fp_type = 2, fp_sign = fp_sign x XOR fp_sign y,
      fp_exp = ?e - of_nat k, mantissa = q2\<rparr>"
    using l(1) n(1) \<open>j = k\<close> x(1) y(1) by (simp add: multiply_numbers_def q2_def del: funpow.simps)
  then show ?thesis using q2 qv \<open>j = k\<close> by (intro exI [of _ q2]) simp
qed

text \<open>
  Multiplying two normalized emulated numbers returns: the shift-and-add loop forms the exact
  128-bit product of the mantissas, and the result is normalized, with the exclusive or of the
  signs, the exact exponent, and the upper 64 bits of the product (scaled by its leading zero)
  with the last three bits chopped, so the inverted test of the sticky bit cannot be seen.
\<close>

theorem MultiplyInternalFPF_normal:
  assumes "fp_normal x" "fp_normal y" "\<bar>sint (fp_exp x) + sint (fp_exp y)\<bar> \<le> 32000"
  shows "\<exists>r. MultiplyInternalFPF x y z = Some (x, y, r) \<and> fp_normal r \<and>
    fp_sign r = fp_sign x XOR fp_sign y \<and>
    (let P = mval (mantissa x) * mval (mantissa y); k = (if 2 ^ 127 \<le> P then 0 else 1) in
      sint (fp_exp r) = sint (fp_exp x) + sint (fp_exp y) - int k \<and>
      mval (mantissa r) = 8 * (2 ^ k * P div 2 ^ 64 div 8))"
proof -
  define P where "P = mval (mantissa x) * mval (mantissa y)"
  define k :: nat where "k = (if 2 ^ 127 \<le> P then 0 else 1)"
  obtain q where q: "multiply_numbers x y = Some \<lparr>fp_type = 2, fp_sign = fp_sign x XOR fp_sign y,
      fp_exp = fp_exp x + fp_exp y - of_nat k, mantissa = q\<rparr>"
    "length q = 4" "N63 \<le> mval q" "mval q div 8 = 2 ^ k * P div 2 ^ 64 div 8"
    using multiply_numbers_normal [OF assms(1,2)] unfolding k_def P_def by blast
  let ?r = "\<lparr>fp_type = 2, fp_sign = fp_sign x XOR fp_sign y,
      fp_exp = fp_exp x + fp_exp y - of_nat k, mantissa = q\<rparr>"
  have e: "sint (fp_exp ?r) = sint (fp_exp x) + sint (fp_exp y) - int k"
    using assms(3) by (intro exp_word) (auto simp: k_def)
  have "RoundInternalFPF ?r = ?r\<lparr>mantissa := chop q\<rparr>"
    using Round_normal [of ?r] e assms(3) by (auto simp: k_def)
  then have "MultiplyInternalFPF x y z = Some (x, y, ?r\<lparr>mantissa := chop q\<rparr>)"
    using op_types_normal [of x y] fp_normalD(1) assms(1,2) q(1) by (simp add: MultiplyInternalFPF_def Let_def)
  then show ?thesis
    using q chop_ge [OF q(2,3)] mval_chop [OF q(2)] e
    unfolding Let_def P_def [symmetric] k_def [symmetric] by (intro exI conjI) (auto simp: fp_normal_def)
qed

theorem MultiplyInternalFPF_normal_witness:
  "\<exists>r. MultiplyInternalFPF fp_minus_ten fp_three fp_three = Some (fp_minus_ten, fp_three, r) \<and> fp_normal r \<and>
    fp_sign r = 1 \<and> sint (fp_exp r) = 5"
  using MultiplyInternalFPF_normal [of fp_minus_ten fp_three fp_three] by auto

end
