(* ===== verification/Emfloat_Add.thy ===== *)
theory Emfloat_Add
  imports Emfloat_Spec
begin

text \<open>
  Addition and subtraction of \<open>emfloat.c\<close>.  The operand with the smaller exponent is shifted
  right with a sticky bit, so the result is that of the aligned mantissas, exactly.
\<close>

section \<open>Aligned mantissas\<close>

lemma sticky_less63:
  assumes "m < N64" "0 < d"
  shows "sticky m d < N63"
proof -
  have "m div 2 ^ d \<le> m div 2 ^ 1" using assms(2) by (intro div_le_mono2 power_increasing) auto
  moreover have "m div 2 ^ 1 < N63" using assms(1) by (simp add: div_less_iff_less_mult)
  ultimately have "m div 2 ^ d < N63" by (rule order.strict_trans1)
  moreover have "even (m div 2 ^ d) \<Longrightarrow> m div 2 ^ d + 1 \<noteq> N63"
  proof
    assume "even (m div 2 ^ d)" "m div 2 ^ d + 1 = N63"
    then have "odd N63" by (metis even_plus_one_iff)
    then show False by simp
  qed
  ultimately show ?thesis by (auto simp: sticky_def)
qed

lemma add_aligned:
  assumes "length a = 4" "length b = 4" "add_mant 0 a b = (c, m)"
  shows "length m = 4" "cval c * N64 + mval m = mval a + mval b"
proof -
  have v: "length m = 4" "unat c \<le> 1" "unat c * N64 + mval m = mval a + mval b"
    using add_mant_val [OF assms(3)] assms(1,2) pow4 by simp_all
  have "unat c = cval c"
    using v(2) by (cases "c = 0") (auto simp: cval_def unat_eq_zero [symmetric] le_Suc_eq)
  then show "length m = 4" "cval c * N64 + mval m = mval a + mval b" using v by simp_all
qed

lemma sub_aligned:
  assumes "length a = 4" "length b = 4" "sub_mant 0 a b = (c, m)"
  shows "length m = 4" "mval a + cval c * N64 = mval m + mval b" "c = 0 \<longleftrightarrow> mval b \<le> mval a"
proof -
  have v: "length m = 4" "unat c \<le> 1" "mval a + unat c * N64 = mval m + mval b"
    using sub_mant_val [OF assms(3)] assms(1,2) pow4 by simp_all
  have u: "unat c = cval c"
    using v(2) by (cases "c = 0") (auto simp: cval_def unat_eq_zero [symmetric] le_Suc_eq)
  show "length m = 4" "mval a + cval c * N64 = mval m + mval b" using v u by simp_all
  have "mval m < N64" "mval a < N64" using mval_less64 v(1) assms(1) by blast+
  then show "c = 0 \<longleftrightarrow> mval b \<le> mval a" using v(3) u by (cases "c = 0") (auto simp: cval_def)
qed

text \<open>The negation \<open>0 - m\<close> of a borrowed difference.\<close>

lemma neg_aligned:
  assumes "length a = 4" "length b = 4" "mval a < mval b"
  shows "length (snd (sub_mant 0 [0, 0, 0, 0] (snd (sub_mant 0 a b)))) = 4"
    and "mval (snd (sub_mant 0 [0, 0, 0, 0] (snd (sub_mant 0 a b)))) = mval b - mval a"
proof -
  obtain c m where s: "sub_mant 0 a b = (c, m)" by (cases "sub_mant 0 a b")
  obtain d n where t: "sub_mant 0 [0, 0, 0, 0] m = (d, n)" by (cases "sub_mant 0 [0, 0, 0, 0] m")
  note sv = sub_aligned [OF assms(1,2) s]
  have c: "cval c = 1" using sv(3) assms(3) by (simp add: cval_def)
  note tv = sub_aligned [OF _ sv(1) t]
  have bl: "mval b < N64" by (rule mval_less64 [OF assms(2)])
  have mpos: "0 < mval m" using sv(2) c bl by linarith
  then have d: "cval d = 1" using tv(3) mval_0 by (simp add: cval_def)
  have "N64 = mval n + mval m" using tv(2) d mval_0 by simp
  then have "mval n + mval a = mval b" using sv(2) c by linarith
  then show "length (snd (sub_mant 0 [0, 0, 0, 0] (snd (sub_mant 0 a b)))) = 4"
    "mval (snd (sub_mant 0 [0, 0, 0, 0] (snd (sub_mant 0 a b)))) = mval b - mval a"
    using s t tv(1) by simp_all
qed

text \<open>
  Both branches after the alignment: \<open>big\<close> is the mantissa of the operand with the larger
  exponent.
\<close>

lemma finish_add:
  assumes "fp_sign lx XOR fp_sign ly XOR op = 0" "length (mantissa lx) = 4" "length (mantissa ly) = 4"
    and "fp_type z = 2"
  defines "S \<equiv> mval (mantissa lx) + mval (mantissa ly)"
  assumes "N63 \<le> S"
  shows "\<exists>m. addsub_finish op lx ly z = Some (z\<lparr>mantissa := m,
      fp_exp := fp_exp z + (if S < N64 then 0 else 1)\<rparr>) \<and> length m = 4 \<and> N63 \<le> mval m \<and>
    mval m = (if S < N64 then S else S div 2)"
proof -
  obtain c m where a: "add_mant 0 (mantissa lx) (mantissa ly) = (c, m)"
    by (cases "add_mant 0 (mantissa lx) (mantissa ly)")
  note av = add_aligned [OF assms(2,3) a]
  have ml: "mval m < N64" by (rule mval_less64 [OF av(1)])
  have z: "z\<lparr>fp_type := 2\<rparr> = z" using assms(4) by (cases z) simp
  show ?thesis
  proof (cases "c = 0")
    case True
    then have S: "S = mval m" using av(2) by (simp add: S_def)
    then have "\<not> m ! 0 AND 0x8000 = 0" using top_bit [OF av(1)] assms(6) by simp
    then have "addsub_finish op lx ly z = Some (z\<lparr>mantissa := m\<rparr>)"
      using assms(1,4) a True by (simp add: addsub_finish_def Let_def)
    then show ?thesis using av(1) S ml assms(6) by (intro exI [of _ m]) simp
  next
    case False
    then have S: "S = N64 + mval m" using av(2) by (simp add: S_def cval_def)
    obtain d n where r: "ShiftMantRight1 0 m = (d, n)" by (cases "ShiftMantRight1 0 m")
    have nv: "length n = 4" "2 * mval n + cval d = mval m"
      using ShiftMantRight1_val [OF r] av(1) by simp_all
    have hn: "mval n = mval m div 2" using half_split [OF nv(2) cval_le] by simp
    have n63: "mval n < N63" using nv(2) ml by linarith
    define n' where "n' = n[0 := n ! 0 OR 0x8000]"
    have n': "length n' = 4" "mval n' = N63 + mval n"
    proof -
      obtain x xs where n: "n = x # xs" "length xs = 3" using nv(1) by (cases n) auto
      have "unat x < 32768" using top_bit [OF nv(1)] n63 n by (simp add: and_8000)
      then show "length n' = 4" "mval n' = N63 + mval n"
        using nv(1) n by (simp_all add: n'_def unat_or_8000)
    qed
    have "addsub_finish op lx ly z = Some (z\<lparr>fp_exp := fp_exp z + 1, mantissa := n'\<rparr>)"
      using assms(1,4) a False r z by (cases z) (simp add: addsub_finish_def Let_def n'_def)
    moreover have "S div 2 = N63 + mval m div 2" using S by simp
    ultimately show ?thesis using S n' hn by (intro exI [of _ n']) simp
  qed
qed

lemma finish_sub:
  assumes "fp_sign lx XOR fp_sign ly XOR op \<noteq> 0" "length (mantissa lx) = 4" "length (mantissa ly) = 4"
    and "fp_type z = 2" "fp_type lx = 2 \<or> fp_type ly = 2"
  defines "a \<equiv> mval (mantissa lx)" and "b \<equiv> mval (mantissa ly)"
  defines "D \<equiv> (if b \<le> a then a - b else b - a)"
  assumes "a \<noteq> b"
  shows "\<exists>m k. addsub_finish op lx ly z = Some (z\<lparr>fp_sign := (if b \<le> a then fp_sign z else fp_sign ly XOR op),
      mantissa := m, fp_exp := fp_exp z - of_nat k\<rparr>) \<and> length m = 4 \<and> N63 \<le> mval m \<and> mval m = 2 ^ k * D"
proof -
  define w where "w = (if b \<le> a then z\<lparr>mantissa := snd (sub_mant 0 (mantissa lx) (mantissa ly))\<rparr>
    else z\<lparr>fp_sign := fp_sign ly XOR op,
           mantissa := snd (sub_mant 0 [0, 0, 0, 0] (snd (sub_mant 0 (mantissa lx) (mantissa ly))))\<rparr>)"
  obtain c m where s: "sub_mant 0 (mantissa lx) (mantissa ly) = (c, m)"
    by (cases "sub_mant 0 (mantissa lx) (mantissa ly)")
  note sv = sub_aligned [OF assms(2,3) s]
  have w: "length (mantissa w) = 4 \<and> mval (mantissa w) = D"
  proof (cases "b \<le> a")
    case True
    then have "c = 0" using sv(3) by (simp add: a_def b_def)
    then show ?thesis using True s sv(1,2) by (simp add: w_def D_def a_def b_def)
  next
    case False
    then show ?thesis using neg_aligned [OF assms(2,3)] by (simp add: w_def D_def a_def b_def)
  qed
  have Dpos: "0 < D" using assms(9) by (auto simp: D_def)
  have "addsub_finish op lx ly z = normalize w"
    using assms(1,5) s sv(3) w Dpos
    by (cases "b \<le> a") (auto simp: addsub_finish_def Let_def w_def a_def b_def IsMantissaZero_iff)
  moreover obtain n k where "normalize w = Some (w\<lparr>mantissa := n, fp_exp := fp_exp w - of_nat k\<rparr>)" "length n = 4"
      "mval n = 2 ^ k * mval (mantissa w)" "N63 \<le> mval n"
    using normalize_Some [of w] w Dpos by auto
  ultimately show ?thesis using w
    by (intro exI [of _ n] exI [of _ k]) (simp add: w_def)
qed

section \<open>The operation\<close>

definition add_result :: "bool \<Rightarrow> int \<Rightarrow> nat \<Rightarrow> nat \<Rightarrow> InternalFPF \<Rightarrow> bool" where
  "add_result same E B S r \<longleftrightarrow>
     (if same then
        sint (fp_exp r) = E + (if B + S < 2 ^ 64 then 0 else 1) \<and>
        mval (mantissa r) = 8 * ((if B + S < 2 ^ 64 then B + S else (B + S) div 2) div 8)
      else \<exists>k. sint (fp_exp r) = E - int k \<and> mval (mantissa r) = 8 * (2 ^ k * (B - S) div 8))"

lemma round_result:
  assumes "fp_type p = 2" "fp_exp p = word_of_int e" "- 32768 < e" "e < 32768" "length (mantissa p) = 4"
    "N63 \<le> mval (mantissa p)"
  shows "fp_normal (RoundInternalFPF p)" "fp_sign (RoundInternalFPF p) = fp_sign p"
    "sint (fp_exp (RoundInternalFPF p)) = e"
    "mval (mantissa (RoundInternalFPF p)) = 8 * (mval (mantissa p) div 8)"
proof -
  have s: "sint (fp_exp p) = e" by (rule exp_word [OF assms(2-4)])
  then have "RoundInternalFPF p = p\<lparr>mantissa := chop (mantissa p)\<rparr>"
    using assms(1,3) by (intro Round_normal) auto
  then show "fp_normal (RoundInternalFPF p)" "fp_sign (RoundInternalFPF p) = fp_sign p"
      "sint (fp_exp (RoundInternalFPF p)) = e"
      "mval (mantissa (RoundInternalFPF p)) = 8 * (mval (mantissa p) div 8)"
    using s assms(1,5) mval_chop [OF assms(5)] chop_ge [OF assms(5,6)]
    by (simp_all add: fp_normal_def)
qed

text \<open>The two orders of the exponents share this step.\<close>

lemma finish_result:
  assumes "{mantissa lx, mantissa ly} = {bm, sm}" "length bm = 4" "length sm = 4"
    and "fp_type lx = 2" "fp_type ly = 2" "fp_type z = 2" "N63 \<le> mval bm" "mval sm < N63"
    and "fp_exp z = word_of_int E" "\<bar>E\<bar> \<le> 32000"
    and "mantissa lx = bm \<or> fp_sign z = fp_sign ly XOR op"
  shows "\<exists>r. addsub_finish op lx ly z = Some r \<and> fp_normal (RoundInternalFPF r) \<and>
    fp_sign (RoundInternalFPF r) = fp_sign z \<and>
    add_result (fp_sign lx XOR fp_sign ly XOR op = 0) E (mval bm) (mval sm) (RoundInternalFPF r)"
proof -
  have ne: "mval bm \<noteq> mval sm" using assms(7,8) by auto
  then have cs: "mantissa lx = bm \<and> mantissa ly = sm \<or> mantissa lx = sm \<and> mantissa ly = bm"
    using assms(1) by (auto simp: doubleton_eq_iff)
  have len: "length (mantissa lx) = 4" "length (mantissa ly) = 4"
    using cs assms(2,3) by auto
  show ?thesis
  proof (cases "fp_sign lx XOR fp_sign ly XOR op = 0")
    case True
    let ?S = "mval bm + mval sm"
    have S: "mval (mantissa lx) + mval (mantissa ly) = ?S" using cs by auto
    have "N63 \<le> mval (mantissa lx) + mval (mantissa ly)" using S assms(7) by simp
    from finish_add [OF True len assms(6) this] obtain m where
        m: "addsub_finish op lx ly z = Some (z\<lparr>mantissa := m, fp_exp := fp_exp z + (if ?S < N64 then 0 else 1)\<rparr>)"
        "length m = 4" "N63 \<le> mval m" "mval m = (if ?S < N64 then ?S else ?S div 2)"
      unfolding S by blast
    let ?r = "z\<lparr>mantissa := m, fp_exp := fp_exp z + (if ?S < N64 then 0 else 1)\<rparr>"
    have "fp_exp ?r = word_of_int (E + (if ?S < N64 then 0 else 1))" using assms(9) by simp
    note R = round_result [of ?r, OF _ this]
    have "fp_normal (RoundInternalFPF ?r)" "fp_sign (RoundInternalFPF ?r) = fp_sign z"
        "sint (fp_exp (RoundInternalFPF ?r)) = E + (if ?S < N64 then 0 else 1)"
        "mval (mantissa (RoundInternalFPF ?r)) = 8 * (mval m div 8)"
      using R assms(6,10) m(2,3) by auto
    then show ?thesis using m(1,4) True by (intro exI [of _ ?r]) (simp add: add_result_def)
  next
    case False
    let ?a = "mval (mantissa lx)" and ?b = "mval (mantissa ly)"
    have D: "(if ?b \<le> ?a then ?a - ?b else ?b - ?a) = mval bm - mval sm"
      using cs assms(7,8) by auto
    have ab: "?a \<noteq> ?b" using cs ne by auto
    from finish_sub [OF False len assms(6) disjI1 [OF assms(4)] ab] obtain m k where
        m: "addsub_finish op lx ly z = Some (z\<lparr>fp_sign := (if ?b \<le> ?a then fp_sign z else fp_sign ly XOR op),
          mantissa := m, fp_exp := fp_exp z - of_nat k\<rparr>)" "length m = 4" "N63 \<le> mval m"
        "mval m = 2 ^ k * (mval bm - mval sm)"
      unfolding D by blast
    let ?r = "z\<lparr>fp_sign := (if ?b \<le> ?a then fp_sign z else fp_sign ly XOR op), mantissa := m,
      fp_exp := fp_exp z - of_nat k\<rparr>"
    have le: "2 ^ k \<le> 2 ^ k * (mval bm - mval sm)" using assms(7,8) by simp
    have "2 ^ k * (mval bm - mval sm) < N64" using m(4) mval_less64 [OF m(2)] by metis
    then have "(2 :: nat) ^ k < 2 ^ 64" using order.strict_trans1 [OF le] by simp
    then have k: "k < 64" by (simp only: power_strict_increasing_iff one_less_numeral_iff semiring_norm)
    have sg: "fp_sign ?r = fp_sign z"
    proof (cases "?b \<le> ?a")
      case True
      then show ?thesis by simp
    next
      case False
      then have "mantissa lx \<noteq> bm" using cs assms(7,8) by auto
      then show ?thesis using assms(11) False by simp
    qed
    have "fp_exp ?r = word_of_int (E - int k)" using assms(9) by simp
    note R = round_result [of ?r, OF _ this]
    have "fp_normal (RoundInternalFPF ?r)" "fp_sign (RoundInternalFPF ?r) = fp_sign z"
        "sint (fp_exp (RoundInternalFPF ?r)) = E - int k"
        "mval (mantissa (RoundInternalFPF ?r)) = 8 * (mval m div 8)"
      using R assms(6,10) m(2,3) k sg by auto
    then show ?thesis using m(1,4) False
      by (intro exI [of _ ?r]) (auto simp: add_result_def intro: exI [of _ k])
  qed
qed

text \<open>
  Adding or subtracting two normalized emulated numbers with different exponents returns the
  exact sum or difference of the mantissas aligned with a sticky bit, normalized with the matching
  exponent, chopped, and signed as the operand with the larger exponent (after the operation flips
  the second one's sign).
\<close>

theorem AddSubInternalFPF_normal:
  assumes "fp_normal x" "fp_normal y" "\<bar>sint (fp_exp x)\<bar> \<le> 32000" "\<bar>sint (fp_exp y)\<bar> \<le> 32000"
    and "sint (fp_exp x) \<noteq> sint (fp_exp y)"
  shows "\<exists>r. AddSubInternalFPF op x y z = Some (x, y, r) \<and> fp_normal r \<and>
    fp_sign r = (if sint (fp_exp y) < sint (fp_exp x) then fp_sign x else fp_sign y XOR op) \<and>
    (let same = (fp_sign x XOR fp_sign y XOR op = 0); d = sint (fp_exp x) - sint (fp_exp y);
         X = mval (mantissa x); Y = mval (mantissa y) in
      if 0 < d then add_result same (sint (fp_exp x)) X (sticky Y (nat d)) r
      else add_result same (sint (fp_exp y)) Y (sticky X (nat (- d))) r)"
proof -
  note x = fp_normalD [OF assms(1)] and y = fp_normalD [OF assms(2)]
  define d where "d = sint (fp_exp x) - sint (fp_exp y)"
  have t: "AddSubInternalFPF op x y z =
      do { z \<leftarrow> addsub_numbers op x y z; Some (x, y, RoundInternalFPF z) }"
    using op_types_normal [OF x(1) y(1)] by (simp add: AddSubInternalFPF_def)
  have w: "word_of_int (sint e) = e" for e :: "16 word" by simp
  show ?thesis
  proof (cases "0 < d")
    case True
    obtain m where m: "StickyShiftRightMant d y = y\<lparr>mantissa := m\<rparr>" "length m = 4"
        "mval m = sticky (mval (mantissa y)) (nat d)"
      using StickyShift_val [of y d] y True by auto
    have sm: "mval m < N63" unfolding m(3) by (rule sticky_less63 [OF y(4)]) (use True in simp)
    let ?z = "z\<lparr>fp_type := fp_type x, fp_sign := fp_sign x, fp_exp := fp_exp x\<rparr>"
    obtain r where r: "addsub_finish op x (y\<lparr>mantissa := m\<rparr>) ?z = Some r" "fp_normal (RoundInternalFPF r)"
        "fp_sign (RoundInternalFPF r) = fp_sign x"
        "add_result (fp_sign x XOR fp_sign y XOR op = 0) (sint (fp_exp x)) (mval (mantissa x)) (mval m)
          (RoundInternalFPF r)"
      using finish_result [of x "y\<lparr>mantissa := m\<rparr>" "mantissa x" m ?z "sint (fp_exp x)" op]
        x y(1) m(2) sm assms(3) by auto
    have "addsub_numbers op x y z = Some r"
      using True r(1) m(1) by (simp add: addsub_numbers_def d_def [symmetric])
    then show ?thesis using t r(2-4) m(3) True by (simp add: Let_def d_def)
  next
    case False
    then have neg: "d < 0" using assms(5) by (simp add: d_def)
    obtain m where m: "StickyShiftRightMant (- d) x = x\<lparr>mantissa := m\<rparr>" "length m = 4"
        "mval m = sticky (mval (mantissa x)) (nat (- d))"
      using StickyShift_val [of x "- d"] x neg by auto
    have sm: "mval m < N63" unfolding m(3) by (rule sticky_less63 [OF x(4)]) (use neg in simp)
    let ?z = "z\<lparr>fp_type := fp_type y, fp_sign := fp_sign y XOR op, fp_exp := fp_exp y\<rparr>"
    obtain r where r: "addsub_finish op (x\<lparr>mantissa := m\<rparr>) y ?z = Some r" "fp_normal (RoundInternalFPF r)"
        "fp_sign (RoundInternalFPF r) = fp_sign y XOR op"
        "add_result (fp_sign x XOR fp_sign y XOR op = 0) (sint (fp_exp y)) (mval (mantissa y)) (mval m)
          (RoundInternalFPF r)"
      using finish_result [of "x\<lparr>mantissa := m\<rparr>" y "mantissa y" m ?z "sint (fp_exp y)" op]
        y x(1) m(2) sm assms(4) by auto
    have "addsub_numbers op x y z = Some r"
      using False neg r(1) m(1) by (simp add: addsub_numbers_def d_def [symmetric])
    then show ?thesis using t r(2-4) m(3) False neg by (simp add: Let_def d_def)
  qed
qed

theorem AddSubInternalFPF_normal_witness:
  "\<exists>r. AddSubInternalFPF 1 fp_minus_ten fp_three fp_three = Some (fp_minus_ten, fp_three, r) \<and>
    fp_normal r \<and> fp_sign r = 1 \<and>
    add_result True 4 11529215046068469760 (sticky 13835058055282163712 2) r"
  using AddSubInternalFPF_normal [of fp_minus_ten fp_three 1 fp_three] by simp

text \<open>
  When two numbers have equal exponents, AddSubInternalFPF does no arithmetic: the result
  keeps the mantissa its object held before (chopped), whatever the operands' mantissas are.
\<close>

theorem AddSub_equal_exponents:
  assumes "fp_type x = 2" "fp_type y = 2" "fp_exp x = fp_exp y" "sint (fp_exp x) \<noteq> - 32768"
  shows "AddSubInternalFPF op x y z =
    Some (x, y, z\<lparr>fp_type := 2, fp_sign := fp_sign x, fp_exp := fp_exp x, mantissa := chop (mantissa z)\<rparr>)"
proof -
  let ?z = "z\<lparr>fp_type := 2, fp_sign := fp_sign x, fp_exp := fp_exp x\<rparr>"
  have "addsub_numbers op x y z = Some ?z" using assms by (simp add: addsub_numbers_def)
  moreover have "RoundInternalFPF ?z = ?z\<lparr>mantissa := chop (mantissa z)\<rparr>"
    using Round_normal [of ?z] assms(4) by simp
  ultimately show ?thesis
    using op_types_normal [OF assms(1,2)] by (simp add: AddSubInternalFPF_def)
qed

theorem AddSub_equal_exponents_witness:
  "AddSubInternalFPF 0 fp_three fp_three (SetInternalFPFZero 0) =
    Some (fp_three, fp_three, \<lparr>fp_type = 2, fp_sign = 0, fp_exp = 2, mantissa = [0, 0, 0, 0]\<rparr>)"
  using AddSub_equal_exponents [of fp_three fp_three 0 "SetInternalFPFZero 0"]
  by (simp add: fp_three_def SetInternalFPFZero_def chop_def)

end
