(* ===== verification/Emfloat_Run.thy ===== *)
theory Emfloat_Run
  imports Emfloat_Add
begin

text \<open>
  The emulation benchmark always returns.  The invariant \<open>triple_ok\<close> of one slot of the three
  arrays keeps zero significands away from the normalization loops: both operands are well
  formed, and the result slot is either well formed or never read again, because both
  operands are numbers.
\<close>

section \<open>Well-formed numbers\<close>

definition fp_wf :: "InternalFPF \<Rightarrow> bool" where
  "fp_wf p \<longleftrightarrow> length (mantissa p) = 4 \<and> fp_type p \<in> {0, 2, 3, 4} \<and>
     (fp_type p = 2 \<longrightarrow> 2 ^ 62 \<le> mval (mantissa p) \<and>
        (sint (fp_exp p) = - 32768 \<longrightarrow> N63 \<le> mval (mantissa p)))"

lemma fp_wf_sign [simp]: "fp_wf (p\<lparr>fp_sign := s\<rparr>) = fp_wf p"
  by (simp add: fp_wf_def)

lemma fp_wf_special [simp]:
  "fp_wf SetInternalFPFNaN" "fp_wf (SetInternalFPFZero s)" "fp_wf (SetInternalFPFInfinity s)"
  by (simp_all add: fp_wf_def SetInternalFPFNaN_def SetInternalFPFZero_def SetInternalFPFInfinity_def)

lemma fp_normal_wf: "fp_normal p \<Longrightarrow> fp_wf p"
  by (simp add: fp_normal_def fp_wf_def)

lemma fp_wf_pos: "fp_wf p \<Longrightarrow> fp_type p = 2 \<Longrightarrow> length (mantissa p) = 4 \<and> 0 < mval (mantissa p)"
  by (auto simp: fp_wf_def)

lemma chop_ge62: "length m = 4 \<Longrightarrow> 2 ^ 62 \<le> mval m \<Longrightarrow> 2 ^ 62 \<le> mval (chop m)"
  using mval_chop [of m] div_le_mono [of "2 ^ 62" "mval m" 8] by simp

lemma Round_wf:
  assumes "fp_wf p"
  shows "fp_wf (RoundInternalFPF p)"
proof (cases "fp_type p = 2")
  case False
  then have "RoundInternalFPF p = p" using assms by (intro Round_other) (auto simp: fp_wf_def)
  then show ?thesis using assms by simp
next
  case True
  then have p: "length (mantissa p) = 4" "2 ^ 62 \<le> mval (mantissa p)" using assms by (auto simp: fp_wf_def)
  show ?thesis
  proof (cases "sint (fp_exp p) = - 32768")
    case False
    then have "RoundInternalFPF p = p\<lparr>mantissa := chop (mantissa p)\<rparr>" using True by (rule Round_normal [rotated])
    then show ?thesis using p chop_ge62 [OF p] True False by (simp add: fp_wf_def)
  next
    case e: True
    let ?q = "p\<lparr>fp_exp := fp_exp p + 1\<rparr>"
    have big: "N63 \<le> mval (mantissa p)" using assms True e by (simp add: fp_wf_def)
    obtain m where m: "StickyShiftRightMant 1 ?q = ?q\<lparr>mantissa := m\<rparr>" "length m = 4"
        "mval m = sticky (mval (mantissa p)) 1"
      using StickyShift_val [of ?q 1] p(1) big True by auto
    have "2 ^ 62 \<le> mval (mantissa p) div 2" using div_le_mono [OF big, of 2] by simp
    then have m62: "2 ^ 62 \<le> mval m" unfolding m(3) by (simp add: sticky_def)
    have ex: "sint (fp_exp p + 1) = - 32767"
    proof (rule exp_word)
      show "fp_exp p + 1 = word_of_int (- 32767)"
        using of_int_sint [of "fp_exp p", where ?'a = "16 word"] e by simp
    qed simp_all
    have "RoundInternalFPF p = ?q\<lparr>mantissa := chop m\<rparr>"
      using True e m(1) by (simp add: RoundInternalFPF_def denormalize_def chop_def)
    then show ?thesis using m(2) chop_ge62 [OF m(2) m62] True ex by (simp add: fp_wf_def)
  qed
qed

section \<open>The operations on numbers return\<close>

lemma multiply_numbers_wf:
  assumes "fp_wf x" "fp_wf y" "fp_type x = 2" "fp_type y = 2"
  shows "\<exists>r. multiply_numbers x y = Some r \<and> fp_wf r"
proof -
  note x = fp_wf_pos [OF assms(1,3)] and y = fp_wf_pos [OF assms(2,4)]
  obtain y' zm ex where l: "(mul_step (mantissa x) ^^ 64) (mantissa y, [0, 0, 0, 0], [0, 0, 0, 0]) = (y', zm, ex)"
      "length zm = 4" "length ex = 4" "mval zm * N64 + mval ex = mval (mantissa x) * mval (mantissa y)"
    using mul_loop_product x y by blast
  have pos: "0 < mval zm * N64 + mval ex" unfolding l(4) using x y by simp
  obtain j q ex' where n: "mul_normalize (fp_exp x + fp_exp y) zm ex = Some (fp_exp x + fp_exp y - of_nat j, q, ex')"
      "length q = 4" "N63 \<le> mval q"
    using mul_normalize_Some [OF l(2,3) pos] by blast
  have "N63 \<le> mval (q[3 := q ! 3 OR 1])" using n or1_val [OF n(2)] by auto
  then show ?thesis using l(1) n assms(3,4)
    by (simp add: multiply_numbers_def fp_wf_def del: funpow.simps)
qed

lemma divide_numbers_wf:
  assumes "fp_wf x" "fp_wf y" "fp_type x = 2" "fp_type y = 2"
  shows "\<exists>r. divide_numbers x y = Some r \<and> fp_wf r"
proof -
  note x = fp_wf_pos [OF assms(1,3)] and y = fp_wf_pos [OF assms(2,4)]
  obtain k q where "div_loop (mantissa y) (mantissa x) [0, 0, 0, 0] [0, 0, 0, 0] (fp_exp x - fp_exp y + 128) =
        Some (q, fp_exp x - fp_exp y + 128 - of_nat k)" "length q = 4" "N63 \<le> mval q"
    using divide_loop_quotient x y by blast
  then show ?thesis using x y assms(3) by (simp add: divide_numbers_def IsMantissaZero_iff fp_wf_def)
qed

lemma addsub_finish_wf:
  assumes "length (mantissa lx) = 4" "length (mantissa ly) = 4" "fp_type lx = 2" "fp_type z = 2"
    and "2 ^ 62 \<le> mval (mantissa lx) + mval (mantissa ly)"
    and "sint (fp_exp z) = - 32768 \<Longrightarrow> N63 \<le> mval (mantissa lx) + mval (mantissa ly)"
  shows "\<exists>r. addsub_finish op lx ly z = Some r \<and> fp_wf r"
proof (cases "fp_sign lx XOR fp_sign ly XOR op = 0")
  case False
  show ?thesis
  proof (cases "mval (mantissa lx) = mval (mantissa ly)")
    case True
    obtain c m where s: "sub_mant 0 (mantissa lx) (mantissa ly) = (c, m)"
      by (cases "sub_mant 0 (mantissa lx) (mantissa ly)")
    note sv = sub_aligned [OF assms(1,2) s]
    have "c = 0" "mval m = 0" using sv True by (auto simp: cval_def)
    then show ?thesis using False s sv(1) by (simp add: addsub_finish_def Let_def IsMantissaZero_iff fp_wf_def)
  next
    case ne: False
    show ?thesis
      using finish_sub [OF False assms(1,2,4) disjI1 [OF assms(3)] ne] assms(4)
      by (auto simp: fp_wf_def)
  qed
next
  case True
  show ?thesis
  proof (cases "N63 \<le> mval (mantissa lx) + mval (mantissa ly)")
    case big: True
    show ?thesis using finish_add [OF True assms(1,2,4) big] assms(4) by (auto simp: fp_wf_def)
  next
    case False
    obtain c m where a: "add_mant 0 (mantissa lx) (mantissa ly) = (c, m)"
      by (cases "add_mant 0 (mantissa lx) (mantissa ly)")
    note av = add_aligned [OF assms(1,2) a]
    have "c = 0" "mval m = mval (mantissa lx) + mval (mantissa ly)"
      using av(2) False by (auto simp: cval_def split: if_splits)
    then show ?thesis using True a assms(4,5,6) False av(1)
      by (auto simp: addsub_finish_def Let_def fp_wf_def)
  qed
qed

lemma addsub_numbers_wf:
  assumes "fp_wf x" "fp_wf y" "fp_type x = 2" "fp_type y = 2" "length (mantissa z) = 4"
  shows "\<exists>r. addsub_numbers op x y z = Some r \<and> length (mantissa r) = 4 \<and>
    (fp_exp x \<noteq> fp_exp y \<longrightarrow> fp_wf r)"
proof -
  note x = fp_wf_pos [OF assms(1,3)] and y = fp_wf_pos [OF assms(2,4)]
  define d where "d = sint (fp_exp x) - sint (fp_exp y)"
  consider "d = 0" | "0 < d" | "d < 0" by linarith
  then show ?thesis
  proof cases
    case 1
    then have "fp_exp x = fp_exp y" by (auto simp: d_def intro: signed_word_eqI)
    then show ?thesis using 1 assms(3-5) by (simp add: addsub_numbers_def)
  next
    case 2
    obtain m where m: "StickyShiftRightMant d y = y\<lparr>mantissa := m\<rparr>" "length m = 4"
      using StickyShift_val [of y d] y assms(4) 2 by auto
    let ?z = "z\<lparr>fp_type := fp_type x, fp_sign := fp_sign x, fp_exp := fp_exp x\<rparr>"
    have "\<exists>r. addsub_finish op x (y\<lparr>mantissa := m\<rparr>) ?z = Some r \<and> fp_wf r"
      using assms(1,3) m(2) by (intro addsub_finish_wf) (auto simp: fp_wf_def)
    then show ?thesis using 2 m(1)
      by (auto simp: addsub_numbers_def d_def [symmetric] fp_wf_def)
  next
    case 3
    obtain m where m: "StickyShiftRightMant (- d) x = x\<lparr>mantissa := m\<rparr>" "length m = 4"
      using StickyShift_val [of x "- d"] x assms(3) 3 by auto
    let ?z = "z\<lparr>fp_type := fp_type y, fp_sign := fp_sign y XOR op, fp_exp := fp_exp y\<rparr>"
    have "\<exists>r. addsub_finish op (x\<lparr>mantissa := m\<rparr>) y ?z = Some r \<and> fp_wf r"
      using assms(2-4) m(2) by (intro addsub_finish_wf) (auto simp: fp_wf_def)
    then show ?thesis using 3 m(1)
      by (auto simp: addsub_numbers_def d_def [symmetric] fp_wf_def)
  qed
qed

section \<open>One slot of the arrays\<close>

definition triple_ok :: "InternalFPF \<times> InternalFPF \<times> InternalFPF \<Rightarrow> bool" where
  "triple_ok t \<longleftrightarrow> (case t of (x, y, z) \<Rightarrow> fp_wf x \<and> fp_wf y \<and> length (mantissa z) = 4 \<and>
     (fp_wf z \<or> fp_type x = 2 \<and> fp_type y = 2))"

text \<open>Operands that are not both numbers: every object receives a copy of one of the three.\<close>

definition copies :: "InternalFPF \<Rightarrow> InternalFPF \<Rightarrow> InternalFPF \<Rightarrow>
    (InternalFPF \<times> InternalFPF \<times> InternalFPF) option \<Rightarrow> bool" where
  "copies x y z res \<longleftrightarrow> (\<exists>x' y' w s. res = Some (x', y', RoundInternalFPF w) \<and> x' \<in> {x, z} \<and> y' \<in> {y, z} \<and>
     w \<in> {z, z\<lparr>fp_sign := s\<rparr>, SetInternalFPFNaN, SetInternalFPFZero s, SetInternalFPFInfinity s})"

lemma choose_nan_copies:
  "\<exists>x' y'. choose_nan x y z f = (x', y', z) \<and> x' \<in> {x, z} \<and> y' \<in> {y, z}"
  by (auto simp: choose_nan_def split: option.splits bool.splits)

lemma copies_simps:
  assumes "x' \<in> {x, z}" "y' \<in> {y, z}"
  shows "copies x y z (Some (x', y', RoundInternalFPF z))"
    "copies x y z (Some (x', y', RoundInternalFPF (z\<lparr>fp_sign := s\<rparr>)))"
    "copies x y z (Some (x', y', RoundInternalFPF SetInternalFPFNaN))"
    "copies x y z (Some (x', y', RoundInternalFPF (SetInternalFPFZero s)))"
    "copies x y z (Some (x', y', RoundInternalFPF (SetInternalFPFInfinity s)))"
  unfolding copies_def using assms by blast+

definition special_codes :: "nat set" where
  "special_codes = {0, 2, 3, 4, 10, 13, 14, 15, 17, 18, 19, 20, 22, 23, 24}"

lemma special_types:
  assumes "fp_wf x" "fp_wf y" "\<not> (fp_type x = 2 \<and> fp_type y = 2)"
  shows "op_types x y \<in> special_codes"
proof -
  have "fp_type x = 0 \<or> fp_type x = 2 \<or> fp_type x = 3 \<or> fp_type x = 4"
    "fp_type y = 0 \<or> fp_type y = 2 \<or> fp_type y = 3 \<or> fp_type y = 4"
    using assms(1,2) by (simp_all add: fp_wf_def)
  then show ?thesis using assms(3) by (elim disjE) (simp_all add: op_types_def special_codes_def)
qed

lemma addsub_copies:
  assumes "op_types x y \<in> special_codes"
  shows "copies x y z (AddSubInternalFPF op x y z)"
proof -
  obtain x' y' where c: "choose_nan x y z True = (x', y', z)" "x' \<in> {x, z}" "y' \<in> {y, z}"
    using choose_nan_copies by blast
  show ?thesis using assms unfolding special_codes_def insert_iff empty_iff
    by (elim disjE FalseE) (simp_all add: AddSubInternalFPF_def copies_simps c [simplified] c(1))
qed

lemma multiply_copies:
  assumes "op_types x y \<in> special_codes"
  shows "copies x y z (MultiplyInternalFPF x y z)"
proof -
  obtain x' y' where c: "choose_nan x y z False = (x', y', z)" "x' \<in> {x, z}" "y' \<in> {y, z}"
    using choose_nan_copies by blast
  show ?thesis using assms unfolding special_codes_def insert_iff empty_iff
    by (elim disjE FalseE) (simp_all add: MultiplyInternalFPF_def copies_simps c [simplified] c(1))
qed

lemma divide_copies:
  assumes "op_types x y \<in> special_codes"
  shows "copies x y z (DivideInternalFPF x y z)"
proof -
  obtain x' y' where c: "choose_nan x y z False = (x', y', z)" "x' \<in> {x, z}" "y' \<in> {y, z}"
    using choose_nan_copies by blast
  show ?thesis using assms unfolding special_codes_def insert_iff empty_iff
    by (elim disjE FalseE) (simp_all add: DivideInternalFPF_def copies_simps c [simplified] c(1),
      (cases "IsMantissaZero (mantissa x)"; cases "IsMantissaZero (mantissa y)"; simp add: Let_def copies_simps)+)
qed

lemma copies_ok:
  assumes "copies x y z res" "fp_wf x" "fp_wf y" "fp_wf z"
  shows "\<exists>t. res = Some t \<and> triple_ok t"
proof -
  obtain x' y' w s where r: "res = Some (x', y', RoundInternalFPF w)" "x' \<in> {x, z}" "y' \<in> {y, z}"
      "w \<in> {z, z\<lparr>fp_sign := s\<rparr>, SetInternalFPFNaN, SetInternalFPFZero s, SetInternalFPFInfinity s}"
    using assms(1) unfolding copies_def by blast
  have "fp_wf w" using r(4) assms(4) by auto
  then have w: "fp_wf (RoundInternalFPF w)" by (rule Round_wf)
  then have "length (mantissa (RoundInternalFPF w)) = 4" by (simp add: fp_wf_def)
  moreover have "fp_wf x'" "fp_wf y'" using r(2,3) assms(2-4) by auto
  ultimately show ?thesis using r(1) w by (simp add: triple_ok_def)
qed

lemma emfloat_op_ok:
  assumes "triple_ok (x, y, z)" "j < 4"
  shows "\<exists>t. emfloat_op j x y z = Some t \<and> triple_ok t"
proof (cases "fp_type x = 2 \<and> fp_type y = 2")
  case False
  then have wf: "fp_wf x" "fp_wf y" "fp_wf z" using assms(1) by (auto simp: triple_ok_def)
  note t = special_types [OF wf(1,2) False]
  have "copies x y z (emfloat_op j x y z)"
    using assms(2) addsub_copies [OF t] multiply_copies [OF t] divide_copies [OF t]
    by (simp add: emfloat_op_def)
  then show ?thesis using copies_ok wf by blast
next
  case True
  then have wf: "fp_wf x" "fp_wf y" "length (mantissa z) = 4" and ty: "fp_type x = 2" "fp_type y = 2"
    using assms(1) by (auto simp: triple_ok_def)
  have len: "length (mantissa (RoundInternalFPF r)) = 4" if "length (mantissa r) = 4" for r
    using that sticky_steps_val [of "mantissa r"]
    by (simp add: RoundInternalFPF_def denormalize_def Let_def SetInternalFPFZero_def StickyShiftRightMant_def)
  obtain m where m: "multiply_numbers x y = Some m" "fp_wf m" using multiply_numbers_wf wf ty by blast
  obtain d where d: "divide_numbers x y = Some d" "fp_wf d" using divide_numbers_wf wf ty by blast
  obtain a where a: "addsub_numbers 0 x y z = Some a" "length (mantissa a) = 4"
    using addsub_numbers_wf wf ty by blast
  obtain b where b: "addsub_numbers 1 x y z = Some b" "length (mantissa b) = 4"
    using addsub_numbers_wf wf ty by blast
  have t: "op_types x y = 12" using ty by (rule op_types_normal)
  have "emfloat_op j x y z \<in> {Some (x, y, RoundInternalFPF a), Some (x, y, RoundInternalFPF b),
      Some (x, y, RoundInternalFPF m), Some (x, y, RoundInternalFPF d)}"
    using assms(2) t m d a b
    by (simp add: emfloat_op_def AddSubInternalFPF_def MultiplyInternalFPF_def DivideInternalFPF_def Let_def)
  then obtain r where "emfloat_op j x y z = Some (x, y, RoundInternalFPF r)" "length (mantissa r) = 4"
    using a(2) b(2) m(2) d(2) by (auto simp: fp_wf_def)
  then show ?thesis using wf ty len by (simp add: triple_ok_def)
qed

section \<open>The whole benchmark\<close>

definition arrays_ok :: "nat \<Rightarrow> InternalFPF list \<times> InternalFPF list \<times> InternalFPF list \<Rightarrow> bool" where
  "arrays_ok n st \<longleftrightarrow> (case st of (a, b, c) \<Rightarrow> length a = n \<and> length b = n \<and> length c = n \<and>
     (\<forall>i < n. triple_ok (a ! i, b ! i, c ! i)))"

lemma jtable_less: "jtable ! (i mod 16) < 4"
proof -
  have "\<forall>k < 16. jtable ! k < 4" by (simp add: jtable_def All_less_Suc eval_nat_numeral)
  then show ?thesis by simp
qed

lemma emfloat_element_ok:
  assumes "arrays_ok n st" "i < n"
  shows "\<exists>st'. emfloat_element i st = Some st' \<and> arrays_ok n st'"
proof -
  obtain a b c where st: "st = (a, b, c)" by (cases st)
  have ok: "length a = n" "length b = n" "length c = n" "\<forall>i < n. triple_ok (a ! i, b ! i, c ! i)"
    using assms(1) by (simp_all add: arrays_ok_def st)
  obtain t where t: "emfloat_op (jtable ! (i mod 16)) (a ! i) (b ! i) (c ! i) = Some t" "triple_ok t"
    using emfloat_op_ok ok(4) assms(2) jtable_less by blast
  obtain x y z where xyz: "t = (x, y, z)" by (cases t)
  have "emfloat_element i st = Some (a[i := x], b[i := y], c[i := z])"
    using ok assms(2) t(1) by (simp add: emfloat_element_def st xyz mem_simps)
  then show ?thesis using ok t(2) assms(2) by (auto simp: arrays_ok_def xyz nth_list_update)
qed

lemma emfloat_pass_ok:
  assumes "arrays_ok n st"
  shows "\<exists>st'. for_loop 0 n emfloat_element st = Some st' \<and> arrays_ok n st'"
proof -
  have "\<exists>st'. for_loop 0 n emfloat_element st = Some st' \<and> (\<lambda>_. arrays_ok n) (0 + n) st'"
    by (rule for_loop_rule) (use assms emfloat_element_ok in auto)
  then show ?thesis by simp
qed

text \<open>
  On arrays of well-formed numbers the emulation benchmark returns for any number of loops:
  no normalization loop meets a zero significand and no access leaves the arrays, although the
  operations overwrite their operands in the special cases; operands stay well formed.
\<close>

theorem DoEmFloatIteration_returns:
  assumes "length abase = n" "length bbase = n" "length cbase = n"
    and "\<forall>p \<in> set abase \<union> set bbase \<union> set cbase. fp_wf p"
  shows "\<exists>a b c. DoEmFloatIteration clk abase bbase cbase n loops w =
      Some (clk (clock_calls w + 1) - clk (clock_calls w), a, b, c, w\<lparr>clock_calls := clock_calls w + 2\<rparr>) \<and>
    length a = n \<and> length b = n \<and> length c = n \<and>
    (\<forall>i < n. fp_wf (a ! i) \<and> fp_wf (b ! i) \<and> (fp_wf (c ! i) \<or> fp_type (a ! i) = 2 \<and> fp_type (b ! i) = 2))"
proof -
  have "arrays_ok n (abase, bbase, cbase)"
    using assms by (auto simp: arrays_ok_def triple_ok_def fp_wf_def)
  then have "\<exists>st. for_loop 0 loops (\<lambda>_. for_loop 0 n emfloat_element) (abase, bbase, cbase) = Some st \<and>
      (\<lambda>_. arrays_ok n) (0 + loops) st"
    by (rule for_loop_rule) (rule emfloat_pass_ok)
  then obtain a b c where "for_loop 0 loops (\<lambda>_. for_loop 0 n emfloat_element) (abase, bbase, cbase) =
      Some (a, b, c)" "arrays_ok n (a, b, c)" by auto
  then show ?thesis
    by (auto simp: DoEmFloatIteration_def StartStopwatch_def StopStopwatch_def arrays_ok_def triple_ok_def)
qed

theorem DoEmFloatIteration_returns_witness:
  "\<exists>a b c. DoEmFloatIteration (\<lambda>n. of_nat n) [fp_three] [fp_minus_ten] [SetInternalFPFZero 0] 1 3 sys0 =
      Some (1, a, b, c, sys0\<lparr>clock_calls := 2\<rparr>) \<and> length c = 1"
proof -
  have "\<exists>a b c. DoEmFloatIteration (\<lambda>n. of_nat n) [fp_three] [fp_minus_ten] [SetInternalFPFZero 0] 1 3 sys0 =
      Some (of_nat (clock_calls sys0 + 1) - of_nat (clock_calls sys0), a, b, c,
        sys0\<lparr>clock_calls := clock_calls sys0 + 2\<rparr>) \<and> length a = 1 \<and> length b = 1 \<and> length c = 1 \<and>
      (\<forall>i < 1. fp_wf (a ! i) \<and> fp_wf (b ! i) \<and>
        (fp_wf (c ! i) \<or> fp_type (a ! i) = 2 \<and> fp_type (b ! i) = 2))"
    by (rule DoEmFloatIteration_returns) (simp_all add: fp_normal_wf)
  then show ?thesis by (auto simp: sys0_def numeral_2_eq_2)
qed

section \<open>Loading the arrays\<close>

text \<open>What the conversion yields is zero or normalized.\<close>

definition fp_loaded :: "InternalFPF \<Rightarrow> bool" where
  "fp_loaded p \<longleftrightarrow> fp_wf p \<and> (fp_type p = 0 \<or> fp_type p = 2)"

lemma Int32_loaded: "\<exists>p. Int32ToInternalFPF n = Some p \<and> fp_loaded p"
proof (cases "n = 0")
  case True
  then show ?thesis by (simp add: Int32ToInternalFPF_def fp_loaded_def fp_wf_def)
next
  case False
  then show ?thesis using Int32_value [OF False] fp_normal_wf by (auto simp: fp_loaded_def fp_normal_def)
qed

lemma divide_loaded:
  assumes "fp_loaded x" "fp_loaded y"
  shows "\<exists>r. DivideInternalFPF x y z = Some (x, y, r) \<and> fp_wf r"
proof (cases "fp_type x = 2 \<and> fp_type y = 2")
  case True
  then obtain d where "divide_numbers x y = Some d" "fp_wf d"
    using divide_numbers_wf assms by (auto simp: fp_loaded_def)
  then show ?thesis using op_types_normal [of x y] True Round_wf by (simp add: DivideInternalFPF_def Let_def)
next
  case False
  have "fp_type x = 0 \<or> fp_type x = 2" "fp_type y = 0 \<or> fp_type y = 2"
    using assms by (simp_all add: fp_loaded_def)
  then have "op_types x y = 0 \<or> op_types x y = 2 \<or> op_types x y = 10"
    using False by (auto simp: op_types_def)
  moreover have "fp_wf (RoundInternalFPF p)" if "fp_wf p" for p using that by (rule Round_wf)
  ultimately show ?thesis
    by (elim disjE; cases "IsMantissaZero (mantissa x)"; cases "IsMantissaZero (mantissa y)")
      (simp_all add: DivideInternalFPF_def Let_def)
qed

lemma randwc_50000: "\<exists>r s'. randwc 50000 s = Some (r, s')"
proof -
  obtain v s' where "randnum 0 s = Some (v, s')" using randnum_Some by blast
  moreover obtain r where "smod32 v 50000 = Some r" using smod32_Some [of 50000 v] by auto
  ultimately show ?thesis by (simp add: randwc_def)
qed

lemma setup_element_ok:
  assumes "i < length a" "i < length b"
  shows "\<exists>x y s'. setup_element i (a, b, s) = Some (a[i := x], b[i := y], s') \<and> fp_wf x \<and> fp_wf y"
proof -
  obtain r1 s1 where r1: "randwc 50000 s = Some (r1, s1)" using randwc_50000 by blast
  obtain r2 s2 where r2: "randwc 50000 s1 = Some (r2, s2)" using randwc_50000 by blast
  obtain r3 s3 where r3: "randwc 50000 s2 = Some (r3, s3)" using randwc_50000 by blast
  obtain p where p: "Int32ToInternalFPF r1 = Some p" "fp_loaded p" using Int32_loaded by blast
  obtain q where q: "Int32ToInternalFPF (r2 + 1) = Some q" "fp_loaded q" using Int32_loaded by blast
  obtain t where t: "Int32ToInternalFPF (r3 + 1) = Some t" "fp_loaded t" using Int32_loaded by blast
  obtain x where x: "DivideInternalFPF p q (a ! i) = Some (p, q, x)" "fp_wf x"
    using divide_loaded p(2) q(2) by blast
  obtain y where y: "DivideInternalFPF p t (b ! i) = Some (p, t, y)" "fp_wf y"
    using divide_loaded p(2) t(2) by blast
  show ?thesis using assms r1 r2 r3 p(1) q(1) t(1) x y
    by (intro exI [of _ x] exI [of _ y] exI [of _ s3]) (simp add: setup_element_def mem_simps)
qed

text \<open>
  Loading the emulation arrays always returns, whatever they held: the random numerators and
  denominators, zero and negative ones included, convert and divide without a non-terminating
  loop, and every element of both arrays is well formed.
\<close>

theorem SetupCPUEmFloatArrays_wf:
  assumes "length abase = n" "length bbase = n"
  shows "\<exists>a b s'. SetupCPUEmFloatArrays abase bbase n s = Some (a, b, s') \<and> length a = n \<and> length b = n \<and>
    (\<forall>p \<in> set a \<union> set b. fp_wf p)"
proof -
  obtain v s0 where s0: "randnum 13 s = Some (v, s0)" using randnum_Some by blast
  define P where "P i st \<longleftrightarrow> (case st of (a, b, s :: rng) \<Rightarrow> length a = n \<and> length b = n \<and>
      (\<forall>k < i. fp_wf (a ! k) \<and> fp_wf (b ! k)))" for i and st :: "InternalFPF list \<times> InternalFPF list \<times> rng"
  have "\<exists>st. for_loop 0 n setup_element (abase, bbase, s0) = Some st \<and> P (0 + n) st"
  proof (rule for_loop_rule)
    show "P 0 (abase, bbase, s0)" using assms by (simp add: P_def)
    fix i st assume i: "0 \<le> i" "i < 0 + n" "P i st"
    obtain a b s where st: "st = (a, b, s)" "length a = n" "length b = n"
        "\<forall>k < i. fp_wf (a ! k) \<and> fp_wf (b ! k)"
      using i(3) by (cases st) (auto simp: P_def)
    obtain x y s' where "setup_element i st = Some (a[i := x], b[i := y], s')" "fp_wf x" "fp_wf y"
      using setup_element_ok [of i a b s] i(2) st by auto
    then show "\<exists>st'. setup_element i st = Some st' \<and> P (Suc i) st'"
      using st i(2) by (auto simp: P_def nth_list_update less_Suc_eq)
  qed
  then obtain a b s' where "for_loop 0 n setup_element (abase, bbase, s0) = Some (a, b, s')"
      "length a = n" "length b = n" "\<forall>k < n. fp_wf (a ! k) \<and> fp_wf (b ! k)"
    by (auto simp: P_def)
  then show ?thesis using s0 by (auto simp: SetupCPUEmFloatArrays_def in_set_conv_nth)
qed

theorem SetupCPUEmFloatArrays_wf_witness:
  "\<exists>a b s'. SetupCPUEmFloatArrays [fp_three, fp_three] [fp_three, fp_three] 2 rng_init = Some (a, b, s') \<and>
    length a = 2 \<and> length b = 2 \<and> (\<forall>p \<in> set a \<union> set b. fp_wf p)"
  by (rule SetupCPUEmFloatArrays_wf) simp_all

lemma mul_normalize_zero:
  assumes "mul_normalize e zm ex = Some r"
  shows "\<not> (zm = [0, 0, 0, 0] \<and> ex = [0, 0, 0, 0])"
  using assms
proof (rule mul_normalize.raw_induct [where P = "\<lambda>e zm ex r. \<not> (zm = [0, 0, 0, 0] \<and> ex = [0, 0, 0, 0])",
      rotated])
  fix f e zm ex r
  assume IH: "\<And>e zm ex r. f e zm ex = Some r \<Longrightarrow> \<not> (zm = [0, 0, 0, 0] \<and> ex = [0, 0, 0, 0])"
    and body: "(if zm ! 0 AND 0x8000 = 0 then
        let (carry, extra_bits) = ShiftMantLeft1 0 ex; (carry, zm) = ShiftMantLeft1 carry zm
        in f (e - 1) zm extra_bits
      else Some (e, zm, ex)) = Some r"
  show "\<not> (zm = [0, 0, 0, 0] \<and> ex = [0, 0, 0, 0])"
  proof
    assume "zm = [0, 0, 0, 0] \<and> ex = [0, 0, 0, 0]"
    then have "f (e - 1) [0, 0, 0, 0] [0, 0, 0, 0] = Some r" using body by (simp add: left_zero)
    then show False using IH by blast
  qed
qed

text \<open>
  MultiplyInternalFPF on a number of type NORMAL whose mantissa is zero does not return: the
  check for such arguments has no effect and the normalization loop runs forever.
\<close>

theorem Multiply_zero_mantissa_hangs:
  assumes "fp_type x = 2" "fp_type y = 2" "length (mantissa x) = 4" "mantissa y = [0, 0, 0, 0]"
  shows "MultiplyInternalFPF x y z = None"
proof -
  obtain y' zm ex where l: "(mul_step (mantissa x) ^^ 64) (mantissa y, [0, 0, 0, 0], [0, 0, 0, 0]) = (y', zm, ex)"
      "length zm = 4" "length ex = 4" "mval zm * N64 + mval ex = mval (mantissa x) * mval (mantissa y)"
    using mul_loop_product [OF assms(3), of "mantissa y"] assms(4) by auto
  have "mval zm = 0" "mval ex = 0" using l(4) assms(4) by simp_all
  have zero: "m = [0, 0, 0, 0]" if m: "length m = 4" "mval m = 0" for m
  proof -
    obtain a b c d where "m = [a, b, c, d]" by (rule len4E [OF m(1)])
    then show ?thesis using m(2) unfolding mval_zero_iff by simp
  qed
  have z: "zm = [0, 0, 0, 0]" "ex = [0, 0, 0, 0]"
    using zero l(2,3) \<open>mval zm = 0\<close> \<open>mval ex = 0\<close> by blast+
  have "mul_normalize e zm ex = None" for e
    using mul_normalize_zero [of e zm ex] z by (cases "mul_normalize e zm ex") blast+
  then have "multiply_numbers x y = None"
    using l(1) by (simp add: multiply_numbers_def del: funpow.simps)
  then show ?thesis using op_types_normal [OF assms(1,2)] by (simp add: MultiplyInternalFPF_def)
qed

theorem Multiply_zero_mantissa_hangs_witness:
  "MultiplyInternalFPF fp_three (fp_three\<lparr>mantissa := [0, 0, 0, 0]\<rparr>) fp_three = None"
  by (rule Multiply_zero_mantissa_hangs) (simp_all add: fp_three_def)

end
