(* ===== verification/Crc32.thy ===== *)
theory Crc32
  imports NB_Prelude
begin

text \<open>
  The CRC-32 of \<open>file_io/crc/crc_32.c\<close> and the macro \<open>UPDC32\<close> of \<open>crc.h\<close>.  The file read by
  \<open>crc32file\<close> is an argument: \<open>None\<close> when \<open>fopen\<close> fails, otherwise the bytes that \<open>getc\<close>
  delivers before \<open>EOF\<close> and the value of \<open>ferror\<close>.
\<close>

section \<open>The code\<close>

definition crc_32_tab :: "u32 list" where
  "crc_32_tab =
    [0x00000000, 0x77073096, 0xee0e612c, 0x990951ba, 0x076dc419, 0x706af48f,
     0xe963a535, 0x9e6495a3, 0x0edb8832, 0x79dcb8a4, 0xe0d5e91e, 0x97d2d988,
     0x09b64c2b, 0x7eb17cbd, 0xe7b82d07, 0x90bf1d91, 0x1db71064, 0x6ab020f2,
     0xf3b97148, 0x84be41de, 0x1adad47d, 0x6ddde4eb, 0xf4d4b551, 0x83d385c7,
     0x136c9856, 0x646ba8c0, 0xfd62f97a, 0x8a65c9ec, 0x14015c4f, 0x63066cd9,
     0xfa0f3d63, 0x8d080df5, 0x3b6e20c8, 0x4c69105e, 0xd56041e4, 0xa2677172,
     0x3c03e4d1, 0x4b04d447, 0xd20d85fd, 0xa50ab56b, 0x35b5a8fa, 0x42b2986c,
     0xdbbbc9d6, 0xacbcf940, 0x32d86ce3, 0x45df5c75, 0xdcd60dcf, 0xabd13d59,
     0x26d930ac, 0x51de003a, 0xc8d75180, 0xbfd06116, 0x21b4f4b5, 0x56b3c423,
     0xcfba9599, 0xb8bda50f, 0x2802b89e, 0x5f058808, 0xc60cd9b2, 0xb10be924,
     0x2f6f7c87, 0x58684c11, 0xc1611dab, 0xb6662d3d, 0x76dc4190, 0x01db7106,
     0x98d220bc, 0xefd5102a, 0x71b18589, 0x06b6b51f, 0x9fbfe4a5, 0xe8b8d433,
     0x7807c9a2, 0x0f00f934, 0x9609a88e, 0xe10e9818, 0x7f6a0dbb, 0x086d3d2d,
     0x91646c97, 0xe6635c01, 0x6b6b51f4, 0x1c6c6162, 0x856530d8, 0xf262004e,
     0x6c0695ed, 0x1b01a57b, 0x8208f4c1, 0xf50fc457, 0x65b0d9c6, 0x12b7e950,
     0x8bbeb8ea, 0xfcb9887c, 0x62dd1ddf, 0x15da2d49, 0x8cd37cf3, 0xfbd44c65,
     0x4db26158, 0x3ab551ce, 0xa3bc0074, 0xd4bb30e2, 0x4adfa541, 0x3dd895d7,
     0xa4d1c46d, 0xd3d6f4fb, 0x4369e96a, 0x346ed9fc, 0xad678846, 0xda60b8d0,
     0x44042d73, 0x33031de5, 0xaa0a4c5f, 0xdd0d7cc9, 0x5005713c, 0x270241aa,
     0xbe0b1010, 0xc90c2086, 0x5768b525, 0x206f85b3, 0xb966d409, 0xce61e49f,
     0x5edef90e, 0x29d9c998, 0xb0d09822, 0xc7d7a8b4, 0x59b33d17, 0x2eb40d81,
     0xb7bd5c3b, 0xc0ba6cad, 0xedb88320, 0x9abfb3b6, 0x03b6e20c, 0x74b1d29a,
     0xead54739, 0x9dd277af, 0x04db2615, 0x73dc1683, 0xe3630b12, 0x94643b84,
     0x0d6d6a3e, 0x7a6a5aa8, 0xe40ecf0b, 0x9309ff9d, 0x0a00ae27, 0x7d079eb1,
     0xf00f9344, 0x8708a3d2, 0x1e01f268, 0x6906c2fe, 0xf762575d, 0x806567cb,
     0x196c3671, 0x6e6b06e7, 0xfed41b76, 0x89d32be0, 0x10da7a5a, 0x67dd4acc,
     0xf9b9df6f, 0x8ebeeff9, 0x17b7be43, 0x60b08ed5, 0xd6d6a3e8, 0xa1d1937e,
     0x38d8c2c4, 0x4fdff252, 0xd1bb67f1, 0xa6bc5767, 0x3fb506dd, 0x48b2364b,
     0xd80d2bda, 0xaf0a1b4c, 0x36034af6, 0x41047a60, 0xdf60efc3, 0xa867df55,
     0x316e8eef, 0x4669be79, 0xcb61b38c, 0xbc66831a, 0x256fd2a0, 0x5268e236,
     0xcc0c7795, 0xbb0b4703, 0x220216b9, 0x5505262f, 0xc5ba3bbe, 0xb2bd0b28,
     0x2bb45a92, 0x5cb36a04, 0xc2d7ffa7, 0xb5d0cf31, 0x2cd99e8b, 0x5bdeae1d,
     0x9b64c2b0, 0xec63f226, 0x756aa39c, 0x026d930a, 0x9c0906a9, 0xeb0e363f,
     0x72076785, 0x05005713, 0x95bf4a82, 0xe2b87a14, 0x7bb12bae, 0x0cb61b38,
     0x92d28e9b, 0xe5d5be0d, 0x7cdcefb7, 0x0bdbdf21, 0x86d3d2d4, 0xf1d4e242,
     0x68ddb3f8, 0x1fda836e, 0x81be16cd, 0xf6b9265b, 0x6fb077e1, 0x18b74777,
     0x88085ae6, 0xff0f6a70, 0x66063bca, 0x11010b5c, 0x8f659eff, 0xf862ae69,
     0x616bffd3, 0x166ccf45, 0xa00ae278, 0xd70dd2ee, 0x4e048354, 0x3903b3c2,
     0xa7672661, 0xd06016f7, 0x4969474d, 0x3e6e77db, 0xaed16a4a, 0xd9d65adc,
     0x40df0b66, 0x37d83bf0, 0xa9bcae53, 0xdebb9ec5, 0x47b2cf7f, 0x30b5ffe9,
     0xbdbdf21c, 0xcabac28a, 0x53b39330, 0x24b4a3a6, 0xbad03605, 0xcdd70693,
     0x54de5729, 0x23d967bf, 0xb3667a2e, 0xc4614ab8, 0x5d681b02, 0x2a6f2b94,
     0xb40bbe37, 0xc30c8ea1, 0x5a05df1b, 0x2d02ef8d]"

definition UPDC32 :: "u8 \<Rightarrow> u32 \<Rightarrow> u32" where
  "UPDC32 octet crc = crc_32_tab ! unat ((crc XOR ucast octet) AND 0xFF) XOR drop_bit 8 crc"

definition updateCRC32 :: "u8 \<Rightarrow> u32 \<Rightarrow> u32" where
  "updateCRC32 ch crc = UPDC32 ch crc"

text \<open>\<open>for ( ; len; --len, ++buf)\<close>; reading past the buffer is \<open>None\<close>.\<close>

fun crc_loop :: "u8 list \<Rightarrow> nat \<Rightarrow> u32 \<Rightarrow> u32 option" where
  "crc_loop buf 0 oldcrc32 = Some oldcrc32"
| "crc_loop (b # buf) (Suc len) oldcrc32 = crc_loop buf len (UPDC32 b oldcrc32)"
| "crc_loop [] (Suc len) oldcrc32 = None"

definition crc32buf :: "u8 list \<Rightarrow> nat \<Rightarrow> u32 option" where
  "crc32buf buf len = do { oldcrc32 \<leftarrow> crc_loop buf len 0xFFFFFFFF; Some (NOT oldcrc32) }"

datatype Boolean_T = BErr | BSuccess | BFalse | BTrue

text \<open>The values of the enumeration are its members \<open>Error_\<close>, \<open>Success_\<close>, \<open>False_\<close> and \<open>True_\<close>.  The values after the call of the result, \<open>*crc\<close> and \<open>*charcnt\<close>.\<close>

fun file_loop :: "u8 list \<Rightarrow> u32 \<times> int32 \<Rightarrow> u32 \<times> int32" where
  "file_loop [] st = st"
| "file_loop (c # cs) (oldcrc32, charcnt) = file_loop cs (UPDC32 c oldcrc32, charcnt + 1)"

definition crc32file :: "(u8 list \<times> bool) option \<Rightarrow> u32 \<Rightarrow> Boolean_T \<times> u32 \<times> int32" where
  "crc32file fin crc =
     (case fin of
        None \<Rightarrow> (BErr, crc, 0)
      | Some (bytes, err) \<Rightarrow>
          let (oldcrc32, charcnt) = file_loop bytes (0xFFFFFFFF, 0);
              charcnt = (if err then - 1 else charcnt)
          in (BSuccess, NOT oldcrc32, charcnt))"

section \<open>The polynomial, bit by bit\<close>

text \<open>One turn of the shift register: polynomial \<open>0xEDB88320\<close>, least significant bit first.\<close>

definition crc_bit :: "u32 \<Rightarrow> u32" where
  "crc_bit c = (if bit c 0 then drop_bit 1 c XOR 0xEDB88320 else drop_bit 1 c)"

definition crc_byte :: "u32 \<Rightarrow> u8 \<Rightarrow> u32" where
  "crc_byte c b = (crc_bit ^^ 8) (c XOR ucast b)"

definition crc32_spec :: "u8 list \<Rightarrow> u32" where
  "crc32_spec bs = NOT (foldl crc_byte 0xFFFFFFFF bs)"

lemma crc_bit_xor: "crc_bit (a XOR b) = crc_bit a XOR crc_bit b"
  by (auto simp: crc_bit_def bit_simps drop_bit_xor ac_simps)

lemma crc_bits_xor: "(crc_bit ^^ n) (a XOR b) = (crc_bit ^^ n) a XOR (crc_bit ^^ n) b"
  by (induction n) (simp_all add: crc_bit_xor)

lemma crc_bit_even: "\<not> bit c 0 \<Longrightarrow> crc_bit c = drop_bit 1 c"
  by (simp add: crc_bit_def)

lemma crc_bits_low_zero: "\<forall>i < n. \<not> bit c i \<Longrightarrow> (crc_bit ^^ n) c = drop_bit n c"
proof (induction n)
  case 0
  then show ?case by simp
next
  case (Suc n)
  then have "(crc_bit ^^ n) c = drop_bit n c" by simp
  moreover have "\<not> bit (drop_bit n c) 0" using Suc.prems by (simp add: bit_simps)
  ultimately show ?case by (simp add: crc_bit_even drop_bit_drop_bit)
qed

text \<open>Each half of the table below a power of two is the lower half combined with one entry.\<close>

definition halves_ok :: "nat \<Rightarrow> bool" where
  "halves_ok b \<longleftrightarrow> take (2 ^ b) (drop (2 ^ b) crc_32_tab) =
     map (\<lambda>x. x XOR crc_32_tab ! (2 ^ b)) (take (2 ^ b) crc_32_tab)"

lemma table_halves:
  "halves_ok 0" "halves_ok 1" "halves_ok 2" "halves_ok 3" "halves_ok 4" "halves_ok 5" "halves_ok 6" "halves_ok 7"
  by (simp_all add: halves_ok_def crc_32_tab_def)

lemma crc_bit_steps:
  "crc_bit 128 = 64" "crc_bit 64 = 32" "crc_bit 32 = 16" "crc_bit 16 = 8"
  "crc_bit 8 = 4" "crc_bit 4 = 2" "crc_bit 2 = 1" "crc_bit 1 = 0xedb88320"
  "crc_bit 0xedb88320 = 0x76dc4190" "crc_bit 0x76dc4190 = 0x3b6e20c8" "crc_bit 0x3b6e20c8 = 0x1db71064"
  "crc_bit 0x1db71064 = 0xedb8832" "crc_bit 0xedb8832 = 0x76dc419" "crc_bit 0x76dc419 = 0xee0e612c" "crc_bit 0xee0e612c = 0x77073096"
  by (simp_all add: crc_bit_def bit_0)

lemma table_powers:
  assumes "b < 8"
  shows "crc_32_tab ! (2 ^ b) = (crc_bit ^^ 8) (2 ^ b)"
proof -
  have f8: "(crc_bit ^^ 8) x = crc_bit (crc_bit (crc_bit (crc_bit (crc_bit (crc_bit (crc_bit (crc_bit x)))))))" for x
    by (simp add: eval_nat_numeral)
  have "b \<in> {0, 1, 2, 3, 4, 5, 6, 7}" using assms by auto
  then show ?thesis unfolding f8
    by (elim insertE emptyE) (simp_all add: crc_bit_steps crc_32_tab_def)
qed

lemma xor_of_disjoint:
  assumes "j < 2 ^ b" "b < 8"
  shows "word_of_nat (2 ^ b + j) = (2 ^ b XOR word_of_nat j :: u32)"
proof -
  have nb: "\<not> bit j b" using assms(1) by (simp add: bit_iff_odd)
  have "(2 ^ b :: u32) AND word_of_nat j = 0"
    by (rule bit_word_eqI) (use nb in \<open>auto simp: bit_simps\<close>)
  then show ?thesis by (simp add: disjunctive_add_eq_or disjunctive_xor_eq_or)
qed

lemma table_entry: "b \<le> 8 \<Longrightarrow> i < 2 ^ b \<Longrightarrow> crc_32_tab ! i = (crc_bit ^^ 8) (word_of_nat i)"
proof (induction b arbitrary: i)
  case 0
  then have "i = 0" by simp
  moreover have "(crc_bit ^^ 8) 0 = 0" by (subst crc_bits_low_zero) simp_all
  ultimately show ?case by (simp add: crc_32_tab_def del: funpow.simps)
next
  case (Suc b)
  show ?case
  proof (cases "i < 2 ^ b")
    case True
    then show ?thesis using Suc by simp
  next
    case False
    then obtain j where j: "i = 2 ^ b + j" using le_Suc_ex not_less by blast
    then have jb: "j < 2 ^ b" and b8: "b < 8" using Suc.prems by auto
    have "b \<in> {0, 1, 2, 3, 4, 5, 6, 7}" using b8 by auto
    then have h: "halves_ok b" using table_halves by auto
    have len: "length crc_32_tab = 256" by (simp add: crc_32_tab_def)
    have "(2 :: nat) ^ b \<le> 2 ^ 7" using b8 by (intro power_increasing) auto
    then have "crc_32_tab ! i = take (2 ^ b) (drop (2 ^ b) crc_32_tab) ! j"
      using jb len by (simp add: j)
    also have "\<dots> = crc_32_tab ! j XOR crc_32_tab ! (2 ^ b)"
      using h jb len \<open>2 ^ b \<le> 2 ^ 7\<close> by (simp add: halves_ok_def)
    also have "\<dots> = (crc_bit ^^ 8) (2 ^ b XOR word_of_nat j)"
      using Suc.IH [of j] Suc.prems jb table_powers [OF b8]
      by (simp only: crc_bits_xor Suc_leD xor.commute)
    also have "\<dots> = (crc_bit ^^ 8) (word_of_nat i)" using xor_of_disjoint [OF jb b8] by (simp add: j)
    finally show ?thesis .
  qed
qed

lemma UPDC32_crc_byte: "UPDC32 b c = crc_byte c b"
proof -
  define x where "x = c XOR ucast b"
  have lo: "unat (x AND 0xFF) < 2 ^ 8"
  proof -
    have "x AND 0xFF = take_bit 8 x" using take_bit_eq_mask [of 8 x] by (simp add: mask_eq_exp_minus_1)
    then show ?thesis by (simp add: unsigned_take_bit_eq take_bit_nat_def)
  qed
  have f: "(0xFF :: u32) = mask 8" by (simp add: mask_eq_exp_minus_1)
  have "x = (x AND 0xFF) XOR push_bit 8 (drop_bit 8 x)"
    unfolding f by (rule bit_word_eqI) (auto simp: bit_simps)
  then have "(crc_bit ^^ 8) x = (crc_bit ^^ 8) (x AND 0xFF) XOR (crc_bit ^^ 8) (push_bit 8 (drop_bit 8 x))"
    by (metis crc_bits_xor)
  also have "(crc_bit ^^ 8) (push_bit 8 (drop_bit 8 x)) = drop_bit 8 (push_bit 8 (drop_bit 8 x))"
    by (rule crc_bits_low_zero) (simp add: bit_simps)
  also have "\<dots> = drop_bit 8 c"
    by (rule bit_word_eqI) (auto simp: x_def bit_simps dest: bit_imp_le_length)
  also have "(crc_bit ^^ 8) (x AND 0xFF) = crc_32_tab ! unat (x AND 0xFF)"
    using table_entry [OF order_refl lo] by (simp del: funpow.simps)
  finally show ?thesis by (simp add: UPDC32_def crc_byte_def x_def)
qed

section \<open>The routines compute the reference\<close>

lemma crc_loop_foldl:
  "len \<le> length buf \<Longrightarrow> crc_loop buf len c = Some (foldl crc_byte c (take len buf))"
  by (induction buf len c rule: crc_loop.induct) (simp_all add: UPDC32_crc_byte)

lemma crc_loop_short: "length buf < len \<Longrightarrow> crc_loop buf len c = None"
  by (induction buf len c rule: crc_loop.induct) simp_all

lemma file_loop_foldl:
  "file_loop bs (c, n) = (foldl crc_byte c bs, n + word_of_nat (length bs))"
  by (induction bs arbitrary: c n) (simp_all add: UPDC32_crc_byte)

text \<open>
  C37: The table-driven crc32buf computes the bitwise CRC-32 of the reflected polynomial EDB88320
  for every buffer and length within it.
\<close>

theorem crc32buf_reference:
  "crc32buf buf len = (if len \<le> length buf then Some (crc32_spec (take len buf)) else None)"
  using crc_loop_short [of buf len] by (simp add: crc32buf_def crc_loop_foldl crc32_spec_def)

text \<open>
  crc32file reports an error, with the count 0 and the checksum untouched, exactly when the
  file does not open; otherwise it reports success with the reference CRC of the bytes read and
  their number, or -1 for the number when reading failed.
\<close>

theorem crc32file_reference:
  "crc32file fin crc =
     (case fin of None \<Rightarrow> (BErr, crc, 0)
      | Some (bytes, err) \<Rightarrow>
          (BSuccess, crc32_spec bytes, if err then - 1 else word_of_nat (length bytes)))"
  by (simp add: crc32file_def crc32_spec_def file_loop_foldl split: option.split prod.split)

section \<open>Error detection\<close>

lemma xor_cancel_right: "a XOR c = b XOR c \<longleftrightarrow> a = (b :: u32)"
proof
  assume "a XOR c = b XOR c"
  then have "(a XOR c) XOR c = (b XOR c) XOR c" by simp
  then show "a = b" by (simp only: xor.assoc xor_self_eq xor.right_neutral)
qed simp

lemma xor_cancel_left: "c XOR a = c XOR b \<longleftrightarrow> a = (b :: u32)"
  using xor_cancel_right [of a c b] by (simp only: xor.commute)

text \<open>The shift register can be run backwards: its top bit tells whether the polynomial was added.\<close>

lemma crc_bit_inj: "crc_bit a = crc_bit b \<Longrightarrow> a = b"
proof -
  assume e: "crc_bit a = crc_bit b"
  have top: "bit (crc_bit c) 31 = bit c 0" for c
    by (auto simp: crc_bit_def bit_simps dest: bit_imp_le_length)
  then have low: "bit a 0 = bit b 0" using e by metis
  then have d: "drop_bit 1 a = drop_bit 1 b"
    using e by (simp add: crc_bit_def xor_cancel_right split: if_splits)
  show ?thesis
  proof (rule bit_word_eqI)
    fix n assume "n < LENGTH(32)"
    show "bit a n = bit b n"
    proof (cases n)
      case 0
      then show ?thesis using low by simp
    next
      case (Suc m)
      then show ?thesis using arg_cong [OF d, of "\<lambda>w. bit w m"] by (simp add: bit_simps)
    qed
  qed
qed

lemma crc_bits_inj: "(crc_bit ^^ n) a = (crc_bit ^^ n) b \<Longrightarrow> a = b"
  by (induction n) (auto dest: crc_bit_inj)

lemma crc_byte_inj_reg: "crc_byte a x = crc_byte b x \<Longrightarrow> a = b"
  unfolding crc_byte_def by (drule crc_bits_inj) (simp only: xor_cancel_right)

lemma crc_byte_inj_byte: "crc_byte a x = crc_byte a y \<Longrightarrow> x = y"
proof -
  assume "crc_byte a x = crc_byte a y"
  then have "a XOR ucast x = a XOR (ucast y :: u32)"
    unfolding crc_byte_def by (rule crc_bits_inj)
  then have "(ucast x :: u32) = ucast y" by (simp only: xor_cancel_left)
  then show ?thesis by (simp add: bit_eq_iff bit_simps)
qed

lemma foldl_crc_inj: "foldl crc_byte a bs = foldl crc_byte b bs \<Longrightarrow> a = b"
  by (induction bs arbitrary: a b) (auto dest: crc_byte_inj_reg)

text \<open>
  C38: Two buffers of equal length that differ in exactly one byte have different CRCs.
\<close>

theorem crc32_detects_byte_error:
  assumes "a \<noteq> b"
  shows "crc32buf (pre @ a # post) (length (pre @ a # post)) \<noteq>
    crc32buf (pre @ b # post) (length (pre @ b # post))"
proof
  assume "crc32buf (pre @ a # post) (length (pre @ a # post)) =
    crc32buf (pre @ b # post) (length (pre @ b # post))"
  then have "foldl crc_byte (crc_byte (foldl crc_byte 0xFFFFFFFF pre) a) post =
      foldl crc_byte (crc_byte (foldl crc_byte 0xFFFFFFFF pre) b) post"
    by (simp add: crc32buf_def crc_loop_foldl)
  then have "a = b" using foldl_crc_inj crc_byte_inj_byte by blast
  then show False using assms by simp
qed

theorem crc32_detects_byte_error_witness:
  "crc32buf ([1, 2] @ 3 # [4]) (length ([1, 2 :: u8] @ 3 # [4])) \<noteq>
    crc32buf ([1, 2] @ 7 # [4]) (length ([1, 2 :: u8] @ 7 # [4]))"
  by (rule crc32_detects_byte_error) simp

end
