(* ===== verification/Monlib.thy ===== *)
theory Monlib
  imports NB_Prelude "HOL-Library.State_Monad"
begin

text \<open>
  The application library of the MicroMonitor boot monitor: \<open>micromonitor/diagnostics/monlib.c\<close>
  and \<open>monlib.h\<close>.  The application reaches the monitor only through function pointers that
  \<open>monConnect\<close> obtains from the monitor's \<open>monCom\<close>, and every \<open>mon_\<close> wrapper brackets its call
  with the application's lock functions.

  Function pointers are addresses, \<open>0\<close> the null pointer.  What the machine does when it calls an
  address is code outside the repository: the parameter \<open>E\<close> (of type \<open>env\<close>), which may change any
  part of the state, so that a monitor function can run application code again.  The field
  \<open>calls\<close> records every call through a pointer, in order.  Words are 32 bits wide, \<open>int\<close>, \<open>long\<close>
  and pointers alike.
\<close>

section \<open>The static variables\<close>

text \<open>The function pointers \<open>_tfsseek\<close> to \<open>_xcrc16\<close>.\<close>

datatype (plugins only:) monfn =
    F_tfsseek | F_tfsgetline | F_tfsipmod | F_tfsinit | F_tfsadd
  | F_tfsunlink | F_tfsrun | F_tfsread | F_tfswrite | F_tfsopen
  | F_tfsclose | F_printf | F_cprintf | F_sprintf | F_monrestart
  | F_rputchar | F_getchar | F_gotachar | F_getbytes | F_addcommand
  | F_docommand | F_getline | F_tfsfstat | F_tfseof | F_decompress
  | F_tfstruncate | F_heapextend | F_tfslink | F_pcicfgwrite | F_i2cwrite
  | F_i2cread | F_flashwrite | F_flasherase | F_flashinfo | F_flashoverride
  | F_sendenet | F_recvenet | F_printpkt | F_setenv | F_watchdog
  | F_timeofday | F_montimer | F_getenv | F_version | F_getenvp
  | F_malloc | F_realloc | F_getsym | F_intsrestore | F_appexit
  | F_free | F_getargv | F_profiler | F_bbc | F_memtrace
  | F_appwarmstart | F_mondelay | F_printmem | F_tfsctrl | F_tfstell
  | F_portcmd | F_tfsnext | F_tfsstat | F_i2cctrl | F_pcicfgread
  | F_pcictrl | F_crc32 | F_intsoff | F_assign_handler | F_xcrc16

text \<open>Arguments of a call: a machine word, a string literal, or the address of a pointer.\<close>

datatype carg = W u32 | Str string | Addr monfn

type_synonym ptr = u32

record 'w monlib =
  fptr :: "monfn \<Rightarrow> ptr"
  monlock :: ptr
  monunlock :: ptr
  moncom :: ptr
  ignorelock :: int
  calls :: "(ptr \<times> carg list) list"
  world :: 'w

type_synonym 'w env = "ptr \<Rightarrow> carg list \<Rightarrow> ('w monlib, u32) state"

text \<open>The declared parameters of each function pointer; \<open>None\<close> for an empty declarator.\<close>

datatype ctype = CInt | CLong | CULong | CUChar | CPtr

primrec signature :: "monfn \<Rightarrow> ctype list option" where
  "signature F_tfsseek = Some [CInt, CInt, CInt]"
| "signature F_tfsgetline = Some [CInt, CPtr, CInt]"
| "signature F_tfsipmod = Some [CPtr, CPtr, CInt, CInt]"
| "signature F_tfsinit = Some []"
| "signature F_tfsadd = Some [CPtr, CPtr, CPtr, CPtr, CInt]"
| "signature F_tfsunlink = Some [CPtr]"
| "signature F_tfsrun = Some [CPtr, CInt]"
| "signature F_tfsread = Some [CInt, CPtr, CInt]"
| "signature F_tfswrite = Some [CInt, CPtr, CInt]"
| "signature F_tfsopen = Some [CPtr, CLong, CPtr]"
| "signature F_tfsclose = Some [CInt, CPtr]"
| "signature F_printf = None"
| "signature F_cprintf = None"
| "signature F_sprintf = None"
| "signature F_monrestart = Some [CInt]"
| "signature F_rputchar = Some [CUChar]"
| "signature F_getchar = Some []"
| "signature F_gotachar = Some []"
| "signature F_getbytes = Some [CPtr, CInt, CInt]"
| "signature F_addcommand = Some [CPtr, CPtr]"
| "signature F_docommand = Some [CPtr, CInt]"
| "signature F_getline = Some [CPtr, CInt, CInt]"
| "signature F_tfsfstat = Some [CPtr, CPtr]"
| "signature F_tfseof = Some [CInt]"
| "signature F_decompress = Some [CPtr, CInt, CPtr]"
| "signature F_tfstruncate = Some [CInt, CLong]"
| "signature F_heapextend = Some [CPtr, CInt]"
| "signature F_tfslink = Some [CPtr, CPtr]"
| "signature F_pcicfgwrite = Some [CInt, CInt, CInt, CInt, CInt, CULong]"
| "signature F_i2cwrite = Some [CInt, CInt, CPtr, CInt]"
| "signature F_i2cread = Some [CInt, CInt, CPtr, CInt]"
| "signature F_flashwrite = Some [CPtr, CPtr, CInt]"
| "signature F_flasherase = Some [CInt]"
| "signature F_flashinfo = Some [CInt, CPtr, CPtr]"
| "signature F_flashoverride = Some [CPtr, CInt, CInt]"
| "signature F_sendenet = Some [CPtr, CInt]"
| "signature F_recvenet = Some [CPtr, CInt]"
| "signature F_printpkt = Some [CPtr, CInt, CInt]"
| "signature F_setenv = Some [CPtr, CPtr]"
| "signature F_watchdog = Some []"
| "signature F_timeofday = Some [CInt, CPtr]"
| "signature F_montimer = Some [CInt, CPtr]"
| "signature F_getenv = Some [CPtr]"
| "signature F_version = Some []"
| "signature F_getenvp = Some []"
| "signature F_malloc = Some [CInt]"
| "signature F_realloc = Some [CPtr, CInt]"
| "signature F_getsym = Some [CPtr, CPtr, CInt]"
| "signature F_intsrestore = Some [CULong]"
| "signature F_appexit = Some [CInt]"
| "signature F_free = Some [CPtr]"
| "signature F_getargv = Some [CPtr, CPtr]"
| "signature F_profiler = Some [CPtr]"
| "signature F_bbc = Some [CPtr, CInt]"
| "signature F_memtrace = None"
| "signature F_appwarmstart = Some [CULong]"
| "signature F_mondelay = Some [CLong]"
| "signature F_printmem = Some [CPtr, CInt, CInt]"
| "signature F_tfsctrl = Some [CInt, CLong, CLong]"
| "signature F_tfstell = Some [CInt]"
| "signature F_portcmd = Some [CInt, CPtr]"
| "signature F_tfsnext = Some [CPtr]"
| "signature F_tfsstat = Some [CPtr]"
| "signature F_i2cctrl = Some [CInt, CInt, CULong, CULong]"
| "signature F_pcicfgread = Some [CInt, CInt, CInt, CInt, CInt]"
| "signature F_pcictrl = Some [CInt, CInt, CULong, CULong]"
| "signature F_crc32 = Some [CPtr, CULong]"
| "signature F_intsoff = Some []"
| "signature F_assign_handler = Some [CLong, CULong, CULong]"
| "signature F_xcrc16 = Some [CPtr, CULong]"

section \<open>Calls through pointers\<close>

definition modify :: "('s \<Rightarrow> 's) \<Rightarrow> ('s, unit) state" where
  "modify f = do { s \<leftarrow> State_Monad.get; State_Monad.set (f s) }"

definition call_ptr :: "'w env \<Rightarrow> ptr \<Rightarrow> carg list \<Rightarrow> ('w monlib, u32) state" where
  "call_ptr E p args = do {
     modify (\<lambda>s. s\<lparr>calls := calls s @ [(p, args)]\<rparr>);
     E p args }"

definition mon_call :: "'w env \<Rightarrow> monfn \<Rightarrow> carg list \<Rightarrow> ('w monlib, u32) state" where
  "mon_call E f args = do {
     s \<leftarrow> State_Monad.get;
     call_ptr E (fptr s f) args }"

definition moncom_call :: "'w env \<Rightarrow> carg list \<Rightarrow> ('w monlib, u32) state" where
  "moncom_call E args = do {
     s \<leftarrow> State_Monad.get;
     call_ptr E (moncom s) args }"

section \<open>\<open>monConnect\<close>\<close>

text \<open>The \<open>GETMONFUNC_\<close> constants of \<open>monlib.h\<close>, and the order in which they are asked for.\<close>

primrec getmonfunc :: "monfn \<Rightarrow> u32" where
  "getmonfunc F_rputchar = 1"
| "getmonfunc F_getchar = 2"
| "getmonfunc F_gotachar = 3"
| "getmonfunc F_getbytes = 4"
| "getmonfunc F_printf = 5"
| "getmonfunc F_cprintf = 6"
| "getmonfunc F_sprintf = 7"
| "getmonfunc F_monrestart = 8"
| "getmonfunc F_getenv = 9"
| "getmonfunc F_setenv = 10"
| "getmonfunc F_tfsinit = 11"
| "getmonfunc F_tfsadd = 12"
| "getmonfunc F_tfsunlink = 13"
| "getmonfunc F_tfsrun = 14"
| "getmonfunc F_tfsnext = 15"
| "getmonfunc F_tfsstat = 16"
| "getmonfunc F_tfsread = 17"
| "getmonfunc F_tfswrite = 18"
| "getmonfunc F_tfsopen = 19"
| "getmonfunc F_tfsclose = 20"
| "getmonfunc F_tfsseek = 21"
| "getmonfunc F_tfsgetline = 22"
| "getmonfunc F_tfsipmod = 23"
| "getmonfunc F_tfsctrl = 24"
| "getmonfunc F_addcommand = 25"
| "getmonfunc F_docommand = 26"
| "getmonfunc F_getargv = 27"
| "getmonfunc F_xcrc16 = 28"
| "getmonfunc F_crc32 = 29"
| "getmonfunc F_intsoff = 33"
| "getmonfunc F_intsrestore = 34"
| "getmonfunc F_appexit = 35"
| "getmonfunc F_malloc = 36"
| "getmonfunc F_free = 37"
| "getmonfunc F_getline = 38"
| "getmonfunc F_tfsfstat = 39"
| "getmonfunc F_tfseof = 40"
| "getmonfunc F_decompress = 41"
| "getmonfunc F_tfstruncate = 42"
| "getmonfunc F_heapextend = 43"
| "getmonfunc F_profiler = 44"
| "getmonfunc F_tfslink = 45"
| "getmonfunc F_bbc = 46"
| "getmonfunc F_memtrace = 47"
| "getmonfunc F_tfstell = 48"
| "getmonfunc F_version = 49"
| "getmonfunc F_appwarmstart = 50"
| "getmonfunc F_pcicfgread = 51"
| "getmonfunc F_pcicfgwrite = 52"
| "getmonfunc F_pcictrl = 53"
| "getmonfunc F_i2cread = 54"
| "getmonfunc F_i2cwrite = 55"
| "getmonfunc F_i2cctrl = 56"
| "getmonfunc F_mondelay = 57"
| "getmonfunc F_getenvp = 58"
| "getmonfunc F_realloc = 59"
| "getmonfunc F_sendenet = 60"
| "getmonfunc F_recvenet = 61"
| "getmonfunc F_getsym = 62"
| "getmonfunc F_printpkt = 63"
| "getmonfunc F_flashwrite = 64"
| "getmonfunc F_flasherase = 65"
| "getmonfunc F_flashinfo = 66"
| "getmonfunc F_assign_handler = 67"
| "getmonfunc F_watchdog = 68"
| "getmonfunc F_printmem = 69"
| "getmonfunc F_portcmd = 70"
| "getmonfunc F_timeofday = 71"
| "getmonfunc F_montimer = 72"
| "getmonfunc F_flashoverride = 73"

definition connections :: "monfn list" where
  "connections =
  [F_rputchar, F_getchar, F_gotachar, F_getbytes, F_printf, F_cprintf, F_sprintf, F_monrestart,
   F_getenv, F_setenv, F_tfsinit, F_tfsadd, F_tfsunlink, F_tfsrun, F_tfsnext, F_tfsstat,
   F_tfsread, F_tfswrite, F_tfsopen, F_tfsclose, F_tfsseek, F_tfsgetline, F_tfsipmod, F_tfsctrl,
   F_addcommand, F_docommand, F_getargv, F_xcrc16, F_crc32, F_intsoff, F_intsrestore, F_appexit,
   F_malloc, F_free, F_getline, F_tfsfstat, F_tfseof, F_decompress, F_tfstruncate, F_heapextend,
   F_profiler, F_tfslink, F_bbc, F_memtrace, F_tfstell, F_version, F_appwarmstart, F_pcicfgread,
   F_pcicfgwrite, F_pcictrl, F_i2cread, F_i2cwrite, F_i2cctrl, F_mondelay, F_getenvp, F_realloc,
   F_sendenet, F_recvenet, F_getsym, F_printpkt, F_flashwrite, F_flasherase, F_flashinfo,
   F_assign_handler, F_watchdog, F_printmem, F_portcmd, F_timeofday, F_montimer, F_flashoverride]"

primrec connect_all :: "'w env \<Rightarrow> monfn list \<Rightarrow> u32 \<Rightarrow> ('w monlib, u32) state" where
  "connect_all E [] rc = State_Monad.return rc"
| "connect_all E (f # fs) rc = do {
     r \<leftarrow> moncom_call E [W (getmonfunc f), Addr f, W 0, W 0];
     connect_all E fs (rc + r) }"

definition monConnect :: "'w env \<Rightarrow> ptr \<Rightarrow> ptr \<Rightarrow> ptr \<Rightarrow> ('w monlib, u32) state" where
  "monConnect E mon lock unlock = do {
     modify (\<lambda>s. s\<lparr>monlock := lock\<rparr>);
     modify (\<lambda>s. s\<lparr>monunlock := unlock\<rparr>);
     if mon \<noteq> 0 then do {
       modify (\<lambda>s. s\<lparr>moncom := mon\<rparr>);
       connect_all E connections 0 }
     else State_Monad.return 0 }"

section \<open>The lock\<close>

definition DisableMonLock :: "('w monlib, unit) state" where
  "DisableMonLock = modify (\<lambda>s. s\<lparr>ignorelock := 2\<rparr>)"

definition EnableMonLock :: "('w monlib, unit) state" where
  "EnableMonLock = modify (\<lambda>s. s\<lparr>ignorelock := 0\<rparr>)"

definition monLock :: "'w env \<Rightarrow> ('w monlib, unit) state" where
  "monLock E = do {
     s \<leftarrow> State_Monad.get;
     if monlock s \<noteq> 0 then
       (if ignorelock s = 1 then State_Monad.return ()
        else if ignorelock s = 2 then modify (\<lambda>s. s\<lparr>ignorelock := ignorelock s - 1\<rparr>)
        else do { call_ptr E (monlock s) []; State_Monad.return () })
     else State_Monad.return () }"

text \<open>In \<open>monUnlock\<close> the case of 2 has no \<open>break\<close> and falls through to the call.\<close>

definition monUnlock :: "'w env \<Rightarrow> ('w monlib, unit) state" where
  "monUnlock E = do {
     s \<leftarrow> State_Monad.get;
     if monunlock s \<noteq> 0 then
       (if ignorelock s = 1 then State_Monad.return ()
        else if ignorelock s = 2 then do {
          modify (\<lambda>s. s\<lparr>ignorelock := ignorelock s - 1\<rparr>);
          call_ptr E (monunlock s) [];
          State_Monad.return () }
        else do { call_ptr E (monunlock s) []; State_Monad.return () })
     else State_Monad.return () }"

text \<open>The macros that name the lock of each group of functions.\<close>

definition TFS_MONLOCK :: "'w env \<Rightarrow> ('w monlib, unit) state" where
  "TFS_MONLOCK = monLock"

definition TFS_MONUNLOCK :: "'w env \<Rightarrow> ('w monlib, unit) state" where
  "TFS_MONUNLOCK = monUnlock"

definition ENV_MONLOCK :: "'w env \<Rightarrow> ('w monlib, unit) state" where
  "ENV_MONLOCK = monLock"

definition ENV_MONUNLOCK :: "'w env \<Rightarrow> ('w monlib, unit) state" where
  "ENV_MONUNLOCK = monUnlock"

definition CONSOLE_MONLOCK :: "'w env \<Rightarrow> ('w monlib, unit) state" where
  "CONSOLE_MONLOCK = monLock"

definition CONSOLE_MONUNLOCK :: "'w env \<Rightarrow> ('w monlib, unit) state" where
  "CONSOLE_MONUNLOCK = monUnlock"

definition HEAP_MONLOCK :: "'w env \<Rightarrow> ('w monlib, unit) state" where
  "HEAP_MONLOCK = monLock"

definition HEAP_MONUNLOCK :: "'w env \<Rightarrow> ('w monlib, unit) state" where
  "HEAP_MONUNLOCK = monUnlock"

definition BLOCKING_MONLOCK :: "'w env \<Rightarrow> ('w monlib, unit) state" where
  "BLOCKING_MONLOCK = monLock"

definition BLOCKING_MONUNLOCK :: "'w env \<Rightarrow> ('w monlib, unit) state" where
  "BLOCKING_MONUNLOCK = monUnlock"

definition GENERIC_MONLOCK :: "'w env \<Rightarrow> ('w monlib, unit) state" where
  "GENERIC_MONLOCK = monLock"

definition GENERIC_MONUNLOCK :: "'w env \<Rightarrow> ('w monlib, unit) state" where
  "GENERIC_MONUNLOCK = monUnlock"

lemmas lock_macros =
  TFS_MONLOCK_def TFS_MONUNLOCK_def
  ENV_MONLOCK_def ENV_MONUNLOCK_def
  CONSOLE_MONLOCK_def CONSOLE_MONUNLOCK_def
  HEAP_MONLOCK_def HEAP_MONUNLOCK_def
  BLOCKING_MONLOCK_def BLOCKING_MONUNLOCK_def
  GENERIC_MONLOCK_def GENERIC_MONUNLOCK_def

section \<open>The wrappers\<close>

definition mon_com :: "'w env \<Rightarrow> u32 \<Rightarrow> carg \<Rightarrow> carg \<Rightarrow> carg \<Rightarrow> ('w monlib, u32) state" where
  "mon_com E cmd arg1 arg2 arg3 = do {
     GENERIC_MONLOCK E;
     ret \<leftarrow> moncom_call E [W cmd, arg1, arg2, arg3];
     GENERIC_MONUNLOCK E;
     State_Monad.return ret }"

definition mon_putchar :: "'w env \<Rightarrow> u8 \<Rightarrow> ('w monlib, u32) state" where
  "mon_putchar E c = do {
     CONSOLE_MONLOCK E;
     ret \<leftarrow> mon_call E F_rputchar [W (ucast c)];
     CONSOLE_MONUNLOCK E;
     State_Monad.return ret }"

definition mon_getchar :: "'w env \<Rightarrow> ('w monlib, u32) state" where
  "mon_getchar E = do {
     BLOCKING_MONLOCK E;
     ret \<leftarrow> mon_call E F_getchar [];
     BLOCKING_MONUNLOCK E;
     State_Monad.return ret }"

definition mon_gotachar :: "'w env \<Rightarrow> ('w monlib, u32) state" where
  "mon_gotachar E = do {
     GENERIC_MONLOCK E;
     ret \<leftarrow> mon_call E F_gotachar [];
     GENERIC_MONUNLOCK E;
     State_Monad.return ret }"

definition mon_getbytes :: "'w env \<Rightarrow> carg \<Rightarrow> u32 \<Rightarrow> u32 \<Rightarrow> ('w monlib, u32) state" where
  "mon_getbytes E buf cnt block = do {
     BLOCKING_MONLOCK E;
     ret \<leftarrow> mon_call E F_getbytes [buf, W cnt, W block];
     BLOCKING_MONUNLOCK E;
     State_Monad.return ret }"

definition mon_printf :: "'w env \<Rightarrow> carg \<Rightarrow> u32 \<Rightarrow> u32 \<Rightarrow> u32 \<Rightarrow> u32 \<Rightarrow> u32 \<Rightarrow> u32 \<Rightarrow> u32 \<Rightarrow> u32 \<Rightarrow> u32 \<Rightarrow> u32 \<Rightarrow> u32 \<Rightarrow> u32 \<Rightarrow> ('w monlib, u32) state" where
  "mon_printf E fmt a1 a2 a3 a4 a5 a6 a7 a8 a9 a10 a11 a12 = do {
     CONSOLE_MONLOCK E;
     ret \<leftarrow> mon_call E F_printf [fmt, W a1, W a2, W a3, W a4, W a5, W a6, W a7, W a8, W a9, W a10, W a11, W a12];
     CONSOLE_MONUNLOCK E;
     State_Monad.return ret }"

definition mon_cprintf :: "'w env \<Rightarrow> carg \<Rightarrow> u32 \<Rightarrow> u32 \<Rightarrow> u32 \<Rightarrow> u32 \<Rightarrow> u32 \<Rightarrow> u32 \<Rightarrow> u32 \<Rightarrow> u32 \<Rightarrow> u32 \<Rightarrow> u32 \<Rightarrow> u32 \<Rightarrow> u32 \<Rightarrow> ('w monlib, u32) state" where
  "mon_cprintf E fmt a1 a2 a3 a4 a5 a6 a7 a8 a9 a10 a11 a12 = do {
     CONSOLE_MONLOCK E;
     ret \<leftarrow> mon_call E F_cprintf [fmt, W a1, W a2, W a3, W a4, W a5, W a6, W a7, W a8, W a9, W a10, W a11, W a12];
     CONSOLE_MONUNLOCK E;
     State_Monad.return ret }"

definition mon_sprintf :: "'w env \<Rightarrow> carg \<Rightarrow> carg \<Rightarrow> u32 \<Rightarrow> u32 \<Rightarrow> u32 \<Rightarrow> u32 \<Rightarrow> u32 \<Rightarrow> u32 \<Rightarrow> u32 \<Rightarrow> u32 \<Rightarrow> u32 \<Rightarrow> u32 \<Rightarrow> u32 \<Rightarrow> u32 \<Rightarrow> ('w monlib, u32) state" where
  "mon_sprintf E buf fmt a1 a2 a3 a4 a5 a6 a7 a8 a9 a10 a11 a12 = do {
     GENERIC_MONLOCK E;
     ret \<leftarrow> mon_call E F_sprintf [buf, fmt, W a1, W a2, W a3, W a4, W a5, W a6, W a7, W a8, W a9, W a10, W a11, W a12];
     GENERIC_MONUNLOCK E;
     State_Monad.return ret }"

definition mon_restart :: "'w env \<Rightarrow> u32 \<Rightarrow> ('w monlib, u32) state" where
  "mon_restart E val = do {
     GENERIC_MONLOCK E;
     ret \<leftarrow> mon_call E F_monrestart [W val];
     GENERIC_MONUNLOCK E;
     State_Monad.return ret }"

definition mon_getenvp :: "'w env \<Rightarrow> ('w monlib, u32) state" where
  "mon_getenvp E = do {
     ENV_MONLOCK E;
     ret \<leftarrow> mon_call E F_getenvp [];
     ENV_MONUNLOCK E;
     State_Monad.return ret }"

definition mon_getenv :: "'w env \<Rightarrow> carg \<Rightarrow> ('w monlib, u32) state" where
  "mon_getenv E name = do {
     ENV_MONLOCK E;
     ret \<leftarrow> mon_call E F_getenv [name];
     ENV_MONUNLOCK E;
     State_Monad.return ret }"

definition mon_setenv :: "'w env \<Rightarrow> carg \<Rightarrow> carg \<Rightarrow> ('w monlib, u32) state" where
  "mon_setenv E name val = do {
     ENV_MONLOCK E;
     ret \<leftarrow> mon_call E F_setenv [name, val];
     ENV_MONUNLOCK E;
     State_Monad.return ret }"

definition mon_getsym :: "'w env \<Rightarrow> carg \<Rightarrow> carg \<Rightarrow> u32 \<Rightarrow> ('w monlib, u32) state" where
  "mon_getsym E name buf bufsize = do {
     ENV_MONLOCK E;
     ret \<leftarrow> mon_call E F_getsym [name, buf, W bufsize];
     ENV_MONUNLOCK E;
     State_Monad.return ret }"

definition mon_tfsinit :: "'w env \<Rightarrow> ('w monlib, u32) state" where
  "mon_tfsinit E = do {
     TFS_MONLOCK E;
     ret \<leftarrow> mon_call E F_tfsinit [];
     TFS_MONUNLOCK E;
     State_Monad.return ret }"

definition mon_tfsadd :: "'w env \<Rightarrow> carg \<Rightarrow> carg \<Rightarrow> carg \<Rightarrow> carg \<Rightarrow> u32 \<Rightarrow> ('w monlib, u32) state" where
  "mon_tfsadd E name info flags src sz = do {
     TFS_MONLOCK E;
     ret \<leftarrow> mon_call E F_tfsadd [name, info, flags, src, W sz];
     TFS_MONUNLOCK E;
     State_Monad.return ret }"

definition mon_tfslink :: "'w env \<Rightarrow> carg \<Rightarrow> carg \<Rightarrow> ('w monlib, u32) state" where
  "mon_tfslink E src target = do {
     TFS_MONLOCK E;
     ret \<leftarrow> mon_call E F_tfslink [src, target];
     TFS_MONUNLOCK E;
     State_Monad.return ret }"

definition mon_tfsunlink :: "'w env \<Rightarrow> carg \<Rightarrow> ('w monlib, u32) state" where
  "mon_tfsunlink E name = do {
     TFS_MONLOCK E;
     ret \<leftarrow> mon_call E F_tfsunlink [name];
     TFS_MONUNLOCK E;
     State_Monad.return ret }"

definition mon_tfsrun :: "'w env \<Rightarrow> carg \<Rightarrow> u32 \<Rightarrow> ('w monlib, u32) state" where
  "mon_tfsrun E name verbose = do {
     TFS_MONLOCK E;
     ret \<leftarrow> mon_call E F_tfsrun [name, W verbose];
     TFS_MONUNLOCK E;
     State_Monad.return ret }"

definition mon_tfsnext :: "'w env \<Rightarrow> carg \<Rightarrow> ('w monlib, u32) state" where
  "mon_tfsnext E fp = do {
     TFS_MONLOCK E;
     ret \<leftarrow> mon_call E F_tfsnext [fp];
     TFS_MONUNLOCK E;
     State_Monad.return ret }"

definition mon_tfstruncate :: "'w env \<Rightarrow> u32 \<Rightarrow> u32 \<Rightarrow> ('w monlib, u32) state" where
  "mon_tfstruncate E tfd len = do {
     TFS_MONLOCK E;
     ret \<leftarrow> mon_call E F_tfstruncate [W tfd, W len];
     TFS_MONUNLOCK E;
     State_Monad.return ret }"

definition mon_tfseof :: "'w env \<Rightarrow> u32 \<Rightarrow> ('w monlib, u32) state" where
  "mon_tfseof E tfd = do {
     TFS_MONLOCK E;
     ret \<leftarrow> mon_call E F_tfseof [W tfd];
     TFS_MONUNLOCK E;
     State_Monad.return ret }"

definition mon_tfsfstat :: "'w env \<Rightarrow> carg \<Rightarrow> carg \<Rightarrow> ('w monlib, u32) state" where
  "mon_tfsfstat E name fp = do {
     TFS_MONLOCK E;
     ret \<leftarrow> mon_call E F_tfsfstat [name, fp];
     TFS_MONUNLOCK E;
     State_Monad.return ret }"

definition mon_tfsstat :: "'w env \<Rightarrow> carg \<Rightarrow> ('w monlib, u32) state" where
  "mon_tfsstat E name = do {
     TFS_MONLOCK E;
     ret \<leftarrow> mon_call E F_tfsstat [name];
     TFS_MONUNLOCK E;
     State_Monad.return ret }"

definition mon_tfsread :: "'w env \<Rightarrow> u32 \<Rightarrow> carg \<Rightarrow> u32 \<Rightarrow> ('w monlib, u32) state" where
  "mon_tfsread E fd buf cnt = do {
     TFS_MONLOCK E;
     ret \<leftarrow> mon_call E F_tfsread [W fd, buf, W cnt];
     TFS_MONUNLOCK E;
     State_Monad.return ret }"

definition mon_tfswrite :: "'w env \<Rightarrow> u32 \<Rightarrow> carg \<Rightarrow> u32 \<Rightarrow> ('w monlib, u32) state" where
  "mon_tfswrite E fd buf cnt = do {
     TFS_MONLOCK E;
     ret \<leftarrow> mon_call E F_tfswrite [W fd, buf, W cnt];
     TFS_MONUNLOCK E;
     State_Monad.return ret }"

definition mon_tfsopen :: "'w env \<Rightarrow> carg \<Rightarrow> u32 \<Rightarrow> carg \<Rightarrow> ('w monlib, u32) state" where
  "mon_tfsopen E file flagmode buf = do {
     TFS_MONLOCK E;
     ret \<leftarrow> mon_call E F_tfsopen [file, W flagmode, buf];
     TFS_MONUNLOCK E;
     State_Monad.return ret }"

definition mon_tfsclose :: "'w env \<Rightarrow> u32 \<Rightarrow> carg \<Rightarrow> ('w monlib, u32) state" where
  "mon_tfsclose E fd info = do {
     TFS_MONLOCK E;
     ret \<leftarrow> mon_call E F_tfsclose [W fd, info];
     TFS_MONUNLOCK E;
     State_Monad.return ret }"

definition mon_tfsseek :: "'w env \<Rightarrow> u32 \<Rightarrow> u32 \<Rightarrow> u32 \<Rightarrow> ('w monlib, u32) state" where
  "mon_tfsseek E fd offset whence = do {
     TFS_MONLOCK E;
     ret \<leftarrow> mon_call E F_tfsseek [W fd, W offset, W whence];
     TFS_MONUNLOCK E;
     State_Monad.return ret }"

definition mon_tfsgetline :: "'w env \<Rightarrow> u32 \<Rightarrow> carg \<Rightarrow> u32 \<Rightarrow> ('w monlib, u32) state" where
  "mon_tfsgetline E fd bp maxlen = do {
     TFS_MONLOCK E;
     ret \<leftarrow> mon_call E F_tfsgetline [W fd, bp, W maxlen];
     TFS_MONUNLOCK E;
     State_Monad.return ret }"

definition mon_tfsipmod :: "'w env \<Rightarrow> carg \<Rightarrow> carg \<Rightarrow> u32 \<Rightarrow> u32 \<Rightarrow> ('w monlib, u32) state" where
  "mon_tfsipmod E name buf offset sz = do {
     TFS_MONLOCK E;
     ret \<leftarrow> mon_call E F_tfsipmod [name, buf, W offset, W sz];
     TFS_MONUNLOCK E;
     State_Monad.return ret }"

definition mon_tfsctrl :: "'w env \<Rightarrow> u32 \<Rightarrow> u32 \<Rightarrow> u32 \<Rightarrow> ('w monlib, u32) state" where
  "mon_tfsctrl E rqst arg1 arg2 = do {
     TFS_MONLOCK E;
     ret \<leftarrow> mon_call E F_tfsctrl [W rqst, W arg1, W arg2];
     TFS_MONUNLOCK E;
     State_Monad.return ret }"

definition mon_tfstell :: "'w env \<Rightarrow> u32 \<Rightarrow> ('w monlib, u32) state" where
  "mon_tfstell E fd = do {
     TFS_MONLOCK E;
     ret \<leftarrow> mon_call E F_tfstell [W fd];
     TFS_MONUNLOCK E;
     State_Monad.return ret }"

definition mon_addcommand :: "'w env \<Rightarrow> carg \<Rightarrow> carg \<Rightarrow> ('w monlib, u32) state" where
  "mon_addcommand E cmdlist cmdlvl = do {
     GENERIC_MONLOCK E;
     ret \<leftarrow> mon_call E F_addcommand [cmdlist, cmdlvl];
     GENERIC_MONUNLOCK E;
     State_Monad.return ret }"

definition mon_docommand :: "'w env \<Rightarrow> carg \<Rightarrow> u32 \<Rightarrow> ('w monlib, u32) state" where
  "mon_docommand E cmdline verbose = do {
     GENERIC_MONLOCK E;
     ret \<leftarrow> mon_call E F_docommand [cmdline, W verbose];
     GENERIC_MONUNLOCK E;
     State_Monad.return ret }"

definition mon_getargv :: "'w env \<Rightarrow> carg \<Rightarrow> carg \<Rightarrow> ('w monlib, unit) state" where
  "mon_getargv E argc argv = do {
     GENERIC_MONLOCK E;
     mon_call E F_getargv [argc, argv];
     GENERIC_MONUNLOCK E;
     State_Monad.return () }"

definition mon_xcrc16 :: "'w env \<Rightarrow> carg \<Rightarrow> u32 \<Rightarrow> ('w monlib, u16) state" where
  "mon_xcrc16 E buf nbytes = do {
     GENERIC_MONLOCK E;
     ret \<leftarrow> mon_call E F_xcrc16 [buf, W nbytes];
     GENERIC_MONUNLOCK E;
     State_Monad.return (ucast ret) }"

definition mon_intsoff :: "'w env \<Rightarrow> ('w monlib, u32) state" where
  "mon_intsoff E = do {
     GENERIC_MONLOCK E;
     ret \<leftarrow> mon_call E F_intsoff [];
     GENERIC_MONUNLOCK E;
     State_Monad.return ret }"

definition mon_intsrestore :: "'w env \<Rightarrow> u32 \<Rightarrow> ('w monlib, unit) state" where
  "mon_intsrestore E msr = do {
     GENERIC_MONLOCK E;
     mon_call E F_intsrestore [W msr];
     GENERIC_MONUNLOCK E;
     State_Monad.return () }"

definition mon_appexit :: "'w env \<Rightarrow> u32 \<Rightarrow> ('w monlib, unit) state" where
  "mon_appexit E val = do {
     GENERIC_MONLOCK E;
     mon_call E F_appexit [W val];
     GENERIC_MONUNLOCK E;
     State_Monad.return () }"

definition mon_malloc :: "'w env \<Rightarrow> u32 \<Rightarrow> ('w monlib, u32) state" where
  "mon_malloc E sz = do {
     HEAP_MONLOCK E;
     ret \<leftarrow> mon_call E F_malloc [W sz];
     HEAP_MONUNLOCK E;
     State_Monad.return ret }"

definition mon_realloc :: "'w env \<Rightarrow> carg \<Rightarrow> u32 \<Rightarrow> ('w monlib, u32) state" where
  "mon_realloc E buf sz = do {
     HEAP_MONLOCK E;
     ret \<leftarrow> mon_call E F_realloc [buf, W sz];
     HEAP_MONUNLOCK E;
     State_Monad.return ret }"

definition mon_free :: "'w env \<Rightarrow> carg \<Rightarrow> ('w monlib, unit) state" where
  "mon_free E cp = do {
     HEAP_MONLOCK E;
     mon_call E F_free [cp];
     HEAP_MONUNLOCK E;
     State_Monad.return () }"

definition mon_getline :: "'w env \<Rightarrow> carg \<Rightarrow> u32 \<Rightarrow> u32 \<Rightarrow> ('w monlib, u32) state" where
  "mon_getline E buf maxlen ledit = do {
     BLOCKING_MONLOCK E;
     ret \<leftarrow> mon_call E F_getline [buf, W maxlen, W ledit];
     BLOCKING_MONUNLOCK E;
     State_Monad.return ret }"

definition mon_decompress :: "'w env \<Rightarrow> carg \<Rightarrow> u32 \<Rightarrow> carg \<Rightarrow> ('w monlib, u32) state" where
  "mon_decompress E src srcsize dest = do {
     GENERIC_MONLOCK E;
     ret \<leftarrow> mon_call E F_decompress [src, W srcsize, dest];
     GENERIC_MONUNLOCK E;
     State_Monad.return ret }"

definition mon_heapextend :: "'w env \<Rightarrow> carg \<Rightarrow> u32 \<Rightarrow> ('w monlib, u32) state" where
  "mon_heapextend E base sz = do {
     GENERIC_MONLOCK E;
     ret \<leftarrow> mon_call E F_heapextend [base, W sz];
     GENERIC_MONUNLOCK E;
     State_Monad.return ret }"

definition mon_bbc :: "'w env \<Rightarrow> carg \<Rightarrow> u32 \<Rightarrow> ('w monlib, unit) state" where
  "mon_bbc E filename lineno = do {
     mon_call E F_bbc [filename, W lineno];
     State_Monad.return () }"

definition mon_profiler :: "'w env \<Rightarrow> carg \<Rightarrow> ('w monlib, unit) state" where
  "mon_profiler E pdata = do {
     mon_call E F_profiler [pdata];
     State_Monad.return () }"

definition mon_memtrace :: "'w env \<Rightarrow> carg \<Rightarrow> u32 \<Rightarrow> u32 \<Rightarrow> u32 \<Rightarrow> u32 \<Rightarrow> u32 \<Rightarrow> u32 \<Rightarrow> u32 \<Rightarrow> u32 \<Rightarrow> u32 \<Rightarrow> u32 \<Rightarrow> u32 \<Rightarrow> u32 \<Rightarrow> ('w monlib, unit) state" where
  "mon_memtrace E fmt a1 a2 a3 a4 a5 a6 a7 a8 a9 a10 a11 a12 = do {
     mon_call E F_memtrace [fmt, W a1, W a2, W a3, W a4, W a5, W a6, W a7, W a8, W a9, W a10, W a11, W a12];
     State_Monad.return () }"

definition mon_version :: "'w env \<Rightarrow> ('w monlib, u32) state" where
  "mon_version E = do {
     GENERIC_MONLOCK E;
     ret \<leftarrow> mon_call E F_version [];
     GENERIC_MONUNLOCK E;
     State_Monad.return ret }"

definition mon_warmstart :: "'w env \<Rightarrow> u32 \<Rightarrow> ('w monlib, unit) state" where
  "mon_warmstart E msk = do {
     GENERIC_MONLOCK E;
     mon_call E F_appwarmstart [W msk];
     GENERIC_MONUNLOCK E;
     State_Monad.return () }"

definition mon_pcicfgwrite :: "'w env \<Rightarrow> u32 \<Rightarrow> u32 \<Rightarrow> u32 \<Rightarrow> u32 \<Rightarrow> u32 \<Rightarrow> u32 \<Rightarrow> ('w monlib, u32) state" where
  "mon_pcicfgwrite E interface bus dev func reg val = do {
     GENERIC_MONLOCK E;
     ret \<leftarrow> mon_call E F_pcicfgwrite [W interface, W bus, W dev, W func, W reg, W val];
     GENERIC_MONUNLOCK E;
     State_Monad.return ret }"

definition mon_pcicfgread :: "'w env \<Rightarrow> u32 \<Rightarrow> u32 \<Rightarrow> u32 \<Rightarrow> u32 \<Rightarrow> u32 \<Rightarrow> ('w monlib, u32) state" where
  "mon_pcicfgread E interface bus dev func reg = do {
     GENERIC_MONLOCK E;
     ret \<leftarrow> mon_call E F_pcicfgread [W interface, W bus, W dev, W func, W reg];
     GENERIC_MONUNLOCK E;
     State_Monad.return ret }"

definition mon_pcictrl :: "'w env \<Rightarrow> u32 \<Rightarrow> u32 \<Rightarrow> u32 \<Rightarrow> u32 \<Rightarrow> ('w monlib, u32) state" where
  "mon_pcictrl E interface cmd arg1 arg2 = do {
     GENERIC_MONLOCK E;
     ret \<leftarrow> mon_call E F_pcictrl [W interface, W cmd, W arg1, W arg2];
     GENERIC_MONUNLOCK E;
     State_Monad.return ret }"

definition mon_i2cctrl :: "'w env \<Rightarrow> u32 \<Rightarrow> u32 \<Rightarrow> u32 \<Rightarrow> u32 \<Rightarrow> ('w monlib, u32) state" where
  "mon_i2cctrl E interface cmd arg1 arg2 = do {
     GENERIC_MONLOCK E;
     ret \<leftarrow> mon_call E F_i2cctrl [W interface, W cmd, W arg1, W arg2];
     GENERIC_MONUNLOCK E;
     State_Monad.return ret }"

definition mon_i2cwrite :: "'w env \<Rightarrow> u32 \<Rightarrow> u32 \<Rightarrow> carg \<Rightarrow> u32 \<Rightarrow> ('w monlib, u32) state" where
  "mon_i2cwrite E interface bigaddr data len = do {
     GENERIC_MONLOCK E;
     ret \<leftarrow> mon_call E F_i2cwrite [W interface, W bigaddr, data, W len];
     GENERIC_MONUNLOCK E;
     State_Monad.return ret }"

definition mon_i2cread :: "'w env \<Rightarrow> u32 \<Rightarrow> u32 \<Rightarrow> carg \<Rightarrow> u32 \<Rightarrow> ('w monlib, u32) state" where
  "mon_i2cread E interface bigaddr data len = do {
     GENERIC_MONLOCK E;
     ret \<leftarrow> mon_call E F_i2cread [W interface, W bigaddr, data, W len];
     GENERIC_MONUNLOCK E;
     State_Monad.return ret }"

definition mon_delay :: "'w env \<Rightarrow> u32 \<Rightarrow> ('w monlib, unit) state" where
  "mon_delay E msec = do {
     GENERIC_MONLOCK E;
     mon_call E F_mondelay [W msec];
     GENERIC_MONUNLOCK E;
     State_Monad.return () }"

definition mon_timer :: "'w env \<Rightarrow> u32 \<Rightarrow> carg \<Rightarrow> ('w monlib, u32) state" where
  "mon_timer E cmd arg = do {
     GENERIC_MONLOCK E;
     ret \<leftarrow> mon_call E F_montimer [W cmd, arg];
     GENERIC_MONUNLOCK E;
     State_Monad.return ret }"

definition mon_sendenetpkt :: "'w env \<Rightarrow> carg \<Rightarrow> u32 \<Rightarrow> ('w monlib, u32) state" where
  "mon_sendenetpkt E pkt sz = do {
     GENERIC_MONLOCK E;
     ret \<leftarrow> mon_call E F_sendenet [pkt, W sz];
     GENERIC_MONUNLOCK E;
     State_Monad.return ret }"

definition mon_recvenetpkt :: "'w env \<Rightarrow> carg \<Rightarrow> u32 \<Rightarrow> ('w monlib, u32) state" where
  "mon_recvenetpkt E pkt sz = do {
     GENERIC_MONLOCK E;
     ret \<leftarrow> mon_call E F_recvenet [pkt, W sz];
     GENERIC_MONUNLOCK E;
     State_Monad.return ret }"

definition mon_printpkt :: "'w env \<Rightarrow> carg \<Rightarrow> u32 \<Rightarrow> u32 \<Rightarrow> ('w monlib, unit) state" where
  "mon_printpkt E buf sz incoming = do {
     GENERIC_MONLOCK E;
     mon_call E F_printpkt [buf, W sz, W incoming];
     GENERIC_MONUNLOCK E;
     State_Monad.return () }"

definition mon_flashoverride :: "'w env \<Rightarrow> carg \<Rightarrow> u32 \<Rightarrow> u32 \<Rightarrow> ('w monlib, u32) state" where
  "mon_flashoverride E flashinfo get1 bank = do {
     TFS_MONLOCK E;
     ret \<leftarrow> mon_call E F_flashoverride [flashinfo, W get1, W bank];
     TFS_MONUNLOCK E;
     State_Monad.return ret }"

definition mon_flashwrite :: "'w env \<Rightarrow> carg \<Rightarrow> carg \<Rightarrow> u32 \<Rightarrow> ('w monlib, u32) state" where
  "mon_flashwrite E dest src bytecnt = do {
     TFS_MONLOCK E;
     ret \<leftarrow> mon_call E F_flashwrite [dest, src, W bytecnt];
     TFS_MONUNLOCK E;
     State_Monad.return ret }"

definition mon_flasherase :: "'w env \<Rightarrow> u32 \<Rightarrow> ('w monlib, u32) state" where
  "mon_flasherase E snum = do {
     TFS_MONLOCK E;
     ret \<leftarrow> mon_call E F_flasherase [W snum];
     TFS_MONUNLOCK E;
     State_Monad.return ret }"

definition mon_flashinfo :: "'w env \<Rightarrow> u32 \<Rightarrow> carg \<Rightarrow> carg \<Rightarrow> ('w monlib, u32) state" where
  "mon_flashinfo E snum sz base = do {
     TFS_MONLOCK E;
     ret \<leftarrow> mon_call E F_flashinfo [W snum, sz, base];
     TFS_MONUNLOCK E;
     State_Monad.return ret }"

definition mon_assignhandler :: "'w env \<Rightarrow> u32 \<Rightarrow> u32 \<Rightarrow> u32 \<Rightarrow> ('w monlib, u32) state" where
  "mon_assignhandler E hnum arg1 arg2 = do {
     GENERIC_MONLOCK E;
     ret \<leftarrow> mon_call E F_assign_handler [W hnum, W arg1, W arg2];
     GENERIC_MONUNLOCK E;
     State_Monad.return ret }"

definition mon_watchdog :: "'w env \<Rightarrow> ('w monlib, u32) state" where
  "mon_watchdog E = do {
     GENERIC_MONLOCK E;
     ret \<leftarrow> mon_call E F_watchdog [];
     GENERIC_MONUNLOCK E;
     State_Monad.return ret }"

definition mon_printmem :: "'w env \<Rightarrow> carg \<Rightarrow> u32 \<Rightarrow> u32 \<Rightarrow> ('w monlib, unit) state" where
  "mon_printmem E mem sz ascii = do {
     GENERIC_MONLOCK E;
     mon_call E F_printmem [mem, W sz, W ascii];
     GENERIC_MONUNLOCK E;
     State_Monad.return () }"

definition mon_portcmd :: "'w env \<Rightarrow> u32 \<Rightarrow> carg \<Rightarrow> ('w monlib, u32) state" where
  "mon_portcmd E cmd arg = do {
     GENERIC_MONLOCK E;
     ret \<leftarrow> mon_call E F_portcmd [W cmd, arg];
     GENERIC_MONUNLOCK E;
     State_Monad.return ret }"

definition mon_timeofday :: "'w env \<Rightarrow> u32 \<Rightarrow> carg \<Rightarrow> ('w monlib, u32) state" where
  "mon_timeofday E cmd arg = do {
     GENERIC_MONLOCK E;
     ret \<leftarrow> mon_call E F_timeofday [W cmd, arg];
     GENERIC_MONUNLOCK E;
     State_Monad.return ret }"

lemmas wrapper_defs =
  mon_com_def mon_putchar_def mon_getchar_def mon_gotachar_def mon_getbytes_def mon_printf_def
  mon_cprintf_def mon_sprintf_def mon_restart_def mon_getenvp_def mon_getenv_def mon_setenv_def
  mon_getsym_def mon_tfsinit_def mon_tfsadd_def mon_tfslink_def mon_tfsunlink_def mon_tfsrun_def
  mon_tfsnext_def mon_tfstruncate_def mon_tfseof_def mon_tfsfstat_def mon_tfsstat_def
  mon_tfsread_def mon_tfswrite_def mon_tfsopen_def mon_tfsclose_def mon_tfsseek_def
  mon_tfsgetline_def mon_tfsipmod_def mon_tfsctrl_def mon_tfstell_def mon_addcommand_def
  mon_docommand_def mon_getargv_def mon_xcrc16_def mon_intsoff_def mon_intsrestore_def
  mon_appexit_def mon_malloc_def mon_realloc_def mon_free_def mon_getline_def mon_decompress_def
  mon_heapextend_def mon_bbc_def mon_profiler_def mon_memtrace_def mon_version_def
  mon_warmstart_def mon_pcicfgwrite_def mon_pcicfgread_def mon_pcictrl_def mon_i2cctrl_def
  mon_i2cwrite_def mon_i2cread_def mon_delay_def mon_timer_def mon_sendenetpkt_def
  mon_recvenetpkt_def mon_printpkt_def mon_flashoverride_def mon_flashwrite_def
  mon_flasherase_def mon_flashinfo_def mon_assignhandler_def mon_watchdog_def mon_printmem_def
  mon_portcmd_def mon_timeofday_def

section \<open>The interface\<close>

text \<open>
  The prototypes of \<open>monlib.h\<close> as data, one constructor per function, grouped by the lock macros
  of the wrappers.  A call of the interface runs the wrapper; a \<open>void\<close> function yields 0, a \<open>short\<close>
  result is widened.
\<close>

datatype (plugins only:) generic1_api =
    Mon_com u32 carg carg carg
  | Mon_gotachar
  | Mon_sprintf carg carg u32 u32 u32 u32 u32 u32 u32 u32 u32 u32 u32 u32
  | Mon_restart u32
  | Mon_addcommand carg carg
  | Mon_docommand carg u32
  | Mon_getargv carg carg
  | Mon_xcrc16 carg u32
  | Mon_intsoff
  | Mon_intsrestore u32
  | Mon_appexit u32
  | Mon_decompress carg u32 carg
  | Mon_heapextend carg u32
  | Mon_version
  | Mon_warmstart u32

primrec run_generic1 :: "'w env \<Rightarrow> generic1_api \<Rightarrow> ('w monlib, u32) state" where
  "run_generic1 E (Mon_com cmd arg1 arg2 arg3) = mon_com E cmd arg1 arg2 arg3"
| "run_generic1 E Mon_gotachar = mon_gotachar E"
| "run_generic1 E (Mon_sprintf buf fmt a1 a2 a3 a4 a5 a6 a7 a8 a9 a10 a11 a12) = mon_sprintf E buf fmt a1 a2 a3 a4 a5 a6 a7 a8 a9 a10 a11 a12"
| "run_generic1 E (Mon_restart val) = mon_restart E val"
| "run_generic1 E (Mon_addcommand cmdlist cmdlvl) = mon_addcommand E cmdlist cmdlvl"
| "run_generic1 E (Mon_docommand cmdline verbose) = mon_docommand E cmdline verbose"
| "run_generic1 E (Mon_getargv argc argv) = do { mon_getargv E argc argv; State_Monad.return 0 }"
| "run_generic1 E (Mon_xcrc16 buf nbytes) = do { ret \<leftarrow> mon_xcrc16 E buf nbytes; State_Monad.return (ucast ret) }"
| "run_generic1 E Mon_intsoff = mon_intsoff E"
| "run_generic1 E (Mon_intsrestore msr) = do { mon_intsrestore E msr; State_Monad.return 0 }"
| "run_generic1 E (Mon_appexit val) = do { mon_appexit E val; State_Monad.return 0 }"
| "run_generic1 E (Mon_decompress src srcsize dest) = mon_decompress E src srcsize dest"
| "run_generic1 E (Mon_heapextend base sz) = mon_heapextend E base sz"
| "run_generic1 E Mon_version = mon_version E"
| "run_generic1 E (Mon_warmstart msk) = do { mon_warmstart E msk; State_Monad.return 0 }"

datatype (plugins only:) console_api =
    Mon_putchar u8
  | Mon_printf carg u32 u32 u32 u32 u32 u32 u32 u32 u32 u32 u32 u32
  | Mon_cprintf carg u32 u32 u32 u32 u32 u32 u32 u32 u32 u32 u32 u32

primrec run_console :: "'w env \<Rightarrow> console_api \<Rightarrow> ('w monlib, u32) state" where
  "run_console E (Mon_putchar c) = mon_putchar E c"
| "run_console E (Mon_printf fmt a1 a2 a3 a4 a5 a6 a7 a8 a9 a10 a11 a12) = mon_printf E fmt a1 a2 a3 a4 a5 a6 a7 a8 a9 a10 a11 a12"
| "run_console E (Mon_cprintf fmt a1 a2 a3 a4 a5 a6 a7 a8 a9 a10 a11 a12) = mon_cprintf E fmt a1 a2 a3 a4 a5 a6 a7 a8 a9 a10 a11 a12"

datatype (plugins only:) blocking_api =
    Mon_getchar
  | Mon_getbytes carg u32 u32
  | Mon_getline carg u32 u32

primrec run_blocking :: "'w env \<Rightarrow> blocking_api \<Rightarrow> ('w monlib, u32) state" where
  "run_blocking E Mon_getchar = mon_getchar E"
| "run_blocking E (Mon_getbytes buf cnt block) = mon_getbytes E buf cnt block"
| "run_blocking E (Mon_getline buf maxlen ledit) = mon_getline E buf maxlen ledit"

datatype (plugins only:) env_api =
    Mon_getenvp
  | Mon_getenv carg
  | Mon_setenv carg carg
  | Mon_getsym carg carg u32

primrec run_env :: "'w env \<Rightarrow> env_api \<Rightarrow> ('w monlib, u32) state" where
  "run_env E Mon_getenvp = mon_getenvp E"
| "run_env E (Mon_getenv name) = mon_getenv E name"
| "run_env E (Mon_setenv name val) = mon_setenv E name val"
| "run_env E (Mon_getsym name buf bufsize) = mon_getsym E name buf bufsize"

datatype (plugins only:) tfs1_api =
    Mon_tfsinit
  | Mon_tfsadd carg carg carg carg u32
  | Mon_tfslink carg carg
  | Mon_tfsunlink carg
  | Mon_tfsrun carg u32
  | Mon_tfsnext carg
  | Mon_tfstruncate u32 u32
  | Mon_tfseof u32
  | Mon_tfsfstat carg carg
  | Mon_tfsstat carg
  | Mon_tfsread u32 carg u32
  | Mon_tfswrite u32 carg u32
  | Mon_tfsopen carg u32 carg

primrec run_tfs1 :: "'w env \<Rightarrow> tfs1_api \<Rightarrow> ('w monlib, u32) state" where
  "run_tfs1 E Mon_tfsinit = mon_tfsinit E"
| "run_tfs1 E (Mon_tfsadd name info flags src sz) = mon_tfsadd E name info flags src sz"
| "run_tfs1 E (Mon_tfslink src target) = mon_tfslink E src target"
| "run_tfs1 E (Mon_tfsunlink name) = mon_tfsunlink E name"
| "run_tfs1 E (Mon_tfsrun name verbose) = mon_tfsrun E name verbose"
| "run_tfs1 E (Mon_tfsnext fp) = mon_tfsnext E fp"
| "run_tfs1 E (Mon_tfstruncate tfd len) = mon_tfstruncate E tfd len"
| "run_tfs1 E (Mon_tfseof tfd) = mon_tfseof E tfd"
| "run_tfs1 E (Mon_tfsfstat name fp) = mon_tfsfstat E name fp"
| "run_tfs1 E (Mon_tfsstat name) = mon_tfsstat E name"
| "run_tfs1 E (Mon_tfsread fd buf cnt) = mon_tfsread E fd buf cnt"
| "run_tfs1 E (Mon_tfswrite fd buf cnt) = mon_tfswrite E fd buf cnt"
| "run_tfs1 E (Mon_tfsopen file flagmode buf) = mon_tfsopen E file flagmode buf"

datatype (plugins only:) tfs2_api =
    Mon_tfsclose u32 carg
  | Mon_tfsseek u32 u32 u32
  | Mon_tfsgetline u32 carg u32
  | Mon_tfsipmod carg carg u32 u32
  | Mon_tfsctrl u32 u32 u32
  | Mon_tfstell u32
  | Mon_flashoverride carg u32 u32
  | Mon_flashwrite carg carg u32
  | Mon_flasherase u32
  | Mon_flashinfo u32 carg carg

primrec run_tfs2 :: "'w env \<Rightarrow> tfs2_api \<Rightarrow> ('w monlib, u32) state" where
  "run_tfs2 E (Mon_tfsclose fd info) = mon_tfsclose E fd info"
| "run_tfs2 E (Mon_tfsseek fd offset whence) = mon_tfsseek E fd offset whence"
| "run_tfs2 E (Mon_tfsgetline fd bp maxlen) = mon_tfsgetline E fd bp maxlen"
| "run_tfs2 E (Mon_tfsipmod name buf offset sz) = mon_tfsipmod E name buf offset sz"
| "run_tfs2 E (Mon_tfsctrl rqst arg1 arg2) = mon_tfsctrl E rqst arg1 arg2"
| "run_tfs2 E (Mon_tfstell fd) = mon_tfstell E fd"
| "run_tfs2 E (Mon_flashoverride flashinfo get1 bank) = mon_flashoverride E flashinfo get1 bank"
| "run_tfs2 E (Mon_flashwrite dest src bytecnt) = mon_flashwrite E dest src bytecnt"
| "run_tfs2 E (Mon_flasherase snum) = mon_flasherase E snum"
| "run_tfs2 E (Mon_flashinfo snum sz base) = mon_flashinfo E snum sz base"

datatype (plugins only:) heap_api =
    Mon_malloc u32
  | Mon_realloc carg u32
  | Mon_free carg

primrec run_heap :: "'w env \<Rightarrow> heap_api \<Rightarrow> ('w monlib, u32) state" where
  "run_heap E (Mon_malloc sz) = mon_malloc E sz"
| "run_heap E (Mon_realloc buf sz) = mon_realloc E buf sz"
| "run_heap E (Mon_free cp) = do { mon_free E cp; State_Monad.return 0 }"

datatype (plugins only:) unlocked_api =
    Mon_bbc carg u32
  | Mon_profiler carg
  | Mon_memtrace carg u32 u32 u32 u32 u32 u32 u32 u32 u32 u32 u32 u32

primrec run_unlocked :: "'w env \<Rightarrow> unlocked_api \<Rightarrow> ('w monlib, u32) state" where
  "run_unlocked E (Mon_bbc filename lineno) = do { mon_bbc E filename lineno; State_Monad.return 0 }"
| "run_unlocked E (Mon_profiler pdata) = do { mon_profiler E pdata; State_Monad.return 0 }"
| "run_unlocked E (Mon_memtrace fmt a1 a2 a3 a4 a5 a6 a7 a8 a9 a10 a11 a12) = do { mon_memtrace E fmt a1 a2 a3 a4 a5 a6 a7 a8 a9 a10 a11 a12; State_Monad.return 0 }"

datatype (plugins only:) generic2_api =
    Mon_pcicfgwrite u32 u32 u32 u32 u32 u32
  | Mon_pcicfgread u32 u32 u32 u32 u32
  | Mon_pcictrl u32 u32 u32 u32
  | Mon_i2cctrl u32 u32 u32 u32
  | Mon_i2cwrite u32 u32 carg u32
  | Mon_i2cread u32 u32 carg u32
  | Mon_delay u32
  | Mon_timer u32 carg
  | Mon_sendenetpkt carg u32
  | Mon_recvenetpkt carg u32
  | Mon_printpkt carg u32 u32
  | Mon_assignhandler u32 u32 u32
  | Mon_watchdog
  | Mon_printmem carg u32 u32
  | Mon_portcmd u32 carg
  | Mon_timeofday u32 carg

primrec run_generic2 :: "'w env \<Rightarrow> generic2_api \<Rightarrow> ('w monlib, u32) state" where
  "run_generic2 E (Mon_pcicfgwrite interface bus dev func reg val) = mon_pcicfgwrite E interface bus dev func reg val"
| "run_generic2 E (Mon_pcicfgread interface bus dev func reg) = mon_pcicfgread E interface bus dev func reg"
| "run_generic2 E (Mon_pcictrl interface cmd arg1 arg2) = mon_pcictrl E interface cmd arg1 arg2"
| "run_generic2 E (Mon_i2cctrl interface cmd arg1 arg2) = mon_i2cctrl E interface cmd arg1 arg2"
| "run_generic2 E (Mon_i2cwrite interface bigaddr data len) = mon_i2cwrite E interface bigaddr data len"
| "run_generic2 E (Mon_i2cread interface bigaddr data len) = mon_i2cread E interface bigaddr data len"
| "run_generic2 E (Mon_delay msec) = do { mon_delay E msec; State_Monad.return 0 }"
| "run_generic2 E (Mon_timer cmd arg) = mon_timer E cmd arg"
| "run_generic2 E (Mon_sendenetpkt pkt sz) = mon_sendenetpkt E pkt sz"
| "run_generic2 E (Mon_recvenetpkt pkt sz) = mon_recvenetpkt E pkt sz"
| "run_generic2 E (Mon_printpkt buf sz incoming) = do { mon_printpkt E buf sz incoming; State_Monad.return 0 }"
| "run_generic2 E (Mon_assignhandler hnum arg1 arg2) = mon_assignhandler E hnum arg1 arg2"
| "run_generic2 E Mon_watchdog = mon_watchdog E"
| "run_generic2 E (Mon_printmem mem sz ascii) = do { mon_printmem E mem sz ascii; State_Monad.return 0 }"
| "run_generic2 E (Mon_portcmd cmd arg) = mon_portcmd E cmd arg"
| "run_generic2 E (Mon_timeofday cmd arg) = mon_timeofday E cmd arg"

datatype mon_api =
    Generic1 generic1_api
  | Console console_api
  | Blocking blocking_api
  | Env env_api
  | Tfs1 tfs1_api
  | Tfs2 tfs2_api
  | Heap heap_api
  | Unlocked unlocked_api
  | Generic2 generic2_api

primrec mon_run :: "'w env \<Rightarrow> mon_api \<Rightarrow> ('w monlib, u32) state" where
  "mon_run E (Generic1 a) = run_generic1 E a"
| "mon_run E (Console a) = run_console E a"
| "mon_run E (Blocking a) = run_blocking E a"
| "mon_run E (Env a) = run_env E a"
| "mon_run E (Tfs1 a) = run_tfs1 E a"
| "mon_run E (Tfs2 a) = run_tfs2 E a"
| "mon_run E (Heap a) = run_heap E a"
| "mon_run E (Unlocked a) = run_unlocked E a"
| "mon_run E (Generic2 a) = run_generic2 E a"

end
