(* ===== verification/Monlib_Lock.thy ===== *)
theory Monlib_Lock
  imports Monlib
begin

text \<open>
  What the wrappers of \<open>monlib.c\<close> promise: one call of the right type between lock and unlock, no
  null pointer once connected, and the effect of the back door \<open>DisableMonLock\<close>.
\<close>

section \<open>The interface as a table\<close>

text \<open>
  What each prototype of \<open>monlib.h\<close> stands for: the monitor function it hands its arguments to
  (\<open>None\<close> for \<open>monCom\<close> itself), the arguments in the order of the prototype, and what becomes of
  the monitor's answer.  The table is written from the prototypes alone, one line per function.
\<close>

datatype result = Value | Short | Void

primrec generic1_call :: "generic1_api \<Rightarrow> monfn option \<times> carg list \<times> result" where
  "generic1_call (Mon_com x1 x2 x3 x4) = (None, [W x1, x2, x3, x4], Value)"
| "generic1_call Mon_gotachar = (Some F_gotachar, [], Value)"
| "generic1_call (Mon_sprintf x1 x2 x3 x4 x5 x6 x7 x8 x9 x10 x11 x12 x13 x14) = (Some F_sprintf, [x1, x2, W x3, W x4, W x5, W x6, W x7, W x8, W x9, W x10, W x11, W x12, W x13, W x14], Value)"
| "generic1_call (Mon_restart x1) = (Some F_monrestart, [W x1], Value)"
| "generic1_call (Mon_addcommand x1 x2) = (Some F_addcommand, [x1, x2], Value)"
| "generic1_call (Mon_docommand x1 x2) = (Some F_docommand, [x1, W x2], Value)"
| "generic1_call (Mon_getargv x1 x2) = (Some F_getargv, [x1, x2], Void)"
| "generic1_call (Mon_xcrc16 x1 x2) = (Some F_xcrc16, [x1, W x2], Short)"
| "generic1_call Mon_intsoff = (Some F_intsoff, [], Value)"
| "generic1_call (Mon_intsrestore x1) = (Some F_intsrestore, [W x1], Void)"
| "generic1_call (Mon_appexit x1) = (Some F_appexit, [W x1], Void)"
| "generic1_call (Mon_decompress x1 x2 x3) = (Some F_decompress, [x1, W x2, x3], Value)"
| "generic1_call (Mon_heapextend x1 x2) = (Some F_heapextend, [x1, W x2], Value)"
| "generic1_call Mon_version = (Some F_version, [], Value)"
| "generic1_call (Mon_warmstart x1) = (Some F_appwarmstart, [W x1], Void)"

primrec console_call :: "console_api \<Rightarrow> monfn option \<times> carg list \<times> result" where
  "console_call (Mon_putchar x1) = (Some F_rputchar, [W (ucast x1)], Value)"
| "console_call (Mon_printf x1 x2 x3 x4 x5 x6 x7 x8 x9 x10 x11 x12 x13) = (Some F_printf, [x1, W x2, W x3, W x4, W x5, W x6, W x7, W x8, W x9, W x10, W x11, W x12, W x13], Value)"
| "console_call (Mon_cprintf x1 x2 x3 x4 x5 x6 x7 x8 x9 x10 x11 x12 x13) = (Some F_cprintf, [x1, W x2, W x3, W x4, W x5, W x6, W x7, W x8, W x9, W x10, W x11, W x12, W x13], Value)"

primrec blocking_call :: "blocking_api \<Rightarrow> monfn option \<times> carg list \<times> result" where
  "blocking_call Mon_getchar = (Some F_getchar, [], Value)"
| "blocking_call (Mon_getbytes x1 x2 x3) = (Some F_getbytes, [x1, W x2, W x3], Value)"
| "blocking_call (Mon_getline x1 x2 x3) = (Some F_getline, [x1, W x2, W x3], Value)"

primrec env_call :: "env_api \<Rightarrow> monfn option \<times> carg list \<times> result" where
  "env_call Mon_getenvp = (Some F_getenvp, [], Value)"
| "env_call (Mon_getenv x1) = (Some F_getenv, [x1], Value)"
| "env_call (Mon_setenv x1 x2) = (Some F_setenv, [x1, x2], Value)"
| "env_call (Mon_getsym x1 x2 x3) = (Some F_getsym, [x1, x2, W x3], Value)"

primrec tfs1_call :: "tfs1_api \<Rightarrow> monfn option \<times> carg list \<times> result" where
  "tfs1_call Mon_tfsinit = (Some F_tfsinit, [], Value)"
| "tfs1_call (Mon_tfsadd x1 x2 x3 x4 x5) = (Some F_tfsadd, [x1, x2, x3, x4, W x5], Value)"
| "tfs1_call (Mon_tfslink x1 x2) = (Some F_tfslink, [x1, x2], Value)"
| "tfs1_call (Mon_tfsunlink x1) = (Some F_tfsunlink, [x1], Value)"
| "tfs1_call (Mon_tfsrun x1 x2) = (Some F_tfsrun, [x1, W x2], Value)"
| "tfs1_call (Mon_tfsnext x1) = (Some F_tfsnext, [x1], Value)"
| "tfs1_call (Mon_tfstruncate x1 x2) = (Some F_tfstruncate, [W x1, W x2], Value)"
| "tfs1_call (Mon_tfseof x1) = (Some F_tfseof, [W x1], Value)"
| "tfs1_call (Mon_tfsfstat x1 x2) = (Some F_tfsfstat, [x1, x2], Value)"
| "tfs1_call (Mon_tfsstat x1) = (Some F_tfsstat, [x1], Value)"
| "tfs1_call (Mon_tfsread x1 x2 x3) = (Some F_tfsread, [W x1, x2, W x3], Value)"
| "tfs1_call (Mon_tfswrite x1 x2 x3) = (Some F_tfswrite, [W x1, x2, W x3], Value)"
| "tfs1_call (Mon_tfsopen x1 x2 x3) = (Some F_tfsopen, [x1, W x2, x3], Value)"

primrec tfs2_call :: "tfs2_api \<Rightarrow> monfn option \<times> carg list \<times> result" where
  "tfs2_call (Mon_tfsclose x1 x2) = (Some F_tfsclose, [W x1, x2], Value)"
| "tfs2_call (Mon_tfsseek x1 x2 x3) = (Some F_tfsseek, [W x1, W x2, W x3], Value)"
| "tfs2_call (Mon_tfsgetline x1 x2 x3) = (Some F_tfsgetline, [W x1, x2, W x3], Value)"
| "tfs2_call (Mon_tfsipmod x1 x2 x3 x4) = (Some F_tfsipmod, [x1, x2, W x3, W x4], Value)"
| "tfs2_call (Mon_tfsctrl x1 x2 x3) = (Some F_tfsctrl, [W x1, W x2, W x3], Value)"
| "tfs2_call (Mon_tfstell x1) = (Some F_tfstell, [W x1], Value)"
| "tfs2_call (Mon_flashoverride x1 x2 x3) = (Some F_flashoverride, [x1, W x2, W x3], Value)"
| "tfs2_call (Mon_flashwrite x1 x2 x3) = (Some F_flashwrite, [x1, x2, W x3], Value)"
| "tfs2_call (Mon_flasherase x1) = (Some F_flasherase, [W x1], Value)"
| "tfs2_call (Mon_flashinfo x1 x2 x3) = (Some F_flashinfo, [W x1, x2, x3], Value)"

primrec heap_call :: "heap_api \<Rightarrow> monfn option \<times> carg list \<times> result" where
  "heap_call (Mon_malloc x1) = (Some F_malloc, [W x1], Value)"
| "heap_call (Mon_realloc x1 x2) = (Some F_realloc, [x1, W x2], Value)"
| "heap_call (Mon_free x1) = (Some F_free, [x1], Void)"

primrec unlocked_call :: "unlocked_api \<Rightarrow> monfn option \<times> carg list \<times> result" where
  "unlocked_call (Mon_bbc x1 x2) = (Some F_bbc, [x1, W x2], Void)"
| "unlocked_call (Mon_profiler x1) = (Some F_profiler, [x1], Void)"
| "unlocked_call (Mon_memtrace x1 x2 x3 x4 x5 x6 x7 x8 x9 x10 x11 x12 x13) = (Some F_memtrace, [x1, W x2, W x3, W x4, W x5, W x6, W x7, W x8, W x9, W x10, W x11, W x12, W x13], Void)"

primrec generic2_call :: "generic2_api \<Rightarrow> monfn option \<times> carg list \<times> result" where
  "generic2_call (Mon_pcicfgwrite x1 x2 x3 x4 x5 x6) = (Some F_pcicfgwrite, [W x1, W x2, W x3, W x4, W x5, W x6], Value)"
| "generic2_call (Mon_pcicfgread x1 x2 x3 x4 x5) = (Some F_pcicfgread, [W x1, W x2, W x3, W x4, W x5], Value)"
| "generic2_call (Mon_pcictrl x1 x2 x3 x4) = (Some F_pcictrl, [W x1, W x2, W x3, W x4], Value)"
| "generic2_call (Mon_i2cctrl x1 x2 x3 x4) = (Some F_i2cctrl, [W x1, W x2, W x3, W x4], Value)"
| "generic2_call (Mon_i2cwrite x1 x2 x3 x4) = (Some F_i2cwrite, [W x1, W x2, x3, W x4], Value)"
| "generic2_call (Mon_i2cread x1 x2 x3 x4) = (Some F_i2cread, [W x1, W x2, x3, W x4], Value)"
| "generic2_call (Mon_delay x1) = (Some F_mondelay, [W x1], Void)"
| "generic2_call (Mon_timer x1 x2) = (Some F_montimer, [W x1, x2], Value)"
| "generic2_call (Mon_sendenetpkt x1 x2) = (Some F_sendenet, [x1, W x2], Value)"
| "generic2_call (Mon_recvenetpkt x1 x2) = (Some F_recvenet, [x1, W x2], Value)"
| "generic2_call (Mon_printpkt x1 x2 x3) = (Some F_printpkt, [x1, W x2, W x3], Void)"
| "generic2_call (Mon_assignhandler x1 x2 x3) = (Some F_assign_handler, [W x1, W x2, W x3], Value)"
| "generic2_call Mon_watchdog = (Some F_watchdog, [], Value)"
| "generic2_call (Mon_printmem x1 x2 x3) = (Some F_printmem, [x1, W x2, W x3], Void)"
| "generic2_call (Mon_portcmd x1 x2) = (Some F_portcmd, [W x1, x2], Value)"
| "generic2_call (Mon_timeofday x1 x2) = (Some F_timeofday, [W x1, x2], Value)"

primrec own_call :: "mon_api \<Rightarrow> monfn option \<times> carg list \<times> result" where
  "own_call (Generic1 a) = generic1_call a"
| "own_call (Console a) = console_call a"
| "own_call (Blocking a) = blocking_call a"
| "own_call (Env a) = env_call a"
| "own_call (Tfs1 a) = tfs1_call a"
| "own_call (Tfs2 a) = tfs2_call a"
| "own_call (Heap a) = heap_call a"
| "own_call (Unlocked a) = unlocked_call a"
| "own_call (Generic2 a) = generic2_call a"

definition own_function :: "mon_api \<Rightarrow> monfn option" where
  "own_function a = fst (own_call a)"

definition own_arguments :: "mon_api \<Rightarrow> carg list" where
  "own_arguments a = fst (snd (own_call a))"

definition own_result :: "mon_api \<Rightarrow> u32 \<Rightarrow> u32" where
  "own_result a r = (case snd (snd (own_call a)) of
     Value \<Rightarrow> r | Short \<Rightarrow> ucast (ucast r :: u16) | Void \<Rightarrow> 0)"

lemmas own_defs = own_function_def own_arguments_def own_result_def

primrec takes_lock :: "mon_api \<Rightarrow> bool" where
  "takes_lock (Generic1 a) = True"
| "takes_lock (Generic2 a) = True"
| "takes_lock (Console a) = True"
| "takes_lock (Blocking a) = True"
| "takes_lock (Env a) = True"
| "takes_lock (Tfs1 a) = True"
| "takes_lock (Tfs2 a) = True"
| "takes_lock (Heap a) = True"
| "takes_lock (Unlocked a) = False"

section \<open>The shape of a wrapper\<close>

fun conforms :: "ctype \<Rightarrow> carg \<Rightarrow> bool" where
  "conforms CUChar (W w) \<longleftrightarrow> w < 256"
| "conforms CPtr a \<longleftrightarrow> True"
| "conforms t (W w) \<longleftrightarrow> True"
| "conforms t a \<longleftrightarrow> False"

definition well_called :: "monfn \<Rightarrow> carg list \<Rightarrow> bool" where
  "well_called f args = (case signature f of None \<Rightarrow> True | Some ts \<Rightarrow> list_all2 conforms ts args)"

text \<open>The one call of an operation, with and without the lock around it.\<close>

definition the_call :: "'w env \<Rightarrow> mon_api \<Rightarrow> ('w monlib, u32) state" where
  "the_call E a = (case own_function a of
     None \<Rightarrow> moncom_call E (own_arguments a)
   | Some f \<Rightarrow> mon_call E f (own_arguments a))"

definition bracketed :: "'w env \<Rightarrow> mon_api \<Rightarrow> ('w monlib, u32) state" where
  "bracketed E a = do {
     monLock E; r \<leftarrow> the_call E a; monUnlock E; State_Monad.return (own_result a r) }"

definition plain :: "'w env \<Rightarrow> mon_api \<Rightarrow> ('w monlib, u32) state" where
  "plain E a = do { r \<leftarrow> the_call E a; State_Monad.return (own_result a r) }"

definition shaped :: "'w env \<Rightarrow> mon_api \<Rightarrow> bool" where
  "shaped E a \<longleftrightarrow> mon_run E a = (if takes_lock a then bracketed E a else plain E a) \<and>
     (case own_function a of None \<Rightarrow> True | Some f \<Rightarrow> well_called f (own_arguments a))"

lemma ucast_u8_less: "(ucast (c :: u8) :: u32) < 256"
  by (simp add: word_less_nat_alt unsigned_ucast_eq take_bit_nat_def)
     (rule le_less_trans [OF mod_less_eq_dividend unat8_less])

lemmas shape_unfold = wrapper_defs lock_macros bind_assoc bind_left_identity own_defs
  shaped_def bracketed_def plain_def the_call_def

lemma shape_generic1: "shaped E (Generic1 a)"
  by (cases a) (simp_all add: shape_unfold well_called_def)

lemma shape_generic2: "shaped E (Generic2 a)"
  by (cases a) (simp_all add: shape_unfold well_called_def)

lemma shape_console: "shaped E (Console a)"
  by (cases a) (simp_all add: shape_unfold well_called_def ucast_u8_less)

lemma shape_blocking: "shaped E (Blocking a)"
  by (cases a) (simp_all add: shape_unfold well_called_def)

lemma shape_env: "shaped E (Env a)"
  by (cases a) (simp_all add: shape_unfold well_called_def)

lemma shape_tfs1: "shaped E (Tfs1 a)"
  by (cases a) (simp_all add: shape_unfold well_called_def)

lemma shape_tfs2: "shaped E (Tfs2 a)"
  by (cases a) (simp_all add: shape_unfold well_called_def)

lemma shape_heap: "shaped E (Heap a)"
  by (cases a) (simp_all add: shape_unfold well_called_def)

lemma shape_unlocked: "shaped E (Unlocked a)"
  by (cases a) (simp_all add: shape_unfold well_called_def)

lemma shapes: "shaped E a"
  by (cases a) (simp_all add: shape_generic1 shape_generic2 shape_console shape_blocking shape_env
      shape_tfs1 shape_tfs2 shape_heap shape_unlocked)

text \<open>
  C17: 
\<close>

theorem mon_api_shape:
  "mon_run E a =
     (if takes_lock a
      then do { monLock E;
                r \<leftarrow> (case own_function a of None \<Rightarrow> moncom_call E (own_arguments a)
                                          | Some f \<Rightarrow> mon_call E f (own_arguments a));
                monUnlock E;
                State_Monad.return (own_result a r) }
      else do { r \<leftarrow> (case own_function a of None \<Rightarrow> moncom_call E (own_arguments a)
                                          | Some f \<Rightarrow> mon_call E f (own_arguments a));
                State_Monad.return (own_result a r) }) \<and>
   (case own_function a of None \<Rightarrow> True | Some f \<Rightarrow> well_called f (own_arguments a))"
  using shapes [of E a] unfolding shaped_def bracketed_def plain_def the_call_def .

section \<open>The monitor\<close>

text \<open>
  What \<open>monlib.h\<close> and the comments of \<open>monConnect\<close> say of the monitor: \<open>monCom\<close> stores the
  monitor's function for a command number through the pointer and returns 0.
\<close>

definition connected :: "(u32 \<Rightarrow> ptr) \<Rightarrow> 'w monlib \<Rightarrow> bool" where
  "connected impl s \<longleftrightarrow> (\<forall>f. fptr s f = impl (getmonfunc f))"

definition answers :: "'w env \<Rightarrow> ptr \<Rightarrow> (u32 \<Rightarrow> ptr) \<Rightarrow> bool" where
  "answers E mon impl \<longleftrightarrow> (\<forall>f s. run_state (E mon [W (getmonfunc f), Addr f, W 0, W 0]) s =
     (0, s\<lparr>fptr := (fptr s)(f := impl (getmonfunc f))\<rparr>))"

text \<open>
  The functions that run application code or do not come back: the monitor's command interpreter,
  the loader of programs, and the functions that restart or leave the application.  Of every other
  one, and of the application's lock functions, the library relies on this: a call that is not
  given the address of a variable of \<open>monlib.c\<close> leaves those variables alone.  They are static, so
  that no application has such an address to give; an operation is \<open>ordinary\<close> when it does not.
\<close>

definition application_runners :: "monfn set" where
  "application_runners = {F_docommand, F_tfsrun, F_monrestart, F_appexit, F_appwarmstart}"

definition no_address :: "carg list \<Rightarrow> bool" where
  "no_address args \<longleftrightarrow> (\<forall>f. Addr f \<notin> set args)"

definition ordinary :: "mon_api \<Rightarrow> bool" where
  "ordinary a \<longleftrightarrow> no_address (own_arguments a) \<and>
     (case own_function a of None \<Rightarrow> False | Some f \<Rightarrow> f \<notin> application_runners)"

definition quiet_at :: "'w env \<Rightarrow> (u32 \<Rightarrow> ptr) \<Rightarrow> ptr set \<Rightarrow> bool" where
  "quiet_at E impl P \<longleftrightarrow> (\<forall>p\<in>P. \<forall>args s. connected impl s \<longrightarrow> no_address args \<longrightarrow>
     (\<exists>r w. run_state (E p args) s = (r, s\<lparr>world := w\<rparr>)))"

definition quiet_functions :: "(u32 \<Rightarrow> ptr) \<Rightarrow> ptr \<Rightarrow> ptr \<Rightarrow> ptr set" where
  "quiet_functions impl lock unlock =
     {lock, unlock} \<union> (\<lambda>f. impl (getmonfunc f)) ` (- application_runners)"

lemma connected_update [simp]:
  "connected impl (s\<lparr>world := w\<rparr>) = connected impl s"
  "connected impl (s\<lparr>calls := c\<rparr>) = connected impl s"
  "connected impl (s\<lparr>ignorelock := i\<rparr>) = connected impl s"
  by (simp_all add: connected_def)

lemma no_address_Nil [simp]: "no_address []"
  by (simp add: no_address_def)

lemma run_modify [simp]: "run_state (modify f) s = ((), f s)"
  by (simp add: modify_def)

lemma run_call_ptr:
  assumes "quiet_at E impl P" "p \<in> P" "connected impl s" "no_address args"
  obtains r w where "run_state (call_ptr E p args) s = (r, s\<lparr>calls := calls s @ [(p, args)], world := w\<rparr>)"
proof -
  let ?s = "s\<lparr>calls := calls s @ [(p, args)]\<rparr>"
  have "connected impl ?s" using assms(3) by simp
  then have "\<exists>r w. run_state (E p args) ?s = (r, ?s\<lparr>world := w\<rparr>)"
    using assms(1,2,4) unfolding quiet_at_def by blast
  then show ?thesis using that by (auto simp: call_ptr_def)
qed

section \<open>The calls of an operation\<close>

definition own_pointer :: "(u32 \<Rightarrow> ptr) \<Rightarrow> mon_api \<Rightarrow> ptr" where
  "own_pointer impl a = impl (getmonfunc (the (own_function a)))"

definition specified_calls :: "(u32 \<Rightarrow> ptr) \<Rightarrow> ptr \<Rightarrow> ptr \<Rightarrow> mon_api \<Rightarrow> (ptr \<times> carg list) list" where
  "specified_calls impl lock unlock a =
     (if takes_lock a
      then [(lock, []), (own_pointer impl a, own_arguments a), (unlock, [])]
      else [(own_pointer impl a, own_arguments a)])"

lemma run_the_call:
  assumes "quiet_at E impl (quiet_functions impl lock unlock)" "connected impl s" "ordinary a"
  obtains r w where "run_state (the_call E a) s =
    (r, s\<lparr>calls := calls s @ [(own_pointer impl a, own_arguments a)], world := w\<rparr>)"
proof -
  obtain f where f: "own_function a = Some f" "f \<notin> application_runners" "no_address (own_arguments a)"
    using assms(3) by (auto simp: ordinary_def split: option.splits)
  have p: "own_pointer impl a \<in> quiet_functions impl lock unlock"
    using f by (auto simp: own_pointer_def quiet_functions_def)
  have "run_state (the_call E a) s = run_state (call_ptr E (own_pointer impl a) (own_arguments a)) s"
    using f(1) assms(2) by (simp add: the_call_def mon_call_def own_pointer_def connected_def)
  with run_call_ptr [OF assms(1) p assms(2) f(3)] that show ?thesis by metis
qed

lemma run_bracketed:
  assumes q: "quiet_at E impl (quiet_functions impl (monlock s) (monunlock s))"
    and c: "connected impl s" "ordinary a"
    and l: "monlock s \<noteq> 0" "monunlock s \<noteq> 0" "ignorelock s = 0"
  shows "\<exists>r w. run_state (bracketed E a) s =
    (r, s\<lparr>calls := calls s @ [(monlock s, []), (own_pointer impl a, own_arguments a), (monunlock s, [])],
          world := w\<rparr>)"
proof -
  have P: "monlock s \<in> quiet_functions impl (monlock s) (monunlock s)"
    "monunlock s \<in> quiet_functions impl (monlock s) (monunlock s)"
    by (simp_all add: quiet_functions_def)
  obtain r1 w1 where 1: "run_state (call_ptr E (monlock s) []) s =
      (r1, s\<lparr>calls := calls s @ [(monlock s, [])], world := w1\<rparr>)"
    using run_call_ptr [OF q P(1) c(1) no_address_Nil] by blast
  let ?s1 = "s\<lparr>calls := calls s @ [(monlock s, [])], world := w1\<rparr>"
  have c1: "connected impl ?s1" using c(1) by simp
  obtain r2 w2 where 2: "run_state (the_call E a) ?s1 =
      (r2, ?s1\<lparr>calls := calls ?s1 @ [(own_pointer impl a, own_arguments a)], world := w2\<rparr>)"
    using run_the_call [OF q c1 c(2)] by blast
  let ?s2 = "?s1\<lparr>calls := calls ?s1 @ [(own_pointer impl a, own_arguments a)], world := w2\<rparr>"
  have c2: "connected impl ?s2" using c(1) by simp
  obtain r3 w3 where 3: "run_state (call_ptr E (monunlock s) []) ?s2 =
      (r3, ?s2\<lparr>calls := calls ?s2 @ [(monunlock s, [])], world := w3\<rparr>)"
    using run_call_ptr [OF q P(2) c2 no_address_Nil] by blast
  show ?thesis
    using l 1 2 3 by (simp add: bracketed_def monLock_def monUnlock_def) blast
qed

text \<open>With the lock disabled, the call stands alone.\<close>

lemma run_ignored:
  assumes "quiet_at E impl (quiet_functions impl (monlock s) (monunlock s))" "connected impl s" "ordinary a"
    and l: "monlock s \<noteq> 0" "monunlock s \<noteq> 0" "ignorelock s = 1"
  shows "\<exists>r w. run_state (bracketed E a) s =
    (r, s\<lparr>calls := calls s @ [(own_pointer impl a, own_arguments a)], world := w\<rparr>)"
proof -
  obtain r w where "run_state (the_call E a) s =
      (r, s\<lparr>calls := calls s @ [(own_pointer impl a, own_arguments a)], world := w\<rparr>)"
    using run_the_call [OF assms(1-3)] by blast
  then show ?thesis using l by (simp add: bracketed_def monLock_def monUnlock_def) blast
qed

lemma run_plain:
  assumes "quiet_at E impl (quiet_functions impl (monlock s) (monunlock s))" "connected impl s" "ordinary a"
  shows "\<exists>r w. run_state (plain E a) s =
    (r, s\<lparr>calls := calls s @ [(own_pointer impl a, own_arguments a)], world := w\<rparr>)"
proof -
  obtain r w where "run_state (the_call E a) s =
      (r, s\<lparr>calls := calls s @ [(own_pointer impl a, own_arguments a)], world := w\<rparr>)"
    using run_the_call [OF assms] by blast
  then show ?thesis by (intro exI) (simp add: plain_def)
qed

lemma run_api:
  assumes "quiet_at E impl (quiet_functions impl (monlock s) (monunlock s))" "connected impl s" "ordinary a"
    and "monlock s \<noteq> 0" "monunlock s \<noteq> 0" "ignorelock s = 0"
  shows "\<exists>r w. run_state (mon_run E a) s =
    (r, s\<lparr>calls := calls s @ specified_calls impl (monlock s) (monunlock s) a, world := w\<rparr>)"
proof -
  have "mon_run E a = (if takes_lock a then bracketed E a else plain E a)"
    using shapes [of E a] unfolding shaped_def by blast
  then show ?thesis
    using run_bracketed [OF assms] run_plain [OF assms(1-3)] by (simp add: specified_calls_def)
qed

section \<open>Sequences of calls\<close>

primrec run_seq :: "'w env \<Rightarrow> mon_api list \<Rightarrow> ('w monlib, unit) state" where
  "run_seq E [] = State_Monad.return ()"
| "run_seq E (a # as) = do { mon_run E a; run_seq E as }"

lemma run_seq_calls:
  assumes "quiet_at E impl (quiet_functions impl (monlock s) (monunlock s))" "connected impl s"
    and "monlock s \<noteq> 0" "monunlock s \<noteq> 0" "ignorelock s = 0" "\<forall>a\<in>set as. ordinary a"
  shows "\<exists>w. run_state (run_seq E as) s =
    ((), s\<lparr>calls := calls s @ concat (map (specified_calls impl (monlock s) (monunlock s)) as), world := w\<rparr>)"
  using assms
proof (induction as arbitrary: s)
  case Nil
  have "s = s\<lparr>world := world s\<rparr>" by simp
  then show ?case by (auto intro!: exI [of _ "world s"])
next
  case (Cons a as)
  let ?c = "specified_calls impl (monlock s) (monunlock s)"
  obtain r w where c: "run_state (mon_run E a) s = (r, s\<lparr>calls := calls s @ ?c a, world := w\<rparr>)"
    using run_api [OF Cons.prems(1,2) _ Cons.prems(3-5)] Cons.prems(6) by fastforce
  let ?s = "s\<lparr>calls := calls s @ ?c a, world := w\<rparr>"
  obtain w' where "run_state (run_seq E as) ?s =
      ((), ?s\<lparr>calls := calls ?s @ concat (map ?c as), world := w'\<rparr>)"
    using Cons.IH [of ?s] Cons.prems by auto
  then show ?case using c by (intro exI [of _ w']) simp
qed

section \<open>Connecting\<close>

definition handshake :: "ptr \<Rightarrow> monfn \<Rightarrow> ptr \<times> carg list" where
  "handshake mon f = (mon, [W (getmonfunc f), Addr f, W 0, W 0])"

lemma connections_all: "set connections = UNIV"
proof -
  have "f \<in> set connections" for f
    by (cases f) (simp_all add: connections_def)
  then show ?thesis by auto
qed

lemma run_connect_all:
  assumes "answers E mon impl" "moncom s = mon"
  shows "run_state (connect_all E fs rc) s =
    (rc, s\<lparr>calls := calls s @ map (handshake mon) fs,
           fptr := (\<lambda>f. if f \<in> set fs then impl (getmonfunc f) else fptr s f)\<rparr>)"
  using assms(2)
proof (induction fs arbitrary: s rc)
  case (Cons f fs)
  let ?s = "s\<lparr>calls := calls s @ [handshake mon f], fptr := (fptr s)(f := impl (getmonfunc f))\<rparr>"
  have "run_state (moncom_call E [W (getmonfunc f), Addr f, W 0, W 0]) s = (0, ?s)"
    using assms(1) Cons.prems by (simp add: moncom_call_def call_ptr_def answers_def handshake_def)
  then show ?case using Cons.IH [of ?s rc] Cons.prems
    by (auto simp: fun_eq_iff intro!: arg_cong2 [of _ _ _ _ "\<lambda>a b. s\<lparr>fptr := a, calls := b\<rparr>"])
qed simp


text \<open>A monitor that keeps its function for command \<open>c\<close> at address \<open>c + 100\<close>.\<close>

definition sample_monitor :: "'w env" where
  "sample_monitor p args = (case args of
     [W c, Addr f, W a, W b] \<Rightarrow>
       (if p = 1
        then do { modify (\<lambda>s. s\<lparr>fptr := (fptr s)(f := c + 100)\<rparr>); State_Monad.return 0 }
        else State_Monad.return 0)
   | _ \<Rightarrow> State_Monad.return 0)"

lemma sample_monitor_laws:
  "answers (sample_monitor :: 'a env) 1 (\<lambda>c. c + 100)"
  "quiet_at (sample_monitor :: 'a env) (\<lambda>c. c + 100) P"
proof -
  have w: "\<exists>w. s = s\<lparr>world := w\<rparr>" for s :: "'a monlib" by (rule exI [of _ "world s"]) simp
  have "\<exists>r w. run_state (sample_monitor p args) s = (r, s\<lparr>world := w\<rparr>)"
    if "no_address args" for p args and s :: "'a monlib"
    using that w by (auto simp: sample_monitor_def no_address_def split: list.splits carg.splits)
  then show "quiet_at (sample_monitor :: 'a env) (\<lambda>c. c + 100) P" by (simp add: quiet_at_def)
qed (simp add: answers_def sample_monitor_def)

lemma sample_impl_nonzero: "getmonfunc f + 100 \<noteq> 0"
  by (cases f) simp_all

definition fresh_monlib :: "unit monlib" where
  "fresh_monlib = \<lparr>fptr = (\<lambda>f. 0), monlock = 0, monunlock = 0, moncom = 0, ignorelock = 0,
     calls = [], world = ()\<rparr>"

lemmas ordinary_defs = ordinary_def own_defs application_runners_def no_address_def


section \<open>The back door\<close>

text \<open>
  The comment above \<open>ignorelock\<close>: through the monitor's \<open>call\<close> command the user runs
  \<open>DisableMonLock\<close>, then a function of the application with \<open>mon_\<close> calls in it, then
  \<open>EnableMonLock\<close>.  The shell runs the function that the command names, here \<open>cmd\<close> for a function
  whose only \<open>mon_\<close> call is \<open>a\<close>; whatever else the shell does happens to the world.
\<close>

definition shell_runs :: "'w env \<Rightarrow> (u32 \<Rightarrow> ptr) \<Rightarrow> string \<Rightarrow> ('w monlib, 'a) state \<Rightarrow> bool" where
  "shell_runs E impl cmd m \<longleftrightarrow> (\<forall>v s. \<exists>r w w'.
     run_state (E (impl (getmonfunc F_docommand)) [Str cmd, W v]) s =
       (r, (snd (run_state m (s\<lparr>world := w\<rparr>)))\<lparr>world := w'\<rparr>))"

lemma run_docommand:
  assumes "shell_runs E impl cmd m" "connected impl s"
  obtains r w w' where "run_state (mon_call E F_docommand [Str cmd, W v]) s =
    (r, (snd (run_state m (s\<lparr>calls := calls s @ [(impl (getmonfunc F_docommand), [Str cmd, W v])],
           world := w\<rparr>)))\<lparr>world := w'\<rparr>)"
proof -
  let ?s = "s\<lparr>calls := calls s @ [(impl (getmonfunc F_docommand), [Str cmd, W v])]\<rparr>"
  obtain r w w' where "run_state (E (impl (getmonfunc F_docommand)) [Str cmd, W v]) ?s =
      (r, (snd (run_state m (?s\<lparr>world := w\<rparr>)))\<lparr>world := w'\<rparr>)"
    using assms(1) unfolding shell_runs_def by blast
  then show ?thesis
    using that assms(2) by (simp add: mon_call_def call_ptr_def connected_def del: getmonfunc.simps)
qed

text \<open>The three commands, in the states in which the back door is used.\<close>

lemma run_disable:
  assumes q: "quiet_at E impl (quiet_functions impl (monlock s) (monunlock s))"
    and c: "connected impl s" and sh: "shell_runs E impl cmd DisableMonLock"
    and l: "monlock s \<noteq> 0" "monunlock s \<noteq> 0" "ignorelock s = 0"
  shows "\<exists>r w. run_state (mon_docommand E (Str cmd) v) s =
    (r, s\<lparr>calls := calls s @ [(monlock s, []), (impl (getmonfunc F_docommand), [Str cmd, W v]), (monunlock s, [])],
          ignorelock := 1, world := w\<rparr>)"
proof -
  let ?d = "impl (getmonfunc F_docommand)"
  have P: "monlock s \<in> quiet_functions impl (monlock s) (monunlock s)"
    "monunlock s \<in> quiet_functions impl (monlock s) (monunlock s)"
    by (simp_all add: quiet_functions_def)
  obtain r1 w1 where 1: "run_state (call_ptr E (monlock s) []) s =
      (r1, s\<lparr>calls := calls s @ [(monlock s, [])], world := w1\<rparr>)"
    using run_call_ptr [OF q P(1) c no_address_Nil] by blast
  let ?s1 = "s\<lparr>calls := calls s @ [(monlock s, [])], world := w1\<rparr>"
  have c1: "connected impl ?s1" using c by simp
  obtain r2 w2 where 2: "run_state (mon_call E F_docommand [Str cmd, W v]) ?s1 =
      (r2, ?s1\<lparr>calls := calls ?s1 @ [(?d, [Str cmd, W v])], ignorelock := 2, world := w2\<rparr>)"
    using run_docommand [OF sh c1] by (simp add: DisableMonLock_def) blast
  let ?s3 = "?s1\<lparr>calls := calls ?s1 @ [(?d, [Str cmd, W v])], world := w2, ignorelock := 1\<rparr>"
  have c3: "connected impl ?s3" using c by simp
  obtain r3 w3 where 3: "run_state (call_ptr E (monunlock s) []) ?s3 =
      (r3, ?s3\<lparr>calls := calls ?s3 @ [(monunlock s, [])], world := w3\<rparr>)"
    using run_call_ptr [OF q P(2) c3 no_address_Nil] by blast
  show ?thesis using l 1 2 3
    by (intro exI [of _ r2] exI [of _ w3]) (simp add: mon_docommand_def lock_macros monLock_def monUnlock_def)
qed

lemma run_inside:
  assumes q: "quiet_at E impl (quiet_functions impl (monlock s) (monunlock s))"
    and c: "connected impl s" and sh: "shell_runs E impl cmd (mon_run E a)"
    and a: "ordinary a" "takes_lock a"
    and l: "monlock s \<noteq> 0" "monunlock s \<noteq> 0" "ignorelock s = 1"
  shows "\<exists>r w. run_state (mon_docommand E (Str cmd) v) s =
    (r, s\<lparr>calls := calls s @ [(impl (getmonfunc F_docommand), [Str cmd, W v]),
                               (own_pointer impl a, own_arguments a)], world := w\<rparr>)"
proof -
  let ?d = "impl (getmonfunc F_docommand)"
  obtain r w w' where 1: "run_state (mon_call E F_docommand [Str cmd, W v]) s =
      (r, (snd (run_state (mon_run E a) (s\<lparr>calls := calls s @ [(?d, [Str cmd, W v])],
           world := w\<rparr>)))\<lparr>world := w'\<rparr>)"
    using run_docommand [OF sh c] by blast
  let ?s = "s\<lparr>calls := calls s @ [(?d, [Str cmd, W v])], world := w\<rparr>"
  have "mon_run E a = bracketed E a" using shapes [of E a] a(2) unfolding shaped_def by simp
  then obtain r2 w2 where 2: "run_state (mon_run E a) ?s =
      (r2, ?s\<lparr>calls := calls ?s @ [(own_pointer impl a, own_arguments a)], world := w2\<rparr>)"
    using run_ignored [of E impl ?s a] q c a(1) l by auto
  show ?thesis using l 1 2
    by (intro exI) (simp add: mon_docommand_def lock_macros monLock_def monUnlock_def)
qed

lemma run_enable:
  assumes q: "quiet_at E impl (quiet_functions impl (monlock s) (monunlock s))"
    and c: "connected impl s" and sh: "shell_runs E impl cmd EnableMonLock"
    and l: "monlock s \<noteq> 0" "monunlock s \<noteq> 0" "ignorelock s = 1"
  shows "\<exists>r w. run_state (mon_docommand E (Str cmd) v) s =
    (r, s\<lparr>calls := calls s @ [(impl (getmonfunc F_docommand), [Str cmd, W v]), (monunlock s, [])],
          ignorelock := 0, world := w\<rparr>)"
proof -
  let ?d = "impl (getmonfunc F_docommand)"
  have P: "monunlock s \<in> quiet_functions impl (monlock s) (monunlock s)"
    by (simp add: quiet_functions_def)
  obtain r2 w2 where 2: "run_state (mon_call E F_docommand [Str cmd, W v]) s =
      (r2, s\<lparr>calls := calls s @ [(?d, [Str cmd, W v])], ignorelock := 0, world := w2\<rparr>)"
    using run_docommand [OF sh c] by (simp add: EnableMonLock_def) blast
  let ?s3 = "s\<lparr>calls := calls s @ [(?d, [Str cmd, W v])], ignorelock := 0, world := w2\<rparr>"
  have c3: "connected impl ?s3" using c by simp
  obtain r3 w3 where 3: "run_state (call_ptr E (monunlock s) []) ?s3 =
      (r3, ?s3\<lparr>calls := calls ?s3 @ [(monunlock s, [])], world := w3\<rparr>)"
    using run_call_ptr [OF q P c3 no_address_Nil] by blast
  show ?thesis using l 2 3
    by (intro exI [of _ r2] exI [of _ w3]) (simp add: mon_docommand_def lock_macros monLock_def monUnlock_def)
qed

definition back_door :: "'w env \<Rightarrow> string \<Rightarrow> string \<Rightarrow> string \<Rightarrow> u32 \<Rightarrow> ('w monlib, u32) state" where
  "back_door E dis func en v = do {
     mon_docommand E (Str dis) v; mon_docommand E (Str func) v; mon_docommand E (Str en) v }"

definition calls_to :: "ptr \<Rightarrow> (ptr \<times> carg list) list \<Rightarrow> nat" where
  "calls_to p cs = length (filter (\<lambda>c. fst c = p) cs)"

text \<open>
  C19: 
\<close>

theorem back_door_unbalanced:
  fixes s :: "'w monlib"
  defines "lock \<equiv> monlock s" and "unlock \<equiv> monunlock s"
  assumes "quiet_at E impl (quiet_functions impl lock unlock)" "connected impl s"
    and "shell_runs E impl dis DisableMonLock" "shell_runs E impl func (mon_run E a)"
    and "shell_runs E impl en EnableMonLock" "ordinary a" "takes_lock a"
    and "lock \<noteq> 0" "unlock \<noteq> 0" "lock \<noteq> unlock" "ignorelock s = 0"
    and "\<forall>f. impl (getmonfunc f) \<notin> {lock, unlock}"
  shows "\<exists>r s' new. run_state (back_door E dis func en v) s = (r, s') \<and> calls s' = calls s @ new \<and>
    new =
      [(lock, []), (impl (getmonfunc F_docommand), [Str dis, W v]), (unlock, []),
       (impl (getmonfunc F_docommand), [Str func, W v]), (own_pointer impl a, own_arguments a),
       (impl (getmonfunc F_docommand), [Str en, W v]), (unlock, [])] \<and>
    calls_to unlock new = calls_to lock new + 1 \<and> ignorelock s' = 0"
proof -
  let ?d = "impl (getmonfunc F_docommand)"
  note q = assms(3)[unfolded lock_def unlock_def] and l = assms(10,11)[unfolded lock_def unlock_def]
  obtain r1 w1 where 1: "run_state (mon_docommand E (Str dis) v) s =
    (r1, s\<lparr>calls := calls s @ [(lock, []), (?d, [Str dis, W v]), (unlock, [])],
           ignorelock := 1, world := w1\<rparr>)"
    using run_disable [OF q assms(4,5) l assms(13), of v] by (auto simp: lock_def unlock_def)
  define s1 where "s1 = s\<lparr>calls := calls s @ [(lock, []), (?d, [Str dis, W v]), (unlock, [])],
           ignorelock := 1, world := w1\<rparr>"
  have s1: "monlock s1 = monlock s" "monunlock s1 = monunlock s" "ignorelock s1 = 1" "connected impl s1"
    using assms(4) by (simp_all add: s1_def)
  obtain r2 w2 where 2: "run_state (mon_docommand E (Str func) v) s1 =
    (r2, s1\<lparr>calls := calls s1 @ [(?d, [Str func, W v]), (own_pointer impl a, own_arguments a)], world := w2\<rparr>)"
    using run_inside [of E impl s1 func a v] q s1 l assms(6,8,9) by auto
  define s2 where "s2 = s1\<lparr>calls := calls s1 @ [(?d, [Str func, W v]), (own_pointer impl a, own_arguments a)],
    world := w2\<rparr>"
  have s2: "monlock s2 = monlock s" "monunlock s2 = monunlock s" "ignorelock s2 = 1" "connected impl s2"
    using s1 by (simp_all add: s2_def)
  obtain r3 w3 where 3: "run_state (mon_docommand E (Str en) v) s2 =
    (r3, s2\<lparr>calls := calls s2 @ [(?d, [Str en, W v]), (unlock, [])], ignorelock := 0, world := w3\<rparr>)"
    using run_enable [of E impl s2 en v] q s2 l assms(7) by (auto simp: unlock_def)
  have n: "own_pointer impl a \<notin> {lock, unlock}" "?d \<notin> {lock, unlock}"
    using assms(14) by (auto simp: own_pointer_def simp del: getmonfunc.simps)
  have r: "run_state (back_door E dis func en v) s = run_state (mon_docommand E (Str en) v) s2"
    using 1 [folded s1_def] 2 [folded s2_def] unfolding back_door_def by simp
  show ?thesis
    using n assms(12) unfolding r 3 by (simp add: s2_def s1_def calls_to_def)
qed

text \<open>The shell of a monitor whose functions sit at \<open>c + 100\<close>; \<open>run_diags\<close> starts the file system.\<close>

definition sample_shell :: "unit env" where
  "sample_shell p args = (case args of
     [Str cmd, W v] \<Rightarrow>
       (if p = 126 \<and> cmd = ''call %DisableMonLock'' then do { DisableMonLock; State_Monad.return 0 }
        else if p = 126 \<and> cmd = ''call %EnableMonLock'' then do { EnableMonLock; State_Monad.return 0 }
        else if p = 126 \<and> cmd = ''call %run_diags'' then do {
          mon_run (\<lambda>p args. State_Monad.return 0) (Tfs1 Mon_tfsinit); State_Monad.return 0 }
        else State_Monad.return 0)
   | _ \<Rightarrow> State_Monad.return 0)"

lemma sample_shell_Nil: "sample_shell p [] = State_Monad.return 0"
  by (simp add: sample_shell_def)

lemma sample_shell_init:
  "mon_run sample_shell (Tfs1 Mon_tfsinit) = mon_run (\<lambda>p args. State_Monad.return 0) (Tfs1 Mon_tfsinit)"
  by (simp add: mon_tfsinit_def lock_macros monLock_def monUnlock_def mon_call_def call_ptr_def sample_shell_Nil
      cong: if_cong)

lemma unit_world [simp]: "(s :: unit monlib)\<lparr>world := w\<rparr> = s"
  by simp

lemma shell_runs_sample:
  assumes "\<And>v. sample_shell 126 [Str cmd, W v] = do { m; State_Monad.return 0 }"
  shows "shell_runs sample_shell (\<lambda>c. c + 100) cmd m"
  unfolding shell_runs_def
proof (intro allI)
  fix v and s :: "unit monlib"
  show "\<exists>r w w'. run_state (sample_shell (getmonfunc F_docommand + 100) [Str cmd, W v]) s =
    (r, (snd (run_state m (s\<lparr>world := w\<rparr>)))\<lparr>world := w'\<rparr>)"
    by (intro exI [of _ 0] exI [of _ "()"]) (simp add: split_beta assms)
qed

lemma sample_shell_laws:
  "quiet_at sample_shell (\<lambda>c. c + 100) (quiet_functions (\<lambda>c. c + 100) 7 8)"
  "shell_runs sample_shell (\<lambda>c. c + 100) ''call %DisableMonLock'' DisableMonLock"
  "shell_runs sample_shell (\<lambda>c. c + 100) ''call %EnableMonLock'' EnableMonLock"
  "shell_runs sample_shell (\<lambda>c. c + 100) ''call %run_diags'' (mon_run sample_shell (Tfs1 Mon_tfsinit))"
proof -
  have w: "\<exists>w. s = s\<lparr>world := w\<rparr>" for s :: "unit monlib" by (rule exI [of _ "world s"]) simp
  have n: "126 \<notin> quiet_functions (\<lambda>c. c + 100) 7 8"
  proof -
    have f: "126 \<noteq> getmonfunc f + 100" if "f \<in> - application_runners" for f
      using that by (cases f) (simp_all add: application_runners_def)
    have "126 \<notin> (\<lambda>f. getmonfunc f + 100) ` (- application_runners)"
      by (rule notI, erule imageE, use f in blast)
    then show ?thesis by (simp add: quiet_functions_def)
  qed
  have "\<exists>r w. run_state (sample_shell p args) s = (r, s\<lparr>world := w\<rparr>)"
    if "p \<in> quiet_functions (\<lambda>c. c + 100) 7 8" for p args and s :: "unit monlib"
  proof -
    have "p \<noteq> 126" using that n by auto
    then show ?thesis using w by (auto simp: sample_shell_def split: list.splits carg.splits)
  qed
  then show "quiet_at sample_shell (\<lambda>c. c + 100) (quiet_functions (\<lambda>c. c + 100) 7 8)"
    by (simp add: quiet_at_def)
  show "shell_runs sample_shell (\<lambda>c. c + 100) ''call %run_diags'' (mon_run sample_shell (Tfs1 Mon_tfsinit))"
    unfolding sample_shell_init by (rule shell_runs_sample) (simp add: sample_shell_def)
qed (rule shell_runs_sample, simp add: sample_shell_def, rule shell_runs_sample, simp add: sample_shell_def)

definition connected_monlib :: "unit monlib" where
  "connected_monlib = \<lparr>fptr = (\<lambda>f. getmonfunc f + 100), monlock = 7, monunlock = 8, moncom = 1,
     ignorelock = 0, calls = [], world = ()\<rparr>"

theorem back_door_unbalanced_witness:
  "\<exists>r s' new. run_state (back_door sample_shell ''call %DisableMonLock'' ''call %run_diags''
      ''call %EnableMonLock'' 0) connected_monlib = (r, s') \<and> calls s' = calls connected_monlib @ new \<and>
    new = [(7, []), (126, [Str ''call %DisableMonLock'', W 0]), (8, []),
       (126, [Str ''call %run_diags'', W 0]), (111, []),
       (126, [Str ''call %EnableMonLock'', W 0]), (8, [])] \<and>
    calls_to 8 new = calls_to 7 new + 1 \<and> ignorelock s' = 0"
proof -
  have "getmonfunc f + 100 \<notin> {7, 8}" for f by (cases f) simp_all
  then show ?thesis
    using back_door_unbalanced [of sample_shell "\<lambda>c. c + 100" connected_monlib "''call %DisableMonLock''"
        "''call %run_diags''" "Tfs1 Mon_tfsinit" "''call %EnableMonLock''" 0] sample_shell_laws
    by (simp add: connected_monlib_def connected_def ordinary_defs own_pointer_def)
qed

end
