(* ===== verification/Monlib_App.thy ===== *)
theory Monlib_App
  imports Monlib_Lock
begin

text \<open>
  The diagnostics program on top of the monitor library: \<open>Cstart\<close> of \<open>cstart.c\<close> and \<open>main\<close> of
  \<open>main.c\<close>.  A loop that waits for input takes a bound on its iterations and yields \<open>None\<close> when it
  is used up.  Arguments that a call of the unprototyped \<open>mon_printf\<close> leaves out are the parameter
  \<open>junk\<close>; \<open>moncomptr\<close> is the word found at the address \<open>MONCOMPTR\<close> of the makefile, and \<open>argc\<close>, \<open>argv\<close> are the addresses
  of the local variables.
\<close>

section \<open>The code\<close>

primrec getakey :: "'w env \<Rightarrow> nat \<Rightarrow> ('w monlib, u32 option) state" where
  "getakey E 0 = State_Monad.return None"
| "getakey E (Suc n) = do {
     g \<leftarrow> mon_gotachar E;
     if g = 0 then getakey E n
     else do { c \<leftarrow> mon_getchar E; State_Monad.return (Some c) } }"

definition printf1 :: "'w env \<Rightarrow> u32 \<Rightarrow> string \<Rightarrow> u32 \<Rightarrow> ('w monlib, u32) state" where
  "printf1 E junk fmt a = mon_printf E (Str fmt) a junk junk junk junk junk junk junk junk junk junk junk"

primrec ask :: "'w env \<Rightarrow> u32 \<Rightarrow> nat \<Rightarrow> nat \<Rightarrow> ('w monlib, string option) state" where
  "ask E junk n 0 = State_Monad.return None"
| "ask E junk n (Suc m) = do {
     k \<leftarrow> getakey E n;
     case k of
       None \<Rightarrow> State_Monad.return None
     | Some c \<Rightarrow> do {
         printf1 E junk ''%c\<newline>'' c;
         if c = 0x70 then State_Monad.return (Some ''PASS'')
         else if c = 0x66 then State_Monad.return (Some ''FAIL'')
         else if c = 0x75 then State_Monad.return (Some ''UNKNOWN'')
         else do {
           printf1 E junk ''Unknown response %c -- try again\<newline>'' c;
           ask E junk n m } } }"

definition main :: "'w env \<Rightarrow> u32 \<Rightarrow> nat \<Rightarrow> ('w monlib, u32 option) state" where
  "main E junk n = do {
     printf1 E junk ''\<newline>\<newline>Diagnotics Program\<newline>Should the diagnostics return p (pass), u (unknown), f (fail)? >'' junk;
     r \<leftarrow> ask E junk n n;
     case r of
       None \<Rightarrow> State_Monad.return None
     | Some result \<Rightarrow> do {
         mon_setenv E (Str ''DIAGNOSTICS_RESULT'') (Str result);
         v \<leftarrow> mon_getenv E (Str ''DIAGNOSTICS_RESULT'');
         printf1 E junk ''Set DIAGNOSTICS_RESULT to %s\<newline>At the MicroMonitor prompt: echo $DIAGNOSTICS_RESULT\<newline>'' v;
         State_Monad.return (Some 0) } }"

definition Cstart :: "'w env \<Rightarrow> u32 \<Rightarrow> ptr \<Rightarrow> u32 \<Rightarrow> u32 \<Rightarrow> nat \<Rightarrow> ('w monlib, u32 option) state" where
  "Cstart E junk moncomptr argc argv n = do {
     monConnect E moncomptr 0 0;
     mon_getargv E (W argc) (W argv);
     r \<leftarrow> main E junk n;
     case r of None \<Rightarrow> State_Monad.return None | Some c \<Rightarrow> State_Monad.return (Some 0) }"

section \<open>A console\<close>

text \<open>
  The console and the shell variables of the monitor: the keys still to come, each with the number
  of polls before it arrives.
\<close>

record console =
  keys :: "(nat \<times> u32) list"
  vars :: "string \<rightharpoonup> string"

definition console_law :: "console env \<Rightarrow> (u32 \<Rightarrow> ptr) \<Rightarrow> bool" where
  "console_law E impl \<longleftrightarrow> (\<forall>s.
     (\<forall>d k ks. keys (world s) = (Suc d, k) # ks \<longrightarrow>
       run_state (E (impl (getmonfunc F_gotachar)) []) s =
         (0, s\<lparr>world := (world s)\<lparr>keys := (d, k) # ks\<rparr>\<rparr>)) \<and>
     (\<forall>k ks. keys (world s) = (0, k) # ks \<longrightarrow>
       run_state (E (impl (getmonfunc F_gotachar)) []) s = (1, s) \<and>
       run_state (E (impl (getmonfunc F_getchar)) []) s = (k, s\<lparr>world := (world s)\<lparr>keys := ks\<rparr>\<rparr>)) \<and>
     (\<forall>n v. run_state (E (impl (getmonfunc F_setenv)) [Str n, Str v]) s =
       (0, s\<lparr>world := (world s)\<lparr>vars := (vars (world s))(n \<mapsto> v)\<rparr>\<rparr>)) \<and>
     (\<forall>f\<in>{F_printf, F_getenv, F_getargv}. \<forall>args.
       \<exists>r. run_state (E (impl (getmonfunc f)) args) s = (r, s)))"

text \<open>Without lock functions a wrapper is its call.\<close>

lemma no_lock:
  "monlock s = 0 \<Longrightarrow> run_state (monLock E) s = ((), s)"
  "monunlock s = 0 \<Longrightarrow> run_state (monUnlock E) s = ((), s)"
  by (simp_all add: monLock_def monUnlock_def)

definition ready :: "(u32 \<Rightarrow> ptr) \<Rightarrow> console monlib \<Rightarrow> bool" where
  "ready impl s \<longleftrightarrow> connected impl s \<and> monlock s = 0 \<and> monunlock s = 0"

lemma ready_update [simp]:
  "ready impl (s\<lparr>world := w\<rparr>) = ready impl s" "ready impl (s\<lparr>calls := c\<rparr>) = ready impl s"
  by (simp_all add: ready_def)

lemma run_call:
  "ready impl s \<Longrightarrow> run_state (mon_call E f args) s =
     run_state (E (impl (getmonfunc f)) args) (s\<lparr>calls := calls s @ [(impl (getmonfunc f), args)]\<rparr>)"
  by (simp add: mon_call_def call_ptr_def ready_def connected_def del: getmonfunc.simps)

text \<open>Effects on the console: \<open>yields E m s r w\<close> says that \<open>m\<close> returns \<open>r\<close> and leaves console \<open>w\<close>.\<close>

definition yields :: "(u32 \<Rightarrow> ptr) \<Rightarrow> (console monlib, 'a) state \<Rightarrow> console monlib \<Rightarrow> 'a \<Rightarrow> console \<Rightarrow> bool" where
  "yields impl m s r w \<longleftrightarrow> (\<exists>s'. run_state m s = (r, s') \<and> ready impl s' \<and> world s' = w)"

lemma yields_bind:
  assumes "yields impl m s r w"
    and "\<And>s'. ready impl s' \<Longrightarrow> world s' = w \<Longrightarrow> yields impl (f r) s' r' w'"
  shows "yields impl (m \<bind> f) s r' w'"
  using assms unfolding yields_def by fastforce

lemma yields_return:
  "ready impl s \<Longrightarrow> world s = w \<Longrightarrow> yields impl (State_Monad.return r) s r w"
  by (simp add: yields_def)

section \<open>Steps of the program\<close>

definition locked :: "'w env \<Rightarrow> ('w monlib, u32) state \<Rightarrow> ('w monlib, u32) state" where
  "locked E c = do { monLock E; r \<leftarrow> c; monUnlock E; State_Monad.return r }"

lemma yields_locked:
  assumes "ready impl s"
    and "\<And>c. run_state (E (impl (getmonfunc f)) args) (s\<lparr>calls := c\<rparr>) = (r, s\<lparr>calls := c, world := w\<rparr>)"
  shows "yields impl (locked E (mon_call E f args)) s r w"
proof -
  have "monlock s = 0" "monunlock s = 0" using assms(1) by (simp_all add: ready_def)
  then show ?thesis
    using assms run_call [OF assms(1), of E f args]
    by (simp add: yields_def locked_def no_lock del: getmonfunc.simps)
qed

lemmas locked_wrappers =
  mon_gotachar_def [unfolded lock_macros, folded locked_def]
  mon_getchar_def [unfolded lock_macros, folded locked_def]
  mon_setenv_def [unfolded lock_macros, folded locked_def]
  mon_getenv_def [unfolded lock_macros, folded locked_def]
  mon_printf_def [unfolded lock_macros, folded locked_def]

lemma yields_gotachar_wait:
  assumes "console_law E impl" "ready impl s" "keys (world s) = (Suc d, k) # ks"
  shows "yields impl (mon_gotachar E) s 0 ((world s)\<lparr>keys := (d, k) # ks\<rparr>)"
  unfolding locked_wrappers
  by (rule yields_locked [OF assms(2)])
     (use assms in \<open>simp_all add: console_law_def del: getmonfunc.simps\<close>)

lemma yields_gotachar:
  assumes "console_law E impl" "ready impl s" "keys (world s) = (0, k) # ks"
  shows "yields impl (mon_gotachar E) s 1 (world s)"
    "yields impl (mon_getchar E) s k ((world s)\<lparr>keys := ks\<rparr>)"
  unfolding locked_wrappers
  by (rule yields_locked [OF assms(2)],
      use assms in \<open>simp_all add: console_law_def del: getmonfunc.simps\<close>)+

lemma yields_setenv:
  assumes "console_law E impl" "ready impl s"
  shows "yields impl (mon_setenv E (Str n) (Str v)) s 0 ((world s)\<lparr>vars := (vars (world s))(n \<mapsto> v)\<rparr>)"
  unfolding locked_wrappers
  by (rule yields_locked [OF assms(2)])
     (use assms in \<open>simp_all add: console_law_def del: getmonfunc.simps\<close>)

lemma law_silent:
  assumes "console_law E impl" "f \<in> {F_printf, F_getenv, F_getargv}"
  obtains r where "run_state (E (impl (getmonfunc f)) args) s = (r, s)"
  using assms unfolding console_law_def by blast

lemma yields_silent:
  assumes "console_law E impl" "ready impl s" "f \<in> {F_printf, F_getenv, F_getargv}"
  shows "\<exists>r. yields impl (locked E (mon_call E f args)) s r (world s)"
proof -
  have l: "monlock s = 0" "monunlock s = 0" using assms(2) by (simp_all add: ready_def)
  obtain r where "run_state (E (impl (getmonfunc f)) args) (s\<lparr>calls := calls s @ [(impl (getmonfunc f), args)]\<rparr>) =
      (r, s\<lparr>calls := calls s @ [(impl (getmonfunc f), args)]\<rparr>)"
    using law_silent [OF assms(1,3)] by blast
  then show ?thesis using l run_call [OF assms(2), of E f args] assms(2)
    by (simp add: yields_def locked_def no_lock del: getmonfunc.simps)
qed

lemma yields_printf:
  assumes "console_law E impl" "ready impl s"
  shows "\<exists>r. yields impl (printf1 E junk fmt a) s r (world s)"
    "\<exists>r. yields impl (mon_getenv E n) s r (world s)"
  unfolding locked_wrappers printf1_def by (rule yields_silent [OF assms]; simp)+

lemma yields_getargv:
  assumes "console_law E impl" "ready impl s"
  shows "yields impl (mon_getargv E p q) s () (world s)"
proof -
  have "mon_getargv E p q = locked E (mon_call E F_getargv [p, q]) \<bind> (\<lambda>_. State_Monad.return ())"
    by (simp add: mon_getargv_def lock_macros locked_def)
  moreover obtain r where "yields impl (locked E (mon_call E F_getargv [p, q])) s r (world s)"
    using yields_silent [OF assms, of F_getargv] by auto
  ultimately show ?thesis by (auto elim!: yields_bind intro: yields_return)
qed

lemma yields_getakey:
  assumes "console_law E impl"
  shows "ready impl s \<Longrightarrow> keys (world s) = (d, k) # ks \<Longrightarrow> d < n \<Longrightarrow>
    yields impl (getakey E n) s (Some k) ((world s)\<lparr>keys := ks\<rparr>)"
proof (induction n arbitrary: s d)
  case (Suc n)
  show ?case
  proof (cases d)
    case 0
    have 1: "yields impl (mon_gotachar E) s 1 (world s)"
      using yields_gotachar(1) [OF assms] Suc.prems 0 by blast
    have "yields impl (mon_getchar E \<bind> (\<lambda>c. State_Monad.return (Some c))) s' (Some k) ((world s)\<lparr>keys := ks\<rparr>)"
      if "ready impl s'" "world s' = world s" for s'
      using yields_gotachar(2) [OF assms that(1), of k ks] Suc.prems 0 that
      by (auto elim!: yields_bind intro: yields_return)
    then show ?thesis by (auto intro: yields_bind [OF 1])
  next
    case (Suc d')
    have 1: "yields impl (mon_gotachar E) s 0 ((world s)\<lparr>keys := (d', k) # ks\<rparr>)"
      using yields_gotachar_wait [OF assms] Suc.prems Suc by blast
    have "yields impl (getakey E n) s' (Some k) ((world s)\<lparr>keys := ks\<rparr>)"
      if "ready impl s'" "world s' = (world s)\<lparr>keys := (d', k) # ks\<rparr>" for s'
      using Suc.IH [OF that(1), of d'] that(2) Suc.prems Suc by simp
    then show ?thesis by (auto intro: yields_bind [OF 1])
  qed
qed simp

definition verdict :: "u32 \<Rightarrow> string option" where
  "verdict c = (if c = 0x70 then Some ''PASS'' else if c = 0x66 then Some ''FAIL''
     else if c = 0x75 then Some ''UNKNOWN'' else None)"

lemma yields_ask:
  assumes "console_law E impl" "verdict k = Some r" "d < n"
  shows "ready impl s \<Longrightarrow> keys (world s) = ks @ (d, k) # ks' \<Longrightarrow>
    \<forall>(e, c)\<in>set ks. verdict c = None \<and> e < n \<Longrightarrow> length ks < m \<Longrightarrow>
    yields impl (ask E junk n m) s (Some r) ((world s)\<lparr>keys := ks'\<rparr>)"
proof (induction ks arbitrary: s m)
  case Nil
  then obtain m' where m: "m = Suc m'" by (cases m) auto
  have 1: "yields impl (getakey E n) s (Some k) ((world s)\<lparr>keys := ks'\<rparr>)"
    using yields_getakey [OF assms(1) Nil.prems(1) _ assms(3)] Nil.prems(2) by simp
  show ?case unfolding m
  proof (subst ask.simps(2), rule yields_bind [OF 1], unfold option.case)
    fix s' assume s': "ready impl s'" "world s' = (world s)\<lparr>keys := ks'\<rparr>"
    obtain q where 2: "yields impl (printf1 E junk ''%c\<newline>'' k) s' q (world s')"
      using yields_printf(1) [OF assms(1) s'(1)] by blast
    show "yields impl (printf1 E junk ''%c\<newline>'' k \<bind> (\<lambda>_.
        if k = 0x70 then State_Monad.return (Some ''PASS'')
        else if k = 0x66 then State_Monad.return (Some ''FAIL'')
        else if k = 0x75 then State_Monad.return (Some ''UNKNOWN'')
        else printf1 E junk ''Unknown response %c -- try again\<newline>'' k \<bind> (\<lambda>_. ask E junk n m')))
      s' (Some r) ((world s)\<lparr>keys := ks'\<rparr>)"
      by (rule yields_bind [OF 2])
         (use assms(2) s' in \<open>auto simp: verdict_def intro: yields_return split: if_splits\<close>)
  qed
next
  case (Cons x ks)
  obtain e c where x: "x = (e, c)" by (cases x)
  obtain m' where m: "m = Suc m'" using Cons.prems(4) by (cases m) auto
  have c: "verdict c = None" "e < n" using Cons.prems(3) x by auto
  have 1: "yields impl (getakey E n) s (Some c) ((world s)\<lparr>keys := ks @ (d, k) # ks'\<rparr>)"
    using yields_getakey [OF assms(1) Cons.prems(1) _ c(2)] Cons.prems(2) x by simp
  show ?case unfolding m
  proof (subst ask.simps(2), rule yields_bind [OF 1], unfold option.case)
    fix s' assume s': "ready impl s'" "world s' = (world s)\<lparr>keys := ks @ (d, k) # ks'\<rparr>"
    obtain q where 2: "yields impl (printf1 E junk ''%c\<newline>'' c) s' q (world s')"
      using yields_printf(1) [OF assms(1) s'(1)] by blast
    show "yields impl (printf1 E junk ''%c\<newline>'' c \<bind> (\<lambda>_.
        if c = 0x70 then State_Monad.return (Some ''PASS'')
        else if c = 0x66 then State_Monad.return (Some ''FAIL'')
        else if c = 0x75 then State_Monad.return (Some ''UNKNOWN'')
        else printf1 E junk ''Unknown response %c -- try again\<newline>'' c \<bind> (\<lambda>_. ask E junk n m')))
      s' (Some r) ((world s)\<lparr>keys := ks'\<rparr>)"
    proof (rule yields_bind [OF 2])
      fix s'' assume s'': "ready impl s''" "world s'' = world s'"
      obtain q where 3: "yields impl (printf1 E junk ''Unknown response %c -- try again\<newline>'' c) s'' q (world s'')"
        using yields_printf(1) [OF assms(1) s''(1)] by blast
      have "yields impl (ask E junk n m') t (Some r) ((world s)\<lparr>keys := ks'\<rparr>)"
        if "ready impl t" "world t = world s''" for t
        using Cons.IH [OF that(1), of m'] that(2) s'' s' Cons.prems m by auto
      then have "yields impl (printf1 E junk ''Unknown response %c -- try again\<newline>'' c \<bind>
          (\<lambda>_. ask E junk n m')) s'' (Some r) ((world s)\<lparr>keys := ks'\<rparr>)"
        by (rule yields_bind [OF 3])
      then show "yields impl (if c = 0x70 then State_Monad.return (Some ''PASS'')
          else if c = 0x66 then State_Monad.return (Some ''FAIL'')
          else if c = 0x75 then State_Monad.return (Some ''UNKNOWN'')
          else printf1 E junk ''Unknown response %c -- try again\<newline>'' c \<bind> (\<lambda>_. ask E junk n m'))
        s'' (Some r) ((world s)\<lparr>keys := ks'\<rparr>)"
        using c(1) by (simp add: verdict_def split: if_splits)
    qed
  qed
qed

section \<open>The program\<close>

lemma yields_main:
  assumes law: "console_law E impl" and "verdict k = Some r" "d < n"
    and s: "ready impl s" "keys (world s) = ks @ (d, k) # ks'"
    and "\<forall>(e, c)\<in>set ks. verdict c = None \<and> e < n" "length ks < n"
  shows "yields impl (main E junk n) s (Some 0)
    ((world s)\<lparr>keys := ks', vars := (vars (world s))(''DIAGNOSTICS_RESULT'' \<mapsto> r)\<rparr>)"
proof -
  let ?w = "(world s)\<lparr>keys := ks'\<rparr>"
  let ?w' = "(world s)\<lparr>keys := ks', vars := (vars (world s))(''DIAGNOSTICS_RESULT'' \<mapsto> r)\<rparr>"
  have print: "yields impl (printf1 E junk fmt a \<bind> (\<lambda>_. m)) t v w"
    if "ready impl t" "\<And>t'. ready impl t' \<Longrightarrow> world t' = world t \<Longrightarrow> yields impl m t' v w"
    for t fmt a m and v :: "u32 option" and w
    using yields_printf(1) [OF law that(1)] that(2) by (blast intro: yields_bind)
  have ask: "yields impl (ask E junk n n) t (Some r) ?w" if "ready impl t" "world t = world s" for t
    using yields_ask [OF law assms(2,3) that(1)] that(2) s(2) assms(6,7) by simp
  have set1: "yields impl (mon_setenv E (Str ''DIAGNOSTICS_RESULT'') (Str r)) t 0 ?w'"
    if "ready impl t" "world t = ?w" for t
    using yields_setenv [OF law that(1), of "''DIAGNOSTICS_RESULT''" r] that(2) by (simp del: One_nat_def)
  have get: "yields impl (mon_getenv E v \<bind> (\<lambda>a. printf1 E junk fmt a \<bind> (\<lambda>_. State_Monad.return (Some (0 :: u32))))) t
      (Some 0) ?w'" if t: "ready impl t" "world t = ?w'" for t v fmt
  proof -
    obtain q where q: "yields impl (mon_getenv E v) t q (world t)"
      using yields_printf(2) [OF law t(1)] by blast
    show ?thesis
      by (rule yields_bind [OF q], rule print) (use t in \<open>auto intro: yields_return\<close>)
  qed
  show ?thesis
    unfolding main_def
    by (rule print [OF s(1)], rule yields_bind [OF ask], assumption+, unfold option.case,
        rule yields_bind [OF set1], assumption+, rule get)
qed

text \<open>
  C18: On a console that delivers its keys after finitely many polls and among them one of the
  three answers, the diagnostics program returns, and the shell variable DIAGNOSTICS_RESULT has
  the value of the first valid key.
\<close>

theorem Cstart_result:
  assumes "answers E mon impl" "console_law E impl" "mon \<noteq> 0"
    and "keys (world s) = ks @ (d, k) # ks'" "verdict k = Some r"
    and "\<forall>(e, c)\<in>set ks. verdict c = None"
  shows "\<exists>N. \<forall>n\<ge>N. \<exists>s'. run_state (Cstart E junk mon argc argv n) s = (Some 0, s') \<and>
    vars (world s') = (vars (world s))(''DIAGNOSTICS_RESULT'' \<mapsto> r) \<and> keys (world s') = ks' \<and>
    connected impl s' \<and> monlock s' = 0"
proof (rule exI, intro allI impI)
  fix n assume n: "Suc (length ks + d + sum_list (map fst ks)) \<le> n"
  let ?t = "s\<lparr>monlock := 0, monunlock := 0, moncom := mon,
    calls := calls s @ map (handshake mon) connections, fptr := (\<lambda>f. impl (getmonfunc f))\<rparr>"
  have "run_state (monConnect E mon 0 0) s = (0, ?t)"
    using assms(3) run_connect_all [OF assms(1), of "s\<lparr>monlock := 0, monunlock := 0, moncom := mon\<rparr>"]
    by (simp add: monConnect_def connections_all)
  moreover have "ready impl ?t" by (simp add: ready_def connected_def)
  ultimately have 1: "yields impl (monConnect E mon 0 0) s 0 (world s)" by (simp add: yields_def)
  have b: "\<forall>(e, c)\<in>set ks. verdict c = None \<and> e < n"
  proof safe
    fix e c assume "(e, c) \<in> set ks"
    then have "e \<le> sum_list (map fst ks)" by (intro member_le_sum_list) (force, simp)
    then show "e < n" using n by simp
  qed (use assms(6) in auto)
  let ?w = "(world s)\<lparr>keys := ks', vars := (vars (world s))(''DIAGNOSTICS_RESULT'' \<mapsto> r)\<rparr>"
  have 3: "yields impl (main E junk n) t (Some 0) ?w" if "ready impl t" "world t = world s" for t
    using yields_main [OF assms(2,5) _ that(1), of d n ks ks' junk] that(2) assms(4) n b by simp
  have 2: "yields impl (mon_getargv E (W argc) (W argv)) t () (world t)" if "ready impl t" for t
    by (rule yields_getargv [OF assms(2) that])
  have "yields impl (Cstart E junk mon argc argv n) s (Some 0) ?w"
    unfolding Cstart_def
    by (rule yields_bind [OF 1], rule yields_bind [OF 2], assumption, rule yields_bind [OF 3], assumption)
       (simp_all add: yields_return)
  then show "\<exists>s'. run_state (Cstart E junk mon argc argv n) s = (Some 0, s') \<and>
    vars (world s') = (vars (world s))(''DIAGNOSTICS_RESULT'' \<mapsto> r) \<and> keys (world s') = ks' \<and>
    connected impl s' \<and> monlock s' = 0"
    by (auto simp: yields_def ready_def)
qed

definition sample_console :: "console env" where
  "sample_console p args =
    (if p = 1 then (case args of
       [W c, Addr f, W a, W b] \<Rightarrow> do { modify (\<lambda>s. s\<lparr>fptr := (fptr s)(f := c + 100)\<rparr>); State_Monad.return 0 }
     | _ \<Rightarrow> State_Monad.return 0)
     else if p = 103 then do {
       s \<leftarrow> State_Monad.get;
       case keys (world s) of
         (Suc d, k) # ks \<Rightarrow> do { modify (\<lambda>s. s\<lparr>world := (world s)\<lparr>keys := (d, k) # ks\<rparr>\<rparr>); State_Monad.return 0 }
       | (0, k) # ks \<Rightarrow> State_Monad.return 1
       | [] \<Rightarrow> State_Monad.return 0 }
     else if p = 102 then do {
       s \<leftarrow> State_Monad.get;
       case keys (world s) of
         (d, k) # ks \<Rightarrow> do { modify (\<lambda>s. s\<lparr>world := (world s)\<lparr>keys := ks\<rparr>\<rparr>); State_Monad.return k }
       | [] \<Rightarrow> State_Monad.return 0 }
     else if p = 110 then (case args of
       [Str n, Str v] \<Rightarrow> do {
         modify (\<lambda>s. s\<lparr>world := (world s)\<lparr>vars := (vars (world s))(n \<mapsto> v)\<rparr>\<rparr>); State_Monad.return 0 }
     | _ \<Rightarrow> State_Monad.return 0)
     else State_Monad.return 0)"

definition boot_monlib :: "console monlib" where
  "boot_monlib = \<lparr>fptr = (\<lambda>f. 0), monlock = 0, monunlock = 0, moncom = 0, ignorelock = 0,
     calls = [], world = \<lparr>keys = [(2, 0x78), (0, 0x66)], vars = Map.empty\<rparr>\<rparr>"

theorem Cstart_result_witness:
  "\<exists>N. \<forall>n\<ge>N. \<exists>s'. run_state (Cstart sample_console 0 1 8 12 n) boot_monlib = (Some 0, s') \<and>
    vars (world s') = (vars (world boot_monlib))(''DIAGNOSTICS_RESULT'' \<mapsto> ''FAIL'') \<and>
    keys (world s') = [] \<and> connected (\<lambda>c. c + 100) s' \<and> monlock s' = 0"
proof (rule Cstart_result)
  show "answers sample_console 1 (\<lambda>c. c + 100)" by (simp add: answers_def sample_console_def)
  show "console_law sample_console (\<lambda>c. c + 100)"
    by (simp add: console_law_def sample_console_def)
  show "keys (world boot_monlib) = [(2, 0x78)] @ (0, 0x66) # []" by (simp add: boot_monlib_def)
qed (simp_all add: verdict_def)

end
