(* ===== verification/RT_Names.thy ===== *)
theory RT_Names
  imports Main
begin

text \<open>
  The vocabulary of the programs: the functions of RTEMS, POSIX and the C library that the examples
  call, and the configuration macros that they define.  Neither is defined in the repository; a
  name carries no behaviour.
\<close>

text \<open>Directives of the Classic API: tasks, clock, synchronisation, timers.\<close>

datatype (plugins only:) directive =
    Rtems_task_create | Rtems_task_start | Rtems_task_delete | Rtems_task_wake_after
  | Rtems_task_wake_when | Rtems_task_self | Rtems_task_restart | Rtems_task_set_priority
  | Rtems_task_ident | Rtems_object_id_get_index
  | Rtems_configuration_number_of_initialization_tasks | Rtems_clock_get_ticks_per_second
  | Rtems_clock_get_ticks_since_boot | Rtems_clock_get_tod | Rtems_clock_set
  | Rtems_clock_get_uptime | Rtems_clock_get_nanoseconds_extension | Rtems_semaphore_create
  | Rtems_semaphore_obtain | Rtems_semaphore_release | Rtems_message_queue_create
  | Rtems_message_queue_send | Rtems_message_queue_receive | Rtems_event_send
  | Rtems_event_receive | Rtems_signal_send | Rtems_signal_catch | Rtems_timer_create
  | Rtems_timer_fire_after | Rtems_timer_server_fire_after | Rtems_timer_initiate_server
  | Rtems_rate_monotonic_create | Rtems_rate_monotonic_period | Rtems_rate_monotonic_delete
  | Rtems_rate_monotonic_report_statistics | Rtems_rate_monotonic_reset_all_statistics
  | Rtems_shutdown_executive | Rtems_fatal_error_occurred

text \<open>Other services of RTEMS and of board support packages.\<close>

datatype (plugins only:) service =
    Rtems_build_name | Rtems_region_create | Rtems_cpu_usage_report | Rtems_cpu_usage_reset
  | Rtems_stack_checker_report_usage | Rtems_status_text | Rtems_get_version_string
  | Rtems_io_register_name | Rtems_shell_init | Rtems_shell_script | Rtems_shell_write_file
  | Rtems_shell_lookup_cmd | Rtems_shell_make_args | Rtems_shell_initialize_command_set
  | Rtems_bdpart_register_from_disk | Rtems_fsmount | Rtems_bsdnet_initialize_network
  | Rtems_bsdnet_show_inet_routes | Rtems_bsp_cmdline_get | Rtems_bsp_cmdline_get_param
  | Rtems_bsp_cmdline_get_param_rhs | Bsp_uboot_getenv | Rtems_regulator_create
  | Rtems_regulator_obtain_buffer | Rtems_regulator_release_buffer | Rtems_regulator_send
  | Rtems_regulator_get_statistics | Rtems_regulator_delete | Stm32f4_gpio_set_config
  | Stm32f4_gpio_set_output | Rtems_shell_command | Untar_FromMemory

text \<open>
  POSIX threads, message queues, scheduling and signals.  A wait for a condition variable is two
  steps: \<open>pthread_cond_wait\<close> releases the mutex and waits, \<open>pthread_cond_wait_return\<close> is its return.
\<close>

datatype (plugins only:) posix_fn =
    Signal | Sigemptyset | Sigaddset | Sigprocmask | Sigaction | Pthread_create | Pthread_join
  | Pthread_exit | Pthread_self | Pthread_cancel | Pthread_setcanceltype | Pthread_setname_np
  | Pthread_mutex_init | Pthread_mutex_lock | Pthread_mutex_unlock | Pthread_mutex_destroy
  | Pthread_cond_init | Pthread_cond_wait | Pthread_cond_timedwait | Pthread_cond_signal
  | Pthread_cond_destroy | Pthread_mutexattr_init | Pthread_mutexattr_gettype
  | Pthread_mutexattr_setprotocol | Pthread_mutexattr_getprotocol
  | Pthread_mutexattr_setprioceiling | Pthread_mutexattr_getprioceiling
  | Pthread_mutexattr_getpshared | Pthread_condattr_init | Pthread_condattr_getpshared
  | Pthread_condattr_getclock | Pthread_rwlockattr_init | Pthread_rwlockattr_getpshared
  | Pthread_barrierattr_init | Pthread_barrierattr_getpshared | Pthread_attr_init
  | Pthread_attr_destroy | Pthread_attr_setstacksize | Pthread_attr_getstacksize
  | Pthread_attr_getstack | Pthread_attr_getstackaddr | Pthread_attr_getscope
  | Pthread_attr_setschedpolicy | Pthread_attr_getschedpolicy | Pthread_attr_setschedparam
  | Pthread_attr_getschedparam | Pthread_attr_getinheritsched | Pthread_attr_setinheritsched
  | Pthread_attr_getguardsize | Pthread_attr_getdetachstate | Pthread_setschedparam
  | Pthread_getschedparam | Sched_get_priority_max | Sched_get_priority_min
  | Sched_rr_get_interval | Sched_yield | Mq_open | Mq_send | Mq_receive | Mq_getattr
  | Mq_setattr | Mq_close | Mq_unlink | Pthread_cond_wait_return

text \<open>The C library and file descriptors.\<close>

datatype (plugins only:) libc_fn =
    Assert_func | Exit | Abort | Puts | Printf | Fprintf | Fputs | Putchar | Fflush | Perror
  | Printk | Fgets | Fopen | Fclose | Fread | Ferror | Getc | Open_fd | Close_fd | Read_fd
  | Write_fd | Ioctl | Fcntl | Creat | Mkdir | Chdir | Chmod | Stat | Opendir | Readdir
  | Closedir | Sleep | Nanosleep | Time | Alarm | Getpid | Kill | Setuid | Raise_signal
  | Strtol | Strtod | Strerror | Malloc | Free | Strdup | Memcpy | Memset | Clock_gettime
  | Clock_settime | Gettimeofday | Gmtime_r | Cerr | Cout | Sprintf | Getopt | Memcmp | New_chars | Delete_object

text \<open>Threads, mutexes, condition variables and thread-specific storage of C11.\<close>

datatype (plugins only:) c11_fn =
    Thrd_create | Thrd_yield | Thrd_sleep | Thrd_exit | Thrd_join | Thrd_detach
  | Thrd_current | Thrd_equal | Call_once | Mtx_init | Mtx_lock | Mtx_trylock
  | Mtx_timedlock | Mtx_unlock | Mtx_destroy | Cnd_init | Cnd_wait | Cnd_signal
  | Cnd_destroy | Tss_create | Tss_set | Tss_get | Tss_delete

datatype (plugins only:) sysfn =
    Directive directive
  | Service service
  | Posix posix_fn
  | Libc libc_fn
  | C11 c11_fn

text \<open>The functions under the names of the source; \<open>open\<close>, \<open>close\<close>, \<open>read\<close> and \<open>write\<close> get a suffix.\<close>

abbreviation "rtems_task_create \<equiv> Directive Rtems_task_create"
abbreviation "rtems_task_start \<equiv> Directive Rtems_task_start"
abbreviation "rtems_task_delete \<equiv> Directive Rtems_task_delete"
abbreviation "rtems_task_wake_after \<equiv> Directive Rtems_task_wake_after"
abbreviation "rtems_task_wake_when \<equiv> Directive Rtems_task_wake_when"
abbreviation "rtems_task_self \<equiv> Directive Rtems_task_self"
abbreviation "rtems_task_restart \<equiv> Directive Rtems_task_restart"
abbreviation "rtems_task_set_priority \<equiv> Directive Rtems_task_set_priority"
abbreviation "rtems_task_ident \<equiv> Directive Rtems_task_ident"
abbreviation "rtems_object_id_get_index \<equiv> Directive Rtems_object_id_get_index"
abbreviation "rtems_configuration_number_of_initialization_tasks \<equiv> Directive Rtems_configuration_number_of_initialization_tasks"
abbreviation "rtems_clock_get_ticks_per_second \<equiv> Directive Rtems_clock_get_ticks_per_second"
abbreviation "rtems_clock_get_ticks_since_boot \<equiv> Directive Rtems_clock_get_ticks_since_boot"
abbreviation "rtems_clock_get_tod \<equiv> Directive Rtems_clock_get_tod"
abbreviation "rtems_clock_set \<equiv> Directive Rtems_clock_set"
abbreviation "rtems_clock_get_uptime \<equiv> Directive Rtems_clock_get_uptime"
abbreviation "rtems_clock_get_nanoseconds_extension \<equiv> Directive Rtems_clock_get_nanoseconds_extension"
abbreviation "rtems_semaphore_create \<equiv> Directive Rtems_semaphore_create"
abbreviation "rtems_semaphore_obtain \<equiv> Directive Rtems_semaphore_obtain"
abbreviation "rtems_semaphore_release \<equiv> Directive Rtems_semaphore_release"
abbreviation "rtems_message_queue_create \<equiv> Directive Rtems_message_queue_create"
abbreviation "rtems_message_queue_send \<equiv> Directive Rtems_message_queue_send"
abbreviation "rtems_message_queue_receive \<equiv> Directive Rtems_message_queue_receive"
abbreviation "rtems_event_send \<equiv> Directive Rtems_event_send"
abbreviation "rtems_event_receive \<equiv> Directive Rtems_event_receive"
abbreviation "rtems_signal_send \<equiv> Directive Rtems_signal_send"
abbreviation "rtems_signal_catch \<equiv> Directive Rtems_signal_catch"
abbreviation "rtems_timer_create \<equiv> Directive Rtems_timer_create"
abbreviation "rtems_timer_fire_after \<equiv> Directive Rtems_timer_fire_after"
abbreviation "rtems_timer_server_fire_after \<equiv> Directive Rtems_timer_server_fire_after"
abbreviation "rtems_timer_initiate_server \<equiv> Directive Rtems_timer_initiate_server"
abbreviation "rtems_rate_monotonic_create \<equiv> Directive Rtems_rate_monotonic_create"
abbreviation "rtems_rate_monotonic_period \<equiv> Directive Rtems_rate_monotonic_period"
abbreviation "rtems_rate_monotonic_delete \<equiv> Directive Rtems_rate_monotonic_delete"
abbreviation "rtems_rate_monotonic_report_statistics \<equiv> Directive Rtems_rate_monotonic_report_statistics"
abbreviation "rtems_rate_monotonic_reset_all_statistics \<equiv> Directive Rtems_rate_monotonic_reset_all_statistics"
abbreviation "rtems_shutdown_executive \<equiv> Directive Rtems_shutdown_executive"
abbreviation "rtems_fatal_error_occurred \<equiv> Directive Rtems_fatal_error_occurred"
abbreviation "rtems_build_name \<equiv> Service Rtems_build_name"
abbreviation "rtems_region_create \<equiv> Service Rtems_region_create"
abbreviation "rtems_cpu_usage_report \<equiv> Service Rtems_cpu_usage_report"
abbreviation "rtems_cpu_usage_reset \<equiv> Service Rtems_cpu_usage_reset"
abbreviation "rtems_stack_checker_report_usage \<equiv> Service Rtems_stack_checker_report_usage"
abbreviation "rtems_status_text \<equiv> Service Rtems_status_text"
abbreviation "rtems_get_version_string \<equiv> Service Rtems_get_version_string"
abbreviation "rtems_io_register_name \<equiv> Service Rtems_io_register_name"
abbreviation "rtems_shell_init \<equiv> Service Rtems_shell_init"
abbreviation "rtems_shell_script \<equiv> Service Rtems_shell_script"
abbreviation "rtems_shell_write_file \<equiv> Service Rtems_shell_write_file"
abbreviation "rtems_shell_lookup_cmd \<equiv> Service Rtems_shell_lookup_cmd"
abbreviation "rtems_shell_make_args \<equiv> Service Rtems_shell_make_args"
abbreviation "rtems_shell_initialize_command_set \<equiv> Service Rtems_shell_initialize_command_set"
abbreviation "rtems_bdpart_register_from_disk \<equiv> Service Rtems_bdpart_register_from_disk"
abbreviation "rtems_fsmount \<equiv> Service Rtems_fsmount"
abbreviation "rtems_bsdnet_initialize_network \<equiv> Service Rtems_bsdnet_initialize_network"
abbreviation "rtems_bsdnet_show_inet_routes \<equiv> Service Rtems_bsdnet_show_inet_routes"
abbreviation "rtems_bsp_cmdline_get \<equiv> Service Rtems_bsp_cmdline_get"
abbreviation "rtems_bsp_cmdline_get_param \<equiv> Service Rtems_bsp_cmdline_get_param"
abbreviation "rtems_bsp_cmdline_get_param_rhs \<equiv> Service Rtems_bsp_cmdline_get_param_rhs"
abbreviation "bsp_uboot_getenv \<equiv> Service Bsp_uboot_getenv"
abbreviation "rtems_regulator_create \<equiv> Service Rtems_regulator_create"
abbreviation "rtems_regulator_obtain_buffer \<equiv> Service Rtems_regulator_obtain_buffer"
abbreviation "rtems_regulator_release_buffer \<equiv> Service Rtems_regulator_release_buffer"
abbreviation "rtems_regulator_send \<equiv> Service Rtems_regulator_send"
abbreviation "rtems_regulator_get_statistics \<equiv> Service Rtems_regulator_get_statistics"
abbreviation "rtems_regulator_delete \<equiv> Service Rtems_regulator_delete"
abbreviation "stm32f4_gpio_set_config \<equiv> Service Stm32f4_gpio_set_config"
abbreviation "stm32f4_gpio_set_output \<equiv> Service Stm32f4_gpio_set_output"
abbreviation "rtems_shell_command \<equiv> Service Rtems_shell_command"
abbreviation "untar_from_memory \<equiv> Service Untar_FromMemory"
abbreviation "signal \<equiv> Posix Signal"
abbreviation "sigemptyset \<equiv> Posix Sigemptyset"
abbreviation "sigaddset \<equiv> Posix Sigaddset"
abbreviation "sigprocmask \<equiv> Posix Sigprocmask"
abbreviation "sigaction \<equiv> Posix Sigaction"
abbreviation "pthread_create \<equiv> Posix Pthread_create"
abbreviation "pthread_join \<equiv> Posix Pthread_join"
abbreviation "pthread_exit \<equiv> Posix Pthread_exit"
abbreviation "pthread_self \<equiv> Posix Pthread_self"
abbreviation "pthread_cancel \<equiv> Posix Pthread_cancel"
abbreviation "pthread_setcanceltype \<equiv> Posix Pthread_setcanceltype"
abbreviation "pthread_setname_np \<equiv> Posix Pthread_setname_np"
abbreviation "pthread_mutex_init \<equiv> Posix Pthread_mutex_init"
abbreviation "pthread_mutex_lock \<equiv> Posix Pthread_mutex_lock"
abbreviation "pthread_mutex_unlock \<equiv> Posix Pthread_mutex_unlock"
abbreviation "pthread_mutex_destroy \<equiv> Posix Pthread_mutex_destroy"
abbreviation "pthread_cond_init \<equiv> Posix Pthread_cond_init"
abbreviation "pthread_cond_wait \<equiv> Posix Pthread_cond_wait"
abbreviation "pthread_cond_timedwait \<equiv> Posix Pthread_cond_timedwait"
abbreviation "pthread_cond_signal \<equiv> Posix Pthread_cond_signal"
abbreviation "pthread_cond_destroy \<equiv> Posix Pthread_cond_destroy"
abbreviation "pthread_mutexattr_init \<equiv> Posix Pthread_mutexattr_init"
abbreviation "pthread_mutexattr_gettype \<equiv> Posix Pthread_mutexattr_gettype"
abbreviation "pthread_mutexattr_setprotocol \<equiv> Posix Pthread_mutexattr_setprotocol"
abbreviation "pthread_mutexattr_getprotocol \<equiv> Posix Pthread_mutexattr_getprotocol"
abbreviation "pthread_mutexattr_setprioceiling \<equiv> Posix Pthread_mutexattr_setprioceiling"
abbreviation "pthread_mutexattr_getprioceiling \<equiv> Posix Pthread_mutexattr_getprioceiling"
abbreviation "pthread_mutexattr_getpshared \<equiv> Posix Pthread_mutexattr_getpshared"
abbreviation "pthread_condattr_init \<equiv> Posix Pthread_condattr_init"
abbreviation "pthread_condattr_getpshared \<equiv> Posix Pthread_condattr_getpshared"
abbreviation "pthread_condattr_getclock \<equiv> Posix Pthread_condattr_getclock"
abbreviation "pthread_rwlockattr_init \<equiv> Posix Pthread_rwlockattr_init"
abbreviation "pthread_rwlockattr_getpshared \<equiv> Posix Pthread_rwlockattr_getpshared"
abbreviation "pthread_barrierattr_init \<equiv> Posix Pthread_barrierattr_init"
abbreviation "pthread_barrierattr_getpshared \<equiv> Posix Pthread_barrierattr_getpshared"
abbreviation "pthread_attr_init \<equiv> Posix Pthread_attr_init"
abbreviation "pthread_attr_destroy \<equiv> Posix Pthread_attr_destroy"
abbreviation "pthread_attr_setstacksize \<equiv> Posix Pthread_attr_setstacksize"
abbreviation "pthread_attr_getstacksize \<equiv> Posix Pthread_attr_getstacksize"
abbreviation "pthread_attr_getstack \<equiv> Posix Pthread_attr_getstack"
abbreviation "pthread_attr_getstackaddr \<equiv> Posix Pthread_attr_getstackaddr"
abbreviation "pthread_attr_getscope \<equiv> Posix Pthread_attr_getscope"
abbreviation "pthread_attr_setschedpolicy \<equiv> Posix Pthread_attr_setschedpolicy"
abbreviation "pthread_attr_getschedpolicy \<equiv> Posix Pthread_attr_getschedpolicy"
abbreviation "pthread_attr_setschedparam \<equiv> Posix Pthread_attr_setschedparam"
abbreviation "pthread_attr_getschedparam \<equiv> Posix Pthread_attr_getschedparam"
abbreviation "pthread_attr_getinheritsched \<equiv> Posix Pthread_attr_getinheritsched"
abbreviation "pthread_attr_setinheritsched \<equiv> Posix Pthread_attr_setinheritsched"
abbreviation "pthread_attr_getguardsize \<equiv> Posix Pthread_attr_getguardsize"
abbreviation "pthread_attr_getdetachstate \<equiv> Posix Pthread_attr_getdetachstate"
abbreviation "pthread_setschedparam \<equiv> Posix Pthread_setschedparam"
abbreviation "pthread_getschedparam \<equiv> Posix Pthread_getschedparam"
abbreviation "sched_get_priority_max \<equiv> Posix Sched_get_priority_max"
abbreviation "sched_get_priority_min \<equiv> Posix Sched_get_priority_min"
abbreviation "sched_rr_get_interval \<equiv> Posix Sched_rr_get_interval"
abbreviation "sched_yield \<equiv> Posix Sched_yield"
abbreviation "mq_open \<equiv> Posix Mq_open"
abbreviation "mq_send \<equiv> Posix Mq_send"
abbreviation "mq_receive \<equiv> Posix Mq_receive"
abbreviation "mq_getattr \<equiv> Posix Mq_getattr"
abbreviation "mq_setattr \<equiv> Posix Mq_setattr"
abbreviation "mq_close \<equiv> Posix Mq_close"
abbreviation "mq_unlink \<equiv> Posix Mq_unlink"
abbreviation "pthread_cond_wait_return \<equiv> Posix Pthread_cond_wait_return"
abbreviation "assert_func \<equiv> Libc Assert_func"
abbreviation "exit \<equiv> Libc Exit"
abbreviation "abort \<equiv> Libc Abort"
abbreviation "puts \<equiv> Libc Puts"
abbreviation "printf \<equiv> Libc Printf"
abbreviation "fprintf \<equiv> Libc Fprintf"
abbreviation "fputs \<equiv> Libc Fputs"
abbreviation "putchar \<equiv> Libc Putchar"
abbreviation "fflush \<equiv> Libc Fflush"
abbreviation "perror \<equiv> Libc Perror"
abbreviation "printk \<equiv> Libc Printk"
abbreviation "fgets \<equiv> Libc Fgets"
abbreviation "fopen \<equiv> Libc Fopen"
abbreviation "fclose \<equiv> Libc Fclose"
abbreviation "fread \<equiv> Libc Fread"
abbreviation "ferror \<equiv> Libc Ferror"
abbreviation "getc \<equiv> Libc Getc"
abbreviation "open_fd \<equiv> Libc Open_fd"
abbreviation "close_fd \<equiv> Libc Close_fd"
abbreviation "read_fd \<equiv> Libc Read_fd"
abbreviation "write_fd \<equiv> Libc Write_fd"
abbreviation "ioctl \<equiv> Libc Ioctl"
abbreviation "fcntl \<equiv> Libc Fcntl"
abbreviation "creat \<equiv> Libc Creat"
abbreviation "mkdir \<equiv> Libc Mkdir"
abbreviation "chdir \<equiv> Libc Chdir"
abbreviation "chmod \<equiv> Libc Chmod"
abbreviation "stat \<equiv> Libc Stat"
abbreviation "opendir \<equiv> Libc Opendir"
abbreviation "readdir \<equiv> Libc Readdir"
abbreviation "closedir \<equiv> Libc Closedir"
abbreviation "sleep \<equiv> Libc Sleep"
abbreviation "nanosleep \<equiv> Libc Nanosleep"
abbreviation "time_now \<equiv> Libc Time"
abbreviation "alarm \<equiv> Libc Alarm"
abbreviation "getpid \<equiv> Libc Getpid"
abbreviation "kill \<equiv> Libc Kill"
abbreviation "setuid \<equiv> Libc Setuid"
abbreviation "raise_signal \<equiv> Libc Raise_signal"
abbreviation "strtol \<equiv> Libc Strtol"
abbreviation "strtod \<equiv> Libc Strtod"
abbreviation "strerror \<equiv> Libc Strerror"
abbreviation "malloc \<equiv> Libc Malloc"
abbreviation "free \<equiv> Libc Free"
abbreviation "strdup \<equiv> Libc Strdup"
abbreviation "memcpy \<equiv> Libc Memcpy"
abbreviation "memset \<equiv> Libc Memset"
abbreviation "clock_gettime \<equiv> Libc Clock_gettime"
abbreviation "clock_settime \<equiv> Libc Clock_settime"
abbreviation "gettimeofday \<equiv> Libc Gettimeofday"
abbreviation "gmtime_r \<equiv> Libc Gmtime_r"
abbreviation "cerr \<equiv> Libc Cerr"
abbreviation "cout \<equiv> Libc Cout"
abbreviation "sprintf \<equiv> Libc Sprintf"
abbreviation "getopt \<equiv> Libc Getopt"
abbreviation "memcmp \<equiv> Libc Memcmp"
abbreviation "new_chars \<equiv> Libc New_chars"
abbreviation "delete_object \<equiv> Libc Delete_object"
abbreviation "thrd_create \<equiv> C11 Thrd_create"
abbreviation "thrd_yield \<equiv> C11 Thrd_yield"
abbreviation "thrd_sleep \<equiv> C11 Thrd_sleep"
abbreviation "thrd_exit \<equiv> C11 Thrd_exit"
abbreviation "thrd_join \<equiv> C11 Thrd_join"
abbreviation "thrd_detach \<equiv> C11 Thrd_detach"
abbreviation "thrd_current \<equiv> C11 Thrd_current"
abbreviation "thrd_equal \<equiv> C11 Thrd_equal"
abbreviation "call_once \<equiv> C11 Call_once"
abbreviation "mtx_init \<equiv> C11 Mtx_init"
abbreviation "mtx_lock \<equiv> C11 Mtx_lock"
abbreviation "mtx_trylock \<equiv> C11 Mtx_trylock"
abbreviation "mtx_timedlock \<equiv> C11 Mtx_timedlock"
abbreviation "mtx_unlock \<equiv> C11 Mtx_unlock"
abbreviation "mtx_destroy \<equiv> C11 Mtx_destroy"
abbreviation "cnd_init \<equiv> C11 Cnd_init"
abbreviation "cnd_wait \<equiv> C11 Cnd_wait"
abbreviation "cnd_signal \<equiv> C11 Cnd_signal"
abbreviation "cnd_destroy \<equiv> C11 Cnd_destroy"
abbreviation "tss_create \<equiv> C11 Tss_create"
abbreviation "tss_set \<equiv> C11 Tss_set"
abbreviation "tss_get \<equiv> C11 Tss_get"
abbreviation "tss_delete \<equiv> C11 Tss_delete"

text \<open>The macros of \<open>rtems/confdefs.h\<close>.\<close>

datatype (plugins only:) macro =
    CONFIGURE_APPLICATION_DISABLE_FILESYSTEM
  | CONFIGURE_APPLICATION_DOES_NOT_NEED_CLOCK_DRIVER | CONFIGURE_APPLICATION_EXTRA_DRIVERS
  | CONFIGURE_APPLICATION_NEEDS_CLOCK_DRIVER | CONFIGURE_APPLICATION_NEEDS_CONSOLE_DRIVER
  | CONFIGURE_APPLICATION_NEEDS_IDE_DRIVER | CONFIGURE_APPLICATION_NEEDS_LIBBLOCK
  | CONFIGURE_APPLICATION_NEEDS_STUB_DRIVER | CONFIGURE_APPLICATION_NEEDS_ZERO_DRIVER
  | CONFIGURE_BDBUF_BUFFER_MAX_SIZE | CONFIGURE_BDBUF_CACHE_MEMORY_SIZE
  | CONFIGURE_BDBUF_MAX_READ_AHEAD_BLOCKS | CONFIGURE_BDBUF_READ_AHEAD_TASK_PRIORITY
  | CONFIGURE_CONFDEFS_DEBUG | CONFIGURE_DISABLE_CLASSIC_API_NOTEPADS
  | CONFIGURE_DISABLE_NEWLIB_REENTRANCY | CONFIGURE_EXTRA_TASK_STACKS
  | CONFIGURE_FILESYSTEM_DOSFS | CONFIGURE_GNAT_RTEMS | CONFIGURE_IDLE_TASK_BODY
  | CONFIGURE_IDLE_TASK_INITIALIZES_APPLICATION | CONFIGURE_IMFS_MEMFILE_BYTES_PER_BLOCK
  | CONFIGURE_INIT | CONFIGURE_INIT_TASK_ATTRIBUTES | CONFIGURE_INIT_TASK_ENTRY_POINT
  | CONFIGURE_INIT_TASK_INITIAL_MODES | CONFIGURE_INIT_TASK_STACK_SIZE
  | CONFIGURE_MALLOC_STATISTICS | CONFIGURE_MAXIMUM_ADA_TASKS
  | CONFIGURE_MAXIMUM_FAKE_ADA_TASKS | CONFIGURE_MAXIMUM_FILE_DESCRIPTORS
  | CONFIGURE_MAXIMUM_MESSAGE_QUEUES | CONFIGURE_MAXIMUM_PARTITIONS
  | CONFIGURE_MAXIMUM_PERIODS | CONFIGURE_MAXIMUM_POSIX_KEYS
  | CONFIGURE_MAXIMUM_POSIX_KEY_VALUE_PAIRS | CONFIGURE_MAXIMUM_POSIX_MESSAGE_QUEUES
  | CONFIGURE_MAXIMUM_POSIX_THREADS | CONFIGURE_MAXIMUM_PRIORITY
  | CONFIGURE_MAXIMUM_PROCESSORS | CONFIGURE_MAXIMUM_SEMAPHORES | CONFIGURE_MAXIMUM_TASKS
  | CONFIGURE_MAXIMUM_TIMERS | CONFIGURE_MAXIMUM_USER_EXTENSIONS | CONFIGURE_MEMORY_OVERHEAD
  | CONFIGURE_MESSAGE_BUFFER_MEMORY | CONFIGURE_MICROSECONDS_PER_TICK
  | CONFIGURE_MINIMUM_TASK_STACK_SIZE | CONFIGURE_POSIX_INIT_THREAD_TABLE
  | CONFIGURE_RTEMS_INIT_TASKS_TABLE | CONFIGURE_SHELL_COMMANDS_ALL
  | CONFIGURE_SHELL_COMMANDS_INIT | CONFIGURE_SHELL_MOUNT_MSDOS
  | CONFIGURE_SHELL_USER_COMMANDS | CONFIGURE_STACK_CHECKER_ENABLED
  | CONFIGURE_SWAPOUT_TASK_PRIORITY | CONFIGURE_TERMIOS_DISABLED
  | CONFIGURE_UNIFIED_WORK_AREAS | CONFIGURE_UNLIMITED_OBJECTS
  | CONFIGURE_USE_DEVFS_AS_BASE_FILESYSTEM | CONFIGURE_USE_IMFS_AS_BASE_FILESYSTEM
  | CONFIGURE_ZERO_WORKSPACE_AUTOMATICALLY

end
