(* ===== verification/RT_Prog.thy ===== *)
theory RT_Prog
  imports NB_Prelude RT_Names "HOL-Library.Sublist"
begin

text \<open>
  Programs over an operating system: the shared vocabulary of the RTEMS examples.

  RTEMS, the POSIX interface and the C library are not part of the repository.  A program is a
  tree of calls to them: \<open>Call f args k\<close> names the C function and its arguments and goes on with
  \<open>k\<close> and the reply, \<open>Get\<close> and \<open>Put\<close> are single accesses to the program's own global variables,
  \<open>Halt\<close> is the end of the program by a failed \<open>assert\<close> or an \<open>exit\<close>.  What a call replies, and
  whether it returns at all, is a parameter: a \<open>kernel\<close>, any function of the calls made so far.

  A loop that the source never leaves is unfolded \<open>n\<close> times (\<open>forever n\<close>) and then \<open>Cut\<close>; the
  statements hold for every \<open>n\<close>, so they hold for every prefix of the endless run.
\<close>

section \<open>Values and replies\<close>

text \<open>
  Arguments and results: integers, strings (object names included), symbols that RTEMS headers
  define or addresses (by their name in the source), and operators applied to such symbols.
\<close>

datatype val = VInt int | VStr string | VRef string | VOp string "val list"

text \<open>A reply: the returned value, and what the call stored through its pointer arguments.\<close>

datatype reply = Reply (ret: val) (outs: "val list")

type_synonym syscall = "sysfn \<times> val list"
type_synonym event = "syscall \<times> reply"
type_synonym kernel = "event list \<Rightarrow> syscall \<Rightarrow> reply option"

abbreviation SUCCESSFUL :: val where
  "SUCCESSFUL \<equiv> VRef ''RTEMS_SUCCESSFUL''"

primrec as_int :: "val \<Rightarrow> int" where
  "as_int (VInt i) = i"
| "as_int (VStr s) = 0"
| "as_int (VRef s) = 0"
| "as_int (VOp f vs) = 0"

text \<open>An output argument that the call did not store keeps its old value.\<close>

definition out :: "reply \<Rightarrow> nat \<Rightarrow> val \<Rightarrow> val" where
  "out r i old = (if i < length (outs r) then outs r ! i else old)"

text \<open>\<open>isspace\<close> in the C locale.\<close>

definition is_space :: "char \<Rightarrow> bool" where
  "is_space c \<longleftrightarrow> c \<in> set [CHR '' '', CHR 0x09, CHR 0x0A, CHR 0x0B, CHR 0x0C, CHR 0x0D]"

text \<open>The string in a buffer: the characters before its terminator.\<close>

definition c_str :: "string \<Rightarrow> string" where
  "c_str = takeWhile (\<lambda>c. c \<noteq> CHR 0x00)"

section \<open>Programs\<close>

datatype ('g, 'a) prog =
    Ret 'a
  | Halt
  | Cut
  | Call sysfn "val list" "reply \<Rightarrow> ('g, 'a) prog"
  | Get "'g \<Rightarrow> ('g, 'a) prog"
  | Put "'g \<Rightarrow> 'g" "('g, 'a) prog"

primrec bindp :: "('g, 'a) prog \<Rightarrow> ('a \<Rightarrow> ('g, 'b) prog) \<Rightarrow> ('g, 'b) prog" where
  "bindp (Ret x) q = q x"
| "bindp Halt q = Halt"
| "bindp Cut q = Cut"
| "bindp (Call f args k) q = Call f args (\<lambda>r. bindp (k r) q)"
| "bindp (Get k) q = Get (\<lambda>g. bindp (k g) q)"
| "bindp (Put u p) q = Put u (bindp p q)"

text \<open>A call whose result is not used, \<open>assert\<close>, and the loops.\<close>

abbreviation Do :: "sysfn \<Rightarrow> val list \<Rightarrow> ('g, 'a) prog \<Rightarrow> ('g, 'a) prog" where
  "Do f args p \<equiv> Call f args (\<lambda>_. p)"

definition asserting :: "bool \<Rightarrow> ('g, 'a) prog \<Rightarrow> ('g, 'a) prog" where
  "asserting b p = (if b then p else Do assert_func [] Halt)"

primrec forever :: "nat \<Rightarrow> ('l \<Rightarrow> ('g, 'l) prog) \<Rightarrow> 'l \<Rightarrow> ('g, 'a) prog" where
  "forever 0 body l = Cut"
| "forever (Suc n) body l = bindp (body l) (forever n body)"

primrec for_each :: "'x list \<Rightarrow> ('x \<Rightarrow> 'l \<Rightarrow> ('g, 'l) prog) \<Rightarrow> 'l \<Rightarrow> ('g, 'l) prog" where
  "for_each [] body l = Ret l"
| "for_each (x # xs) body l = bindp (body x l) (for_each xs body)"

section \<open>One program on a kernel\<close>

datatype 'a outcome = Done 'a | Halted | Unfinished | Blocked syscall

primrec exec :: "kernel \<Rightarrow> ('g, 'a) prog \<Rightarrow> 'g \<Rightarrow> event list \<Rightarrow> 'a outcome \<times> 'g \<times> event list" where
  "exec K (Ret x) g h = (Done x, g, h)"
| "exec K Halt g h = (Halted, g, h)"
| "exec K Cut g h = (Unfinished, g, h)"
| "exec K (Call f args k) g h =
    (case K h (f, args) of None \<Rightarrow> (Blocked (f, args), g, h)
     | Some r \<Rightarrow> exec K (k r) g (h @ [((f, args), r)]))"
| "exec K (Get k) g h = exec K (k g) g h"
| "exec K (Put u p) g h = exec K p (u g) h"

definition trace_of :: "'a outcome \<times> 'g \<times> event list \<Rightarrow> event list" where
  "trace_of res = snd (snd res)"

lemma exec_bindp:
  "exec K (bindp p q) g h =
    (case exec K p g h of
       (Done x, g', h') \<Rightarrow> exec K (q x) g' h'
     | (Halted, g', h') \<Rightarrow> (Halted, g', h')
     | (Unfinished, g', h') \<Rightarrow> (Unfinished, g', h')
     | (Blocked c, g', h') \<Rightarrow> (Blocked c, g', h'))"
  by (induction p arbitrary: g h) (simp_all split: option.split)

lemma exec_extends: "\<exists>t. trace_of (exec K p g h) = h @ t"
proof (induction p arbitrary: g h)
  case (Call f args k)
  show ?case
  proof (cases "K h (f, args)")
    case (Some r)
    obtain t where "trace_of (exec K (k r) g (h @ [((f, args), r)])) = (h @ [((f, args), r)]) @ t"
      using Call.IH [OF rangeI] by blast
    then show ?thesis using Some by simp
  qed (simp add: trace_of_def)
qed (auto simp: trace_of_def)

section \<open>How often a function is called\<close>

definition calls_to :: "sysfn \<Rightarrow> event list \<Rightarrow> nat" where
  "calls_to f h = length (filter (\<lambda>e. fst (fst e) = f) h)"

lemma calls_to_simps [simp]:
  "calls_to f [] = 0"
  "calls_to f (e # h) = (if fst (fst e) = f then 1 else 0) + calls_to f h"
  "calls_to f (h @ h') = calls_to f h + calls_to f h'"
  by (simp_all add: calls_to_def)

primrec at_most :: "sysfn \<Rightarrow> ('g, 'a) prog \<Rightarrow> nat \<Rightarrow> bool" where
  "at_most f (Ret x) n = True"
| "at_most f Halt n = True"
| "at_most f Cut n = True"
| "at_most f (Call h args k) n =
    (if h = f then 0 < n \<and> (\<forall>r. at_most f (k r) (n - 1)) else (\<forall>r. at_most f (k r) n))"
| "at_most f (Get k) n = (\<forall>g. at_most f (k g) n)"
| "at_most f (Put u p) n = at_most f p n"

lemma at_most_exec:
  "at_most f p n \<Longrightarrow> calls_to f (trace_of (exec K p g h)) \<le> calls_to f h + n"
proof (induction p arbitrary: g h n)
  case (Call h' args k)
  show ?case
  proof (cases "K h (h', args)")
    case None
    then show ?thesis by (simp add: trace_of_def)
  next
    case (Some r)
    let ?n = "if h' = f then n - 1 else n"
    have "at_most f (k r) ?n" using Call.prems by (auto split: if_splits)
    from Call.IH [OF rangeI this, of g "h @ [((h', args), r)]"] show ?thesis
      using Some Call.prems by (auto split: if_splits)
  qed
qed (auto simp: trace_of_def)

lemma at_most_mono: "at_most f p m \<Longrightarrow> m \<le> n \<Longrightarrow> at_most f p n"
proof (induction p arbitrary: m n)
  case (Call h args k)
  have "at_most f (k r) (n - 1)" if "at_most f (k r) (m - 1)" for r
    using Call.IH [OF rangeI that] Call.prems(2) by simp
  moreover have "at_most f (k r) n" if "at_most f (k r) m" for r
    using Call.IH [OF rangeI that Call.prems(2)] .
  ultimately show ?case using Call.prems by (auto split: if_splits)
qed (auto intro: rangeI)

lemma at_most_bindp:
  "at_most f p m \<Longrightarrow> (\<And>x. at_most f (q x) n) \<Longrightarrow> at_most f (bindp p q) (m + n)"
proof (induction p arbitrary: m)
  case (Call h args k)
  show ?case
  proof (cases "h = f")
    case True
    then have m: "0 < m" "at_most f (k r) (m - 1)" for r using Call.prems(1) by auto
    then have "at_most f (bindp (k r) q) (m - 1 + n)" for r
      using Call.IH [OF rangeI] Call.prems(2) by blast
    then show ?thesis using True m(1) by simp
  qed (use Call.IH [OF rangeI] Call.prems in auto)
next
  case (Ret x)
  then show ?case using at_most_mono [of f "q x" n "m + n"] by simp
qed auto

lemma at_most_forever:
  "(\<And>l. at_most f (body l) 0) \<Longrightarrow> at_most f (forever n body l) 0"
  by (induction n arbitrary: l) (auto intro: at_most_bindp [where m = 0 and n = 0, simplified])

lemma at_most_loop [simp]:
  "(\<forall>l. at_most f (body l) 0) \<Longrightarrow> at_most f (forever n body l) m"
  by (rule at_most_mono [OF at_most_forever]) auto

lemma at_most_seq [simp]:
  "at_most f p 0 \<Longrightarrow> \<forall>x. at_most f (q x) m \<Longrightarrow> at_most f (bindp p q) m"
  using at_most_bindp [of f p 0 q m] by simp

section \<open>Small steps, and interrupts between them\<close>

text \<open>
  One step of a task is one access to a global variable or one call.  An interrupt handler runs to
  its end between two steps of the task.
\<close>

type_synonym ('g, 'a) config = "('g, 'a) prog \<times> 'g \<times> event list"

inductive sstep :: "kernel \<Rightarrow> ('g, 'a) config \<Rightarrow> ('g, 'a) config \<Rightarrow> bool" for K where
  SCall: "K h (f, args) = Some r \<Longrightarrow> sstep K (Call f args k, g, h) (k r, g, h @ [((f, args), r)])"
| SGet: "sstep K (Get k, g, h) (k g, g, h)"
| SPut: "sstep K (Put u p, g, h) (p, u g, h)"

inductive_cases sstep_CallE: "sstep K (Call f args k, g, h) c"
inductive_cases sstep_GetE: "sstep K (Get k, g, h) c"
inductive_cases sstep_PutE: "sstep K (Put u p, g, h) c"

inductive_simps sstep_iff:
  "sstep K (Call f args k, g, h) (p, g', h')"
  "sstep K (Get k, g, h) (p, g', h')"
  "sstep K (Put u q, g, h) (p, g', h')"

inductive istep :: "kernel \<Rightarrow> ('g, unit) prog set \<Rightarrow> ('g, 'a) config \<Rightarrow> ('g, 'a) config \<Rightarrow> bool"
  for K and H :: "('g, unit) prog set" where
  Task: "sstep K c c' \<Longrightarrow> istep K H c c'"
| Interrupt: "p \<in> H \<Longrightarrow> exec K p g h = (Done (), g', h') \<Longrightarrow> istep K H (q, g, h) (q, g', h')"

inductive_cases istepE: "istep K H c c'"

lemma sstep_exec:
  assumes "sstep K (p, g, h) (p', g', h')"
  shows "exec K p g h = exec K p' g' h'"
  using assms by cases simp_all

lemma exec_sstep:
  "exec K p g h = (Done x, g', h') \<Longrightarrow> (sstep K)\<^sup>*\<^sup>* (p, g, h) (Ret x, g', h')"
proof (induction p arbitrary: g h)
  case (Call f args k)
  then obtain r where r: "K h (f, args) = Some r"
    "exec K (k r) g (h @ [((f, args), r)]) = (Done x, g', h')"
    by (auto split: option.splits)
  then show ?case using Call.IH [OF rangeI r(2)] SCall [of K h f args r k g]
    by (blast intro: converse_rtranclp_into_rtranclp)
next
  case (Get k)
  then show ?case using SGet [of K k g h] by (auto intro: converse_rtranclp_into_rtranclp)
next
  case (Put u p)
  then show ?case using SPut [of K u p g h] by (auto intro: converse_rtranclp_into_rtranclp)
qed auto

section \<open>Configurations\<close>

text \<open>The \<open>CONFIGURE_\<close> macros that an example defines before it includes \<open>rtems/confdefs.h\<close>.\<close>

type_synonym config_macros = "(macro \<times> val) list"

abbreviation defined :: val where "defined \<equiv> VStr ''''"

definition configured :: "config_macros \<Rightarrow> macro \<Rightarrow> nat" where
  "configured c m = (case map_of c m of Some (VInt n) \<Rightarrow> nat n | _ \<Rightarrow> 0)"

text \<open>
  The directives that allocate an object, the macro that bounds the objects of their class, and
  the macro that makes RTEMS create one of them, the initialization task or thread, before the
  program starts.
\<close>

definition object_classes :: "(sysfn \<times> macro \<times> macro option) list" where
  "object_classes =
    [(rtems_task_create, CONFIGURE_MAXIMUM_TASKS, Some CONFIGURE_RTEMS_INIT_TASKS_TABLE),
     (rtems_semaphore_create, CONFIGURE_MAXIMUM_SEMAPHORES, None),
     (rtems_message_queue_create, CONFIGURE_MAXIMUM_MESSAGE_QUEUES, None),
     (rtems_timer_create, CONFIGURE_MAXIMUM_TIMERS, None),
     (rtems_rate_monotonic_create, CONFIGURE_MAXIMUM_PERIODS, None),
     (pthread_create, CONFIGURE_MAXIMUM_POSIX_THREADS, Some CONFIGURE_POSIX_INIT_THREAD_TABLE)]"

definition reserved :: "config_macros \<Rightarrow> macro option \<Rightarrow> nat" where
  "reserved c m = (case m of None \<Rightarrow> 0 | Some t \<Rightarrow> if map_of c t = None then 0 else 1)"

definition within_limits :: "config_macros \<Rightarrow> ('g, 'a) prog \<Rightarrow> bool" where
  "within_limits c p \<longleftrightarrow>
    (\<forall>(f, m, i)\<in>set object_classes. at_most f p (configured c m - reserved c i))"

lemma within_limits_exec:
  assumes "within_limits c p" "(f, m, i) \<in> set object_classes"
  shows "calls_to f (trace_of (exec K p g [])) \<le> configured c m - reserved c i"
proof -
  have "at_most f p (configured c m - reserved c i)" using assms by (auto simp: within_limits_def)
  from at_most_exec [OF this, of K g "[]"] show ?thesis by simp
qed

section \<open>What a program does in order\<close>

text \<open>
  \<open>emits R obs p Q ls\<close>: whatever the calls reply within \<open>R\<close>, the calls of \<open>p\<close> that \<open>obs\<close> observes
  are \<open>ls\<close> in this order, and a value that \<open>p\<close> returns satisfies \<open>Q\<close>.
\<close>

primrec emits :: "(syscall \<Rightarrow> reply \<Rightarrow> bool) \<Rightarrow> (syscall \<Rightarrow> 'b option) \<Rightarrow> ('g, 'a) prog \<Rightarrow> ('a \<Rightarrow> bool) \<Rightarrow> 'b list \<Rightarrow> bool" where
  "emits R obs (Ret x) Q ls = (Q x \<and> ls = [])"
| "emits R obs Halt Q ls = True"
| "emits R obs Cut Q ls = (ls = [])"
| "emits R obs (Call f args k) Q ls =
    (case obs (f, args) of
       None \<Rightarrow> (\<forall>r. R (f, args) r \<longrightarrow> emits R obs (k r) Q ls)
     | Some b \<Rightarrow> ls \<noteq> [] \<and> hd ls = b \<and> (\<forall>r. R (f, args) r \<longrightarrow> emits R obs (k r) Q (tl ls)))"
| "emits R obs (Get k) Q ls = (\<forall>g. emits R obs (k g) Q ls)"
| "emits R obs (Put u p) Q ls = emits R obs p Q ls"

definition observed :: "(syscall \<Rightarrow> 'b option) \<Rightarrow> event list \<Rightarrow> 'b list" where
  "observed obs h = List.map_filter (\<lambda>e. obs (fst e)) h"

lemma observed_simps [simp]:
  "observed obs [] = []"
  "observed obs (e # h) = (case obs (fst e) of None \<Rightarrow> [] | Some b \<Rightarrow> [b]) @ observed obs h"
  "observed obs (h @ h') = observed obs h @ observed obs h'"
  by (simp_all add: observed_def List.map_filter_def split: option.split)

abbreviation any_reply :: "syscall \<Rightarrow> reply \<Rightarrow> bool" where
  "any_reply \<equiv> \<lambda>c r. True"

definition obeys :: "kernel \<Rightarrow> (syscall \<Rightarrow> reply \<Rightarrow> bool) \<Rightarrow> bool" where
  "obeys K R \<longleftrightarrow> (\<forall>h c r. K h c = Some r \<longrightarrow> R c r)"

lemma obeys_any [simp]: "obeys K any_reply"
  by (simp add: obeys_def)

text \<open>A program that is not the prefix of a longer one.\<close>

primrec whole :: "('g, 'a) prog \<Rightarrow> bool" where
  "whole (Ret x) = True"
| "whole Halt = True"
| "whole Cut = False"
| "whole (Call f args k) = (\<forall>r. whole (k r))"
| "whole (Get k) = (\<forall>g. whole (k g))"
| "whole (Put u p) = whole p"

lemma whole_bindp: "whole p \<Longrightarrow> (\<And>x. whole (q x)) \<Longrightarrow> whole (bindp p q)"
  by (induction p) auto

lemma whole_for_each: "(\<And>x l. whole (body x l)) \<Longrightarrow> whole (for_each xs body l)"
  by (induction xs arbitrary: l) (auto intro: whole_bindp)

lemma emits_bindp:
  "emits R obs p Q ls \<Longrightarrow> whole p \<Longrightarrow> (\<And>x. Q x \<Longrightarrow> emits R obs (q x) S ls') \<Longrightarrow> emits R obs (bindp p q) S (ls @ ls')"
proof (induction p arbitrary: ls)
  case (Call f args k)
  show ?case
  proof (cases "obs (f, args)")
    case None
    then show ?thesis using Call.IH [OF rangeI] Call.prems by simp
  next
    case (Some b)
    then have "emits R obs (bindp (k r) q) S (tl ls @ ls')" if "R (f, args) r" for r
      using Call.IH [OF rangeI] Call.prems that by simp
    then show ?thesis using Some Call.prems(1) by simp
  qed
qed auto

text \<open>Round \<open>i\<close> of an endless loop takes a state in \<open>I i\<close> to one in \<open>I (Suc i)\<close>.\<close>

lemma emits_rounds:
  assumes "\<And>i l. I i l \<Longrightarrow> emits R obs (body l) (I (Suc i)) (f i)"
    "\<And>i l. I i l \<Longrightarrow> whole (body l)" "I i l"
  shows "emits R obs (forever n body l) S (concat (map f [i..<i + n]))"
  using assms(3)
proof (induction n arbitrary: i l)
  case (Suc n)
  have "emits R obs (bindp (body l) (forever n body)) S (f i @ concat (map f [Suc i..<Suc i + n]))"
    using assms(1,2) Suc by (blast intro: emits_bindp)
  moreover have "[i..<i + Suc n] = i # [Suc i..<Suc i + n]"
    by (simp add: upt_conv_Cons)
  ultimately show ?case by simp
qed simp

lemma emits_forever:
  assumes "\<And>i. emits R obs (body (l i)) (\<lambda>x. x = l (Suc i)) (f i)" "\<And>i. whole (body (l i))"
  shows "emits R obs (forever n body (l i)) S (concat (map f [i..<i + n]))"
  by (rule emits_rounds [where I = "\<lambda>i x. x = l i"]) (use assms in auto)

lemmas emits_forever_0 = emits_forever [where i = 0, simplified]

lemma emits_count:
  assumes "l0 = l 0" "\<And>i. emits R obs (body (l i)) (\<lambda>x. x = l (Suc i)) [f i]" "\<And>i. whole (body (l i))"
  shows "emits R obs (forever n body l0) S (map f [0..<n])"
proof -
  have "concat (map (\<lambda>i. [f i]) [0..<n]) = map f [0..<n]" by simp
  then show ?thesis using emits_forever_0 [of R obs body l "\<lambda>i. [f i]", OF assms(2,3)] assms(1) by metis
qed

lemma emits_exec:
  "obeys K R \<Longrightarrow> emits R obs p Q ls \<Longrightarrow> exec K p g h = (oc, g', h') \<Longrightarrow>
    \<exists>t. observed obs h' = observed obs h @ t \<and> prefix t ls \<and>
      (\<forall>x. oc = Done x \<longrightarrow> Q x \<and> t = ls) \<and> (oc = Unfinished \<longrightarrow> t = ls)"
proof (induction p arbitrary: g h ls)
  case (Call f args k)
  show ?case
  proof (cases "K h (f, args)")
    case None
    then show ?thesis using Call.prems by auto
  next
    case (Some r)
    then have e: "exec K (k r) g (h @ [((f, args), r)]) = (oc, g', h')" using Call.prems by simp
    have ok: "R (f, args) r" using Some Call.prems(1) by (auto simp: obeys_def)
    show ?thesis
    proof (cases "obs (f, args)")
      case None
      then have "emits R obs (k r) Q ls" using Call.prems ok by simp
      from Call.IH [OF rangeI Call.prems(1) this e] show ?thesis using None by simp
    next
      case (Some b)
      then have "emits R obs (k r) Q (tl ls)" and ls: "ls = b # tl ls" using Call.prems ok by (auto simp: neq_Nil_conv)
      from Call.IH [OF rangeI Call.prems(1) this(1) e] obtain t where
        "observed obs h' = observed obs h @ b # t" "prefix t (tl ls)"
        "\<forall>x. oc = Done x \<longrightarrow> Q x \<and> t = tl ls" "oc = Unfinished \<longrightarrow> t = tl ls"
        using Some by auto
      then show ?thesis using ls by (intro exI [of _ "b # t"]) (metis Cons_prefix_Cons)
    qed
  qed
next
  case (Get k)
  then show ?case using Get.IH [OF rangeI Get.prems(1)] by simp
qed auto

text \<open>A program that does not end by itself before it returns, with replies within \<open>R\<close>.\<close>

primrec unhalted :: "(syscall \<Rightarrow> reply \<Rightarrow> bool) \<Rightarrow> ('g, 'a) prog \<Rightarrow> bool" where
  "unhalted R (Ret x) = True"
| "unhalted R Halt = False"
| "unhalted R Cut = True"
| "unhalted R (Call f args k) = (\<forall>r. R (f, args) r \<longrightarrow> unhalted R (k r))"
| "unhalted R (Get k) = (\<forall>g. unhalted R (k g))"
| "unhalted R (Put u p) = unhalted R p"

lemma unhalted_bindp [simp]: "unhalted R p \<Longrightarrow> \<forall>x. unhalted R (q x) \<Longrightarrow> unhalted R (bindp p q)"
  by (induction p) auto

lemma unhalted_forever [simp]: "\<forall>l. unhalted R (body l) \<Longrightarrow> unhalted R (forever n body l)"
  by (induction n arbitrary: l) auto

lemma unhalted_exec: "obeys K R \<Longrightarrow> unhalted R p \<Longrightarrow> exec K p g h = (Halted, g', h') \<Longrightarrow> False"
proof (induction p arbitrary: g h)
  case (Call f args k)
  then obtain r where r: "K h (f, args) = Some r" by (cases "K h (f, args)") auto
  then have "unhalted R (k r)" using Call.prems(1,2) by (simp add: obeys_def)
  then show ?case using Call.IH [OF rangeI Call.prems(1)] Call.prems(3) r by auto
next
  case (Get k)
  then show ?case using Get.IH [OF rangeI Get.prems(1)] by simp
qed auto

text \<open>A kernel that answers every call.\<close>

definition responsive :: "kernel \<Rightarrow> bool" where
  "responsive K \<longleftrightarrow> (\<forall>h c. K h c \<noteq> None)"

lemma responsive_exec:
  "responsive K \<Longrightarrow> exec K p g h = (Blocked c, g', h') \<Longrightarrow> False"
proof (induction p arbitrary: g h)
  case (Call f args k)
  then obtain r where r: "K h (f, args) = Some r" unfolding responsive_def by blast
  then have "exec K (k r) g (h @ [((f, args), r)]) = (Blocked c, g', h')" using Call.prems by simp
  then show ?case using Call.IH [OF rangeI Call.prems(1)] by blast
next
  case (Get k)
  then show ?case using Get.IH [OF rangeI] by simp
qed auto

lemma emits_responsive:
  assumes "emits R obs p Q ls" "unhalted R p" "responsive K" "obeys K R"
  shows "observed obs (trace_of (exec K p g [])) = ls"
proof -
  obtain oc g' h' where e: "exec K p g [] = (oc, g', h')" by (metis prod_cases3)
  have "oc \<noteq> Halted" using e unhalted_exec [OF assms(4,2)] by blast
  moreover have "oc \<noteq> Blocked c" for c
    using e responsive_exec [OF assms(3), of p g "[]" c g' h'] by auto
  ultimately show ?thesis
    using e emits_exec [OF assms(4,1) e] by (cases oc) (auto simp: trace_of_def)
qed

section \<open>Several tasks\<close>

text \<open>
  The tasks of a program take turns step by step; a successful \<open>rtems_task_start\<close> adds the task
  whose entry point and argument it names.
\<close>

definition started :: "(string \<Rightarrow> val \<Rightarrow> ('g, unit) prog option) \<Rightarrow> event \<Rightarrow> ('g, unit) prog list" where
  "started entries e =
    (case e of ((f, args), r) \<Rightarrow>
      if f = rtems_task_start \<and> ret r = SUCCESSFUL \<and> length args = 3 then
        (case args ! 1 of VRef t \<Rightarrow> (case entries t (args ! 2) of Some p \<Rightarrow> [p] | None \<Rightarrow> []) | _ \<Rightarrow> [])
      else [])"

lemma started_entry: "started entries e = [] \<or> (\<exists>t v p. entries t v = Some p \<and> started entries e = [p])"
  unfolding started_def by (auto split: prod.splits val.splits option.splits)

lemma started_task:
  assumes "p \<in> set (started entries e)"
  shows "fst (fst e) = rtems_task_start \<and> (\<exists>t. entries t (snd (fst e) ! 2) = Some p)"
proof -
  obtain f args r where e: "e = ((f, args), r)" by (metis prod.collapse)
  show ?thesis
  proof (cases "f = rtems_task_start \<and> ret r = SUCCESSFUL \<and> length args = 3")
    case True
    then show ?thesis using assms unfolding e started_def
      by (cases "args ! 1"; cases "case args ! 1 of VRef t \<Rightarrow> entries t (args ! 2) | _ \<Rightarrow> None") auto
  next
    case False
    then have "started entries e = []" unfolding e started_def by (simp only: prod.case if_False)
    then show ?thesis using assms by simp
  qed
qed

inductive pstep :: "kernel \<Rightarrow> (string \<Rightarrow> val \<Rightarrow> ('g, unit) prog option) \<Rightarrow>
    ('g, unit) prog list \<times> 'g \<times> event list \<Rightarrow> ('g, unit) prog list \<times> 'g \<times> event list \<Rightarrow> bool"
  for K entries where
  PCall: "i < length ps \<Longrightarrow> ps ! i = Call f args k \<Longrightarrow> K h (f, args) = Some r \<Longrightarrow>
    pstep K entries (ps, g, h)
      (ps[i := k r] @ started entries ((f, args), r), g, h @ [((f, args), r)])"
| PGet: "i < length ps \<Longrightarrow> ps ! i = Get k \<Longrightarrow> pstep K entries (ps, g, h) (ps[i := k g], g, h)"
| PPut: "i < length ps \<Longrightarrow> ps ! i = Put u p \<Longrightarrow> pstep K entries (ps, g, h) (ps[i := p], u g, h)"

inductive_cases pstepE: "pstep K entries (ps, g, h) c"

text \<open>A schedule, as the list of the tasks that take the steps, determines a run.\<close>

definition turn :: "kernel \<Rightarrow> (string \<Rightarrow> val \<Rightarrow> ('g, unit) prog option) \<Rightarrow> nat \<Rightarrow>
    ('g, unit) prog list \<times> 'g \<times> event list \<Rightarrow> (('g, unit) prog list \<times> 'g \<times> event list) option" where
  "turn K entries i c = (case c of (ps, g, h) \<Rightarrow>
     if i < length ps then
       (case ps ! i of
          Call f args k \<Rightarrow>
            (case K h (f, args) of None \<Rightarrow> None
             | Some r \<Rightarrow> Some (ps[i := k r] @ started entries ((f, args), r), g, h @ [((f, args), r)]))
        | Get k \<Rightarrow> Some (ps[i := k g], g, h)
        | Put u p \<Rightarrow> Some (ps[i := p], u g, h)
        | _ \<Rightarrow> None)
     else None)"

primrec schedule :: "kernel \<Rightarrow> (string \<Rightarrow> val \<Rightarrow> ('g, unit) prog option) \<Rightarrow> nat list \<Rightarrow>
    ('g, unit) prog list \<times> 'g \<times> event list \<Rightarrow> (('g, unit) prog list \<times> 'g \<times> event list) option" where
  "schedule K entries [] c = Some c"
| "schedule K entries (i # is) c = do { c' \<leftarrow> turn K entries i c; schedule K entries is c' }"

lemma turn_pstep: "turn K entries i c = Some c' \<Longrightarrow> pstep K entries c c'"
  by (auto simp: turn_def split: prod.splits prog.splits option.splits if_splits
      intro: PCall PGet PPut)

lemma schedule_pstep: "schedule K entries is c = Some c' \<Longrightarrow> (pstep K entries)\<^sup>*\<^sup>* c c'"
  by (induction "is" arbitrary: c)
     (auto split: bind_splits intro: converse_rtranclp_into_rtranclp dest: turn_pstep)

end
