(* ===== verification/Led.thy ===== *)
theory Led
  imports RT_Prog
begin

text \<open>
  The LED examples of \<open>led/\<close>: \<open>led.h\<close> with the register code of each board, and the blinkers
  \<open>delay\<close>, \<open>ratemon1\<close>, \<open>ratemon2\<close>, \<open>timeout_event\<close>, \<open>timer\<close>, \<open>timer_server\<close>, \<open>sem_server\<close>,
  \<open>msg_server\<close> and \<open>event_server\<close>.  The blinkers are modelled in the default configuration of
  \<open>led.h\<close>, which prints.
\<close>

section \<open>\<open>led.h\<close>\<close>

subsection \<open>mbx860\<close>

text \<open>The LED register after \<open>LED_ON\<close> and \<open>LED_OFF\<close>.\<close>

definition mbx860_LED_ON :: u8 where "mbx860_LED_ON = 0x0F"
definition mbx860_LED_OFF :: u8 where "mbx860_LED_OFF = 0x00"

subsection \<open>icecube\<close>

record mpc5200 =
  gpiosen :: u32
  gpiosdd :: u32
  gpiosdo :: u32

definition icecube_LED_INIT :: "mpc5200 \<Rightarrow> mpc5200" where
  "icecube_LED_INIT m =
     (let m = m\<lparr>gpiosen := gpiosen m OR 0x30000000\<rparr>
      in m\<lparr>gpiosdd := gpiosdd m OR 0x30000000\<rparr>)"

definition icecube_LED_ON :: "mpc5200 \<Rightarrow> mpc5200" where
  "icecube_LED_ON m = m\<lparr>gpiosdo := gpiosdo m OR 0x30000000\<rparr>"

definition icecube_LED_OFF :: "mpc5200 \<Rightarrow> mpc5200" where
  "icecube_LED_OFF m = m\<lparr>gpiosdo := gpiosdo m AND NOT 0x30000000\<rparr>"

subsection \<open>MPC8313ERDB\<close>

text \<open>The register, which is rewritten at every step, and the index into the table.\<close>

record mpc8313 =
  led_reg :: u8
  led_count :: u8

definition MPC8313_LED_Values :: "u8 list" where
  "MPC8313_LED_Values = [0x01, 0x02, 0x04, 0x08, 0x80, 0x40, 0x20, 0x10]"

definition mpc8313_LED_INIT :: "mpc8313 \<Rightarrow> mpc8313" where
  "mpc8313_LED_INIT m = m\<lparr>led_count := 0\<rparr>"

definition LED_ROTATE :: "mpc8313 \<Rightarrow> mpc8313 option" where
  "LED_ROTATE m = do {
     v \<leftarrow> rd MPC8313_LED_Values (unat (led_count m));
     let c = led_count m + 1;
     Some (m\<lparr>led_reg := v, led_count := (if c = 9 then 0 else c)\<rparr>) }"

primrec rotations :: "nat \<Rightarrow> mpc8313 \<Rightarrow> mpc8313 option" where
  "rotations 0 m = Some m"
| "rotations (Suc n) m = do { m' \<leftarrow> LED_ROTATE m; rotations n m' }"

subsection \<open>Raspberry Pi\<close>

text \<open>The GPIO registers as an array of words from \<open>BCM2835_GPIO_REGS_BASE\<close> on.\<close>

definition INP_GPIO :: "u32 list \<Rightarrow> nat \<Rightarrow> u32 list option" where
  "INP_GPIO gpio g = do {
     v \<leftarrow> rd gpio (g div 10);
     wr gpio (g div 10) (v AND NOT (push_bit ((g mod 10) * 3) 7)) }"

definition OUT_GPIO :: "u32 list \<Rightarrow> nat \<Rightarrow> u32 list option" where
  "OUT_GPIO gpio g = do {
     v \<leftarrow> rd gpio (g div 10);
     wr gpio (g div 10) (v OR push_bit ((g mod 10) * 3) 1) }"

definition bcm2835_LED_INIT :: "u32 list \<Rightarrow> u32 list option" where
  "bcm2835_LED_INIT gpio = OUT_GPIO gpio 47"

definition bcm2835_LED_ON :: "u32 list \<Rightarrow> u32 list option" where
  "bcm2835_LED_ON gpio = wr gpio 11 (push_bit (47 mod 32) 1)"

definition bcm2835_LED_OFF :: "u32 list \<Rightarrow> u32 list option" where
  "bcm2835_LED_OFF gpio = wr gpio 8 (push_bit (47 mod 32) 1)"

subsection \<open>STM32F4 and the default\<close>

record stm32f4_gpio_config =
  pin_first :: "nat \<times> nat"
  pin_last :: "nat \<times> nat"
  gpio_mode :: string
  otype :: string
  ospeed :: string
  pupd :: string
  gpio_output :: nat
  gpio_af :: nat

definition led3config :: stm32f4_gpio_config where
  "led3config = \<lparr>pin_first = (3, 12), pin_last = (3, 12), gpio_mode = ''STM32F4_GPIO_MODE_OUTPUT'',
     otype = ''STM32F4_GPIO_OTYPE_PUSH_PULL'', ospeed = ''STM32F4_GPIO_OSPEED_2_MHZ'',
     pupd = ''STM32F4_GPIO_NO_PULL'', gpio_output = 1, gpio_af = 0\<rparr>"

definition stm32f4_LED_INIT :: "('g, 'a) prog \<Rightarrow> ('g, 'a) prog" where
  "stm32f4_LED_INIT p = Do stm32f4_gpio_set_config [VRef ''led3config''] p"

definition stm32f4_LED_ON :: "('g, 'a) prog \<Rightarrow> ('g, 'a) prog" where
  "stm32f4_LED_ON p =
     Do stm32f4_gpio_set_output [VOp ''STM32F4_GPIO_PIN'' [VInt 3, VInt 12], VInt 1] p"

definition stm32f4_LED_OFF :: "('g, 'a) prog \<Rightarrow> ('g, 'a) prog" where
  "stm32f4_LED_OFF p =
     Do stm32f4_gpio_set_output [VOp ''STM32F4_GPIO_PIN'' [VInt 3, VInt 12], VInt 0] p"

definition LED_ON :: "('g, 'a) prog \<Rightarrow> ('g, 'a) prog" where
  "LED_ON p = Do fputs [VStr ''LED ON\<newline>'', VRef ''stderr''] p"

definition LED_OFF :: "('g, 'a) prog \<Rightarrow> ('g, 'a) prog" where
  "LED_OFF p = Do fputs [VStr ''LED OFF\<newline>'', VRef ''stderr''] p"

definition LED_INIT :: "('g, 'a) prog \<Rightarrow> ('g, 'a) prog" where
  "LED_INIT p = p"

section \<open>Single-task blinkers\<close>

subsection \<open>\<open>delay/init.c\<close>\<close>

definition delay_Init :: "nat \<Rightarrow> (unit, unit) prog" where
  "delay_Init n =
     Do puts [VStr ''\<newline>\<newline>*** LED BLINKER -- task wake after ***''] (
     Call rtems_clock_get_ticks_per_second [] (\<lambda>r.
     let one_second = VInt (1 * as_int (ret r)) in
     LED_INIT (
     forever n (\<lambda>_.
       Do rtems_task_wake_after [one_second] (
       LED_OFF (
       Do rtems_task_wake_after [one_second] (
       LED_ON (
       Ret ()))))) ())))"

definition delay_config :: config_macros where
  "delay_config =
    [(CONFIGURE_APPLICATION_NEEDS_CONSOLE_DRIVER, defined),
     (CONFIGURE_APPLICATION_NEEDS_CLOCK_DRIVER, defined),
     (CONFIGURE_MAXIMUM_TASKS, VInt 1),
     (CONFIGURE_RTEMS_INIT_TASKS_TABLE, defined),
     (CONFIGURE_INIT, defined)]"

subsection \<open>\<open>ratemon1/init.c\<close>\<close>

definition ratemon1_Init :: "nat \<Rightarrow> val \<Rightarrow> (unit, unit) prog" where
  "ratemon1_Init n uninit =
     Do puts [VStr ''\<newline>\<newline>*** LED BLINKER -- single period ***''] (
     LED_INIT (
     Call rtems_rate_monotonic_create [VStr ''PER1'', VRef ''&period_id''] (\<lambda>r.
     let period_id = out r 0 uninit in
     Call rtems_clock_get_ticks_per_second [] (\<lambda>r.
     let ticks = ret r in
     forever n (\<lambda>count :: u32.
       Do rtems_rate_monotonic_period [period_id, ticks] (
       (if count mod 2 = 0 then LED_OFF (Ret (count + 1)) else LED_ON (Ret (count + 1))))) 0))))"

definition ratemon1_config :: config_macros where
  "ratemon1_config =
    [(CONFIGURE_APPLICATION_NEEDS_CONSOLE_DRIVER, defined),
     (CONFIGURE_APPLICATION_NEEDS_CLOCK_DRIVER, defined),
     (CONFIGURE_MAXIMUM_TASKS, VInt 1),
     (CONFIGURE_MAXIMUM_PERIODS, VInt 1),
     (CONFIGURE_RTEMS_INIT_TASKS_TABLE, defined),
     (CONFIGURE_INIT, defined)]"

subsection \<open>\<open>ratemon2/init.c\<close>\<close>

definition twice :: "val \<Rightarrow> val" where
  "twice ticks = VInt (2 * as_int ticks)"

definition ratemon2_Init :: "nat \<Rightarrow> val \<Rightarrow> (unit, unit) prog" where
  "ratemon2_Init n uninit =
     Do puts [VStr ''\<newline>\<newline>*** LED BLINKER -- two periods ***''] (
     LED_INIT (
     Call rtems_rate_monotonic_create [VStr ''PER1'', VRef ''&period_id1''] (\<lambda>r.
     let period_id1 = out r 0 uninit in
     Call rtems_rate_monotonic_create [VStr ''PER2'', VRef ''&period_id2''] (\<lambda>r.
     let period_id2 = out r 0 uninit in
     Call rtems_clock_get_ticks_per_second [] (\<lambda>r.
     let ticks = ret r in
     Do rtems_rate_monotonic_period [period_id1, twice ticks] (
     LED_OFF (
     Do rtems_task_wake_after [ticks] (
     Do rtems_rate_monotonic_period [period_id2, twice ticks] (
     LED_ON (
     forever n (\<lambda>_.
       Do rtems_rate_monotonic_period [period_id1, twice ticks] (
       LED_OFF (
       Do rtems_rate_monotonic_period [period_id2, twice ticks] (
       LED_ON (
       Ret ()))))) ()))))))))))"

definition ratemon2_config :: config_macros where
  "ratemon2_config =
    [(CONFIGURE_APPLICATION_NEEDS_CONSOLE_DRIVER, defined),
     (CONFIGURE_APPLICATION_NEEDS_CLOCK_DRIVER, defined),
     (CONFIGURE_MAXIMUM_TASKS, VInt 1),
     (CONFIGURE_MAXIMUM_PERIODS, VInt 2),
     (CONFIGURE_RTEMS_INIT_TASKS_TABLE, defined),
     (CONFIGURE_INIT, defined)]"

subsection \<open>\<open>timeout_event/init.c\<close>\<close>

definition timeout_event_Init :: "nat \<Rightarrow> (unit, unit) prog" where
  "timeout_event_Init n =
     Do puts [VStr ''\<newline>\<newline>*** LED BLINKER -- event receive timeout ***''] (
     LED_INIT (
     forever n (\<lambda>count :: u32.
       Call rtems_clock_get_ticks_per_second [] (\<lambda>t.
       Call rtems_event_receive
         [VRef ''RTEMS_EVENT_1'', VRef ''RTEMS_DEFAULT_OPTIONS'', ret t, VRef ''&events''] (\<lambda>r.
       bindp (if ret r \<noteq> VRef ''RTEMS_TIMEOUT''
              then Do fputs [VStr ''receive did not timeout\<newline>'', VRef ''stderr''] (Ret ())
              else Ret ()) (\<lambda>_.
       (if count mod 2 = 0 then LED_OFF (Ret (count + 1)) else LED_ON (Ret (count + 1))))))) 0))"

definition timeout_event_config :: config_macros where
  "timeout_event_config =
    [(CONFIGURE_APPLICATION_NEEDS_CONSOLE_DRIVER, defined),
     (CONFIGURE_APPLICATION_NEEDS_CLOCK_DRIVER, defined),
     (CONFIGURE_MAXIMUM_TASKS, VInt 1),
     (CONFIGURE_RTEMS_INIT_TASKS_TABLE, defined),
     (CONFIGURE_INIT, defined)]"

section \<open>Timers\<close>

subsection \<open>\<open>timer/init.c\<close>\<close>

record timer_vars =
  led_do_print :: int
  led_value :: int
  Timer1 :: val
  Timer2 :: val

text \<open>Each of the four statements of the critical section is a step of its own.\<close>

definition LED_Change_Routine :: "(timer_vars, unit) prog" where
  "LED_Change_Routine =
     Get (\<lambda>g. let do_print = led_do_print g in
     Get (\<lambda>g. let value = led_value g in
     Put (led_do_print_update (\<lambda>_. 0)) (
     Put (led_value_update (\<lambda>_. 0)) (
     if do_print \<noteq> 0 then
       (if value = 1 then LED_OFF (Ret ()) else LED_ON (Ret ()))
     else Ret ()))))"

definition timer_Timer_Routine :: "val \<Rightarrow> (timer_vars, unit) prog" where
  "timer_Timer_Routine i =
     Get (\<lambda>g.
     bindp (if i = Timer1 g then Put (led_value_update (\<lambda>_. 1)) (Ret ())
            else Put (led_value_update (\<lambda>_. 2)) (Ret ())) (\<lambda>_.
     Put (led_do_print_update (\<lambda>_. 1)) (
     Call rtems_clock_get_ticks_per_second [] (\<lambda>t.
     Do rtems_timer_fire_after [i, twice (ret t), VRef ''Timer_Routine'', VRef ''NULL''] (
     Ret ())))))"

definition timer_Init :: "nat \<Rightarrow> (timer_vars, unit) prog" where
  "timer_Init n =
     Do puts [VStr ''\<newline>\<newline>*** LED BLINKER -- timer ***''] (
     LED_INIT (
     Call rtems_timer_create [VStr ''TMR1'', VRef ''&Timer1''] (\<lambda>r.
     Put (\<lambda>g. g\<lparr>Timer1 := out r 0 (Timer1 g)\<rparr>) (
     Call rtems_timer_create [VStr ''TMR2'', VRef ''&Timer2''] (\<lambda>r.
     Put (\<lambda>g. g\<lparr>Timer2 := out r 0 (Timer2 g)\<rparr>) (
     Get (\<lambda>g. bindp (timer_Timer_Routine (Timer1 g)) (\<lambda>_.
     bindp LED_Change_Routine (\<lambda>_.
     Call rtems_clock_get_ticks_per_second [] (\<lambda>t.
     Do rtems_task_wake_after [ret t] (
     Get (\<lambda>g. bindp (timer_Timer_Routine (Timer2 g)) (\<lambda>_.
     bindp LED_Change_Routine (\<lambda>_.
     forever n (\<lambda>_.
       Do rtems_task_wake_after [VInt 10] LED_Change_Routine) ()))))))))))))))"

definition timer_config :: config_macros where
  "timer_config =
    [(CONFIGURE_APPLICATION_NEEDS_CONSOLE_DRIVER, defined),
     (CONFIGURE_APPLICATION_NEEDS_CLOCK_DRIVER, defined),
     (CONFIGURE_MAXIMUM_TASKS, VInt 1),
     (CONFIGURE_MAXIMUM_TIMERS, VInt 2),
     (CONFIGURE_RTEMS_INIT_TASKS_TABLE, defined),
     (CONFIGURE_INIT, defined)]"

subsection \<open>\<open>timer_server/init.c\<close>\<close>

record timer_ids =
  Timer1_id :: val
  Timer2_id :: val

definition timer_server_Timer_Routine :: "val \<Rightarrow> (timer_ids, unit) prog" where
  "timer_server_Timer_Routine i =
     Get (\<lambda>g.
     bindp (if i = Timer1_id g then LED_OFF (Ret ()) else LED_ON (Ret ())) (\<lambda>_.
     Call rtems_clock_get_ticks_per_second [] (\<lambda>t.
     Do rtems_timer_server_fire_after [i, twice (ret t), VRef ''Timer_Routine'', VRef ''NULL''] (
     Ret ()))))"

definition timer_server_Init :: "(timer_ids, unit) prog" where
  "timer_server_Init =
     Do puts [VStr ''\<newline>\<newline>*** LED BLINKER -- timer_server ***''] (
     LED_INIT (
     Do rtems_timer_initiate_server
       [VInt 1, VOp ''*'' [VRef ''RTEMS_MINIMUM_STACK_SIZE'', VInt 2], VRef ''RTEMS_DEFAULT_ATTRIBUTES''] (
     Call rtems_timer_create [VStr ''TMR1'', VRef ''&Timer1''] (\<lambda>r.
     Put (\<lambda>g. g\<lparr>Timer1_id := out r 0 (Timer1_id g)\<rparr>) (
     Call rtems_timer_create [VStr ''TMR2'', VRef ''&Timer2''] (\<lambda>r.
     Put (\<lambda>g. g\<lparr>Timer2_id := out r 0 (Timer2_id g)\<rparr>) (
     Get (\<lambda>g. bindp (timer_server_Timer_Routine (Timer1_id g)) (\<lambda>_.
     Call rtems_clock_get_ticks_per_second [] (\<lambda>t.
     Do rtems_task_wake_after [ret t] (
     Get (\<lambda>g. bindp (timer_server_Timer_Routine (Timer2_id g)) (\<lambda>_.
     Do rtems_task_delete [VRef ''RTEMS_SELF''] (
     Ret ()))))))))))))))"

definition timer_server_config :: config_macros where
  "timer_server_config =
    [(CONFIGURE_APPLICATION_NEEDS_CONSOLE_DRIVER, defined),
     (CONFIGURE_APPLICATION_NEEDS_CLOCK_DRIVER, defined),
     (CONFIGURE_MAXIMUM_TASKS, VInt 2),
     (CONFIGURE_MAXIMUM_TIMERS, VInt 2),
     (CONFIGURE_RTEMS_INIT_TASKS_TABLE, defined),
     (CONFIGURE_EXTRA_TASK_STACKS, VRef ''RTEMS_MINIMUM_STACK_SIZE''),
     (CONFIGURE_INIT, defined)]"

section \<open>Client and server tasks\<close>

subsection \<open>\<open>sem_server/init.c\<close>\<close>

text \<open>The global is \<open>Sem_id\<close>.\<close>

definition complain :: "bool \<Rightarrow> string \<Rightarrow> ('g, 'a) prog \<Rightarrow> ('g, 'a) prog" where
  "complain failed msg p = (if failed then Do fputs [VStr msg, VRef ''stderr''] p else p)"

definition sem_server_Test_task :: "nat \<Rightarrow> (val, unit) prog" where
  "sem_server_Test_task n =
     forever n (\<lambda>_.
       Get (\<lambda>Sem_id.
       Call rtems_semaphore_obtain
         [Sem_id, VRef ''RTEMS_DEFAULT_OPTIONS'', VRef ''RTEMS_NO_TIMEOUT''] (\<lambda>r.
       complain (ret r \<noteq> SUCCESSFUL) ''Task - obtain did not work\<newline>'' (
       LED_ON (
       Call rtems_clock_get_ticks_per_second [] (\<lambda>t.
       Call rtems_task_wake_after [ret t] (\<lambda>r.
       asserting (ret r = SUCCESSFUL) (
       Get (\<lambda>Sem_id.
       Call rtems_semaphore_release [Sem_id] (\<lambda>r.
       complain (ret r \<noteq> SUCCESSFUL) ''Task - release did not work\<newline>'' (
       Ret ()))))))))))) ()"

definition sem_server_Init :: "nat \<Rightarrow> val \<Rightarrow> (val, unit) prog" where
  "sem_server_Init n uninit =
     Do puts [VStr ''\<newline>\<newline>*** LED BLINKER -- semaphore ping/pong ***''] (
     LED_INIT (
     Call rtems_semaphore_create
       [VStr ''SEM '', VInt 0, VRef ''RTEMS_DEFAULT_ATTRIBUTES'', VInt 0, VRef ''&Sem_id''] (\<lambda>r.
     Put (\<lambda>g. out r 0 g) (
     asserting (ret r = SUCCESSFUL) (
     Call rtems_task_create
       [VStr ''TA1 '', VInt 1, VOp ''*'' [VRef ''RTEMS_MINIMUM_STACK_SIZE'', VInt 2],
        VRef ''RTEMS_DEFAULT_MODES'', VRef ''RTEMS_DEFAULT_ATTRIBUTES'', VRef ''&task_id''] (\<lambda>r.
     let task_id = out r 0 uninit in
     asserting (ret r = SUCCESSFUL) (
     Call rtems_task_start [task_id, VRef ''Test_task'', VInt 1] (\<lambda>r.
     asserting (ret r = SUCCESSFUL) (
     forever n (\<lambda>_.
       LED_OFF (
       Call rtems_clock_get_ticks_per_second [] (\<lambda>t.
       Call rtems_task_wake_after [ret t] (\<lambda>r.
       asserting (ret r = SUCCESSFUL) (
       Get (\<lambda>Sem_id.
       Call rtems_semaphore_release [Sem_id] (\<lambda>r.
       complain (ret r \<noteq> SUCCESSFUL) ''init - release did not work\<newline>'' (
       Get (\<lambda>Sem_id.
       Call rtems_semaphore_obtain
         [Sem_id, VRef ''RTEMS_DEFAULT_OPTIONS'', VRef ''RTEMS_NO_TIMEOUT''] (\<lambda>r.
       complain (ret r \<noteq> SUCCESSFUL) ''init - obtain did not work\<newline>'' (
       Ret ()))))))))))) ())))))))))"

definition sem_server_config :: config_macros where
  "sem_server_config =
    [(CONFIGURE_APPLICATION_NEEDS_CONSOLE_DRIVER, defined),
     (CONFIGURE_APPLICATION_NEEDS_CLOCK_DRIVER, defined),
     (CONFIGURE_MAXIMUM_TASKS, VInt 2),
     (CONFIGURE_MAXIMUM_SEMAPHORES, VInt 1),
     (CONFIGURE_RTEMS_INIT_TASKS_TABLE, defined),
     (CONFIGURE_EXTRA_TASK_STACKS, VOp ''*'' [VInt 3, VRef ''RTEMS_MINIMUM_STACK_SIZE'']),
     (CONFIGURE_INIT, defined)]"

subsection \<open>\<open>msg_server/init.c\<close>\<close>

text \<open>The global is \<open>Queue_id\<close>; \<open>count\<close> is a 32-bit variable that the receive overwrites.\<close>

definition msg_server_Test_task :: "nat \<Rightarrow> (val, unit) prog" where
  "msg_server_Test_task n =
     forever n (\<lambda>_.
       Get (\<lambda>Queue_id.
       Call rtems_message_queue_receive
         [Queue_id, VRef ''&count'', VRef ''&received'', VRef ''RTEMS_DEFAULT_OPTIONS'',
          VRef ''RTEMS_NO_TIMEOUT''] (\<lambda>r.
       let count = word_of_int (as_int (out r 0 (VInt 0xFFFFFFFF))) :: u32 in
       if count mod 2 = 0 then LED_OFF (Ret ()) else LED_ON (Ret ())))) ()"

definition msg_server_Init :: "nat \<Rightarrow> val \<Rightarrow> (val, unit) prog" where
  "msg_server_Init n uninit =
     Do puts [VStr ''\<newline>\<newline>*** LED BLINKER -- message receive server ***''] (
     LED_INIT (
     Call rtems_message_queue_create
       [VStr ''Q1  '', VInt 1, VInt 4, VRef ''RTEMS_DEFAULT_ATTRIBUTES'', VRef ''&Queue_id''] (\<lambda>r.
     Put (\<lambda>g. out r 0 g) (
     Call rtems_task_create
       [VStr ''TA1 '', VInt 1, VRef ''RTEMS_MINIMUM_STACK_SIZE'', VRef ''RTEMS_DEFAULT_MODES'',
        VRef ''RTEMS_DEFAULT_ATTRIBUTES'', VRef ''&task_id''] (\<lambda>r.
     let task_id = out r 0 uninit in
     Do rtems_task_start [task_id, VRef ''Test_task'', VInt 1] (
     forever n (\<lambda>count :: u32.
       Get (\<lambda>Queue_id.
       Call rtems_message_queue_send [Queue_id, VInt (uint count), VInt 4] (\<lambda>r.
       complain (ret r \<noteq> SUCCESSFUL) ''send did not work\<newline>'' (
       Call rtems_clock_get_ticks_per_second [] (\<lambda>t.
       Do rtems_task_wake_after [ret t] (
       Ret (count + 1))))))) 0))))))"

definition msg_server_config :: config_macros where
  "msg_server_config =
    [(CONFIGURE_APPLICATION_NEEDS_CONSOLE_DRIVER, defined),
     (CONFIGURE_APPLICATION_NEEDS_CLOCK_DRIVER, defined),
     (CONFIGURE_MAXIMUM_TASKS, VInt 2),
     (CONFIGURE_MAXIMUM_MESSAGE_QUEUES, VInt 1),
     (CONFIGURE_MESSAGE_BUFFER_MEMORY,
       VOp ''CONFIGURE_MESSAGE_BUFFERS_FOR_QUEUE'' [VInt 1, VInt 4]),
     (CONFIGURE_RTEMS_INIT_TASKS_TABLE, defined),
     (CONFIGURE_INIT, defined)]"

subsection \<open>\<open>event_server/init.c\<close>\<close>

definition EVENT_LED_OFF :: val where "EVENT_LED_OFF = VRef ''RTEMS_EVENT_1''"
definition EVENT_LED_ON :: val where "EVENT_LED_ON = VRef ''RTEMS_EVENT_2''"

definition LED_Server_Thread :: "nat \<Rightarrow> (unit, unit) prog" where
  "LED_Server_Thread n =
     forever n (\<lambda>_.
       Call rtems_event_receive
         [VOp ''|'' [EVENT_LED_OFF, EVENT_LED_ON], VRef ''RTEMS_EVENT_ANY'', VRef ''RTEMS_NO_TIMEOUT'',
          VRef ''&events''] (\<lambda>r.
       let events = out r 0 (VInt 0) in
       if events = EVENT_LED_OFF then LED_OFF (Ret ())
       else if events = EVENT_LED_ON then LED_ON (Ret ())
       else Do fprintf [VRef ''stderr'', VStr ''Incorrect event set 0x%08lx\<newline>'', events] (Ret ()))) ()"

definition event_server_Init :: "nat \<Rightarrow> val \<Rightarrow> (unit, unit) prog" where
  "event_server_Init n uninit =
     Do puts [VStr ''\<newline>\<newline>*** LED BLINKER -- event receive server ***''] (
     LED_INIT (
     Call rtems_task_create
       [VStr ''TA1 '', VInt 1, VOp ''*'' [VRef ''RTEMS_MINIMUM_STACK_SIZE'', VInt 2],
        VRef ''RTEMS_DEFAULT_MODES'', VRef ''RTEMS_DEFAULT_ATTRIBUTES'', VRef ''&task_id''] (\<lambda>r.
     let task_id = out r 0 uninit in
     Do rtems_task_start [task_id, VRef ''LED_Server_Thread'', VInt 1] (
     forever n (\<lambda>count :: u32.
       let events = (if count mod 2 = 0 then EVENT_LED_OFF else EVENT_LED_ON) in
       Call rtems_event_send [task_id, events] (\<lambda>r.
       complain (ret r \<noteq> SUCCESSFUL) ''send did not work\<newline>'' (
       Call rtems_clock_get_ticks_per_second [] (\<lambda>t.
       Do rtems_task_wake_after [ret t] (
       Ret (count + 1)))))) 0))))"

definition event_server_config :: config_macros where
  "event_server_config =
    [(CONFIGURE_INIT, defined),
     (CONFIGURE_APPLICATION_NEEDS_CONSOLE_DRIVER, defined),
     (CONFIGURE_APPLICATION_NEEDS_CLOCK_DRIVER, defined),
     (CONFIGURE_MAXIMUM_TASKS, VInt 2),
     (CONFIGURE_RTEMS_INIT_TASKS_TABLE, defined),
     (CONFIGURE_EXTRA_TASK_STACKS, VRef ''RTEMS_MINIMUM_STACK_SIZE'')]"

end
