(* ===== verification/Led_Props.thy ===== *)
theory Led_Props
  imports Led
begin

text \<open>
  What the LED examples do: the order of the LED commands, the objects they allocate against
  their configuration, the race of the timer example, and the message server behind its queue.
\<close>

section \<open>Boards\<close>

lemma LED_ROTATE_step:
  assumes "led_count m = word_of_nat k" "k < 8"
  shows "LED_ROTATE m =
    Some (m\<lparr>led_reg := MPC8313_LED_Values ! k, led_count := word_of_nat (Suc k)\<rparr>)"
proof -
  have "unat (word_of_nat k :: u8) = k" using assms(2) by (simp add: unsigned_of_nat take_bit_nat_eq_self del: of_nat_Suc)
  moreover have "(word_of_nat (Suc k) :: u8) \<noteq> 9"
  proof
    assume "(word_of_nat (Suc k) :: u8) = 9"
    then have "unat (word_of_nat (Suc k) :: u8) = unat (9 :: u8)" by simp
    moreover have "unat (word_of_nat (Suc k) :: u8) = Suc k" using assms(2) by (simp add: unsigned_of_nat take_bit_nat_eq_self del: of_nat_Suc)
    ultimately show False using assms(2) by simp
  qed
  ultimately show ?thesis using assms
    by (simp add: LED_ROTATE_def rd_def MPC8313_LED_Values_def add.commute)
qed

lemma rotations_table:
  "led_count m = word_of_nat k \<Longrightarrow> k + Suc n \<le> 8 \<Longrightarrow>
    rotations (Suc n) m = Some (m\<lparr>led_reg := MPC8313_LED_Values ! (k + n), led_count := word_of_nat (Suc (k + n))\<rparr>)"
proof (induction n arbitrary: m k)
  case (Suc n)
  then show ?case using LED_ROTATE_step [OF Suc.prems(1)] Suc.IH [of _ "Suc k"] by simp
qed (simp add: LED_ROTATE_step)

text \<open>
  On the MPC8313 board, eight rotations show the eight values of the table and the ninth
  reads past its end: the count is compared with 9 although the table has 8 entries.
\<close>

theorem LED_ROTATE_leaves_table:
  "\<exists>m'. rotations 8 (mpc8313_LED_INIT m) = Some m' \<and> led_reg m' = 0x10 \<and> LED_ROTATE m' = None"
proof -
  have "rotations (Suc 7) (mpc8313_LED_INIT m) = Some ((mpc8313_LED_INIT m)\<lparr>led_reg := 0x10, led_count := 8\<rparr>)"
    using rotations_table [of "mpc8313_LED_INIT m" 0 7]
    by (simp add: mpc8313_LED_INIT_def MPC8313_LED_Values_def)
  then show ?thesis by (simp add: LED_ROTATE_def rd_def MPC8313_LED_Values_def)
qed

section \<open>Blinkers\<close>

text \<open>\<open>True\<close> for a command that switches the LED on, \<open>False\<close> for off.\<close>

definition led_cmd :: "syscall \<Rightarrow> bool option" where
  "led_cmd c =
    (if c = (fputs, [VStr ''LED ON\<newline>'', VRef ''stderr'']) then Some True
     else if c = (fputs, [VStr ''LED OFF\<newline>'', VRef ''stderr'']) then Some False
     else None)"

lemmas blinker_defs = LED_INIT_def LED_ON_def LED_OFF_def led_cmd_def Let_def

lemma even_word_of_nat: "(word_of_nat i :: u32) mod 2 = 0 \<longleftrightarrow> even i"
proof -
  have "even (word_of_nat i :: u32) \<longleftrightarrow> even i" by (simp add: even_word_iff [symmetric] bit_simps flip: bit_0)
  then show ?thesis by (simp add: even_iff_mod_2_eq_zero)
qed

lemma emits_delay:
  "emits any_reply led_cmd (delay_Init n) Q (concat (map (\<lambda>i. [False, True]) [0..<n]))"
  by (simp add: delay_Init_def blinker_defs)
     (intro allI emits_forever_0 [where l = "\<lambda>_. ()"]; simp add: led_cmd_def)

lemma emits_ratemon1:
  "emits any_reply led_cmd (ratemon1_Init n u) Q (map odd [0..<n])"
  by (simp add: ratemon1_Init_def blinker_defs)
     (intro allI emits_count [where l = word_of_nat];
      simp add: blinker_defs even_word_of_nat)

lemma emits_timeout_event:
  "emits any_reply led_cmd (timeout_event_Init n) Q (map odd [0..<n])"
  by (simp add: timeout_event_Init_def blinker_defs)
     (intro allI emits_count [where l = word_of_nat];
      simp add: blinker_defs even_word_of_nat)

lemma emits_ratemon2:
  "emits any_reply led_cmd (ratemon2_Init n u) Q (False # True # concat (map (\<lambda>i. [False, True]) [0..<n]))"
  by (simp add: ratemon2_Init_def blinker_defs)
     (intro allI emits_forever_0 [where l = "\<lambda>_. ()"]; simp add: led_cmd_def)

text \<open>
  On a kernel that answers every call, the commands of the four blinking examples alternate,
  off first, for any number of rounds of their endless loops.
\<close>

theorem blinkers_alternate:
  assumes "responsive K"
  shows "observed led_cmd (trace_of (exec K (delay_Init n) () [])) = map odd [0..<2 * n] \<and>
    observed led_cmd (trace_of (exec K (ratemon1_Init n u) () [])) = map odd [0..<n] \<and>
    observed led_cmd (trace_of (exec K (ratemon2_Init n u) () [])) = map odd [0..<2 * n + 2] \<and>
    observed led_cmd (trace_of (exec K (timeout_event_Init n) () [])) = map odd [0..<n]"
proof (intro conjI)
  have pairs: "concat (map (\<lambda>i. [False, True]) [0..<n]) = map odd [0..<2 * n]"
    by (induction n) simp_all
  have shift: "False # True # map odd [0..<2 * n] = map odd [0..<2 * n + 2]"
    by (induction n) simp_all
  note run = emits_responsive [OF _ _ assms obeys_any]
  show "observed led_cmd (trace_of (exec K (delay_Init n) () [])) = map odd [0..<2 * n]"
    using run [OF emits_delay] pairs by (simp add: delay_Init_def blinker_defs)
  show "observed led_cmd (trace_of (exec K (ratemon1_Init n u) () [])) = map odd [0..<n]"
    using run [OF emits_ratemon1] by (simp add: ratemon1_Init_def blinker_defs)
  show "observed led_cmd (trace_of (exec K (ratemon2_Init n u) () [])) = map odd [0..<2 * n + 2]"
    using run [OF emits_ratemon2] pairs shift by (simp add: ratemon2_Init_def blinker_defs)
  show "observed led_cmd (trace_of (exec K (timeout_event_Init n) () [])) = map odd [0..<n]"
    using run [OF emits_timeout_event] by (simp add: timeout_event_Init_def blinker_defs)
qed

section \<open>Objects against the configuration\<close>

lemmas limit_defs = within_limits_def object_classes_def configured_def reserved_def complain_def asserting_def
  LED_INIT_def LED_ON_def LED_OFF_def Let_def

text \<open>
  No run of an LED example creates more objects of a class than its configuration reserves,
  the initialization task included.
\<close>

theorem led_objects_within_limits:
  "within_limits delay_config (delay_Init n) \<and>
   within_limits ratemon1_config (ratemon1_Init n u) \<and>
   within_limits ratemon2_config (ratemon2_Init n u) \<and>
   within_limits timeout_event_config (timeout_event_Init n) \<and>
   within_limits timer_config (timer_Init n) \<and>
   within_limits timer_server_config timer_server_Init \<and>
   within_limits sem_server_config (sem_server_Init n u) \<and>
   within_limits msg_server_config (msg_server_Init n u) \<and>
   within_limits event_server_config (event_server_Init n u)"
  apply (intro conjI)
  subgoal by (simp add: limit_defs delay_Init_def delay_config_def)
  subgoal by (simp add: limit_defs ratemon1_Init_def ratemon1_config_def)
  subgoal by (simp add: limit_defs ratemon2_Init_def ratemon2_config_def)
  subgoal by (simp add: limit_defs timeout_event_Init_def timeout_event_config_def)
  subgoal by (simp add: limit_defs timer_Init_def timer_config_def timer_Timer_Routine_def LED_Change_Routine_def)
  subgoal by (simp add: limit_defs timer_server_Init_def timer_server_config_def timer_server_Timer_Routine_def)
  subgoal by (simp add: limit_defs sem_server_Init_def sem_server_config_def)
  subgoal by (simp add: limit_defs msg_server_Init_def msg_server_config_def)
  subgoal by (simp add: limit_defs event_server_Init_def event_server_config_def)
  done

section \<open>The race of the timer example\<close>

lemma responsive_reply:
  assumes "responsive K"
  obtains r where "K h c = Some r"
  using assms unfolding responsive_def by blast

lemma exec_Timer_Routine:
  assumes "responsive K"
  shows "\<exists>h'. exec K (timer_Timer_Routine i) g h =
      (Done (), g\<lparr>led_do_print := 1, led_value := (if i = Timer1 g then 1 else 2)\<rparr>, h') \<and>
    observed led_cmd h' = observed led_cmd h"
proof -
  obtain t where t: "K h (rtems_clock_get_ticks_per_second, []) = Some t"
    using responsive_reply [OF assms] by blast
  obtain q where q: "K (h @ [((rtems_clock_get_ticks_per_second, []), t)])
      (rtems_timer_fire_after, [i, twice (ret t), VRef ''Timer_Routine'', VRef ''NULL'']) = Some q"
    using responsive_reply [OF assms] by blast
  show ?thesis using t q
    by (auto simp: timer_Timer_Routine_def led_cmd_def)
qed

lemma exec_LED_Change:
  assumes "responsive K"
  shows "\<exists>h'. exec K LED_Change_Routine g h =
      (Done (), g\<lparr>led_do_print := 0, led_value := 0\<rparr>, h') \<and>
    observed led_cmd h' = observed led_cmd h @
      (if led_do_print g = 0 then [] else [led_value g \<noteq> 1])"
proof -
  obtain r1 where 1: "K h (fputs, [VStr ''LED ON\<newline>'', VRef ''stderr'']) = Some r1"
    using responsive_reply [OF assms] by blast
  obtain r2 where 2: "K h (fputs, [VStr ''LED OFF\<newline>'', VRef ''stderr'']) = Some r2"
    using responsive_reply [OF assms] by blast
  show ?thesis using 1 2
    by (simp add: LED_Change_Routine_def blinker_defs)
qed

text \<open>
  A timer that fires and is followed by an undisturbed LED_Change_Routine gives exactly one
  LED command, on unless it was the first timer, and clears both global variables.
\<close>

theorem timer_prompt:
  assumes "responsive K"
  shows "\<exists>h'. exec K (bindp (timer_Timer_Routine i) (\<lambda>_. LED_Change_Routine)) g h =
      (Done (), g\<lparr>led_do_print := 0, led_value := 0\<rparr>, h') \<and>
    observed led_cmd h' = observed led_cmd h @ [i \<noteq> Timer1 g]"
proof -
  obtain h1 where 1: "exec K (timer_Timer_Routine i) g h =
      (Done (), g\<lparr>led_do_print := 1, led_value := (if i = Timer1 g then 1 else 2)\<rparr>, h1)"
    "observed led_cmd h1 = observed led_cmd h"
    using exec_Timer_Routine [OF assms] by blast
  then show ?thesis
    using exec_LED_Change [OF assms, of "g\<lparr>led_do_print := 1, led_value := (if i = Timer1 g then 1 else 2)\<rparr>" h1]
    by (auto simp: exec_bindp)
qed

text \<open>
  C34: The race that the comment in LED_Change_Routine admits is real: there is a run in which the
  timer fires between the test of led_do_print and the reset of led_value, after which the next
  round loses the command of the timer and switches the LED on where the timer asked for off.
\<close>

theorem timer_race:
  assumes "responsive K" "led_do_print g = 0"
  shows "\<exists>g' h'. (istep K {timer_Timer_Routine (Timer1 g)})\<^sup>*\<^sup>* (LED_Change_Routine, g, h) (Ret (), g', h') \<and>
    (\<exists>h''. exec K LED_Change_Routine g' h' = (Done (), g\<lparr>led_do_print := 0, led_value := 0\<rparr>, h'') \<and>
      observed led_cmd h'' = observed led_cmd h @ [True])"
proof -
  let ?H = "{timer_Timer_Routine (Timer1 g)}"
  let ?p2 = "Put (led_value_update (\<lambda>_. 0)) (Ret ()) :: (timer_vars, unit) prog"
  let ?g1 = "g\<lparr>led_do_print := 0\<rparr>"
  let ?g2 = "?g1\<lparr>led_do_print := 1, led_value := 1\<rparr>"
  let ?g3 = "?g2\<lparr>led_value := 0\<rparr>"
  obtain h' where h': "exec K (timer_Timer_Routine (Timer1 g)) ?g1 h = (Done (), ?g2, h')"
    "observed led_cmd h' = observed led_cmd h"
    using exec_Timer_Routine [OF assms(1), of "Timer1 g" ?g1 h] by auto
  have "(istep K ?H)\<^sup>*\<^sup>* (LED_Change_Routine, g, h) (?p2, ?g1, h)"
  proof -
    let ?q1 = "Get (\<lambda>g. Put (led_do_print_update (\<lambda>_. 0)) (Put (led_value_update (\<lambda>_. 0)) (Ret ()))) :: (timer_vars, unit) prog"
    let ?q2 = "Put (led_do_print_update (\<lambda>_. 0)) ?p2"
    have "istep K ?H (LED_Change_Routine, g, h) (?q1, g, h)"
      using assms(2) by (intro Task) (simp add: LED_Change_Routine_def sstep_iff Let_def)
    moreover have "istep K ?H (?q1, g, h) (?q2, g, h)" by (rule Task [OF SGet])
    moreover have "istep K ?H (?q2, g, h) (?p2, ?g1, h)" by (rule Task [OF SPut])
    ultimately show ?thesis by (meson converse_rtranclp_into_rtranclp rtranclp.rtrancl_refl)
  qed
  moreover have "istep K ?H (?p2, ?g1, h) (?p2, ?g2, h')" by (rule Interrupt [OF _ h'(1)]) simp
  moreover have "istep K ?H (?p2, ?g2, h') (Ret (), ?g3, h')" by (rule Task [OF SPut])
  ultimately have "(istep K ?H)\<^sup>*\<^sup>* (LED_Change_Routine, g, h) (Ret (), ?g3, h')"
    by (meson rtranclp.rtrancl_into_rtrancl)
  moreover obtain h'' where "exec K LED_Change_Routine ?g3 h' = (Done (), g\<lparr>led_do_print := 0, led_value := 0\<rparr>, h'')"
    "observed led_cmd h'' = observed led_cmd h @ [True]"
    using exec_LED_Change [OF assms(1), of ?g3 h'] h'(2) by auto
  ultimately show ?thesis by blast
qed

section \<open>The message server behind its queue\<close>

text \<open>
  The documented behaviour of the queue: a receive without timeout returns only when a message is
  there, and messages come out in the order in which they were sent successfully.
\<close>

definition sent :: "event list \<Rightarrow> int list" where
  "sent h = List.map_filter (\<lambda>((f, args), r).
     if f = rtems_message_queue_send \<and> ret r = SUCCESSFUL \<and> 1 < length args
     then Some (as_int (args ! 1)) else None) h"

definition queue_law :: "kernel \<Rightarrow> bool" where
  "queue_law K \<longleftrightarrow> (\<forall>h args r. K h (rtems_message_queue_receive, args) = Some r \<longrightarrow>
     calls_to rtems_message_queue_receive h < length (sent h) \<and>
     outs r = [VInt (sent h ! calls_to rtems_message_queue_receive h)])"

lemma sent_append: "sent (h @ [((f, args), r)]) = sent h @
    (if f = rtems_message_queue_send \<and> ret r = SUCCESSFUL \<and> 1 < length args then [as_int (args ! 1)] else [])"
  by (simp add: sent_def List.map_filter_def)

text \<open>The sender never touches the LED or the receiving end and starts at most \<open>n\<close> tasks.\<close>

primrec sender :: "(val, 'a) prog \<Rightarrow> nat \<Rightarrow> bool" where
  "sender (Ret x) n = True"
| "sender Halt n = True"
| "sender Cut n = True"
| "sender (Call f args k) n =
    (f \<noteq> rtems_message_queue_receive \<and> led_cmd (f, args) = None \<and>
     (if f = rtems_task_start then 0 < n \<and> args ! 1 = VRef ''Test_task'' \<and> (\<forall>r. sender (k r) (n - 1))
      else (\<forall>r. sender (k r) n)))"
| "sender (Get k) n = (\<forall>g. sender (k g) n)"
| "sender (Put u p) n = sender p n"

text \<open>The server: a receive, then the LED command of the received value, over and over.\<close>

definition odd32 :: "int \<Rightarrow> bool" where
  "odd32 v \<longleftrightarrow> (word_of_int v :: u32) mod 2 \<noteq> 0"

primrec serves :: "(val, unit) prog \<Rightarrow> int option \<Rightarrow> bool" where
  "serves (Ret x) pend = (pend = None)"
| "serves Halt pend = False"
| "serves Cut pend = (pend = None)"
| "serves (Call f args k) pend =
    (if f = rtems_message_queue_receive
     then pend = None \<and> (\<forall>r v. outs r = [VInt v] \<longrightarrow> serves (k r) (Some v))
     else f = fputs \<and> (\<exists>v. pend = Some v \<and> led_cmd (f, args) = Some (odd32 v)) \<and> (\<forall>r. serves (k r) None))"
| "serves (Get k) pend = (\<forall>g. serves (k g) pend)"
| "serves (Put u p) pend = serves p pend"

lemma serves_Test_task: "serves (msg_server_Test_task n) None"
proof (induction n)
  case (Suc n)
  then show ?case
    by (simp add: msg_server_Test_task_def out_def blinker_defs odd32_def)
qed (simp add: msg_server_Test_task_def)

lemma sender_bindp: "sender p 0 \<Longrightarrow> \<forall>x. sender (q x) m \<Longrightarrow> sender (bindp p q) m"
  by (induction p) (auto split: if_splits)

lemma sender_loop [simp]: "\<forall>l. sender (body l) 0 \<Longrightarrow> sender (forever n body l) m"
  by (induction n arbitrary: l) (auto intro: sender_bindp)

lemma sender_complain [simp]:
  "led_cmd (fputs, [VStr msg, VRef ''stderr'']) = None \<Longrightarrow> sender p m \<Longrightarrow> sender (complain b msg p) m"
  by (simp add: complain_def)

lemma sender_Init: "sender (msg_server_Init n u) 1"
  by (simp add: msg_server_Init_def blinker_defs)

lemma sender_mono: "sender p m \<Longrightarrow> m \<le> n \<Longrightarrow> sender p n"
proof (induction p arbitrary: m n)
  case (Call f args k)
  have "sender (k r) (n - 1)" if "sender (k r) (m - 1)" for r
    using Call.IH [OF rangeI that] Call.prems(2) by simp
  moreover have "sender (k r) n" if "sender (k r) m" for r
    using Call.IH [OF rangeI that Call.prems(2)] .
  ultimately show ?case using Call.prems by (auto split: if_splits)
qed (auto intro: rangeI)

text \<open>The invariant of the two tasks.\<close>

definition served :: "event list \<Rightarrow> int option \<Rightarrow> bool" where
  "served h pend \<longleftrightarrow>
     (let n = calls_to rtems_message_queue_receive h in
      n \<le> length (sent h) \<and>
      (case pend of
         None \<Rightarrow> observed led_cmd h = map odd32 (take n (sent h))
       | Some v \<Rightarrow> 0 < n \<and> v = sent h ! (n - 1) \<and> observed led_cmd h = map odd32 (take (n - 1) (sent h))))"

definition msg_inv :: "(val, unit) prog list \<Rightarrow> event list \<Rightarrow> bool" where
  "msg_inv ps h \<longleftrightarrow>
     (\<exists>p. ps = [p] \<and> sender p 1 \<and> calls_to rtems_message_queue_receive h = 0 \<and> served h None) \<or>
     (\<exists>p q pend. ps = [p, q] \<and> sender p 0 \<and> serves q pend \<and> served h pend)"

definition msg_entries :: "nat \<Rightarrow> string \<Rightarrow> val \<Rightarrow> (val, unit) prog option" where
  "msg_entries m t v = (if t = ''Test_task'' then Some (msg_server_Test_task m) else None)"

lemma served_sender:
  "served h pend \<Longrightarrow> f \<noteq> rtems_message_queue_receive \<Longrightarrow> led_cmd (f, args) = None \<Longrightarrow>
    served (h @ [((f, args), r)]) pend"
  by (auto simp: served_def Let_def sent_append nth_append split: option.splits)

lemma served_receive:
  assumes "served h None" "queue_law K" "K h (rtems_message_queue_receive, args) = Some r"
  shows "\<exists>v. outs r = [VInt v] \<and> served (h @ [((rtems_message_queue_receive, args), r)]) (Some v)"
  using assms by (auto simp: served_def Let_def sent_append queue_law_def led_cmd_def Suc_le_eq)

lemma served_led:
  assumes "served h (Some v)" "led_cmd (fputs, args) = Some (odd32 v)"
  shows "served (h @ [((fputs, args), r)]) None"
proof -
  obtain n where n: "calls_to rtems_message_queue_receive h = Suc n"
    using assms(1) by (cases "calls_to rtems_message_queue_receive h") (auto simp: served_def)
  then show ?thesis using assms
    by (auto simp: served_def Let_def sent_append take_Suc_conv_app_nth)
qed

lemma started_cases: "started (msg_entries m) e = [] \<or> started (msg_entries m) e = [msg_server_Test_task m]"
  by (auto simp: started_def msg_entries_def split: prod.splits val.splits option.splits)

lemma started_other: "f \<noteq> rtems_task_start \<Longrightarrow> started E ((f, args), r) = []"
  by (simp add: started_def)

lemma msg_inv_one:
  "sender p 1 \<Longrightarrow> calls_to rtems_message_queue_receive h = 0 \<Longrightarrow> served h None \<Longrightarrow> msg_inv [p] h"
  by (simp add: msg_inv_def)

lemma msg_inv_two:
  "sender p 0 \<Longrightarrow> serves q pend \<Longrightarrow> served h pend \<Longrightarrow> msg_inv [p, q] h"
  by (auto simp: msg_inv_def)

lemma msg_inv_step_one:
  assumes "pstep K (msg_entries m) ([p], g, h) (ps', g', h')"
    and p: "sender p 1" "calls_to rtems_message_queue_receive h = 0" "served h None"
  shows "msg_inv ps' h'"
  using assms(1)
proof cases
  case (PCall i f args k r)
  then have k: "p = Call f args k" by simp
  have r: "f \<noteq> rtems_message_queue_receive" "led_cmd (f, args) = None" using p(1) k by auto
  have s: "served h' None" using served_sender [OF p(3) r] PCall by simp
  have c: "calls_to rtems_message_queue_receive h' = 0" using p(2) r(1) PCall by simp
  show ?thesis
  proof (cases "f = rtems_task_start")
    case True
    then have "sender (k r) 0" using p(1) k by simp
    then show ?thesis
      using s c PCall started_cases [of m "((f, args), r)"] sender_mono [of "k r" 0 1] serves_Test_task [of m]
      by (metis msg_inv_one msg_inv_two append_Nil2 append_Cons append_Nil length_Cons less_one
          list.size(3) list_update_code(2) One_nat_def zero_le_one)
  next
    case False
    then have "sender (k r) 1" using p(1) k by simp
    then show ?thesis using s c PCall by (simp add: msg_inv_one started_other [OF False])
  qed
next
  case (PGet i k)
  then show ?thesis using p by (simp add: msg_inv_one)
next
  case (PPut i u p')
  then show ?thesis using p by (simp add: msg_inv_one)
qed

lemma msg_inv_step_two:
  assumes "queue_law K" "pstep K (msg_entries m) ([p, q], g, h) (ps', g', h')"
    and p: "sender p 0" "serves q pend" "served h pend"
  shows "msg_inv ps' h'"
  using assms(2)
proof cases
  case (PCall i f args k r)
  show ?thesis
  proof (cases i)
    case 0
    then have k: "p = Call f args k" using PCall by simp
    have r: "f \<noteq> rtems_message_queue_receive" "led_cmd (f, args) = None" "f \<noteq> rtems_task_start"
      "sender (k r) 0" using p(1) k by (auto split: if_splits)
    have "served h' pend" using served_sender [OF p(3) r(1,2)] PCall by simp
    then show ?thesis using PCall 0 r(4) p(2) by (simp add: started_other [OF r(3)] msg_inv_two)
  next
    case (Suc j)
    then have i: "i = 1" and k: "q = Call f args k" using PCall by auto
    show ?thesis
    proof (cases "f = rtems_message_queue_receive")
      case True
      then have pend: "pend = None" "\<And>v. outs r = [VInt v] \<Longrightarrow> serves (k r) (Some v)"
        using p(2) k by auto
      obtain v where "outs r = [VInt v]" "served h' (Some v)"
        using served_receive [of h K args r] assms(1) PCall p(3) pend(1) True by auto
      then show ?thesis using PCall p(1) i pend(2) True by (simp add: started_other msg_inv_two)
    next
      case False
      then obtain v where v: "f = fputs" "pend = Some v" "led_cmd (f, args) = Some (odd32 v)"
        "serves (k r) None" using p(2) k by auto
      then have "served h' None" using served_led [of h v args r] PCall p(3) by simp
      then show ?thesis using PCall p(1) i v by (simp add: started_other msg_inv_two)
    qed
  qed
next
  case (PGet i k)
  then show ?thesis using p by (cases i) (auto intro: msg_inv_two)
next
  case (PPut i u p')
  then show ?thesis using p by (cases i) (auto intro: msg_inv_two)
qed

lemma msg_inv_run:
  "(pstep K (msg_entries m))\<^sup>*\<^sup>* c c' \<Longrightarrow> queue_law K \<Longrightarrow> msg_inv (fst c) (snd (snd c)) \<Longrightarrow>
    msg_inv (fst c') (snd (snd c'))"
proof (induction rule: rtranclp_induct)
  case (step y z)
  obtain ps g h ps' g' h' where yz: "y = (ps, g, h)" "z = (ps', g', h')" by (metis prod_cases3)
  have s: "pstep K (msg_entries m) (ps, g, h) (ps', g', h')" and i: "msg_inv ps h"
    using step yz by auto
  from i show ?case unfolding msg_inv_def [of ps h]
    using msg_inv_step_one msg_inv_step_two [OF step.prems(1)] s yz by auto
qed

text \<open>
  C1: Whatever the scheduler does and however often the endless loops run: when the message queue
  delivers the sent messages in order, the LED commands of the server task are those for an
  initial segment of the numbers that Init sent, on for odd and off for even, and at most one
  received message is still to be obeyed.
\<close>

theorem msg_server_follows_queue:
  assumes "queue_law K"
    and "(pstep K (msg_entries m))\<^sup>*\<^sup>* ([msg_server_Init n u], g, []) (ps, g', h)"
  shows "\<exists>k. calls_to rtems_message_queue_receive h \<le> k + 1 \<and> k \<le> length (sent h) \<and>
    observed led_cmd h = map odd32 (take k (sent h))"
proof -
  have "served [] None" by (simp add: served_def sent_def List.map_filter_def)
  then have "msg_inv [msg_server_Init n u] []" using sender_Init by (simp add: msg_inv_one)
  then have "msg_inv ps h" using msg_inv_run [OF assms(2,1)] by simp
  then obtain pend where "served h pend" by (auto simp: msg_inv_def)
  then show ?thesis
    by (intro exI [of _ "calls_to rtems_message_queue_receive h - (if pend = None then 0 else 1)"])
       (auto simp: served_def Let_def split: option.splits)
qed

section \<open>Kernels that satisfy the laws\<close>

text \<open>A kernel that answers every call successfully and delivers the messages in order.\<close>

definition sample_kernel :: kernel where
  "sample_kernel h c =
    (if fst c = rtems_message_queue_receive then
       (if calls_to rtems_message_queue_receive h < length (sent h)
        then Some (Reply SUCCESSFUL [VInt (sent h ! calls_to rtems_message_queue_receive h)])
        else None)
     else Some (Reply SUCCESSFUL [VInt 1]))"

definition yes_kernel :: kernel where
  "yes_kernel h c = Some (Reply SUCCESSFUL [VInt 1])"

lemma yes_responsive: "responsive yes_kernel"
  by (simp add: responsive_def yes_kernel_def)

lemma sample_queue: "queue_law sample_kernel"
  by (auto simp: queue_law_def sample_kernel_def split: if_splits)

definition timer_start :: timer_vars where
  "timer_start = \<lparr>led_do_print = 0, led_value = 0, Timer1 = VInt 1, Timer2 = VInt 2\<rparr>"

theorem blinkers_alternate_witness:
  "observed led_cmd (trace_of (exec yes_kernel (delay_Init 3) () [])) = map odd [0..<2 * 3] \<and>
   observed led_cmd (trace_of (exec yes_kernel (ratemon1_Init 3 (VInt 0)) () [])) = map odd [0..<3] \<and>
   observed led_cmd (trace_of (exec yes_kernel (ratemon2_Init 3 (VInt 0)) () [])) = map odd [0..<2 * 3 + 2] \<and>
   observed led_cmd (trace_of (exec yes_kernel (timeout_event_Init 3) () [])) = map odd [0..<3]"
  by (rule blinkers_alternate [OF yes_responsive])

theorem timer_prompt_witness:
  "\<exists>h'. exec yes_kernel (bindp (timer_Timer_Routine (VInt 2)) (\<lambda>_. LED_Change_Routine)) timer_start [] =
      (Done (), timer_start\<lparr>led_do_print := 0, led_value := 0\<rparr>, h') \<and>
    observed led_cmd h' = observed led_cmd [] @ [VInt 2 \<noteq> Timer1 timer_start]"
  by (rule timer_prompt [OF yes_responsive])

theorem timer_race_witness:
  "\<exists>g' h'. (istep yes_kernel {timer_Timer_Routine (Timer1 timer_start)})\<^sup>*\<^sup>*
      (LED_Change_Routine, timer_start, []) (Ret (), g', h') \<and>
    (\<exists>h''. exec yes_kernel LED_Change_Routine g' h' =
        (Done (), timer_start\<lparr>led_do_print := 0, led_value := 0\<rparr>, h'') \<and>
      observed led_cmd h'' = observed led_cmd [] @ [True])"
  by (rule timer_race [OF yes_responsive]) (simp add: timer_start_def)

definition sample_state :: "(val, unit) prog list \<times> val \<times> event list" where
  "sample_state = the (schedule sample_kernel (msg_entries 1) [0, 0, 0, 0, 0, 0, 0, 1, 1, 1]
     ([msg_server_Init 1 (VInt 0)], VInt 0, []))"

lemma sample_run:
  "schedule sample_kernel (msg_entries 1) [0, 0, 0, 0, 0, 0, 0, 1, 1, 1]
     ([msg_server_Init 1 (VInt 0)], VInt 0, []) = Some sample_state"
  by (simp add: sample_state_def turn_def sample_kernel_def msg_server_Init_def msg_server_Test_task_def
      started_def msg_entries_def LED_INIT_def LED_OFF_def out_def Let_def complain_def sent_def
      List.map_filter_def calls_to_def)

theorem msg_server_follows_queue_witness:
  "\<exists>k. calls_to rtems_message_queue_receive (snd (snd sample_state)) \<le> k + 1 \<and>
    k \<le> length (sent (snd (snd sample_state))) \<and>
    observed led_cmd (snd (snd sample_state)) = map odd32 (take k (sent (snd (snd sample_state))))"
  using msg_server_follows_queue [OF sample_queue, of 1 1 "VInt 0" "VInt 0" "fst sample_state"
      "fst (snd sample_state)" "snd (snd sample_state)"] schedule_pstep [OF sample_run]
  by simp

end
