(* ===== verification/Ticker.thy ===== *)
theory Ticker
  imports RT_Prog
begin

text \<open>
  The clock tick examples of \<open>ticker/\<close> (\<open>ticker\<close>, \<open>ticker_trace\<close>, \<open>ticker_stackchk\<close>,
  \<open>low_ticker\<close>, \<open>low_ticker1\<close>, \<open>low_ticker2\<close>, \<open>ticker_posix\<close>) with the macros of \<open>testmacros.h\<close>.

  \<open>bn\<close> stands for \<open>rtems_build_name\<close>.  The time-of-day variable is the list of its fields in the
  order year, month, day, hour, minute, second, ticks; a call that stores nothing leaves the old
  contents, at first the parameter \<open>junk\<close>.
\<close>

section \<open>\<open>testmacros.h\<close>\<close>

definition field :: "val list \<Rightarrow> nat \<Rightarrow> int" where
  "field t i = (if i < length t then as_int (t ! i) else 0)"

definition stored :: "reply \<Rightarrow> val list \<Rightarrow> val list" where
  "stored r old = (if outs r = [] then old else outs r)"

definition print_time :: "string \<Rightarrow> val list \<Rightarrow> string \<Rightarrow> ('g, 'a) prog \<Rightarrow> ('g, 'a) prog" where
  "print_time s1 tb s2 p =
     Do printf [VStr ''%s%02d:%02d:%02d   %02d/%02d/%04d%s'', VStr s1,
       VInt (field tb 3), VInt (field tb 4), VInt (field tb 5),
       VInt (field tb 1), VInt (field tb 2), VInt (field tb 0), VStr s2] (
     Do fflush [VRef ''stdout''] p)"

definition put_char :: "u32 \<Rightarrow> ('g, 'a) prog \<Rightarrow> ('g, 'a) prog" where
  "put_char c p = Do putchar [VInt (uint c)] p"

definition put_name :: "u32 \<Rightarrow> bool \<Rightarrow> ('g, 'a) prog \<Rightarrow> ('g, 'a) prog" where
  "put_name name crlf p =
    (let c0 = drop_bit 24 name AND 0xff;
         c1 = drop_bit 16 name AND 0xff;
         c2 = drop_bit 8 name AND 0xff;
         c3 = name AND 0xff
     in put_char c0 (
        (if c1 \<noteq> 0 then put_char c1 else (\<lambda>p. p)) (
        (if c2 \<noteq> 0 then put_char c2 else (\<lambda>p. p)) (
        (if c3 \<noteq> 0 then put_char c3 else (\<lambda>p. p)) (
        (if crlf then put_char 10 else (\<lambda>p. p)) p)))))"

definition task_number :: "val \<Rightarrow> (int \<Rightarrow> ('g, 'a) prog) \<Rightarrow> ('g, 'a) prog" where
  "task_number tid k =
     Call rtems_object_id_get_index [tid] (\<lambda>i.
     Call rtems_configuration_number_of_initialization_tasks [] (\<lambda>n.
     k (as_int (ret i) - as_int (ret n))))"

section \<open>\<open>ticker/init.c\<close>\<close>

record ticker_vars =
  Task_id :: "val list"
  Task_name :: "u32 list"

definition start_time :: "val list" where
  "start_time = map VInt [1988, 12, 31, 9, 0, 0, 0]"

definition seconds_35 :: "val list \<Rightarrow> bool" where
  "seconds_35 time \<longleftrightarrow> field time 5 \<ge> 35"

text \<open>An interval is a 32-bit number of ticks.\<close>

definition interval :: "int \<Rightarrow> val \<Rightarrow> val" where
  "interval k tps = VInt ((k * as_int tps) mod 2 ^ 32)"

definition name_of :: "ticker_vars \<Rightarrow> nat \<Rightarrow> (u32 \<Rightarrow> (ticker_vars, 'a) prog) \<Rightarrow> (ticker_vars, 'a) prog" where
  "name_of g i k = (case rd (Task_name g) i of None \<Rightarrow> Halt | Some nm \<Rightarrow> k nm)"

definition ticker_Test_task :: "nat \<Rightarrow> val list \<Rightarrow> nat \<Rightarrow> (ticker_vars, unit) prog" where
  "ticker_Test_task n junk task_index =
     Call rtems_clock_get_ticks_per_second [] (\<lambda>r.
     let ticks = interval (int task_index * 5) (ret r) in
     forever n (\<lambda>time.
       Call rtems_clock_get_tod [VRef ''&time''] (\<lambda>r.
       let time = stored r time in
       if seconds_35 time then
         Do puts [VStr ''*** END OF CLOCK TICK TEST ***''] (
         Do exit [VInt 0] Halt)
       else
         Get (\<lambda>g. name_of g task_index (\<lambda>nm.
         put_name nm False (
         print_time '' - rtems_clock_get_tod - '' time ''\<newline>'' (
         Do rtems_task_wake_after [ticks] (
         Ret time))))))) junk)"

definition DEFAULT_TASK_ATTRIBUTES :: "bool \<Rightarrow> val" where
  "DEFAULT_TASK_ATTRIBUTES sparc =
     (if sparc then VRef ''RTEMS_FLOATING_POINT'' else VRef ''RTEMS_DEFAULT_ATTRIBUTES'')"

definition create_task :: "nat \<Rightarrow> val \<Rightarrow> (ticker_vars, 'a) prog \<Rightarrow> (ticker_vars, 'a) prog" where
  "create_task i attr p =
     Get (\<lambda>g. name_of g i (\<lambda>nm.
     Call rtems_task_create
       [VInt (uint nm), VInt 1, VOp ''*'' [VRef ''RTEMS_MINIMUM_STACK_SIZE'', VInt 2],
        VRef ''RTEMS_DEFAULT_MODES'', attr, VOp ''&'' [VRef ''Task_id'', VInt (int i)]] (\<lambda>r.
     Put (\<lambda>g. g\<lparr>Task_id := (Task_id g)[i := out r 0 (Task_id g ! i)]\<rparr>) p)))"

definition start_task :: "nat \<Rightarrow> string \<Rightarrow> (ticker_vars, 'a) prog \<Rightarrow> (ticker_vars, 'a) prog" where
  "start_task i entry p =
     Get (\<lambda>g. Do rtems_task_start [Task_id g ! i, VRef entry, VInt (int i)] p)"

definition ticker_Init :: "(string \<Rightarrow> u32) \<Rightarrow> val \<Rightarrow> (ticker_vars, unit) prog" where
  "ticker_Init bn attr =
     Do puts [VStr ''\<newline>\<newline>*** CLOCK TICK TEST ***''] (
     Do rtems_clock_set start_time (
     Put (\<lambda>g. g\<lparr>Task_name := (Task_name g)[1 := bn ''TA1 '']\<rparr>) (
     Put (\<lambda>g. g\<lparr>Task_name := (Task_name g)[2 := bn ''TA2 '']\<rparr>) (
     Put (\<lambda>g. g\<lparr>Task_name := (Task_name g)[3 := bn ''TA3 '']\<rparr>) (
     create_task 1 attr (
     create_task 2 attr (
     create_task 3 attr (
     start_task 1 ''Test_task'' (
     start_task 2 ''Test_task'' (
     start_task 3 ''Test_task'' (
     Do rtems_task_delete [VRef ''RTEMS_SELF''] (
     Ret ()))))))))))))"

definition ticker_config :: config_macros where
  "ticker_config =
    [(CONFIGURE_APPLICATION_NEEDS_CONSOLE_DRIVER, defined),
     (CONFIGURE_APPLICATION_NEEDS_CLOCK_DRIVER, defined),
     (CONFIGURE_MAXIMUM_TASKS, VInt 4),
     (CONFIGURE_RTEMS_INIT_TASKS_TABLE, defined),
     (CONFIGURE_INIT_TASK_STACK_SIZE, VOp ''*'' [VInt 2, VRef ''RTEMS_MINIMUM_STACK_SIZE'']),
     (CONFIGURE_EXTRA_TASK_STACKS, VOp ''*'' [VInt 4, VRef ''RTEMS_MINIMUM_STACK_SIZE'']),
     (CONFIGURE_INIT, defined)]"

section \<open>\<open>ticker_trace/init.c\<close>\<close>

text \<open>The same code as \<open>ticker/init.c\<close>, with the attribute macro further up.\<close>

definition ticker_trace_Test_task :: "nat \<Rightarrow> val list \<Rightarrow> nat \<Rightarrow> (ticker_vars, unit) prog" where
  "ticker_trace_Test_task n junk task_index = ticker_Test_task n junk task_index"

definition ticker_trace_Init :: "(string \<Rightarrow> u32) \<Rightarrow> bool \<Rightarrow> (ticker_vars, unit) prog" where
  "ticker_trace_Init bn sparc = ticker_Init bn (DEFAULT_TASK_ATTRIBUTES sparc)"

definition ticker_trace_config :: config_macros where
  "ticker_trace_config = ticker_config"

section \<open>\<open>ticker_stackchk/init.c\<close>\<close>

definition ticker_stackchk_Test_task :: "nat \<Rightarrow> val list \<Rightarrow> nat \<Rightarrow> (ticker_vars, unit) prog" where
  "ticker_stackchk_Test_task n junk task_index =
     Call rtems_clock_get_ticks_per_second [] (\<lambda>r.
     let ticks = interval (int task_index * 5) (ret r) in
     forever n (\<lambda>time.
       Call rtems_clock_get_tod [VRef ''&time''] (\<lambda>r.
       let time = stored r time in
       if seconds_35 time then
         Do puts [VStr ''*** END OF CLOCK TICK TEST ***''] (
         Do rtems_stack_checker_report_usage [] (
         Do puts [VStr ''''] (
         Do rtems_cpu_usage_report [] (
         Do exit [VInt 0] Halt))))
       else
         Get (\<lambda>g. name_of g task_index (\<lambda>nm.
         put_name nm False (
         print_time '' - rtems_clock_get_tod - '' time ''\<newline>'' (
         Do rtems_task_wake_after [ticks] (
         Ret time))))))) junk)"

definition ticker_stackchk_Init :: "(string \<Rightarrow> u32) \<Rightarrow> (ticker_vars, unit) prog" where
  "ticker_stackchk_Init bn = ticker_Init bn (VRef ''RTEMS_FLOATING_POINT'')"

definition ticker_stackchk_config :: config_macros where
  "ticker_stackchk_config =
    [(CONFIGURE_APPLICATION_NEEDS_CONSOLE_DRIVER, defined),
     (CONFIGURE_APPLICATION_NEEDS_CLOCK_DRIVER, defined),
     (CONFIGURE_MAXIMUM_TASKS, VInt 4),
     (CONFIGURE_RTEMS_INIT_TASKS_TABLE, defined),
     (CONFIGURE_INIT_TASK_STACK_SIZE, VOp ''*'' [VInt 2, VRef ''RTEMS_MINIMUM_STACK_SIZE'']),
     (CONFIGURE_EXTRA_TASK_STACKS, VOp ''*'' [VInt 4, VRef ''RTEMS_MINIMUM_STACK_SIZE'']),
     (CONFIGURE_STACK_CHECKER_ENABLED, defined),
     (CONFIGURE_INIT, defined)]"

section \<open>The low memory tickers\<close>

text \<open>
  \<open>Init\<close> is the body of the idle thread here and never returns: its endless empty loop is \<open>Cut\<close>.
  After \<open>rtems_shutdown_executive\<close> the code goes on if the call returns.  The names of all three
  tasks are built from \<open>0x30+1\<close>.
\<close>

definition low_start_tasks :: "val \<Rightarrow> (unit, val) prog" where
  "low_start_tasks uninit =
     for_each [1, 2, 3] (\<lambda>i old.
       Call rtems_task_create
         [VStr ''TA1 '', VInt 1, VInt 0, VRef ''RTEMS_DEFAULT_MODES'',
          VRef ''RTEMS_DEFAULT_ATTRIBUTES'', VRef ''&id''] (\<lambda>r.
       let i' = out r 0 old in
       Do rtems_task_start [i', VRef ''Test_task'', VInt i] (
       Ret i'))) uninit"

subsection \<open>\<open>low_ticker/init.c\<close>\<close>

definition low_ticker_Test_task :: "nat \<Rightarrow> val list \<Rightarrow> nat \<Rightarrow> (unit, unit) prog" where
  "low_ticker_Test_task n junk task_index =
     forever n (\<lambda>time.
       Call rtems_clock_get_tod [VRef ''&time''] (\<lambda>r.
       let time = stored r time in
       bindp (if seconds_35 time then
           Do printk [VStr ''*** END OF LOW MEMORY CLOCK TICK TEST ***\<newline>''] (
           Do rtems_shutdown_executive [VInt 0] (
           Ret ()))
         else Ret ()) (\<lambda>_.
       Do printk [VStr ''TA%lu %s%02d:%02d:%02d   %02d/%02d/%04d\<newline>'', VInt (int task_index),
         VStr '' - rtems_clock_get_tod - '', VInt (field time 3), VInt (field time 4),
         VInt (field time 5), VInt (field time 1), VInt (field time 2), VInt (field time 0)] (
       Call rtems_clock_get_ticks_per_second [] (\<lambda>r.
       Do rtems_task_wake_after [interval (int task_index * 5) (ret r)] (
       Ret time)))))) junk"

definition low_ticker_Init :: "val \<Rightarrow> (unit, unit) prog" where
  "low_ticker_Init uninit =
     Do printk [VStr ''\<newline>\<newline>*** LOW MEMORY CLOCK TICK TEST ***\<newline>''] (
     Do rtems_clock_set start_time (
     bindp (low_start_tasks uninit) (\<lambda>_. Cut)))"

definition low_ticker_config :: config_macros where
  "low_ticker_config =
    [(CONFIGURE_INIT, defined),
     (CONFIGURE_APPLICATION_NEEDS_CLOCK_DRIVER, defined),
     (CONFIGURE_APPLICATION_DISABLE_FILESYSTEM, defined),
     (CONFIGURE_DISABLE_NEWLIB_REENTRANCY, defined),
     (CONFIGURE_MAXIMUM_FILE_DESCRIPTORS, VInt 0),
     (CONFIGURE_MINIMUM_TASK_STACK_SIZE, VInt 512),
     (CONFIGURE_MAXIMUM_PRIORITY, VInt 15),
     (CONFIGURE_DISABLE_CLASSIC_API_NOTEPADS, defined),
     (CONFIGURE_IDLE_TASK_BODY, VRef ''Init''),
     (CONFIGURE_IDLE_TASK_INITIALIZES_APPLICATION, defined),
     (CONFIGURE_MAXIMUM_TASKS, VInt 3)]"

subsection \<open>\<open>low_ticker1/init.c\<close>\<close>

definition low_ticker1_Test_task :: "nat \<Rightarrow> val \<Rightarrow> val list \<Rightarrow> nat \<Rightarrow> (unit, unit) prog" where
  "low_ticker1_Test_task n uninit junk task_index =
     Call rtems_rate_monotonic_create
       [VOp ''rtems_build_name'' [VStr ''PER'', VInt (0x30 + int task_index)], VRef ''&period_id''] (\<lambda>r.
     let period_id = out r 0 uninit in
     Call rtems_clock_get_ticks_per_second [] (\<lambda>r.
     let ticks = interval (int task_index * 5) (ret r) in
     forever n (\<lambda>uptime.
       Do rtems_rate_monotonic_period [period_id, ticks] (
       Call rtems_clock_get_uptime [VRef ''&uptime''] (\<lambda>r.
       let uptime = stored r uptime in
       bindp (if field uptime 0 \<ge> 35 then
           Do printk [VStr ''*** END OF LOW MEMORY CLOCK TICK TEST (PERIODs) ***\<newline>''] (
           Do rtems_shutdown_executive [VInt 0] (
           Ret ()))
         else Ret ()) (\<lambda>_.
       Do printk [VStr ''TA%lu - rtems_clock_uptime - %lld:%ld\<newline>'', VInt (int task_index),
         VInt (field uptime 0), VInt (field uptime 1)] (
       Ret uptime))))) junk))"

definition low_ticker1_Init :: "val \<Rightarrow> (unit, unit) prog" where
  "low_ticker1_Init uninit =
     Do printk [VStr ''\<newline>\<newline>*** LOW MEMORY CLOCK TICK TEST (PERIODs) ***\<newline>''] (
     bindp (low_start_tasks uninit) (\<lambda>_. Cut))"

definition low_ticker1_config :: "bool \<Rightarrow> nat \<Rightarrow> config_macros" where
  "low_ticker1_config sparc CPU_STACK_MINIMUM_SIZE =
    [(CONFIGURE_INIT, defined),
     (CONFIGURE_APPLICATION_NEEDS_CLOCK_DRIVER, defined),
     (CONFIGURE_APPLICATION_DISABLE_FILESYSTEM, defined),
     (CONFIGURE_DISABLE_NEWLIB_REENTRANCY, defined),
     (CONFIGURE_MAXIMUM_FILE_DESCRIPTORS, VInt 0)] @
    (if sparc then [(CONFIGURE_MINIMUM_TASK_STACK_SIZE, VInt 1024)]
     else if CPU_STACK_MINIMUM_SIZE > 512 then [(CONFIGURE_MINIMUM_TASK_STACK_SIZE, VInt 512)]
     else []) @
    [(CONFIGURE_MAXIMUM_PRIORITY, VInt 15),
     (CONFIGURE_DISABLE_CLASSIC_API_NOTEPADS, defined),
     (CONFIGURE_IDLE_TASK_BODY, VRef ''Init''),
     (CONFIGURE_IDLE_TASK_INITIALIZES_APPLICATION, defined),
     (CONFIGURE_MAXIMUM_TASKS, VInt 3),
     (CONFIGURE_MAXIMUM_PERIODS, VInt 3)]"

subsection \<open>\<open>low_ticker2/init.c\<close>\<close>

definition low_ticker2_Test_task :: "nat \<Rightarrow> val list \<Rightarrow> nat \<Rightarrow> (unit, unit) prog" where
  "low_ticker2_Test_task n junk task_index =
     Call rtems_clock_get_ticks_per_second [] (\<lambda>r.
     let ticks = interval (int task_index * 5) (ret r) in
     forever n (\<lambda>uptime.
       Call rtems_clock_get_uptime [VRef ''&uptime''] (\<lambda>r.
       let uptime = stored r uptime in
       bindp (if field uptime 0 \<ge> 35 then
           Do printk [VStr ''*** END OF LOW MEMORY CLOCK TICK TEST (delay) ***\<newline>''] (
           Do rtems_shutdown_executive [VInt 0] (
           Ret ()))
         else Ret ()) (\<lambda>_.
       Do printk [VStr ''TA%lu - rtems_clock_uptime - %lld:%ld\<newline>'', VInt (int task_index),
         VInt (field uptime 0), VInt (field uptime 1)] (
       Do rtems_task_wake_after [ticks] (
       Ret uptime))))) junk)"

definition low_ticker2_Init :: "val \<Rightarrow> (unit, unit) prog" where
  "low_ticker2_Init uninit =
     Do printk [VStr ''\<newline>\<newline>*** LOW MEMORY CLOCK TICK TEST (delay) ***\<newline>''] (
     bindp (low_start_tasks uninit) (\<lambda>_. Cut))"

definition low_ticker2_config :: config_macros where
  "low_ticker2_config =
    [(CONFIGURE_INIT, defined),
     (CONFIGURE_APPLICATION_NEEDS_CLOCK_DRIVER, defined),
     (CONFIGURE_APPLICATION_DISABLE_FILESYSTEM, defined),
     (CONFIGURE_DISABLE_NEWLIB_REENTRANCY, defined),
     (CONFIGURE_MAXIMUM_FILE_DESCRIPTORS, VInt 0),
     (CONFIGURE_MINIMUM_TASK_STACK_SIZE, VInt 512),
     (CONFIGURE_MAXIMUM_PRIORITY, VInt 15),
     (CONFIGURE_DISABLE_CLASSIC_API_NOTEPADS, defined),
     (CONFIGURE_IDLE_TASK_BODY, VRef ''Init''),
     (CONFIGURE_IDLE_TASK_INITIALIZES_APPLICATION, defined),
     (CONFIGURE_MAXIMUM_TASKS, VInt 3)]"

end
