(* ===== verification/Ticker_Props.thy ===== *)
theory Ticker_Props
  imports Ticker
begin

text \<open>
  What the tickers do: the printed names, the objects against the configuration, and the end of
  the test on a clock that advances with the delays.
\<close>

section \<open>Printing a name\<close>

text \<open>The characters that a program prints one by one.\<close>

definition put_cmd :: "syscall \<Rightarrow> int option" where
  "put_cmd c = (if fst c = putchar \<and> snd c \<noteq> [] then Some (as_int (hd (snd c))) else None)"

definition pack4 :: "u8 \<Rightarrow> u8 \<Rightarrow> u8 \<Rightarrow> u8 \<Rightarrow> u32" where
  "pack4 a b c d = push_bit 24 (ucast a) OR push_bit 16 (ucast b) OR push_bit 8 (ucast c) OR ucast d"

lemma unpack4:
  "drop_bit 24 (pack4 a b c d) AND 0xff = ucast a"
  "drop_bit 16 (pack4 a b c d) AND 0xff = ucast b"
  "drop_bit 8 (pack4 a b c d) AND 0xff = ucast c"
  "pack4 a b c d AND 0xff = ucast d"
proof -
  have m: "(0xff :: u32) = mask 8" by (simp add: mask_eq_exp_minus_1)
  show "drop_bit 24 (pack4 a b c d) AND 0xff = ucast a"
    "drop_bit 16 (pack4 a b c d) AND 0xff = ucast b"
    "drop_bit 8 (pack4 a b c d) AND 0xff = ucast c"
    "pack4 a b c d AND 0xff = ucast d"
    unfolding m pack4_def
    by (rule bit_word_eqI; auto simp: bit_simps dest: bit_imp_le_length)+
qed

lemma uint_ucast_u8: "uint (ucast (x :: u8) :: u32) = uint x"
proof -
  have "uint x < 2 ^ 8" using unsigned_less [where 'a = int, of x] by simp
  then show ?thesis by (simp add: unsigned_ucast_eq take_bit_int_eq_self)
qed

lemma ucast_u8_eq_0: "(ucast (x :: u8) :: u32) = 0 \<longleftrightarrow> x = 0"
  by (metis uint_ucast_u8 unsigned_0 unsigned_eq_0_iff)

text \<open>
  put_name prints the four characters that rtems_build_name packed into a task name, without
  those after the first that are zero, and a newline if asked to.
\<close>

theorem put_name_prints:
  "emits any_reply put_cmd (put_name (pack4 a b c d) crlf (Ret ())) (\<lambda>_. True)
    (uint a # map uint (filter (\<lambda>x. x \<noteq> 0) [b, c, d]) @ (if crlf then [10] else []))"
  by (simp add: put_name_def put_char_def put_cmd_def unpack4 ucast_u8_eq_0 uint_ucast_u8 Let_def)

section \<open>Objects against the configuration\<close>

lemma at_most_create_task [simp]:
  "(if f = rtems_task_create then 0 < n \<and> at_most f p (n - 1) else at_most f p n) \<Longrightarrow>
    at_most f (create_task i attr p) n"
  by (auto simp: create_task_def name_of_def split: option.split if_splits)

lemma at_most_start_task [simp]:
  "f \<noteq> rtems_task_start \<Longrightarrow> at_most f p n \<Longrightarrow> at_most f (start_task i entry p) n"
  by (simp add: start_task_def)

lemma at_most_then_cut: "at_most f p n \<Longrightarrow> at_most f (bindp p (\<lambda>_. Cut)) n"
  using at_most_bindp [of f p n "\<lambda>_. Cut" 0] by simp

lemma at_most_low_start_tasks:
  "at_most rtems_task_create (low_start_tasks u) 3"
  "f \<noteq> rtems_task_create \<Longrightarrow> f \<noteq> rtems_task_start \<Longrightarrow> at_most f (low_start_tasks u) n"
  by (simp_all add: low_start_tasks_def Let_def del: at_most_seq)

lemma at_most_ticker_Init:
  "at_most rtems_task_create (ticker_Init bn attr) 3"
  "f \<notin> {puts, rtems_clock_set, rtems_task_create, rtems_task_start, rtems_task_delete} \<Longrightarrow>
    at_most f (ticker_Init bn attr) n"
  by (simp add: ticker_Init_def) (auto simp: ticker_Init_def)

lemmas ticker_limit_defs = within_limits_def object_classes_def configured_def reserved_def Let_def
  at_most_then_cut at_most_low_start_tasks at_most_ticker_Init

text \<open>
  No run of a ticker example creates more objects of a class than its configuration reserves.
\<close>

theorem ticker_objects_within_limits:
  "within_limits ticker_config (ticker_Init bn attr) \<and>
   within_limits ticker_trace_config (ticker_trace_Init bn sparc) \<and>
   within_limits ticker_stackchk_config (ticker_stackchk_Init bn) \<and>
   within_limits low_ticker_config (low_ticker_Init u) \<and>
   within_limits (low_ticker1_config sparc m) (low_ticker1_Init u) \<and>
   within_limits low_ticker2_config (low_ticker2_Init u)"
  apply (intro conjI)
  subgoal by (simp add: ticker_limit_defs ticker_config_def)
  subgoal by (simp add: ticker_limit_defs ticker_trace_Init_def ticker_trace_config_def ticker_config_def)
  subgoal by (simp add: ticker_limit_defs ticker_stackchk_Init_def ticker_stackchk_config_def)
  subgoal by (simp add: ticker_limit_defs low_ticker_Init_def low_ticker_config_def)
  subgoal by (simp add: ticker_limit_defs low_ticker1_Init_def low_ticker1_config_def)
  subgoal by (simp add: ticker_limit_defs low_ticker2_Init_def low_ticker2_config_def)
  done

section \<open>The end of the test\<close>

text \<open>
  A clock that advances by the delays alone, as for a task whose own work takes no time: it is set
  by \<open>Init\<close> to a full minute and shows the ticks slept so far.
\<close>

primrec slept :: "event list \<Rightarrow> int" where
  "slept [] = 0"
| "slept (e # h) = (if fst (fst e) = rtems_task_wake_after \<and> snd (fst e) \<noteq> []
     then as_int (hd (snd (fst e))) else 0) + slept h"

lemma slept_append [simp]: "slept (h @ h') = slept h + slept h'"
  by (induction h) auto

definition clock_law :: "kernel \<Rightarrow> int \<Rightarrow> bool" where
  "clock_law K tps \<longleftrightarrow> 0 < tps \<and> 15 * tps < 2 ^ 32 \<and> responsive K \<and> (\<forall>h.
     K h (rtems_clock_get_ticks_per_second, []) = Some (Reply (VInt tps) []) \<and>
     (slept h div tps < 60 \<longrightarrow> K h (rtems_clock_get_tod, [VRef ''&time'']) =
        Some (Reply SUCCESSFUL (map VInt [1988, 12, 31, 9, 0, slept h div tps, 0]))))"

definition quiet_events :: "event list \<Rightarrow> event list \<Rightarrow> bool" where
  "quiet_events h h' \<longleftrightarrow> slept h' = slept h \<and>
     calls_to rtems_task_wake_after h' = calls_to rtems_task_wake_after h"

definition silently :: "kernel \<Rightarrow> ('g, 'a) prog \<Rightarrow> ('g, 'a) prog \<Rightarrow> bool" where
  "silently K p q \<longleftrightarrow> (\<forall>g h. \<exists>h'. exec K p g h = exec K q g h' \<and> quiet_events h h')"

lemma silently_trans: "silently K p q \<Longrightarrow> silently K q r \<Longrightarrow> silently K p r"
  unfolding silently_def quiet_events_def by metis

lemma silently_refl: "silently K p p"
  by (auto simp: silently_def quiet_events_def)

lemma silently_call:
  assumes "responsive K" "f \<noteq> rtems_task_wake_after"
  shows "silently K (Do f args p) p"
  unfolding silently_def
proof (intro allI)
  fix g h
  obtain r where "K h (f, args) = Some r" using assms(1) unfolding responsive_def by blast
  then show "\<exists>h'. exec K (Do f args p) g h = exec K p g h' \<and> quiet_events h h'" using assms(2)
    by (intro exI [of _ "h @ [((f, args), r)]"]) (simp add: quiet_events_def)
qed

lemma silently_put_char: "responsive K \<Longrightarrow> silently K (put_char c p) p"
  unfolding put_char_def by (rule silently_call) simp_all

lemma silently_maybe: "responsive K \<Longrightarrow> silently K ((if b then put_char c else (\<lambda>p. p)) p) p"
  by (simp add: silently_put_char silently_refl)

lemma silently_put_name: "responsive K \<Longrightarrow> silently K (put_name nm crlf p) p"
  unfolding put_name_def Let_def
  by (rule silently_trans [OF silently_put_char], assumption,
      (rule silently_trans [OF silently_maybe], assumption)+, rule silently_refl)

lemma silently_print_time: "responsive K \<Longrightarrow> silently K (print_time s1 tb s2 p) p"
  unfolding print_time_def by (rule silently_trans [OF silently_call silently_call]) simp_all

text \<open>One round of the loop, and the rounds until second 35.\<close>

definition ticker_round :: "nat \<Rightarrow> val \<Rightarrow> val list \<Rightarrow> (ticker_vars, val list) prog" where
  "ticker_round i ticks time =
       Call rtems_clock_get_tod [VRef ''&time''] (\<lambda>r.
       let time = stored r time in
       if seconds_35 time then
         Do puts [VStr ''*** END OF CLOCK TICK TEST ***''] (
         Do exit [VInt 0] Halt)
       else
         Get (\<lambda>g. name_of g i (\<lambda>nm.
         put_name nm False (
         print_time '' - rtems_clock_get_tod - '' time ''\<newline>'' (
         Do rtems_task_wake_after [ticks] (
         Ret time))))))"

lemma exec_last_round:
  assumes "clock_law K tps" "35 \<le> slept h div tps" "slept h div tps < 60"
  shows "\<exists>h' r. exec K (ticker_round i ticks time) g h = (Halted, g, h' @ [((exit, [VInt 0]), r)]) \<and>
    calls_to rtems_task_wake_after h' = calls_to rtems_task_wake_after h"
proof -
  have r: "responsive K" using assms(1) by (simp add: clock_law_def)
  let ?t = "map VInt [1988, 12, 31, 9, 0, slept h div tps, 0]"
  let ?h = "h @ [((rtems_clock_get_tod, [VRef ''&time'']), Reply SUCCESSFUL ?t)]"
  have "K h (rtems_clock_get_tod, [VRef ''&time'']) = Some (Reply SUCCESSFUL ?t)"
    using assms(1,3) by (simp add: clock_law_def)
  moreover obtain q1 where "K ?h (puts, [VStr ''*** END OF CLOCK TICK TEST ***'']) = Some q1"
    using r unfolding responsive_def by blast
  moreover obtain q2 where
    "K (?h @ [((puts, [VStr ''*** END OF CLOCK TICK TEST ***'']), q1)]) (exit, [VInt 0]) = Some q2"
    using r unfolding responsive_def by blast
  ultimately show ?thesis using assms(2)
    by (intro exI [of _ "?h @ [((puts, [VStr ''*** END OF CLOCK TICK TEST ***'']), q1)]"] exI [of _ q2])
       (simp add: ticker_round_def stored_def seconds_35_def field_def)
qed

lemma exec_round:
  assumes "clock_law K tps" "slept h div tps < 35" "i < length (Task_name g)"
  shows "\<exists>h' time'. exec K (ticker_round i (VInt ticks) time) g h = (Done time', g, h') \<and>
    slept h' = slept h + ticks \<and>
    calls_to rtems_task_wake_after h' = Suc (calls_to rtems_task_wake_after h)"
proof -
  have r: "responsive K" using assms(1) by (simp add: clock_law_def)
  let ?t = "map VInt [1988, 12, 31, 9, 0, slept h div tps, 0]"
  let ?h = "h @ [((rtems_clock_get_tod, [VRef ''&time'']), Reply SUCCESSFUL ?t)]"
  let ?w = "Do rtems_task_wake_after [VInt ticks] (Ret ?t) :: (ticker_vars, val list) prog"
  have t: "K h (rtems_clock_get_tod, [VRef ''&time'']) = Some (Reply SUCCESSFUL ?t)"
    using assms(1,2) by (simp add: clock_law_def)
  have "silently K (put_name (Task_name g ! i) False (print_time '' - rtems_clock_get_tod - '' ?t ''\<newline>'' ?w)) ?w"
    by (rule silently_trans [OF silently_put_name silently_print_time]) (rule r)+
  then obtain h1 where h1: "exec K (put_name (Task_name g ! i) False
      (print_time '' - rtems_clock_get_tod - '' ?t ''\<newline>'' ?w)) g ?h = exec K ?w g h1" "quiet_events ?h h1"
    unfolding silently_def by blast
  obtain q where q: "K h1 (rtems_task_wake_after, [VInt ticks]) = Some q"
    using r unfolding responsive_def by blast
  have "exec K (ticker_round i (VInt ticks) time) g h =
      (Done ?t, g, h1 @ [((rtems_task_wake_after, [VInt ticks]), q)])"
    using t h1(1) q assms(2,3)
    by (simp add: ticker_round_def stored_def seconds_35_def field_def name_of_def rd_def Let_def)
  then show ?thesis using h1(2) by (auto simp: quiet_events_def)
qed

lemma exec_rounds:
  assumes "clock_law K tps" "i \<in> {1, 2, 3}" "i < length (Task_name g)"
  shows "slept h = int k * (int i * 5 * tps) \<Longrightarrow> k \<le> N \<Longrightarrow> N - k < n \<Longrightarrow> N = 34 div (5 * i) + 1 \<Longrightarrow>
    \<exists>h' r. exec K (forever n (ticker_round i (VInt (int i * 5 * tps))) time :: (ticker_vars, 'a) prog) g h =
        (Halted, g, h' @ [((exit, [VInt 0]), r)]) \<and>
      calls_to rtems_task_wake_after h' = calls_to rtems_task_wake_after h + (N - k)"
proof (induction n arbitrary: h k time)
  case (Suc n)
  have tps: "0 < tps" using assms(1) by (simp add: clock_law_def)
  then have s: "slept h div tps = int (5 * i * k)"
    using Suc.prems(1) by (simp add: mult.assoc [symmetric] mult.commute [of _ tps])
  show ?case
  proof (cases "k = N")
    case True
    then have "35 \<le> slept h div tps" "slept h div tps < 60" using s Suc.prems(4) assms(2) by auto
    then obtain h' r where "exec K (ticker_round i (VInt (int i * 5 * tps)) time) g h =
        (Halted, g, h' @ [((exit, [VInt 0]), r)])"
      "calls_to rtems_task_wake_after h' = calls_to rtems_task_wake_after h"
      using exec_last_round [OF assms(1)] by blast
    then show ?thesis using True
      by (intro exI [of _ h'] exI [of _ r]) (simp add: exec_bindp)
  next
    case False
    then have k: "k < N" using Suc.prems(2) by simp
    then have "slept h div tps < 35" using s Suc.prems(4) assms(2) by auto
    from exec_round [OF assms(1) this assms(3)] obtain h1 t1 where
      1: "exec K (ticker_round i (VInt (int i * 5 * tps)) time) g h = (Done t1, g, h1)"
        "slept h1 = slept h + int i * 5 * tps"
        "calls_to rtems_task_wake_after h1 = Suc (calls_to rtems_task_wake_after h)" by blast
    have "slept h1 = int (Suc k) * (int i * 5 * tps)" using 1(2) Suc.prems(1) by (simp add: algebra_simps)
    moreover have "Suc k \<le> N" "N - Suc k < n" using k Suc.prems(3) by linarith+
    ultimately obtain h' r where
      2: "exec K (forever n (ticker_round i (VInt (int i * 5 * tps))) t1 :: (ticker_vars, 'a) prog) g h1 =
        (Halted, g, h' @ [((exit, [VInt 0]), r)])"
      "calls_to rtems_task_wake_after h' = calls_to rtems_task_wake_after h1 + (N - Suc k)"
      using Suc.IH [of h1 "Suc k" t1] Suc.prems(4) by blast
    show ?thesis using 1 2 k
      by (intro exI [of _ h'] exI [of _ r]) (simp add: exec_bindp)
  qed
qed simp

text \<open>
  On a clock that advances with the delays, a task of the ticker test ends the test with
  exit(0) in the first of its rounds at or after second 35, with exactly the wake-ups before it.
\<close>

theorem ticker_ends:
  assumes "clock_law K tps" "i \<in> {1, 2, 3}" "i < length (Task_name g)" "8 \<le> n"
  shows "\<exists>h r. exec K (ticker_Test_task n junk i) g [] = (Halted, g, h @ [((exit, [VInt 0]), r)]) \<and>
    calls_to rtems_task_wake_after h = 34 div (5 * i) + 1"
proof -
  have tps: "0 < tps" "15 * tps < 2 ^ 32" using assms(1) by (simp_all add: clock_law_def)
  have "int i * 5 * tps \<le> 15 * tps" using assms(2) tps(1) by auto
  then have "int i * 5 * tps < 2 ^ 32" using tps(2) by linarith
  then have m: "(int i * 5 * tps) mod 2 ^ 32 = int i * 5 * tps"
    using tps(1) by (intro mod_pos_pos_trivial) auto
  let ?h = "[((rtems_clock_get_ticks_per_second, []), Reply (VInt tps) [])]"
  have "slept ?h = int 0 * (int i * 5 * tps)" by simp
  from exec_rounds [OF assms(1-3) this _ _ refl, of n junk]
  have "\<exists>h r. exec K (forever n (ticker_round i (VInt (int i * 5 * tps))) junk) g ?h =
      (Halted, g, h @ [((exit, [VInt 0]), r)]) \<and>
      calls_to rtems_task_wake_after h = 34 div (5 * i) + 1"
    using assms(2,4) by auto
  moreover have "ticker_Test_task n junk i = Call rtems_clock_get_ticks_per_second []
      (\<lambda>r. forever n (ticker_round i (interval (int i * 5) (ret r))) junk)"
    by (simp add: ticker_Test_task_def ticker_round_def [abs_def] Let_def)
  ultimately show ?thesis using assms(1) m
    by (simp add: clock_law_def interval_def)
qed

definition sample_clock :: kernel where
  "sample_clock h c =
    (if fst c = rtems_clock_get_ticks_per_second then Some (Reply (VInt 100) [])
     else if fst c = rtems_clock_get_tod
     then Some (Reply SUCCESSFUL (map VInt [1988, 12, 31, 9, 0, slept h div 100, 0]))
     else Some (Reply SUCCESSFUL []))"

theorem ticker_ends_witness:
  "\<exists>h r. exec sample_clock (ticker_Test_task 8 [] 2) \<lparr>Task_id = [], Task_name = [0, 1, 2, 3]\<rparr> [] =
      (Halted, \<lparr>Task_id = [], Task_name = [0, 1, 2, 3]\<rparr>, h @ [((exit, [VInt 0]), r)]) \<and>
    calls_to rtems_task_wake_after h = 34 div (5 * 2) + 1"
proof (rule ticker_ends)
  show "clock_law sample_clock 100"
    by (simp add: clock_law_def responsive_def sample_clock_def)
qed simp_all

end
