(* ===== verification/Triple_Period.thy ===== *)
theory Triple_Period
  imports Ticker
begin

text \<open>
  The example \<open>classic_api/triple_period\<close>: three periodic tasks, by absolute time, by the rate
  monotonic manager and by relative delays, and why the first one never ends the demo.
\<close>

section \<open>\<open>system.h\<close>\<close>

definition triple_print_time :: "string \<Rightarrow> val list \<Rightarrow> string \<Rightarrow> ('g, 'a) prog \<Rightarrow> ('g, 'a) prog" where
  "triple_print_time s1 tb s2 p =
     Do printf [VStr ''%s%02lu:%02lu:%02lu   %02lu/%02lu/%04lu%s'', VStr s1,
       VInt (field tb 3), VInt (field tb 4), VInt (field tb 5),
       VInt (field tb 1), VInt (field tb 2), VInt (field tb 0), VStr s2] (
     Do fflush [VRef ''stdout''] p)"

definition triple_put_name :: "u32 \<Rightarrow> bool \<Rightarrow> ('g, 'a) prog \<Rightarrow> ('g, 'a) prog" where
  "triple_put_name name crlf p = put_name name crlf p"

definition triple_config :: config_macros where
  "triple_config =
    [(CONFIGURE_APPLICATION_NEEDS_CONSOLE_DRIVER, defined),
     (CONFIGURE_APPLICATION_NEEDS_CLOCK_DRIVER, defined),
     (CONFIGURE_MICROSECONDS_PER_TICK, VInt 500),
     (CONFIGURE_MAXIMUM_TASKS, VInt 4),
     (CONFIGURE_EXTRA_TASK_STACKS, VOp ''*'' [VInt 6, VRef ''RTEMS_MINIMUM_STACK_SIZE'']),
     (CONFIGURE_MAXIMUM_PERIODS, VInt 1),
     (CONFIGURE_RTEMS_INIT_TASKS_TABLE, defined),
     (CONFIGURE_INIT_TASK_ATTRIBUTES, VRef ''RTEMS_FLOATING_POINT''),
     (CONFIGURE_INIT, defined)]"

section \<open>\<open>init.c\<close>\<close>

definition triple_Init :: "(string \<Rightarrow> u32) \<Rightarrow> (ticker_vars, unit) prog" where
  "triple_Init bn =
     Do puts [VStr ''\<newline>\<newline>\<newline>*** PERIODIC TASKING TRIPLE TEST ***''] (
     Do puts [VStr ''*** This demo shows three different ways of running periodic tasks ***''] (
     Do puts [VStr ''*** It also demonstrates the CPU usage and Rate Monotonic statitistics utilities ***''] (
     Call rtems_clock_get_ticks_per_second [] (\<lambda>r.
     Do printf [VStr ''\<newline>Ticks per second in your system: %lu\<newline>'', ret r] (
     Call rtems_clock_get_ticks_since_boot [] (\<lambda>r.
     Do printf [VStr ''Ticks since boot: %lu\<newline>\<newline>'', ret r] (
     Do rtems_clock_set start_time (
     Put (\<lambda>g. g\<lparr>Task_name := (Task_name g)[1 := bn ''TA1 '']\<rparr>) (
     Put (\<lambda>g. g\<lparr>Task_name := (Task_name g)[2 := bn ''TA2 '']\<rparr>) (
     Put (\<lambda>g. g\<lparr>Task_name := (Task_name g)[3 := bn ''TA3 '']\<rparr>) (
     create_task 1 (VRef ''RTEMS_DEFAULT_ATTRIBUTES'') (
     create_task 2 (VRef ''RTEMS_DEFAULT_ATTRIBUTES'') (
     create_task 3 (VRef ''RTEMS_DEFAULT_ATTRIBUTES'') (
     start_task 1 ''Task_Absolute_Period'' (
     start_task 2 ''Task_Rate_Monotonic_Period'' (
     start_task 3 ''Task_Relative_Period'' (
     Do rtems_task_delete [VRef ''RTEMS_SELF''] (
     Ret ()))))))))))))))))))"

section \<open>\<open>tasks.c\<close>\<close>

text \<open>The state of the loop is the outer \<open>time\<close> and the 32-bit \<open>count\<close>.\<close>

definition absolute_round :: "val list \<times> u32 \<Rightarrow> (ticker_vars, val list \<times> u32) prog" where
  "absolute_round = (\<lambda>(time, count).
       Call rtems_clock_get_tod [VRef ''&time''] (\<lambda>r.
       let time = stored r time; count = count + 1 in
       if field time 5 \<ge> 60 then
         Do puts [VStr ''*** END OF PERIODIC TASKING TRIPLE TEST ***''] (
         Do exit [VInt 0] Halt)
       else
         Do printf [VStr ''\<newline>\<newline>Task 1 - activating every %d second using absolute time (rtems_task_wake_when)\<newline>'',
           VInt 1] (
         triple_print_time '' - rtems_clock_get_tod - '' time ''\<newline>'' (
         Call rtems_clock_get_ticks_since_boot [] (\<lambda>t.
         Do printf [VStr '' - Ticks since boot: %lu\<newline>'', ret t] (
         Do rtems_task_wake_when
           (map VInt [1988, 12, 31, 9, 0] @ [VInt (uint (count * 1)), VInt 0]) (
         Ret (time, count))))))))"

definition Task_Absolute_Period :: "nat \<Rightarrow> val list \<Rightarrow> (ticker_vars, unit) prog" where
  "Task_Absolute_Period n junk =
     Do rtems_cpu_usage_reset [] (
     forever n absolute_round (junk, 0))"

text \<open>The state is the period, once it is created, and \<open>count\<close>.\<close>

definition Task_Rate_Monotonic_Period :: "nat \<Rightarrow> val list \<Rightarrow> val \<Rightarrow> (ticker_vars, unit) prog" where
  "Task_Rate_Monotonic_Period n junk uninit =
     forever n (\<lambda>(time, RM_period, is_RM_created, count :: u32).
       Call rtems_clock_get_tod [VRef ''&time''] (\<lambda>r.
       let time = stored r time; count = count + 1 in
       Do printf [VStr ''\<newline>\<newline>Task 2 - activating every %d second using rate monotonic manager to schedule (rtems_rate_monotonic_period)\<newline>'',
         VInt 2] (
       triple_print_time '' - rtems_clock_get_tod - '' time ''\<newline>'' (
       Call rtems_clock_get_ticks_since_boot [] (\<lambda>t.
       Do printf [VStr '' - Ticks since boot: %lu\<newline>'', ret t] (
       bindp
         (if \<not> is_RM_created then
            Call rtems_rate_monotonic_create [VStr ''PER1'', VRef ''&RM_period''] (\<lambda>r.
            let RM_period = out r 0 RM_period in
            if SUCCESSFUL \<noteq> ret r then
              Do printf [VStr ''RM failed with status: %d\<newline>'', ret r] (Do exit [VInt 1] Halt)
            else
              Call rtems_clock_get_ticks_per_second [] (\<lambda>t.
              Call rtems_rate_monotonic_period [RM_period, interval 2 (ret t)] (\<lambda>r.
              if SUCCESSFUL \<noteq> ret r then
                Do printf [VStr ''RM failed with status: %d\<newline>'', ret r] (Do exit [VInt 1] Halt)
              else Ret (RM_period, True, 0))))
          else Ret (RM_period, is_RM_created, count)) (\<lambda>(RM_period, is_RM_created, count).
       Call rtems_clock_get_ticks_per_second [] (\<lambda>t.
       Call rtems_rate_monotonic_period [RM_period, interval 2 (ret t)] (\<lambda>r.
       if SUCCESSFUL \<noteq> ret r then
         bindp (if VRef ''RTEMS_TIMEOUT'' \<noteq> ret r
                then Do printf [VStr ''RM missed period!\<newline>''] (Ret ()) else Ret ()) (\<lambda>_.
         Do printf [VStr ''RM failed with status: %d\<newline>'', ret r] (Do exit [VInt 1] Halt))
       else Ret (time, RM_period, is_RM_created, count)))))))))) (junk, uninit, False, 0)"

definition Task_Relative_Period :: "nat \<Rightarrow> val list \<Rightarrow> (ticker_vars, unit) prog" where
  "Task_Relative_Period n junk =
     forever n (\<lambda>time.
       Call rtems_clock_get_tod [VRef ''&time''] (\<lambda>r.
       let time = stored r time in
       Do printf [VStr ''\<newline>\<newline>Task 3 - activating after every %d second using relative time (rtems_task_wake_after)\<newline>'',
         VInt 3] (
       triple_print_time '' - rtems_clock_get_tod - '' time ''\<newline>'' (
       Call rtems_clock_get_ticks_since_boot [] (\<lambda>t.
       Do printf [VStr '' - Ticks since boot: %lu\<newline>'', ret t] (
       Call rtems_clock_get_ticks_per_second [] (\<lambda>t.
       Do rtems_task_wake_after [interval 3 (ret t)] (
       Ret time)))))))) junk"

section \<open>The absolute task never ends the demo\<close>

text \<open>
  The replies of a clock whose time of day has seven fields and at most 59 seconds; the requests
  observed: \<open>Wake\<close> with the whole time of day the task asks to be woken at, \<open>Finish\<close> for the end
  of the demo. \<open>start_minute s\<close> is the time of day \<open>Init\<close> starts the clock with, at second \<open>s\<close>.
\<close>

datatype wake = Wake "val list" | Finish

definition tod_reply :: "syscall \<Rightarrow> reply \<Rightarrow> bool" where
  "tod_reply c r \<longleftrightarrow>
     (fst c = rtems_clock_get_tod \<longrightarrow> length (outs r) = 7 \<and> field (outs r) 5 < 60)"

definition wake_request :: "syscall \<Rightarrow> wake option" where
  "wake_request c =
    (if fst c = rtems_task_wake_when then Some (Wake (snd c))
     else if fst c = exit then Some Finish else None)"

definition start_minute :: "int \<Rightarrow> val list" where
  "start_minute s = start_time[5 := VInt s]"

lemma start_minute: "start_minute s = map VInt [1988, 12, 31, 9, 0] @ [VInt s, VInt 0]"
  by (simp add: start_minute_def start_time_def)

lemma tod_reply_stored:
  "tod_reply (rtems_clock_get_tod, args) r \<Longrightarrow> field (stored r old) 5 < 60"
  by (auto simp: tod_reply_def stored_def)

lemma absolute_round_emits:
  "emits tod_reply wake_request (absolute_round (time, count))
    (\<lambda>l. snd l = count + 1) [Wake (start_minute (uint (count + 1)))]"
  by (auto simp: absolute_round_def wake_request_def triple_print_time_def Let_def start_minute
      dest: tod_reply_stored [of _ _ time])

lemma whole_absolute_round: "whole (absolute_round l)"
  by (cases l) (simp add: absolute_round_def triple_print_time_def Let_def)

lemma unhalted_absolute_round: "unhalted tod_reply (absolute_round (time, count))"
  by (auto simp: absolute_round_def triple_print_time_def Let_def
      dest: tod_reply_stored [of _ _ time])

lemma Task_Absolute_Period_emits:
  "emits tod_reply wake_request (Task_Absolute_Period n junk) Q
    (map (\<lambda>i. Wake (start_minute (uint (of_nat (Suc i) :: u32)))) [0..<n])"
proof -
  let ?w = "\<lambda>i. Wake (start_minute (uint (of_nat (Suc i) :: u32)))"
  have "emits tod_reply wake_request (absolute_round l) (\<lambda>l. snd l = of_nat (Suc i)) [?w i]"
    if "snd l = of_nat i" for i and l :: "val list \<times> u32"
    using absolute_round_emits [of "fst l" "snd l"] that
    by (cases l) (simp add: add.commute)
  then have "emits tod_reply wake_request (forever n absolute_round (junk, 0)) Q
    (concat (map (\<lambda>i. [?w i]) [0..<0 + n]))"
    by (rule emits_rounds [where I = "\<lambda>i l. snd l = of_nat i"]) (auto simp: whole_absolute_round)
  then show ?thesis by (simp add: Task_Absolute_Period_def wake_request_def)
qed

text \<open>
  C36: x
\<close>

theorem absolute_period_never_ends:
  assumes "responsive K" "obeys K tod_reply"
  shows "observed wake_request (trace_of (exec K (Task_Absolute_Period n junk) g [])) =
    map (\<lambda>i. Wake (start_minute (uint (of_nat (Suc i) :: u32)))) [0..<n]"
  by (rule emits_responsive [OF Task_Absolute_Period_emits [of n junk "\<lambda>_. True"] _ assms])
    (use unhalted_absolute_round in \<open>auto simp: Task_Absolute_Period_def\<close>)

definition nine_oclock :: kernel where
  "nine_oclock h c = Some (if fst c = rtems_clock_get_tod
     then Reply SUCCESSFUL (map VInt [1988, 12, 31, 9, 0, 59, 0]) else Reply SUCCESSFUL [])"

lemma nine_oclock_ok: "responsive nine_oclock" "obeys nine_oclock tod_reply"
  by (auto simp: responsive_def obeys_def nine_oclock_def tod_reply_def field_def)

theorem absolute_period_never_ends_witness:
  "observed wake_request (trace_of (exec nine_oclock (Task_Absolute_Period 3 [])
     \<lparr>Task_id = [], Task_name = []\<rparr> [])) =
   map Wake (map (\<lambda>s. map VInt [1988, 12, 31, 9, 0, s, 0]) [1, 2, 3])"
  using absolute_period_never_ends [OF nine_oclock_ok, of 3 "[]" "\<lparr>Task_id = [], Task_name = []\<rparr>"]
  by (simp add: upt_conv_Cons start_minute)

end
