(* ===== verification/Posix_Init.thy ===== *)
theory Posix_Init
  imports RT_Prog
begin

text \<open>
  The files \<open>rtems_config.c\<close>: each defines the argument vector, the initialization thread
  \<open>POSIX_Init\<close> that calls the example's \<open>main\<close>, and the configuration.  \<open>main\<close> is a parameter, so
  that the statements hold for every program these files start.  The result of a \<open>POSIX_Init\<close> that
  returns is the null pointer, and so not part of the model.
\<close>

section \<open>\<open>c11/c11_cndvar01/rtems_config.c\<close>\<close>

definition c11_cndvar01_argv :: "string list" where
  "c11_cndvar01_argv = [''c11-cndvar01'', '''']"

definition c11_cndvar01_POSIX_Init :: "(int \<Rightarrow> string list \<Rightarrow> ('g, int) prog) \<Rightarrow> ('g, unit) prog" where
  "c11_cndvar01_POSIX_Init main = bindp (main 1 c11_cndvar01_argv) (\<lambda>rc. Do exit [VInt rc] Halt)"

definition c11_cndvar01_config :: config_macros where
  "c11_cndvar01_config =
    [(CONFIGURE_APPLICATION_NEEDS_CLOCK_DRIVER, defined),
     (CONFIGURE_APPLICATION_NEEDS_CONSOLE_DRIVER, defined),
     (CONFIGURE_POSIX_INIT_THREAD_TABLE, defined),
     (CONFIGURE_UNLIMITED_OBJECTS, defined),
     (CONFIGURE_UNIFIED_WORK_AREAS, defined),
     (CONFIGURE_MAXIMUM_FILE_DESCRIPTORS, VInt 32),
     (CONFIGURE_MINIMUM_TASK_STACK_SIZE, VInt (64 * 1024)),
     (CONFIGURE_INIT, defined)]"

section \<open>\<open>c11/c11_key01/rtems_config.c\<close>\<close>

definition c11_key01_argv :: "string list" where
  "c11_key01_argv = [''c11-key01'', '''']"

definition c11_key01_POSIX_Init :: "(int \<Rightarrow> string list \<Rightarrow> ('g, int) prog) \<Rightarrow> ('g, unit) prog" where
  "c11_key01_POSIX_Init main = bindp (main 1 c11_key01_argv) (\<lambda>rc. Do exit [VInt rc] Halt)"

definition c11_key01_config :: config_macros where
  "c11_key01_config =
    [(CONFIGURE_APPLICATION_NEEDS_CLOCK_DRIVER, defined),
     (CONFIGURE_APPLICATION_NEEDS_CONSOLE_DRIVER, defined),
     (CONFIGURE_POSIX_INIT_THREAD_TABLE, defined),
     (CONFIGURE_UNLIMITED_OBJECTS, defined),
     (CONFIGURE_UNIFIED_WORK_AREAS, defined),
     (CONFIGURE_MAXIMUM_FILE_DESCRIPTORS, VInt 32),
     (CONFIGURE_MINIMUM_TASK_STACK_SIZE, VInt (64 * 1024)),
     (CONFIGURE_INIT, defined)]"

section \<open>\<open>c11/c11_mutex01/rtems_config.c\<close>\<close>

definition c11_mutex01_argv :: "string list" where
  "c11_mutex01_argv = [''c11-mutex01'', '''']"

definition c11_mutex01_POSIX_Init :: "(int \<Rightarrow> string list \<Rightarrow> ('g, int) prog) \<Rightarrow> ('g, unit) prog" where
  "c11_mutex01_POSIX_Init main = bindp (main 1 c11_mutex01_argv) (\<lambda>rc. Do exit [VInt rc] Halt)"

definition c11_mutex01_config :: config_macros where
  "c11_mutex01_config =
    [(CONFIGURE_APPLICATION_NEEDS_CLOCK_DRIVER, defined),
     (CONFIGURE_APPLICATION_NEEDS_CONSOLE_DRIVER, defined),
     (CONFIGURE_POSIX_INIT_THREAD_TABLE, defined),
     (CONFIGURE_UNLIMITED_OBJECTS, defined),
     (CONFIGURE_UNIFIED_WORK_AREAS, defined),
     (CONFIGURE_MAXIMUM_FILE_DESCRIPTORS, VInt 32),
     (CONFIGURE_MINIMUM_TASK_STACK_SIZE, VInt (64 * 1024)),
     (CONFIGURE_INIT, defined)]"

section \<open>\<open>c11/c11_thread01/rtems_config.c\<close>\<close>

definition c11_thread01_argv :: "string list" where
  "c11_thread01_argv = [''c11-thread01'', '''']"

definition c11_thread01_POSIX_Init :: "(int \<Rightarrow> string list \<Rightarrow> ('g, int) prog) \<Rightarrow> ('g, unit) prog" where
  "c11_thread01_POSIX_Init main = bindp (main 1 c11_thread01_argv) (\<lambda>rc. Do exit [VInt rc] Halt)"

definition c11_thread01_config :: config_macros where
  "c11_thread01_config =
    [(CONFIGURE_APPLICATION_NEEDS_CLOCK_DRIVER, defined),
     (CONFIGURE_APPLICATION_NEEDS_CONSOLE_DRIVER, defined),
     (CONFIGURE_POSIX_INIT_THREAD_TABLE, defined),
     (CONFIGURE_UNLIMITED_OBJECTS, defined),
     (CONFIGURE_UNIFIED_WORK_AREAS, defined),
     (CONFIGURE_MAXIMUM_FILE_DESCRIPTORS, VInt 32),
     (CONFIGURE_MINIMUM_TASK_STACK_SIZE, VInt (64 * 1024)),
     (CONFIGURE_INIT, defined)]"

section \<open>\<open>cxx/cxx_stdmap/rtems_config.c\<close>\<close>

definition cxx_stdmap_argv :: "string list" where
  "cxx_stdmap_argv = [''cxx_stdmap'', '''']"

definition cxx_stdmap_POSIX_Init :: "(int \<Rightarrow> string list \<Rightarrow> ('g, int) prog) \<Rightarrow> ('g, unit) prog" where
  "cxx_stdmap_POSIX_Init main = bindp (main 1 cxx_stdmap_argv) (\<lambda>_. Do exit [VInt 0] Halt)"

definition cxx_stdmap_config :: config_macros where
  "cxx_stdmap_config =
    [(CONFIGURE_APPLICATION_NEEDS_CLOCK_DRIVER, defined),
     (CONFIGURE_APPLICATION_NEEDS_CONSOLE_DRIVER, defined),
     (CONFIGURE_MICROSECONDS_PER_TICK, VInt 1000),
     (CONFIGURE_POSIX_INIT_THREAD_TABLE, defined),
     (CONFIGURE_UNLIMITED_OBJECTS, defined),
     (CONFIGURE_UNIFIED_WORK_AREAS, defined),
     (CONFIGURE_MAXIMUM_FILE_DESCRIPTORS, VInt 32),
     (CONFIGURE_MINIMUM_TASK_STACK_SIZE, VInt (64 * 1024)),
     (CONFIGURE_INIT, defined)]"

section \<open>\<open>hello/portable_hello/rtems_config.c\<close>\<close>

definition hello_argv :: "string list" where
  "hello_argv = [''hello'', '''']"

definition hello_POSIX_Init :: "(int \<Rightarrow> string list \<Rightarrow> ('g, int) prog) \<Rightarrow> ('g, unit) prog" where
  "hello_POSIX_Init main = bindp (main 1 hello_argv) (\<lambda>rc. Do exit [VInt rc] Halt)"

definition hello_config :: config_macros where
  "hello_config =
    [(CONFIGURE_APPLICATION_DOES_NOT_NEED_CLOCK_DRIVER, defined),
     (CONFIGURE_APPLICATION_NEEDS_CONSOLE_DRIVER, defined),
     (CONFIGURE_POSIX_INIT_THREAD_TABLE, defined),
     (CONFIGURE_MAXIMUM_POSIX_THREADS, VInt 1),
     (CONFIGURE_INIT, defined)]"

section \<open>\<open>misc/userdrv/rtems_config.c\<close>\<close>

definition userdrv_argv :: "string list" where
  "userdrv_argv = [''userdrv'', '''']"

definition userdrv_POSIX_Init :: "(int \<Rightarrow> string list \<Rightarrow> ('g, int) prog) \<Rightarrow> ('g, unit) prog" where
  "userdrv_POSIX_Init main = bindp (main 1 userdrv_argv) (\<lambda>rc. Do exit [VInt rc] Halt)"

definition userdrv_config :: config_macros where
  "userdrv_config =
    [(CONFIGURE_APPLICATION_NEEDS_CLOCK_DRIVER, defined),
     (CONFIGURE_APPLICATION_NEEDS_CONSOLE_DRIVER, defined),
     (CONFIGURE_APPLICATION_EXTRA_DRIVERS, VRef ''USERDRV_DRIVER_TABLE_ENTRY''),
     (CONFIGURE_MAXIMUM_FILE_DESCRIPTORS, VInt 4),
     (CONFIGURE_POSIX_INIT_THREAD_TABLE, defined),
     (CONFIGURE_UNLIMITED_OBJECTS, defined),
     (CONFIGURE_UNIFIED_WORK_AREAS, defined),
     (CONFIGURE_MINIMUM_TASK_STACK_SIZE, VInt (64 * 1024)),
     (CONFIGURE_INIT, defined)]"

section \<open>\<open>posix_api/psx_barrier_report/rtems_config.c\<close>\<close>

definition psx_barrier_report_argv :: "string list" where
  "psx_barrier_report_argv = [''report'', '''']"

definition psx_barrier_report_POSIX_Init :: "(int \<Rightarrow> string list \<Rightarrow> ('g, int) prog) \<Rightarrow> ('g, unit) prog" where
  "psx_barrier_report_POSIX_Init main = bindp (main 1 psx_barrier_report_argv) (\<lambda>_. Ret ())"

definition psx_barrier_report_config :: config_macros where
  "psx_barrier_report_config =
    [(CONFIGURE_APPLICATION_NEEDS_CLOCK_DRIVER, defined),
     (CONFIGURE_APPLICATION_NEEDS_CONSOLE_DRIVER, defined),
     (CONFIGURE_POSIX_INIT_THREAD_TABLE, defined),
     (CONFIGURE_UNLIMITED_OBJECTS, defined),
     (CONFIGURE_UNIFIED_WORK_AREAS, defined),
     (CONFIGURE_MINIMUM_TASK_STACK_SIZE, VInt (64 * 1024)),
     (CONFIGURE_INIT, defined)]"

section \<open>\<open>posix_api/psx_condvar_report/rtems_config.c\<close>\<close>

definition psx_condvar_report_argv :: "string list" where
  "psx_condvar_report_argv = [''report'', '''']"

definition psx_condvar_report_POSIX_Init :: "(int \<Rightarrow> string list \<Rightarrow> ('g, int) prog) \<Rightarrow> ('g, unit) prog" where
  "psx_condvar_report_POSIX_Init main = bindp (main 1 psx_condvar_report_argv) (\<lambda>_. Ret ())"

definition psx_condvar_report_config :: config_macros where
  "psx_condvar_report_config =
    [(CONFIGURE_APPLICATION_NEEDS_CLOCK_DRIVER, defined),
     (CONFIGURE_APPLICATION_NEEDS_CONSOLE_DRIVER, defined),
     (CONFIGURE_POSIX_INIT_THREAD_TABLE, defined),
     (CONFIGURE_UNLIMITED_OBJECTS, defined),
     (CONFIGURE_UNIFIED_WORK_AREAS, defined),
     (CONFIGURE_MINIMUM_TASK_STACK_SIZE, VInt (64 * 1024)),
     (CONFIGURE_INIT, defined)]"

section \<open>\<open>posix_api/psx_initial_sigmask/rtems_config.c\<close>\<close>

definition psx_initial_sigmask_argv :: "string list" where
  "psx_initial_sigmask_argv = [''report'', '''']"

definition psx_initial_sigmask_POSIX_Init :: "(int \<Rightarrow> string list \<Rightarrow> ('g, int) prog) \<Rightarrow> ('g, unit) prog" where
  "psx_initial_sigmask_POSIX_Init main = bindp (main 1 psx_initial_sigmask_argv) (\<lambda>_. Ret ())"

definition psx_initial_sigmask_config :: config_macros where
  "psx_initial_sigmask_config =
    [(CONFIGURE_APPLICATION_NEEDS_CLOCK_DRIVER, defined),
     (CONFIGURE_APPLICATION_NEEDS_CONSOLE_DRIVER, defined),
     (CONFIGURE_POSIX_INIT_THREAD_TABLE, defined),
     (CONFIGURE_UNLIMITED_OBJECTS, defined),
     (CONFIGURE_UNIFIED_WORK_AREAS, defined),
     (CONFIGURE_MINIMUM_TASK_STACK_SIZE, VInt (64 * 1024)),
     (CONFIGURE_INIT, defined)]"

section \<open>\<open>posix_api/psx_mqueue_report/rtems_config.c\<close>\<close>

definition psx_mqueue_report_argv :: "string list" where
  "psx_mqueue_report_argv = [''report'', '''']"

definition psx_mqueue_report_POSIX_Init :: "(int \<Rightarrow> string list \<Rightarrow> ('g, int) prog) \<Rightarrow> ('g, unit) prog" where
  "psx_mqueue_report_POSIX_Init main = bindp (main 1 psx_mqueue_report_argv) (\<lambda>_. Ret ())"

definition psx_mqueue_report_config :: config_macros where
  "psx_mqueue_report_config =
    [(CONFIGURE_APPLICATION_NEEDS_CLOCK_DRIVER, defined),
     (CONFIGURE_APPLICATION_NEEDS_CONSOLE_DRIVER, defined),
     (CONFIGURE_POSIX_INIT_THREAD_TABLE, defined),
     (CONFIGURE_UNLIMITED_OBJECTS, defined),
     (CONFIGURE_UNIFIED_WORK_AREAS, defined),
     (CONFIGURE_MINIMUM_TASK_STACK_SIZE, VInt (64 * 1024)),
     (CONFIGURE_INIT, defined)]"

section \<open>\<open>posix_api/psx_mutex_report/rtems_config.c\<close>\<close>

definition psx_mutex_report_argv :: "string list" where
  "psx_mutex_report_argv = [''report'', '''']"

definition psx_mutex_report_POSIX_Init :: "(int \<Rightarrow> string list \<Rightarrow> ('g, int) prog) \<Rightarrow> ('g, unit) prog" where
  "psx_mutex_report_POSIX_Init main = bindp (main 1 psx_mutex_report_argv) (\<lambda>_. Ret ())"

definition psx_mutex_report_config :: config_macros where
  "psx_mutex_report_config =
    [(CONFIGURE_APPLICATION_NEEDS_CLOCK_DRIVER, defined),
     (CONFIGURE_APPLICATION_NEEDS_CONSOLE_DRIVER, defined),
     (CONFIGURE_POSIX_INIT_THREAD_TABLE, defined),
     (CONFIGURE_UNLIMITED_OBJECTS, defined),
     (CONFIGURE_UNIFIED_WORK_AREAS, defined),
     (CONFIGURE_MINIMUM_TASK_STACK_SIZE, VInt (64 * 1024)),
     (CONFIGURE_INIT, defined)]"

section \<open>\<open>posix_api/psx_pthread_report/rtems_config.c\<close>\<close>

definition psx_pthread_report_argv :: "string list" where
  "psx_pthread_report_argv = [''report'', '''']"

definition psx_pthread_report_POSIX_Init :: "(int \<Rightarrow> string list \<Rightarrow> ('g, int) prog) \<Rightarrow> ('g, unit) prog" where
  "psx_pthread_report_POSIX_Init main = bindp (main 1 psx_pthread_report_argv) (\<lambda>_. Ret ())"

definition psx_pthread_report_config :: config_macros where
  "psx_pthread_report_config =
    [(CONFIGURE_APPLICATION_NEEDS_CLOCK_DRIVER, defined),
     (CONFIGURE_APPLICATION_NEEDS_CONSOLE_DRIVER, defined),
     (CONFIGURE_POSIX_INIT_THREAD_TABLE, defined),
     (CONFIGURE_UNLIMITED_OBJECTS, defined),
     (CONFIGURE_UNIFIED_WORK_AREAS, defined),
     (CONFIGURE_MINIMUM_TASK_STACK_SIZE, VInt (64 * 1024)),
     (CONFIGURE_INIT, defined)]"

section \<open>\<open>posix_api/psx_rwlock_report/rtems_config.c\<close>\<close>

definition psx_rwlock_report_argv :: "string list" where
  "psx_rwlock_report_argv = [''report'', '''']"

definition psx_rwlock_report_POSIX_Init :: "(int \<Rightarrow> string list \<Rightarrow> ('g, int) prog) \<Rightarrow> ('g, unit) prog" where
  "psx_rwlock_report_POSIX_Init main = bindp (main 1 psx_rwlock_report_argv) (\<lambda>_. Ret ())"

definition psx_rwlock_report_config :: config_macros where
  "psx_rwlock_report_config =
    [(CONFIGURE_APPLICATION_NEEDS_CLOCK_DRIVER, defined),
     (CONFIGURE_APPLICATION_NEEDS_CONSOLE_DRIVER, defined),
     (CONFIGURE_POSIX_INIT_THREAD_TABLE, defined),
     (CONFIGURE_UNLIMITED_OBJECTS, defined),
     (CONFIGURE_UNIFIED_WORK_AREAS, defined),
     (CONFIGURE_MINIMUM_TASK_STACK_SIZE, VInt (64 * 1024)),
     (CONFIGURE_INIT, defined)]"

section \<open>\<open>posix_api/psx_sched_report/rtems_config.c\<close>\<close>

definition psx_sched_report_argv :: "string list" where
  "psx_sched_report_argv = [''report'', '''']"

definition psx_sched_report_POSIX_Init :: "(int \<Rightarrow> string list \<Rightarrow> ('g, int) prog) \<Rightarrow> ('g, unit) prog" where
  "psx_sched_report_POSIX_Init main = bindp (main 1 psx_sched_report_argv) (\<lambda>_. Ret ())"

definition psx_sched_report_config :: config_macros where
  "psx_sched_report_config =
    [(CONFIGURE_APPLICATION_NEEDS_CLOCK_DRIVER, defined),
     (CONFIGURE_APPLICATION_NEEDS_CONSOLE_DRIVER, defined),
     (CONFIGURE_POSIX_INIT_THREAD_TABLE, defined),
     (CONFIGURE_UNLIMITED_OBJECTS, defined),
     (CONFIGURE_UNIFIED_WORK_AREAS, defined),
     (CONFIGURE_MINIMUM_TASK_STACK_SIZE, VInt (64 * 1024)),
     (CONFIGURE_INIT, defined)]"

section \<open>\<open>posix_api/psx_sigint/rtems_config.c\<close>\<close>

definition psx_sigint_argv :: "string list" where
  "psx_sigint_argv = [''report'', '''']"

definition psx_sigint_POSIX_Init :: "(int \<Rightarrow> string list \<Rightarrow> ('g, int) prog) \<Rightarrow> ('g, unit) prog" where
  "psx_sigint_POSIX_Init main = bindp (main 1 psx_sigint_argv) (\<lambda>_. Ret ())"

definition psx_sigint_config :: config_macros where
  "psx_sigint_config =
    [(CONFIGURE_APPLICATION_NEEDS_CLOCK_DRIVER, defined),
     (CONFIGURE_APPLICATION_NEEDS_CONSOLE_DRIVER, defined),
     (CONFIGURE_POSIX_INIT_THREAD_TABLE, defined),
     (CONFIGURE_UNLIMITED_OBJECTS, defined),
     (CONFIGURE_UNIFIED_WORK_AREAS, defined),
     (CONFIGURE_MINIMUM_TASK_STACK_SIZE, VInt (64 * 1024)),
     (CONFIGURE_INIT, defined)]"

section \<open>\<open>posix_api/psx_task_restart/rtems_config.c\<close>\<close>

definition psx_task_restart_argv :: "string list" where
  "psx_task_restart_argv = [''restart'', '''']"

definition psx_task_restart_POSIX_Init :: "(int \<Rightarrow> string list \<Rightarrow> ('g, int) prog) \<Rightarrow> ('g, unit) prog" where
  "psx_task_restart_POSIX_Init main = bindp (main 1 psx_task_restart_argv) (\<lambda>_. Ret ())"

definition psx_task_restart_config :: config_macros where
  "psx_task_restart_config =
    [(CONFIGURE_APPLICATION_NEEDS_CLOCK_DRIVER, defined),
     (CONFIGURE_APPLICATION_NEEDS_CONSOLE_DRIVER, defined),
     (CONFIGURE_POSIX_INIT_THREAD_TABLE, defined),
     (CONFIGURE_UNLIMITED_OBJECTS, defined),
     (CONFIGURE_UNIFIED_WORK_AREAS, defined),
     (CONFIGURE_MINIMUM_TASK_STACK_SIZE, VInt (64 * 1024)),
     (CONFIGURE_INIT, defined)]"

section \<open>\<open>ticker/ticker_posix/rtems_config.c\<close>\<close>

definition ticker_posix_argv :: "string list" where
  "ticker_posix_argv = [''posix_ticker'', '''']"

definition ticker_posix_POSIX_Init :: "(int \<Rightarrow> string list \<Rightarrow> ('g, int) prog) \<Rightarrow> ('g, unit) prog" where
  "ticker_posix_POSIX_Init main = bindp (main 1 ticker_posix_argv) (\<lambda>rc. Do exit [VInt rc] Halt)"

definition ticker_posix_config :: config_macros where
  "ticker_posix_config =
    [(CONFIGURE_APPLICATION_NEEDS_CLOCK_DRIVER, defined),
     (CONFIGURE_APPLICATION_NEEDS_CONSOLE_DRIVER, defined),
     (CONFIGURE_POSIX_INIT_THREAD_TABLE, defined),
     (CONFIGURE_MAXIMUM_POSIX_THREADS, VInt 4),
     (CONFIGURE_MAXIMUM_PROCESSORS, VInt 4),
     (CONFIGURE_INIT, defined)]"

section \<open>What the initialization threads do\<close>

text \<open>How \<open>POSIX_Init\<close> ends: with \<open>exit\<close> and the value of \<open>main\<close>, with \<open>exit(0)\<close>, or by returning.\<close>

datatype init_style = Exit_status | Exit_zero | Return_null

definition posix_inits ::
    "(string list \<times> ((int \<Rightarrow> string list \<Rightarrow> ('g, int) prog) \<Rightarrow> ('g, unit) prog) \<times> init_style) list" where
  "posix_inits =
    [(c11_cndvar01_argv, c11_cndvar01_POSIX_Init, Exit_status),
     (c11_key01_argv, c11_key01_POSIX_Init, Exit_status),
     (c11_mutex01_argv, c11_mutex01_POSIX_Init, Exit_status),
     (c11_thread01_argv, c11_thread01_POSIX_Init, Exit_status),
     (cxx_stdmap_argv, cxx_stdmap_POSIX_Init, Exit_zero),
     (hello_argv, hello_POSIX_Init, Exit_status),
     (userdrv_argv, userdrv_POSIX_Init, Exit_status),
     (psx_barrier_report_argv, psx_barrier_report_POSIX_Init, Return_null),
     (psx_condvar_report_argv, psx_condvar_report_POSIX_Init, Return_null),
     (psx_initial_sigmask_argv, psx_initial_sigmask_POSIX_Init, Return_null),
     (psx_mqueue_report_argv, psx_mqueue_report_POSIX_Init, Return_null),
     (psx_mutex_report_argv, psx_mutex_report_POSIX_Init, Return_null),
     (psx_pthread_report_argv, psx_pthread_report_POSIX_Init, Return_null),
     (psx_rwlock_report_argv, psx_rwlock_report_POSIX_Init, Return_null),
     (psx_sched_report_argv, psx_sched_report_POSIX_Init, Return_null),
     (psx_sigint_argv, psx_sigint_POSIX_Init, Return_null),
     (psx_task_restart_argv, psx_task_restart_POSIX_Init, Return_null),
     (ticker_posix_argv, ticker_posix_POSIX_Init, Exit_status)]"

definition posix_configs :: "config_macros list" where
  "posix_configs =
    [c11_cndvar01_config, c11_key01_config, c11_mutex01_config, c11_thread01_config,
    cxx_stdmap_config, hello_config, userdrv_config, psx_barrier_report_config,
    psx_condvar_report_config, psx_initial_sigmask_config, psx_mqueue_report_config,
    psx_mutex_report_config, psx_pthread_report_config, psx_rwlock_report_config,
    psx_sched_report_config, psx_sigint_config, psx_task_restart_config, ticker_posix_config]"

lemmas posix_init_defs =
  c11_cndvar01_POSIX_Init_def c11_key01_POSIX_Init_def c11_mutex01_POSIX_Init_def
  c11_thread01_POSIX_Init_def cxx_stdmap_POSIX_Init_def hello_POSIX_Init_def
  userdrv_POSIX_Init_def psx_barrier_report_POSIX_Init_def psx_condvar_report_POSIX_Init_def
  psx_initial_sigmask_POSIX_Init_def psx_mqueue_report_POSIX_Init_def
  psx_mutex_report_POSIX_Init_def psx_pthread_report_POSIX_Init_def
  psx_rwlock_report_POSIX_Init_def psx_sched_report_POSIX_Init_def psx_sigint_POSIX_Init_def
  psx_task_restart_POSIX_Init_def ticker_posix_POSIX_Init_def

lemmas posix_config_defs =
  c11_cndvar01_config_def c11_key01_config_def c11_mutex01_config_def c11_thread01_config_def
  cxx_stdmap_config_def hello_config_def userdrv_config_def psx_barrier_report_config_def
  psx_condvar_report_config_def psx_initial_sigmask_config_def psx_mqueue_report_config_def
  psx_mutex_report_config_def psx_pthread_report_config_def psx_rwlock_report_config_def
  psx_sched_report_config_def psx_sigint_config_def psx_task_restart_config_def
  ticker_posix_config_def

definition init_end :: "init_style \<Rightarrow> int \<Rightarrow> syscall list" where
  "init_end s rc =
    (case s of Exit_status \<Rightarrow> [(exit, [VInt rc])] | Exit_zero \<Rightarrow> [(exit, [VInt 0])] | Return_null \<Rightarrow> [])"

lemma posix_init_shape:
  assumes "(argv, p, s) \<in> set posix_inits"
  shows "p main = bindp (main 1 argv)
    (\<lambda>rc. case init_end s rc of [] \<Rightarrow> Ret () | (f, args) # _ \<Rightarrow> Do f args Halt)"
  using assms by (auto simp: posix_inits_def posix_init_defs init_end_def)

text \<open>
  For every main that returns, the initialization threads of the rtems_config.c files call it
  once with one argument, and then end with exit and the value of main, with exit(0) or by
  returning, as each of them states; nothing else is called.
\<close>

theorem POSIX_Init_status:
  assumes "(argv, p, s) \<in> set posix_inits" "responsive K"
    and "exec K (main 1 argv) g [] = (Done rc, g', h)"
  shows "\<exists>t. exec K (p main) g [] =
      (if s = Return_null then Done () else Halted, g', h @ t) \<and> map fst t = init_end s rc"
proof (cases s)
  case Return_null
  then show ?thesis
    using assms by (simp add: posix_init_shape [OF assms(1)] exec_bindp init_end_def)
next
  case Exit_status
  obtain r where "K h (exit, [VInt rc]) = Some r"
    using assms(2) unfolding responsive_def by blast
  then show ?thesis using assms(3) Exit_status
    by (simp add: posix_init_shape [OF assms(1)] exec_bindp init_end_def)
next
  case Exit_zero
  obtain r where "K h (exit, [VInt 0]) = Some r"
    using assms(2) unfolding responsive_def by blast
  then show ?thesis using assms(3) Exit_zero
    by (simp add: posix_init_shape [OF assms(1)] exec_bindp init_end_def)
qed

theorem POSIX_Init_status_witness:
  "exec (\<lambda>h c. Some (Reply (VInt 0) [])) (hello_POSIX_Init (\<lambda>n argv. Ret (n + 6))) () [] =
    (Halted, (), [((exit, [VInt 7]), Reply (VInt 0) [])])"
proof -
  let ?K = "\<lambda>h c. Some (Reply (VInt 0) [])"
  have "(hello_argv, hello_POSIX_Init, Exit_status) \<in> set posix_inits"
    by (simp add: posix_inits_def)
  moreover have "responsive ?K" by (simp add: responsive_def)
  moreover have "exec ?K ((\<lambda>n argv. Ret (n + 6)) 1 hello_argv) () [] = (Done 7, (), [])" by simp
  ultimately have "\<exists>t. exec ?K (hello_POSIX_Init (\<lambda>n argv. Ret (n + 6))) () [] =
      (if Exit_status = Return_null then Done () else Halted, (), [] @ t) \<and> map fst t = init_end Exit_status 7"
    by (rule POSIX_Init_status)
  then show ?thesis by (simp add: hello_POSIX_Init_def)
qed

text \<open>
  What \<open>confdefs.h\<close> needs of each of these configurations: exactly one of the two clock macros, the
  table with the initialization thread, and either unlimited objects or a positive number of POSIX
  threads for it.
\<close>

definition names_macro :: "config_macros \<Rightarrow> macro \<Rightarrow> bool" where
  "names_macro c m \<longleftrightarrow> m \<in> set (map fst c)"

definition config_ok :: "config_macros \<Rightarrow> bool" where
  "config_ok c \<longleftrightarrow> distinct (map fst c) \<and>
    (names_macro c CONFIGURE_APPLICATION_NEEDS_CLOCK_DRIVER \<noteq>
      names_macro c CONFIGURE_APPLICATION_DOES_NOT_NEED_CLOCK_DRIVER) \<and>
    names_macro c CONFIGURE_POSIX_INIT_THREAD_TABLE \<and>
    (names_macro c CONFIGURE_UNLIMITED_OBJECTS \<or> 0 < configured c CONFIGURE_MAXIMUM_POSIX_THREADS) \<and>
    fst (last c) = CONFIGURE_INIT"

lemma posix_configs_ok: "list_all config_ok posix_configs"
  by (simp add: posix_configs_def posix_config_defs config_ok_def names_macro_def configured_def)

end
