(* ===== verification/Mqueue.thy ===== *)
theory Mqueue
  imports RT_Prog
begin

text \<open>
  The message queue of \<open>led/complex1\<close>: \<open>LocalMessageQueuePOSIX10031c.h\<close>, and the template
  \<open>MessageQueueT.h\<close> on top of it.

  The state holds the two lists of a queue object and the messages they point to, by address;
  \<open>0\<close> is the null pointer.  The name of the queue never changes after the constructor and is the
  argument \<open>nm\<close>.  A method that throws yields \<open>Inl\<close> the thrown string.  \<open>zero\<close> stands for a new message,
  and the results of functions on an empty \<open>std::list\<close>, which C++ leaves undefined, are \<open>Halt\<close>.
\<close>

section \<open>\<open>LocalMessageQueuePOSIX10031c.h\<close>\<close>

record 'm mqueue =
  depthM :: nat
  inactiveM :: "nat list"
  pendingM :: "nat list"
  messages :: "nat \<Rightarrow> 'm option"
  fresh :: nat

type_synonym ('m, 'a) mq = "('m mqueue, string + 'a) prog"

definition throw :: "string \<Rightarrow> string \<Rightarrow> string \<Rightarrow> ('m, 'a) mq" where
  "throw nm what s = Do cerr [VStr ''Local MQ '', VStr nm, VStr what] (Ret (Inl s))"

definition bindx :: "('m, 'a) mq \<Rightarrow> ('a \<Rightarrow> ('m, 'b) mq) \<Rightarrow> ('m, 'b) mq" where
  "bindx p q = bindp p (\<lambda>r. case r of Inl s \<Rightarrow> Ret (Inl s) | Inr x \<Rightarrow> q x)"

abbreviation status :: "reply \<Rightarrow> bool" where
  "status r \<equiv> ret r \<noteq> VInt 0"

definition lock :: "string \<Rightarrow> ('m, unit) mq" where
  "lock nm =
     Call pthread_mutex_lock [VRef ''&mutexM''] (\<lambda>r.
     if status r then throw nm '' mutex lock failed\<newline>'' ''Local MQ mutex lock failed''
     else Ret (Inr ()))"

definition unlock :: "string \<Rightarrow> ('m, unit) mq" where
  "unlock nm =
     Call pthread_mutex_unlock [VRef ''&mutexM''] (\<lambda>r.
     if status r then throw nm '' mutex unlock failed\<newline>'' ''Local MQ mutex lock failed''
     else Ret (Inr ()))"

definition signal :: "string \<Rightarrow> ('m, unit) mq" where
  "signal nm =
     Call pthread_cond_signal [VRef ''&conditionM''] (\<lambda>r.
     if status r then throw nm '' condvar signal failed\<newline>'' ''Local MQ condvar signal failed''
     else Ret (Inr ()))"

definition wait :: "string \<Rightarrow> ('m, unit) mq" where
  "wait nm =
     Do pthread_cond_wait [VRef ''&conditionM'', VRef ''&mutexM''] (
     Call pthread_cond_wait_return [VRef ''&conditionM'', VRef ''&mutexM''] (\<lambda>r.
     if status r then throw nm '' condvar wait failed\<newline>'' ''Local MQ condvar wait failed''
     else Ret (Inr ())))"

definition LocalMessageQueue :: "string \<Rightarrow> nat \<Rightarrow> ('m, unit) mq" where
  "LocalMessageQueue nm depth =
     Put (\<lambda>q. q\<lparr>depthM := depth\<rparr>) (
     Put (\<lambda>q. q\<lparr>pendingM := []\<rparr>) (
     Put (\<lambda>q. q\<lparr>inactiveM := []\<rparr>) (
     Call pthread_cond_init [VRef ''&conditionM'', VRef ''NULL''] (\<lambda>r.
     if status r then throw nm '' cond init failed\<newline>'' ''Local MQ cond init failed''
     else Call pthread_mutex_init [VRef ''&mutexM'', VRef ''NULL''] (\<lambda>r.
     if status r then throw nm '' mutex init failed\<newline>'' ''Local MQ mutex init failed''
     else Ret (Inr ()))))))"

definition destroy :: "string \<Rightarrow> ('m, unit) mq" where
  "destroy nm =
     Call pthread_cond_destroy [VRef ''&conditionM''] (\<lambda>r.
     if status r then throw nm '' cond destroy failed\<newline>'' ''Local MQ cond destroy failed''
     else Call pthread_mutex_destroy [VRef ''&mutexM''] (\<lambda>r.
     if status r then throw nm '' mutex destroy failed\<newline>'' ''Local MQ mutex destroy failed''
     else Ret (Inr ())))"

text \<open>\<open>new MessageClass()\<close>, and the front of a list with its removal.\<close>

definition new_message :: "'m \<Rightarrow> (nat \<Rightarrow> ('m, 'a) mq) \<Rightarrow> ('m, 'a) mq" where
  "new_message zero k = Get (\<lambda>q.
     Put (\<lambda>q. q\<lparr>messages := (messages q)(fresh q \<mapsto> zero), fresh := fresh q + 1\<rparr>) (k (fresh q)))"

definition front :: "nat list \<Rightarrow> (nat \<Rightarrow> ('m, 'a) mq) \<Rightarrow> ('m, 'a) mq" where
  "front xs k = (case xs of [] \<Rightarrow> Halt | m # _ \<Rightarrow> k m)"

definition Allocate :: "'m \<Rightarrow> string \<Rightarrow> ('m, nat) mq" where
  "Allocate zero nm =
     bindx (lock nm) (\<lambda>_.
     Get (\<lambda>q.
     bindx (if inactiveM q = [] then new_message zero (\<lambda>m. Ret (Inr m))
            else front (inactiveM q) (\<lambda>m. Put (\<lambda>q. q\<lparr>inactiveM := tl (inactiveM q)\<rparr>) (Ret (Inr m)))) (\<lambda>m.
     bindx (unlock nm) (\<lambda>_.
     Ret (Inr m)))))"

definition Deallocate :: "string \<Rightarrow> nat \<Rightarrow> ('m, unit) mq" where
  "Deallocate nm message =
     bindx (lock nm) (\<lambda>_.
     Put (\<lambda>q. q\<lparr>inactiveM := inactiveM q @ [message]\<rparr>) (
     unlock nm))"

definition Send :: "string \<Rightarrow> nat \<Rightarrow> ('m, bool) mq" where
  "Send nm message =
     (if message = 0 then Ret (Inr False)
      else
        bindx (lock nm) (\<lambda>_.
        Get (\<lambda>q.
        if length (pendingM q) \<ge> depthM q then bindx (unlock nm) (\<lambda>_. Ret (Inr False))
        else
          Put (\<lambda>q. q\<lparr>pendingM := pendingM q @ [message]\<rparr>) (
          bindx (signal nm) (\<lambda>_.
          bindx (unlock nm) (\<lambda>_.
          Ret (Inr True)))))))"

text \<open>
  The inner loop of \<open>Receive\<close> with at most \<open>n\<close> waits.  After a wake-up with an empty list, \<open>continue\<close>
  jumps to the test of \<open>!m\<close>, which reads the variable \<open>m\<close> that nothing has set yet: its value is
  the parameter \<open>junk\<close>, and the loop ends if that is not null.
\<close>

primrec receive_wait :: "string \<Rightarrow> nat \<Rightarrow> nat \<Rightarrow> ('m, nat) mq" where
  "receive_wait nm 0 m = Cut"
| "receive_wait nm (Suc n) m =
     bindx (wait nm) (\<lambda>_.
     Get (\<lambda>q.
     let m = (if pendingM q = [] then m else hd (pendingM q)) in
     if m = 0 then receive_wait nm n m else Ret (Inr m)))"

definition Receive :: "string \<Rightarrow> nat \<Rightarrow> nat \<Rightarrow> ('m, nat) mq" where
  "Receive nm n junk =
     bindx (lock nm) (\<lambda>_.
     Get (\<lambda>q.
     bindx (if pendingM q \<noteq> [] then front (pendingM q) (\<lambda>m. Ret (Inr m))
            else receive_wait nm n junk) (\<lambda>m.
     Get (\<lambda>q. front (pendingM q) (\<lambda>_.
     Put (\<lambda>q. q\<lparr>pendingM := tl (pendingM q)\<rparr>) (
     bindx (unlock nm) (\<lambda>_.
     Ret (Inr m))))))))"

definition ReceivePoll :: "string \<Rightarrow> ('m, nat) mq" where
  "ReceivePoll nm =
     bindx (lock nm) (\<lambda>_.
     Get (\<lambda>q.
     bindx (if pendingM q = [] then
              front (pendingM q) (\<lambda>m. Put (\<lambda>q. q\<lparr>pendingM := tl (pendingM q)\<rparr>) (Ret (Inr m)))
            else Ret (Inr 0)) (\<lambda>m.
     bindx (unlock nm) (\<lambda>_.
     Ret (Inr m)))))"

definition Queue_IsAvailable :: "string \<Rightarrow> ('m, bool) mq" where
  "Queue_IsAvailable nm =
     bindx (lock nm) (\<lambda>_.
     Get (\<lambda>q. let retval = (length (pendingM q) \<noteq> 0) in
     bindx (unlock nm) (\<lambda>_.
     Ret (Inr retval))))"

definition Flavor :: string where
  "Flavor = ''POSIX10031c''"

definition Name :: "string \<Rightarrow> string" where
  "Name nm = nm"

definition getNumberPending :: "string \<Rightarrow> ('m, u32) mq" where
  "getNumberPending nm =
     bindx (lock nm) (\<lambda>_.
     Get (\<lambda>q. let n = length (pendingM q) in
     bindx (unlock nm) (\<lambda>_.
     Ret (Inr (of_nat n)))))"

section \<open>\<open>MessageQueueT.h\<close>\<close>

text \<open>
  \<open>hton\<close> and \<open>ntoh\<close> are the converters, \<open>None\<close> for the null pointer.  The template's second
  constructor has the body of a destructor; no object is made with it.
\<close>

definition convert :: "('m \<Rightarrow> 'm) option \<Rightarrow> 'm \<Rightarrow> 'm" where
  "convert f m = (case f of None \<Rightarrow> m | Some g \<Rightarrow> g m)"

definition MessageQueueTemplate :: "string \<Rightarrow> nat \<Rightarrow> ('m, unit) mq" where
  "MessageQueueTemplate name depth = LocalMessageQueue name depth"

definition IsAvailable :: "string \<Rightarrow> ('m, bool) mq" where
  "IsAvailable nm = Queue_IsAvailable nm"

definition not_read :: "string \<Rightarrow> string \<Rightarrow> 'm \<Rightarrow> ('m, bool \<times> 'm) mq" where
  "not_read nm what buffer = Do cerr [VStr nm, VStr what] (Ret (Inr (False, buffer)))"

text \<open>\<open>Read\<close> yields its result and the contents of the buffer.\<close>

definition Read :: "string \<Rightarrow> ('m \<Rightarrow> 'm) option \<Rightarrow> nat \<Rightarrow> nat \<Rightarrow> 'm \<Rightarrow> ('m, bool \<times> 'm) mq" where
  "Read nm ntoh n junk buffer =
     bindp (Receive nm n junk) (\<lambda>r.
     case r of
       Inl _ \<Rightarrow> not_read nm '' Queue not Read: Exception'' buffer
     | Inr b \<Rightarrow>
         if b = 0 then not_read nm '' Queue not Read'' buffer
         else Get (\<lambda>q. case messages q b of
           None \<Rightarrow> Halt
         | Some m \<Rightarrow> bindx (Deallocate nm b) (\<lambda>_. Ret (Inr (True, convert ntoh m)))))"

definition Write :: "'m \<Rightarrow> string \<Rightarrow> ('m \<Rightarrow> 'm) option \<Rightarrow> 'm \<Rightarrow> ('m, bool) mq" where
  "Write zero nm hton buffer =
     bindx (Allocate zero nm) (\<lambda>b.
     Put (\<lambda>q. q\<lparr>messages := (messages q)(b \<mapsto> convert hton buffer)\<rparr>) (
     bindx (Send nm b) (\<lambda>ok.
     if \<not> ok then Do cerr [VStr nm, VStr '' Queue not Written ''] (Ret (Inr False))
     else Ret (Inr True))))"

section \<open>\<open>MessageQueueT_BASE.h\<close>\<close>

text \<open>The skeleton of the template, without a queue behind it; \<open>mQueue\<close> is the null pointer.\<close>

record 'm base_queue =
  mName :: string
  mHTON :: "('m \<Rightarrow> 'm) option"
  mNTOH :: "('m \<Rightarrow> 'm) option"
  mQueue :: nat

definition BASE_MessageQueueTemplate ::
    "string \<Rightarrow> u32 \<Rightarrow> ('m \<Rightarrow> 'm) option \<Rightarrow> ('m \<Rightarrow> 'm) option \<Rightarrow> 'm base_queue" where
  "BASE_MessageQueueTemplate name depth hton_f ntoh_f =
    \<lparr>mName = name, mHTON = hton_f, mNTOH = ntoh_f, mQueue = 0\<rparr>"

text \<open>\<open>tbuffer\<close> is an uninitialised local variable; the \<open>try\<close> block throws nothing.\<close>

definition BASE_Read :: "'m base_queue \<Rightarrow> 'm \<Rightarrow> 'm \<Rightarrow> ('g, bool \<times> 'm) prog" where
  "BASE_Read q tbuffer buffer =
     (let status = (if mNTOH q \<noteq> None then 1 else 1 :: int) in
      if status \<noteq> 0 then
        Do cerr [VStr (mName q), VStr '' Queue not Read: '', VInt status] (Ret (False, buffer))
      else Ret (True, case mNTOH q of Some f \<Rightarrow> f tbuffer | None \<Rightarrow> buffer))"

definition BASE_Write :: "'m base_queue \<Rightarrow> 'm \<Rightarrow> ('g, bool) prog" where
  "BASE_Write q buffer =
     (let b = convert (mHTON q) buffer; status = (1 :: int) in
      if status \<noteq> 0 then
        Do cerr [VStr (mName q), VStr '' Queue not Written: '', VInt status] (Ret False)
      else Ret True)"

lemma BASE_refuses:
  "at_most cerr (BASE_Read q tbuffer buffer) 1" "at_most cerr (BASE_Write q buffer) 1"
  "emits R (\<lambda>_. None :: unit option) (BASE_Read q tbuffer buffer) (\<lambda>v. v = (False, buffer)) []"
  "emits R (\<lambda>_. None :: unit option) (BASE_Write q buffer) (\<lambda>v. v = False) []"
  by (simp_all add: BASE_Read_def BASE_Write_def)

end
