(* ===== verification/LED_Server.thy ===== *)
theory LED_Server
  imports Mqueue Led
begin

text \<open>
  The LED server of \<open>led/complex1\<close>: \<open>ledServer.h\<close>, a thread that obeys the messages of its queue and
  blinks, and the methods by which its clients send them.  The state is the message queue; the
  local variables of the thread are a record.  A loop runs at most \<open>n\<close> rounds and is then cut.
\<close>

section \<open>Messages\<close>

datatype Discriminator_t = StopLED | StartLED | ShutdownLED | SetRate

record Message_t =
  discriminator :: Discriminator_t
  on_period_in_milliseconds :: u32
  off_period_in_milliseconds :: u32

section \<open>The thread\<close>

record server =
  active :: bool
  ledCount :: u32
  onPeriod :: u32
  offPeriod :: u32

abbreviation LEDQ :: string where "LEDQ \<equiv> ''LEDQ''"

text \<open>The \<open>switch\<close>; \<open>None\<close> is \<open>goto thread_exit\<close>.\<close>

definition obey :: "Message_t \<Rightarrow> server \<Rightarrow> (Message_t, server option) mq" where
  "obey m s =
     (case discriminator m of
        StartLED \<Rightarrow> Do cerr [VStr ''StartLED''] (Ret (Inr (Some (s\<lparr>active := True\<rparr>))))
      | StopLED \<Rightarrow> Do cerr [VStr ''StopLED''] (Ret (Inr (Some (s\<lparr>active := False\<rparr>))))
      | SetRate \<Rightarrow>
          Do cerr [VStr ''SetRate: on='', VInt (uint (on_period_in_milliseconds m)), VStr '' off='',
            VInt (uint (off_period_in_milliseconds m))] (
          Ret (Inr (Some (s\<lparr>onPeriod := on_period_in_milliseconds m,
            offPeriod := off_period_in_milliseconds m\<rparr>))))
      | ShutdownLED \<Rightarrow> Do cerr [VStr ''Shutdown of LED Server requested''] (Ret (Inr None)))"

text \<open>The fields of \<open>ts\<close>: a 32-bit product is reduced, then taken modulo a second.\<close>

definition tv_sec :: "u32 \<Rightarrow> u32" where
  "tv_sec p = p div 1000"

definition tv_nsec :: "u32 \<Rightarrow> u32" where
  "tv_nsec p = (p * 1000000) mod 1000000000"

definition blink :: "server \<Rightarrow> (Message_t, server) mq" where
  "blink s =
     (if active s then
        let s = s\<lparr>ledCount := ledCount s + 1\<rparr>;
            lit = (ledCount s mod 2 = 1);
            p = (if lit then onPeriod s else offPeriod s);
            p = (if p \<noteq> 0 then p else 500)
        in (if lit then LED_ON else LED_OFF) (
           Do nanosleep [VInt (uint (tv_sec p)), VInt (uint (tv_nsec p))] (
           Ret (Inr s)))
      else Do sleep [VInt 1] (Ret (Inr s)))"

text \<open>
  One round, with the message buffer \<open>m\<close>; its result is the new buffer and the new variables, or
  \<open>None\<close> for the exit.  \<open>w\<close> bounds the waits inside \<open>Read\<close>, whose result the thread ignores.
\<close>

definition thread_round :: "nat \<Rightarrow> nat \<Rightarrow> Message_t \<Rightarrow> server \<Rightarrow> (Message_t, (Message_t \<times> server) option) mq" where
  "thread_round w junk m s =
     bindx (IsAvailable LEDQ) (\<lambda>a.
     bindx (if a then
              bindx (Read LEDQ None w junk m) (\<lambda>(_, m).
              bindx (obey m s) (\<lambda>r. Ret (Inr (map_option (\<lambda>s. (m, s)) r))))
            else Ret (Inr (Some (m, s)))) (\<lambda>r.
     case r of
       None \<Rightarrow> Ret (Inr None)
     | Some (m, s) \<Rightarrow> bindx (blink s) (\<lambda>s. Ret (Inr (Some (m, s))))))"

primrec thread_loop :: "nat \<Rightarrow> nat \<Rightarrow> nat \<Rightarrow> Message_t \<Rightarrow> server \<Rightarrow> (Message_t, unit) mq" where
  "thread_loop 0 w junk m s = Cut"
| "thread_loop (Suc n) w junk m s =
     bindx (thread_round w junk m s) (\<lambda>r.
     case r of None \<Rightarrow> Ret (Inr ()) | Some (m, s) \<Rightarrow> thread_loop n w junk m s)"

definition server_start :: server where
  "server_start = \<lparr>active = False, ledCount = 0, onPeriod = 0, offPeriod = 0\<rparr>"

definition ThreadBody :: "nat \<Rightarrow> nat \<Rightarrow> nat \<Rightarrow> Message_t \<Rightarrow> (Message_t, unit) mq" where
  "ThreadBody n w junk m = thread_loop n w junk m server_start"

section \<open>The methods\<close>

text \<open>\<open>zero\<close> is a new message; \<open>msg\<close> the uninitialised local variable that a method fills in.\<close>

definition LEDServer :: "(Message_t, unit) mq" where
  "LEDServer =
     bindx (MessageQueueTemplate LEDQ 10) (\<lambda>_.
     Call pthread_create [VRef ''&mThread'', VRef ''NULL'', VRef ''LEDServerThread'', VRef ''this''] (\<lambda>r.
     bindx (if status r then Do cerr [VStr ''LEDServer: pthread_create failed '', ret r] (Ret (Inr ()))
            else Ret (Inr ())) (\<lambda>_.
     Call pthread_setname_np [VRef ''mThread'', VStr ''LEDs''] (\<lambda>r.
     if status r then
       Call strerror [ret r] (\<lambda>e.
       Do cerr [VStr ''LEDServer: pthread_setname_np failed: '', ret e] (Ret (Inr ())))
     else Ret (Inr ())))))"

definition write_msg :: "Message_t \<Rightarrow> Message_t \<Rightarrow> (Message_t, unit) mq" where
  "write_msg zero msg = bindx (Write zero LEDQ None msg) (\<lambda>_. Ret (Inr ()))"

text \<open>
  The destructor.  It frees the object of the template; the template has no destructor, so that the
  lists inside stay as they are.
\<close>

definition LEDServer_delete :: "Message_t \<Rightarrow> Message_t \<Rightarrow> (Message_t, unit) mq" where
  "LEDServer_delete zero msg =
     bindx (write_msg zero (msg\<lparr>discriminator := ShutdownLED\<rparr>)) (\<lambda>_.
     Do sleep [VInt 1] (
     Do delete_object [VRef ''mQueue''] (
     Ret (Inr ()))))"

definition LEDServer_start :: "Message_t \<Rightarrow> Message_t \<Rightarrow> (Message_t, unit) mq" where
  "LEDServer_start zero msg = write_msg zero (msg\<lparr>discriminator := StartLED\<rparr>)"

definition LEDServer_stop :: "Message_t \<Rightarrow> Message_t \<Rightarrow> (Message_t, unit) mq" where
  "LEDServer_stop zero msg = write_msg zero (msg\<lparr>discriminator := StopLED\<rparr>)"

definition setPeriod :: "Message_t \<Rightarrow> Message_t \<Rightarrow> u32 \<Rightarrow> u32 \<Rightarrow> (Message_t, unit) mq" where
  "setPeriod zero msg on off =
     (if on = 0 \<or> off = 0 then
        Do cerr [VStr ''setPeriod: 0 period is not allowed''] (Ret (Inr ()))
      else write_msg zero (msg\<lparr>discriminator := SetRate, on_period_in_milliseconds := on,
        off_period_in_milliseconds := off\<rparr>))"

end
