(* ===== verification/RT_Runs.thy ===== *)
theory RT_Runs
  imports RT_Prog
begin

text \<open>
  A small program logic: \<open>runs K obs p g x g' ls\<close> states that \<open>p\<close>, started in the globals \<open>g\<close> after
  any history, returns \<open>x\<close> in \<open>g'\<close> and that its calls observed by \<open>obs\<close> are \<open>ls\<close>.
\<close>

definition runs :: "kernel \<Rightarrow> (syscall \<Rightarrow> 'b option) \<Rightarrow> ('g, 'a) prog \<Rightarrow> 'g \<Rightarrow> 'a \<Rightarrow> 'g \<Rightarrow> 'b list \<Rightarrow> bool" where
  "runs K obs p g x g' ls \<longleftrightarrow>
    (\<forall>h. \<exists>h'. exec K p g h = (Done x, g', h') \<and> observed obs h' = observed obs h @ ls)"

lemma runs_Ret [simp]: "runs K obs (Ret x) g x g []"
  by (simp add: runs_def)

lemma runs_Get [simp]: "runs K obs (Get k) g x g' ls = runs K obs (k g) g x g' ls"
  by (simp add: runs_def)

lemma runs_Put [simp]: "runs K obs (Put u p) g x g' ls = runs K obs p (u g) x g' ls"
  by (simp add: runs_def)

lemma runs_bindp:
  assumes "runs K obs p g x g1 l1" "runs K obs (q x) g1 y g2 l2"
  shows "runs K obs (bindp p q) g y g2 (l1 @ l2)"
  unfolding runs_def
proof
  fix h
  obtain h1 where 1: "exec K p g h = (Done x, g1, h1)" "observed obs h1 = observed obs h @ l1"
    using assms(1) unfolding runs_def by blast
  obtain h2 where "exec K (q x) g1 h1 = (Done y, g2, h2)" "observed obs h2 = observed obs h1 @ l2"
    using assms(2) unfolding runs_def by blast
  then show "\<exists>h'. exec K (bindp p q) g h = (Done y, g2, h') \<and> observed obs h' = observed obs h @ l1 @ l2"
    using 1 by (simp add: exec_bindp)
qed

lemma runs_Call:
  assumes "responsive K" "obeys K R"
    and "\<And>r. R (f, args) r \<Longrightarrow> runs K obs (k r) g x g' ls"
  shows "runs K obs (Call f args k) g x g' ((case obs (f, args) of None \<Rightarrow> [] | Some b \<Rightarrow> [b]) @ ls)"
  unfolding runs_def
proof
  fix h
  obtain r where r: "K h (f, args) = Some r"
    using assms(1) unfolding responsive_def by blast
  then have "R (f, args) r" using assms(2) by (simp add: obeys_def)
  from assms(3) [OF this] obtain h' where "exec K (k r) g (h @ [((f, args), r)]) = (Done x, g', h')"
    "observed obs h' = observed obs (h @ [((f, args), r)]) @ ls"
    unfolding runs_def by blast
  then show "\<exists>h'. exec K (Call f args k) g h = (Done x, g', h') \<and>
      observed obs h' = observed obs h @ (case obs (f, args) of None \<Rightarrow> [] | Some b \<Rightarrow> [b]) @ ls"
    using r by simp
qed

lemma runs_silent:
  assumes "responsive K" "obeys K R" "obs (f, args) = None"
    and "\<And>r. R (f, args) r \<Longrightarrow> runs K obs (k r) g x g' ls"
  shows "runs K obs (Call f args k) g x g' ls"
  using runs_Call [OF assms(1,2), of f args obs k g x g' ls] assms(3,4) by simp

lemma runs_unique:
  assumes "runs K obs p g x g' ls" "runs K obs p g y g'' ls'"
  shows "x = y \<and> g' = g'' \<and> ls = ls'"
proof -
  obtain h1 where "exec K p g [] = (Done x, g', h1)" "observed obs h1 = observed obs [] @ ls"
    using assms(1) unfolding runs_def by blast
  moreover obtain h2 where "exec K p g [] = (Done y, g'', h2)" "observed obs h2 = observed obs [] @ ls'"
    using assms(2) unfolding runs_def by blast
  ultimately show ?thesis by simp
qed

text \<open>
  \<open>finishes R obs p ls\<close>: with replies within \<open>R\<close>, \<open>p\<close> runs into \<open>Halt\<close>, and its observed calls until
  then are \<open>ls\<close>.
\<close>

primrec finishes :: "(syscall \<Rightarrow> reply \<Rightarrow> bool) \<Rightarrow> (syscall \<Rightarrow> 'b option) \<Rightarrow> ('g, 'a) prog \<Rightarrow> 'b list \<Rightarrow> bool" where
  "finishes R obs (Ret x) ls = False"
| "finishes R obs Halt ls = (ls = [])"
| "finishes R obs Cut ls = False"
| "finishes R obs (Call f args k) ls =
    (case obs (f, args) of
       None \<Rightarrow> (\<forall>r. R (f, args) r \<longrightarrow> finishes R obs (k r) ls)
     | Some b \<Rightarrow> ls \<noteq> [] \<and> hd ls = b \<and> (\<forall>r. R (f, args) r \<longrightarrow> finishes R obs (k r) (tl ls)))"
| "finishes R obs (Get k) ls = (\<forall>g. finishes R obs (k g) ls)"
| "finishes R obs (Put u p) ls = finishes R obs p ls"

lemma finishes_exec:
  assumes "responsive K" "obeys K R"
  shows "finishes R obs p ls \<Longrightarrow>
    \<exists>g' h'. exec K p g h = (Halted, g', h') \<and> observed obs h' = observed obs h @ ls"
proof (induction p arbitrary: g h ls)
  case (Call f args k)
  obtain r where r: "K h (f, args) = Some r" using assms(1) unfolding responsive_def by blast
  then have ok: "R (f, args) r" using assms(2) by (simp add: obeys_def)
  show ?case
  proof (cases "obs (f, args)")
    case None
    then have "finishes R obs (k r) ls" using Call.prems ok by simp
    from Call.IH [OF rangeI this, of g "h @ [((f, args), r)]"] show ?thesis using r None by auto
  next
    case (Some b)
    then have "finishes R obs (k r) (tl ls)" "ls = b # tl ls" using Call.prems ok by (auto simp: neq_Nil_conv)
    with Call.IH [OF rangeI this(1), of g "h @ [((f, args), r)]"] show ?thesis using r Some by auto
  qed
qed auto

lemma bindp_if: "bindp (if b then p else p') q = (if b then bindp p q else bindp p' q)"
  by simp

lemma exec_Call_responsive:
  assumes "responsive K"
  shows "exec K (Call f args k) g h = (let r = the (K h (f, args)) in exec K (k r) g (h @ [((f, args), r)]))"
proof -
  obtain r where "K h (f, args) = Some r" using assms unfolding responsive_def by blast
  then show ?thesis by simp
qed

text \<open>\<open>ends K obs p g ls\<close>: from the globals \<open>g\<close>, \<open>p\<close> runs into \<open>Halt\<close> with the observed calls \<open>ls\<close>.\<close>

definition ends :: "kernel \<Rightarrow> (syscall \<Rightarrow> 'b option) \<Rightarrow> ('g, 'a) prog \<Rightarrow> 'g \<Rightarrow> 'b list \<Rightarrow> bool" where
  "ends K obs p g ls \<longleftrightarrow>
    (\<forall>h. \<exists>g' h'. exec K p g h = (Halted, g', h') \<and> observed obs h' = observed obs h @ ls)"

lemma ends_simps [simp]:
  "ends K obs (Get k) g ls = ends K obs (k g) g ls"
  "ends K obs (Put u p) g ls = ends K obs p (u g) ls"
  "ends K obs Halt g ls = (ls = [])"
  by (simp_all add: ends_def)

lemma ends_bindp:
  assumes "runs K obs p g x g1 l1" "ends K obs (q x) g1 l2"
  shows "ends K obs (bindp p q) g (l1 @ l2)"
  unfolding ends_def
proof
  fix h
  obtain h1 where 1: "exec K p g h = (Done x, g1, h1)" "observed obs h1 = observed obs h @ l1"
    using assms(1) unfolding runs_def by blast
  obtain g2 h2 where "exec K (q x) g1 h1 = (Halted, g2, h2)" "observed obs h2 = observed obs h1 @ l2"
    using assms(2) unfolding ends_def by blast
  then show "\<exists>g' h'. exec K (bindp p q) g h = (Halted, g', h') \<and> observed obs h' = observed obs h @ l1 @ l2"
    using 1 by (simp add: exec_bindp)
qed

lemma ends_as: "ends K obs p g l1 \<Longrightarrow> l1 = ls \<Longrightarrow> ends K obs p g ls"
  by simp

lemma ends_after:
  assumes "runs K obs p g x g1 ls" "ends K obs (q x) g1 []"
  shows "ends K obs (bindp p q) g ls"
  using ends_bindp [where q = q, OF assms] by simp

lemma ends_Call:
  assumes "responsive K" "obeys K R" "\<And>r. R (f, args) r \<Longrightarrow> ends K obs (k r) g ls"
  shows "ends K obs (Call f args k) g ((case obs (f, args) of None \<Rightarrow> [] | Some b \<Rightarrow> [b]) @ ls)"
  unfolding ends_def
proof
  fix h
  obtain r where r: "K h (f, args) = Some r" using assms(1) unfolding responsive_def by blast
  then have "R (f, args) r" using assms(2) by (simp add: obeys_def)
  from assms(3) [OF this] obtain g' h' where "exec K (k r) g (h @ [((f, args), r)]) = (Halted, g', h')"
    "observed obs h' = observed obs (h @ [((f, args), r)]) @ ls"
    unfolding ends_def by blast
  then show "\<exists>g' h'. exec K (Call f args k) g h = (Halted, g', h') \<and>
      observed obs h' = observed obs h @ (case obs (f, args) of None \<Rightarrow> [] | Some b \<Rightarrow> [b]) @ ls"
    using r by simp
qed

lemma ends_silent:
  assumes "responsive K" "obeys K R" "obs (f, args) = None" "\<And>r. R (f, args) r \<Longrightarrow> ends K obs (k r) g ls"
  shows "ends K obs (Call f args k) g ls"
  using ends_Call [OF assms(1,2), of f args obs k g ls] assms(3,4) by simp

lemma ends_seen:
  assumes "responsive K" "obeys K R" "obs (f, args) = Some b" "\<And>r. R (f, args) r \<Longrightarrow> ends K obs (k r) g ls"
  shows "ends K obs (Call f args k) g (b # ls)"
  using ends_Call [OF assms(1,2), of f args obs k g ls] assms(3,4) by simp

text \<open>An input that delivers its lines one by one.\<close>

definition input_law :: "kernel \<Rightarrow> string list \<Rightarrow> bool" where
  "input_law K lines \<longleftrightarrow> (\<forall>h args r. K h (fgets, args) = Some r \<longrightarrow> calls_to fgets h < length lines \<longrightarrow>
     outs r = [VStr (lines ! calls_to fgets h)])"

lemma exec_quiet:
  assumes "responsive K" "f \<noteq> fgets"
  shows "\<exists>h'. exec K (Do f args p) g h = exec K p g h' \<and> calls_to fgets h' = calls_to fgets h"
proof -
  obtain r where "K h (f, args) = Some r" using assms(1) unfolding responsive_def by blast
  then show ?thesis using assms(2) by (intro exI [of _ "h @ [((f, args), r)]"]) simp
qed

section \<open>Calls whose replies are not used\<close>

text \<open>What one call shows.\<close>

definition seen :: "(syscall \<Rightarrow> 'b option) \<Rightarrow> sysfn \<Rightarrow> val list \<Rightarrow> 'b list" where
  "seen obs f args = (case obs (f, args) of None \<Rightarrow> [] | Some b \<Rightarrow> [b])"

lemma runs_Do:
  assumes "responsive K" "runs K obs p g x g' ls"
  shows "runs K obs (Do f args p) g x g' (seen obs f args @ ls)"
  unfolding seen_def by (rule runs_Call [OF assms(1) obeys_any assms(2)])

lemmas runs_last_Do = runs_Do [OF _ runs_Ret, simplified]

lemma runs_as: "runs K obs p g x g1 l1 \<Longrightarrow> g1 = g' \<Longrightarrow> l1 = ls \<Longrightarrow> runs K obs p g x g' ls"
  by simp

lemma bindp_assoc: "bindp (bindp p q) r = bindp p (\<lambda>x. bindp (q x) r)"
  by (induction p) simp_all

lemma runs_Halt:
  assumes "runs K obs p g x g' ls"
  shows "\<exists>h'. exec K (bindp p (\<lambda>_. Halt)) g [] = (Halted, g', h') \<and> observed obs h' = ls"
proof -
  obtain h' where "exec K p g [] = (Done x, g', h')" "observed obs h' = observed obs [] @ ls"
    using assms unfolding runs_def by blast
  then show ?thesis by (simp add: exec_bindp)
qed

text \<open>A kernel that answers every call with 0.\<close>

definition silent_kernel :: kernel where
  "silent_kernel h c = Some (Reply (VInt 0) [])"

lemma silent_kernel_responsive: "responsive silent_kernel"
  by (simp add: responsive_def silent_kernel_def)

end
