(* ===== verification/Queue_Interface.thy ===== *)
theory Queue_Interface
  imports Main
begin

text \<open>
  What the clients of a message queue rely on: a bounded first-in first-out queue that drops a
  message written when it is full.
\<close>

locale bounded_queue =
  fixes good :: "'s \<Rightarrow> bool"
    and elems :: "'s \<Rightarrow> 'm list"
    and cap :: "'s \<Rightarrow> nat"
    and put :: "'m \<Rightarrow> 's \<Rightarrow> 's"
    and take1 :: "'s \<Rightarrow> 's"
  assumes good_put: "good s \<Longrightarrow> good (put m s)"
    and elems_put: "good s \<Longrightarrow> elems (put m s) = elems s @ (if length (elems s) < cap s then [m] else [])"
    and cap_put: "good s \<Longrightarrow> cap (put m s) = cap s"
    and good_take: "good s \<Longrightarrow> elems s \<noteq> [] \<Longrightarrow> good (take1 s)"
    and elems_take: "good s \<Longrightarrow> elems (take1 s) = tl (elems s)"
    and cap_take: "good s \<Longrightarrow> cap (take1 s) = cap s"
begin

lemma put_all:
  assumes "good s" "length (elems s) \<le> cap s"
  shows "good (fold put ms s) \<and> cap (fold put ms s) = cap s \<and>
    elems (fold put ms s) = elems s @ take (cap s - length (elems s)) ms"
  using assms
proof (induction ms arbitrary: s)
  case (Cons m ms)
  have "length (elems (put m s)) \<le> cap (put m s)"
    using Cons.prems by (auto simp: elems_put cap_put)
  from Cons.IH [OF good_put [OF Cons.prems(1)] this] show ?case
    using Cons.prems by (auto simp: elems_put cap_put take_Cons' split: if_splits)
qed simp

lemma take_some:
  assumes "good s" "n \<le> length (elems s)"
  shows "good ((take1 ^^ n) s) \<and> cap ((take1 ^^ n) s) = cap s \<and> elems ((take1 ^^ n) s) = drop n (elems s)"
  using assms(2)
proof (induction n)
  case (Suc n)
  then have IH: "good ((take1 ^^ n) s)" "cap ((take1 ^^ n) s) = cap s" "elems ((take1 ^^ n) s) = drop n (elems s)"
    by simp_all
  moreover have "elems ((take1 ^^ n) s) \<noteq> []" using IH(3) Suc.prems by simp
  ultimately show ?case using good_take elems_take cap_take by (simp add: tl_drop drop_Suc)
qed (simp add: assms(1))

lemma fifo:
  assumes "good s" "elems s = []" "n < length ms" "n < cap s"
  shows "elems ((take1 ^^ n) (fold put ms s)) \<noteq> [] \<and> hd (elems ((take1 ^^ n) (fold put ms s))) = ms ! n"
proof -
  have p: "good (fold put ms s)" "elems (fold put ms s) = take (cap s) ms"
    using put_all [OF assms(1), of ms] assms(2) by simp_all
  then have "elems ((take1 ^^ n) (fold put ms s)) = drop n (take (cap s) ms)"
    using take_some [OF p(1), of n] assms(3,4) by simp
  moreover have "n < length (take (cap s) ms)" using assms(3,4) by simp
  ultimately show ?thesis using assms(4) by (simp add: hd_drop_conv_nth)
qed

end

end
