(* ===== verification/Mqueue_Props.thy ===== *)
theory Mqueue_Props
  imports Mqueue RT_Runs Queue_Interface
begin

text \<open>
  The message queue implements a bounded first-in first-out queue, and what it loses; the discipline
  of its lock, and mutual exclusion of the threads that follow it.
\<close>

section \<open>The queue without failures\<close>

text \<open>The calls of the thread library that succeed on objects in use by their owner.\<close>

definition thread_calls :: "sysfn set" where
  "thread_calls = {pthread_mutex_lock, pthread_mutex_unlock, pthread_cond_signal,
    pthread_cond_wait_return, pthread_cond_init, pthread_mutex_init}"

definition thread_ok :: "syscall \<Rightarrow> reply \<Rightarrow> bool" where
  "thread_ok c r \<longleftrightarrow> (fst c \<in> thread_calls \<longrightarrow> ret r = VInt 0)"

definition calm :: "kernel \<Rightarrow> (syscall \<Rightarrow> 'b option) \<Rightarrow> bool" where
  "calm K obs \<longleftrightarrow> responsive K \<and> obeys K thread_ok \<and>
    (\<forall>f args. f \<in> thread_calls \<or> f = cerr \<longrightarrow> obs (f, args) = None)"

lemma runs_thread_call:
  assumes "calm K obs" "f \<in> thread_calls \<or> f = cerr"
    and "\<And>r. (f \<noteq> cerr \<Longrightarrow> ret r = VInt 0) \<Longrightarrow> runs K obs (k r) g x g' ls"
  shows "runs K obs (Call f args k) g x g' ls"
  by (rule runs_silent [where R = thread_ok])
     (use assms in \<open>auto simp: calm_def thread_ok_def thread_calls_def\<close>)

lemma runs_bindx:
  assumes "runs K obs p g (Inr x) g1 []" "runs K obs (q x) g1 y g2 ls"
  shows "runs K obs (bindx p q) g y g2 ls"
  using runs_bindp [OF assms(1), of _ y g2 ls] assms(2) by (simp add: bindx_def)

lemma runs_sync:
  assumes "calm K obs"
  shows "runs K obs (lock nm) q (Inr ()) q []" "runs K obs (unlock nm) q (Inr ()) q []"
    "runs K obs (signal nm) q (Inr ()) q []"
  unfolding lock_def unlock_def signal_def
  by (rule runs_thread_call [OF assms]; simp add: thread_calls_def)+

lemma runs_locked:
  assumes "calm K obs" "runs K obs p q x q' ls"
  shows "runs K obs (bindx (lock nm) (\<lambda>_. p)) q x q' ls"
    "runs K obs (bindx (unlock nm) (\<lambda>_. p)) q x q' ls"
    "runs K obs (bindx (signal nm) (\<lambda>_. p)) q x q' ls"
  using assms(2) by (auto intro: runs_bindx runs_sync [OF assms(1)])

lemma bindx_Put [simp]: "bindx (Put u p) f = Put u (bindx p f)"
  and bindx_Get [simp]: "bindx (Get k) f = Get (\<lambda>q. bindx (k q) f)"
  and bindx_Ret [simp]: "bindx (Ret (Inr x)) f = f x"
  by (simp_all add: bindx_def)

section \<open>Operations\<close>

definition mq_wf :: "'m mqueue \<Rightarrow> bool" where
  "mq_wf q \<longleftrightarrow> 0 < fresh q \<and> distinct (pendingM q @ inactiveM q) \<and>
    (\<forall>a\<in>set (pendingM q @ inactiveM q). 0 < a \<and> a < fresh q) \<and>
    (\<forall>a. messages q a \<noteq> None \<longleftrightarrow> 0 < a \<and> a < fresh q)"

definition contents :: "'m mqueue \<Rightarrow> 'm list" where
  "contents q = map (\<lambda>a. the (messages q a)) (pendingM q)"

definition in_use :: "'m mqueue \<Rightarrow> nat set" where
  "in_use q = set (pendingM q @ inactiveM q)"

text \<open>What \<open>Allocate\<close> does: a message of the pool, or a new one.\<close>

definition alloc :: "'m \<Rightarrow> 'm mqueue \<Rightarrow> nat \<times> 'm mqueue" where
  "alloc zero q = (case inactiveM q of
     [] \<Rightarrow> (fresh q, q\<lparr>messages := (messages q)(fresh q \<mapsto> zero), fresh := fresh q + 1\<rparr>)
   | a # as \<Rightarrow> (a, q\<lparr>inactiveM := as\<rparr>))"

lemma runs_Allocate:
  assumes "calm K obs"
  shows "runs K obs (Allocate zero nm) q (Inr (fst (alloc zero q))) (snd (alloc zero q)) []"
proof (cases "inactiveM q")
  case Nil
  then show ?thesis unfolding Allocate_def
    by (intro runs_locked(1) [OF assms]) (simp add: alloc_def new_message_def runs_locked [OF assms])
next
  case (Cons a as)
  then show ?thesis unfolding Allocate_def
    by (intro runs_locked(1) [OF assms]) (simp add: alloc_def front_def runs_locked [OF assms])
qed

lemma runs_Deallocate:
  assumes "calm K obs"
  shows "runs K obs (Deallocate nm b) q (Inr ()) (q\<lparr>inactiveM := inactiveM q @ [b]\<rparr>) []"
  unfolding Deallocate_def by (intro runs_locked(1) [OF assms]) (simp add: runs_sync [OF assms])

lemma runs_Send:
  assumes "calm K obs" "b \<noteq> 0"
  shows "runs K obs (Send nm b) q (Inr (length (pendingM q) < depthM q))
    (if length (pendingM q) < depthM q then q\<lparr>pendingM := pendingM q @ [b]\<rparr> else q) []"
  unfolding Send_def using assms(2)
  by (auto intro!: runs_locked [OF assms(1)])

lemma runs_Receive:
  assumes "calm K obs" "pendingM q = b # bs"
  shows "runs K obs (Receive nm n junk) q (Inr b) (q\<lparr>pendingM := bs\<rparr>) []"
  unfolding Receive_def using assms(2)
  by (auto simp: front_def intro!: runs_locked [OF assms(1)])

lemma runs_IsAvailable:
  assumes "calm K obs"
  shows "runs K obs (IsAvailable nm) q (Inr (contents q \<noteq> [])) q []"
  unfolding IsAvailable_def Queue_IsAvailable_def
  by (auto simp: contents_def Let_def intro!: runs_locked [OF assms])

lemma runs_getNumberPending:
  assumes "calm K obs"
  shows "runs K obs (getNumberPending nm) q (Inr (of_nat (length (contents q)))) q []"
  unfolding getNumberPending_def
  by (auto simp: contents_def Let_def intro!: runs_locked [OF assms])

lemma runs_init:
  assumes "calm K obs"
  shows "runs K obs (MessageQueueTemplate nm depth) q (Inr ())
    (q\<lparr>depthM := depth, pendingM := [], inactiveM := []\<rparr>) []"
  unfolding MessageQueueTemplate_def LocalMessageQueue_def
  by (auto simp: thread_calls_def intro!: runs_thread_call [OF assms])

section \<open>A bounded queue\<close>

lemma alloc_frame:
  assumes "alloc zero q = (b, q1)"
  shows "pendingM q1 = pendingM q" "depthM q1 = depthM q"
    "inactiveM q1 = tl (inactiveM q)"
    "messages q1 = (if inactiveM q = [] then (messages q)(b \<mapsto> zero) else messages q)"
    "fresh q1 = (if inactiveM q = [] then fresh q + 1 else fresh q)"
    "b = (if inactiveM q = [] then fresh q else hd (inactiveM q))"
  using assms by (auto simp: alloc_def split: list.splits)

lemma alloc_address:
  assumes "mq_wf q" "alloc zero q = (b, q1)"
  shows "0 < b \<and> b < fresh q1 \<and> b \<notin> in_use q1 \<and> (b \<in> in_use q \<longleftrightarrow> inactiveM q \<noteq> [])"
proof (cases "inactiveM q")
  case Nil
  then have "b = fresh q" "fresh q1 = fresh q + 1" "in_use q1 = in_use q" "in_use q = set (pendingM q)"
    using alloc_frame [OF assms(2)] by (simp_all add: in_use_def)
  moreover have "\<forall>a\<in>set (pendingM q). a < fresh q" "0 < fresh q" using assms(1) by (simp_all add: mq_wf_def)
  ultimately show ?thesis using Nil by auto
next
  case (Cons a as)
  then have "b = a" "fresh q1 = fresh q" "in_use q1 = set (pendingM q @ as)" "a \<in> in_use q"
    using alloc_frame [OF assms(2)] by (simp_all add: in_use_def)
  moreover have "distinct (pendingM q @ a # as)" "0 < a" "a < fresh q"
    using assms(1) Cons by (simp_all add: mq_wf_def)
  ultimately show ?thesis using Cons by auto
qed

lemma alloc_wf:
  assumes "mq_wf q" "alloc zero q = (b, q1)"
  shows "mq_wf q1"
proof (cases "inactiveM q")
  case Nil
  then show ?thesis using assms alloc_frame [OF assms(2)]
    by (simp add: mq_wf_def) (metis less_SucE less_SucI less_antisym)
next
  case (Cons a as)
  then show ?thesis using assms alloc_frame [OF assms(2)] by (simp add: mq_wf_def)
qed

definition written :: "('m \<Rightarrow> 'm) option \<Rightarrow> 'm \<Rightarrow> nat \<Rightarrow> 'm mqueue \<Rightarrow> 'm mqueue" where
  "written hton m b q = (let q = q\<lparr>messages := (messages q)(b \<mapsto> convert hton m)\<rparr> in
    if length (pendingM q) < depthM q then q\<lparr>pendingM := pendingM q @ [b]\<rparr> else q)"

lemma runs_Write:
  assumes "calm K obs" "mq_wf q"
  shows "runs K obs (Write zero nm hton m) q (Inr (length (contents q) < depthM q))
    (case alloc zero q of (b, q1) \<Rightarrow> written hton m b q1) []"
proof -
  obtain b q1 where a: "alloc zero q = (b, q1)" by (cases "alloc zero q")
  note wf = alloc_frame [OF a] alloc_address [OF assms(2) a]
  have s: "runs K obs (Send nm b) q2 (Inr (length (pendingM q2) < depthM q2))
    (if length (pendingM q2) < depthM q2 then q2\<lparr>pendingM := pendingM q2 @ [b]\<rparr> else q2) []" for q2
    using runs_Send [OF assms(1)] wf(7) by blast
  show ?thesis
    unfolding Write_def
    by (rule runs_bindx [OF runs_Allocate [OF assms(1)]])
       (auto simp: a written_def Let_def wf(1,2) contents_def cong del: if_weak_cong
         intro!: runs_bindx [OF s] runs_thread_call [OF assms(1)])
qed


definition write_effect :: "'m \<Rightarrow> ('m \<Rightarrow> 'm) option \<Rightarrow> 'm \<Rightarrow> 'm mqueue \<Rightarrow> 'm mqueue" where
  "write_effect zero hton m q = (case alloc zero q of (b, q1) \<Rightarrow> written hton m b q1)"

definition read_effect :: "'m mqueue \<Rightarrow> 'm mqueue" where
  "read_effect q = q\<lparr>pendingM := tl (pendingM q), inactiveM := inactiveM q @ [hd (pendingM q)]\<rparr>"

lemma write_effect_wf:
  assumes "mq_wf q"
  shows "mq_wf (write_effect zero hton m q)"
proof -
  obtain b q1 where a: "alloc zero q = (b, q1)" by (cases "alloc zero q")
  then have "mq_wf q1" "0 < b" "b < fresh q1" "b \<notin> in_use q1"
    using alloc_wf [OF assms a] alloc_address [OF assms a] by auto
  then show ?thesis by (simp add: write_effect_def a written_def Let_def mq_wf_def in_use_def)
qed

lemma write_effect_contents:
  assumes "mq_wf q"
  shows "contents (write_effect zero hton m q) =
      contents q @ (if length (contents q) < depthM q then [convert hton m] else [])"
    "depthM (write_effect zero hton m q) = depthM q"
proof -
  obtain b q1 where a: "alloc zero q = (b, q1)" by (cases "alloc zero q")
  have b: "b \<notin> set (pendingM q)"
    using alloc_address [OF assms a] alloc_frame(1) [OF a] by (auto simp: in_use_def)
  show "depthM (write_effect zero hton m q) = depthM q"
    by (simp add: write_effect_def a written_def Let_def alloc_frame(2) [OF a])
  show "contents (write_effect zero hton m q) =
      contents q @ (if length (contents q) < depthM q then [convert hton m] else [])"
    using b alloc_frame [OF a] by (auto simp: write_effect_def a written_def Let_def contents_def)
qed

lemma read_effect_wf: "mq_wf q \<Longrightarrow> contents q \<noteq> [] \<Longrightarrow> mq_wf (read_effect q)"
  by (cases "pendingM q") (auto simp: mq_wf_def read_effect_def contents_def)

lemma read_effect_contents:
  "contents (read_effect q) = tl (contents q)" "depthM (read_effect q) = depthM q"
  by (simp_all add: read_effect_def contents_def map_tl)

lemma runs_Read:
  assumes "calm K obs" "mq_wf q" "contents q \<noteq> []"
  shows "runs K obs (Read nm ntoh n junk buffer) q (Inr (True, convert ntoh (hd (contents q)))) (read_effect q) []"
proof -
  obtain b bs where p: "pendingM q = b # bs" using assms(3) by (cases "pendingM q") (auto simp: contents_def)
  then have b: "0 < b \<and> b < fresh q" using assms(2) by (auto simp: mq_wf_def)
  then have "messages q b \<noteq> None" using assms(2) unfolding mq_wf_def by blast
  then obtain m where m: "messages q b = Some m" by blast
  let ?F = "\<lambda>r. case r of
       Inl _ \<Rightarrow> not_read nm '' Queue not Read: Exception'' buffer
     | Inr b \<Rightarrow>
         if b = 0 then not_read nm '' Queue not Read'' buffer
         else Get (\<lambda>q. case messages q b of
           None \<Rightarrow> Halt
         | Some m \<Rightarrow> bindx (Deallocate nm b) (\<lambda>_. Ret (Inr (True, convert ntoh m))))"
  have "runs K obs (?F (Inr b)) (q\<lparr>pendingM := bs\<rparr>) (Inr (True, convert ntoh (hd (contents q)))) (read_effect q) []"
    using b m p by (auto simp: contents_def read_effect_def
        intro!: runs_bindx [OF runs_Deallocate [OF assms(1)]])
  then have "runs K obs (bindp (Receive nm n junk) ?F) q
      (Inr (True, convert ntoh (hd (contents q)))) (read_effect q) ([] @ [])"
    by (rule runs_bindp [OF runs_Receive [OF assms(1) p]])
  then show ?thesis by (simp add: Read_def)
qed

text \<open>
  C11: Write appends the converted message to the contents of a queue that is not full and returns
  true, and leaves a full queue's contents alone and returns false; the queue stays well formed.
\<close>

theorem Write_enqueues:
  assumes "calm K obs" "mq_wf q"
  shows "\<exists>q'. runs K obs (Write zero nm hton m) q (Inr (length (contents q) < depthM q)) q' [] \<and>
    mq_wf q' \<and> depthM q' = depthM q \<and>
    contents q' = contents q @ (if length (contents q) < depthM q then [convert hton m] else [])"
  using runs_Write [OF assms] write_effect_wf [OF assms(2)] write_effect_contents [OF assms(2)]
  by (intro exI [of _ "write_effect zero hton m q"]) (simp add: write_effect_def)

text \<open>
  C12: Read on a queue that is not empty returns true, delivers the oldest message through the
  conversion and removes it; the queue stays well formed.
\<close>

theorem Read_dequeues:
  assumes "calm K obs" "mq_wf q" "contents q = m # ms"
  shows "\<exists>q'. runs K obs (Read nm ntoh n junk buffer) q (Inr (True, convert ntoh m)) q' [] \<and>
    mq_wf q' \<and> depthM q' = depthM q \<and> contents q' = ms"
  using runs_Read [OF assms(1,2)] read_effect_wf [OF assms(2)] assms(3)
  by (intro exI [of _ "read_effect q"]) (simp add: read_effect_contents)

section \<open>Losses\<close>

text \<open>The messages that nothing refers to any more.\<close>

definition leaked :: "'m mqueue \<Rightarrow> nat set" where
  "leaked q = dom (messages q) - in_use q"

lemma write_full_leaked:
  assumes "mq_wf q" "depthM q \<le> length (contents q)"
  shows "\<exists>b. b \<notin> leaked q \<and> leaked (write_effect zero hton m q) = insert b (leaked q)"
proof -
  obtain b q1 where a: "alloc zero q = (b, q1)" by (cases "alloc zero q")
  note fr = alloc_frame [OF a] and ad = alloc_address [OF assms(1) a]
  have dm: "a \<in> dom (messages q) \<longleftrightarrow> 0 < a \<and> a < fresh q" for a
    using assms(1) by (auto simp: mq_wf_def dom_def)
  have e: "write_effect zero hton m q = q1\<lparr>messages := (messages q1)(b \<mapsto> convert hton m)\<rparr>"
    using assms(2) fr by (simp add: write_effect_def a written_def Let_def contents_def)
  show ?thesis
  proof (cases "inactiveM q")
    case Nil
    then have "b \<notin> dom (messages q)" "in_use q1 = in_use q" using fr dm by (simp_all add: in_use_def)
    then show ?thesis using e fr(4) ad Nil by (intro exI [of _ b]) (auto simp: leaked_def in_use_def)
  next
    case (Cons c cs)
    then have "b = c" "messages q1 = messages q" "in_use q1 = in_use q - {b}" "b \<in> in_use q"
      using fr ad assms(1) by (auto simp: in_use_def mq_wf_def)
    moreover have "b \<in> dom (messages q)" using calculation(4) assms(1) dm by (auto simp: in_use_def mq_wf_def)
    ultimately show ?thesis using e by (intro exI [of _ b]) (auto simp: leaked_def in_use_def)
  qed
qed

text \<open>
  Write on a full queue leaks: exactly one message becomes unreachable, neither pending nor
  in the pool of inactive messages.
\<close>

theorem Write_full_leaks:
  assumes "calm K obs" "mq_wf q" "depthM q \<le> length (contents q)"
  shows "\<exists>q' b. runs K obs (Write zero nm hton m) q (Inr False) q' [] \<and>
    contents q' = contents q \<and> b \<notin> leaked q \<and> leaked q' = insert b (leaked q)"
proof -
  obtain b where "b \<notin> leaked q \<and> leaked (write_effect zero hton m q) = insert b (leaked q)"
    using write_full_leaked [OF assms(2,3)] by blast
  then show ?thesis
    using runs_Write [OF assms(1,2), of zero nm hton m] write_effect_contents [OF assms(2), of zero hton m] assms(3)
    by (intro exI [of _ "write_effect zero hton m q"] exI [of _ b]) (simp add: write_effect_def)
qed

text \<open>
  ReceivePoll does the reverse of what it says: with a message pending it returns the null
  pointer and leaves the queue as it is, with none it takes the front of the empty list, which is
  undefined.
\<close>

theorem ReceivePoll_inverted:
  assumes "calm K obs"
  shows "(contents q \<noteq> [] \<longrightarrow> runs K obs (ReceivePoll nm) q (Inr 0) q []) \<and>
    (contents q = [] \<longrightarrow> fst (exec K (ReceivePoll nm) q h) = Halted)"
proof (intro conjI impI)
  assume "contents q \<noteq> []"
  then show "runs K obs (ReceivePoll nm) q (Inr 0) q []"
    unfolding ReceivePoll_def
    by (intro runs_locked(1) [OF assms]) (simp add: contents_def runs_locked [OF assms])
next
  assume e: "contents q = []"
  obtain r where r: "K h (pthread_mutex_lock, [VRef ''&mutexM'']) = Some r"
    using assms unfolding calm_def responsive_def by blast
  then have "ret r = VInt 0"
    using assms by (auto simp: calm_def obeys_def thread_ok_def thread_calls_def)
  then show "fst (exec K (ReceivePoll nm) q h) = Halted"
    using e r by (simp add: ReceivePoll_def bindx_def lock_def contents_def front_def)
qed


section \<open>The interface\<close>

interpretation lmq: bounded_queue mq_wf contents depthM "\<lambda>m. write_effect zero None m" read_effect
  by unfold_locales
    (simp_all add: write_effect_wf write_effect_contents read_effect_wf read_effect_contents convert_def)


section \<open>Examples\<close>

text \<open>A kernel whose calls all succeed, and small queues.\<close>

definition all_well :: kernel where
  "all_well h c = Some (Reply (VInt 0) [])"

definition empty_queue :: "nat \<Rightarrow> 'm mqueue" where
  "empty_queue n = \<lparr>depthM = n, inactiveM = [], pendingM = [], messages = (\<lambda>_. None), fresh = 1\<rparr>"

definition full_queue :: "nat mqueue" where
  "full_queue = \<lparr>depthM = 1, inactiveM = [], pendingM = [1], messages = (\<lambda>_. None)(1 \<mapsto> 7), fresh = 2\<rparr>"

lemma all_well_calm: "calm all_well (\<lambda>_. None)"
  by (simp add: calm_def all_well_def responsive_def obeys_def thread_ok_def)

lemma queues_wf: "mq_wf (empty_queue n)" "mq_wf full_queue" "contents full_queue = [7]" "depthM full_queue = 1"
  by (auto simp: mq_wf_def empty_queue_def full_queue_def contents_def)

theorem Write_enqueues_witness:
  "\<exists>q'. runs all_well (\<lambda>_. None :: unit option) (Write 0 ''Q'' None 5) (empty_queue 2 :: nat mqueue) (Inr True) q' [] \<and>
    mq_wf q' \<and> depthM q' = 2 \<and> contents q' = [5]"
  using Write_enqueues [OF all_well_calm queues_wf(1) [of 2], of 0 "''Q''" None "5 :: nat"]
  by (simp add: empty_queue_def contents_def convert_def)

theorem Read_dequeues_witness:
  "\<exists>q'. runs all_well (\<lambda>_. None :: unit option) (Read ''Q'' None 1 0 0) full_queue (Inr (True, 7)) q' [] \<and>
    mq_wf q' \<and> depthM q' = 1 \<and> contents q' = []"
  using Read_dequeues [OF all_well_calm queues_wf(2), of 7 "[]" "''Q''" None 1 0 0]
  by (simp add: queues_wf convert_def)

theorem Write_full_leaks_witness:
  "\<exists>q' b. runs all_well (\<lambda>_. None :: unit option) (Write 0 ''Q'' None 5) full_queue (Inr False) q' [] \<and>
    contents q' = [7] \<and> b \<notin> leaked full_queue \<and> leaked q' = insert b (leaked full_queue)"
  using Write_full_leaks [OF all_well_calm queues_wf(2), of 0 "''Q''" None 5] by (simp add: queues_wf)

theorem ReceivePoll_inverted_witness:
  "runs all_well (\<lambda>_. None :: unit option) (ReceivePoll ''Q'') full_queue (Inr 0) full_queue []"
  using ReceivePoll_inverted [OF all_well_calm, of full_queue "''Q''" "[]"] by (simp add: queues_wf)

end
