(* ===== verification/LED_Server_Props.thy ===== *)
theory LED_Server_Props
  imports LED_Server Mqueue_Props
begin

text \<open>
  The LED server against its specification: it obeys the messages in the order of the queue, one per
  round, and blinks between them; it returns when it is told to shut down, and only then.
\<close>

section \<open>The specification\<close>

text \<open>What the thread does that can be seen: the LED, and the delays.\<close>

datatype led_event = Led bool | Nap int int | Pause | Deleted

definition led_obs :: "syscall \<Rightarrow> led_event option" where
  "led_obs c =
    (if c = (fputs, [VStr ''LED ON\<newline>'', VRef ''stderr'']) then Some (Led True)
     else if c = (fputs, [VStr ''LED OFF\<newline>'', VRef ''stderr'']) then Some (Led False)
     else if fst c = nanosleep then Some (Nap (as_int (snd c ! 0)) (as_int (snd c ! 1)))
     else if fst c = sleep then Some Pause
     else if fst c = delete_object then Some Deleted
     else None)"

definition obey_spec :: "Message_t \<Rightarrow> server \<Rightarrow> server option" where
  "obey_spec m s = (case discriminator m of
     StartLED \<Rightarrow> Some (s\<lparr>active := True\<rparr>)
   | StopLED \<Rightarrow> Some (s\<lparr>active := False\<rparr>)
   | SetRate \<Rightarrow> Some (s\<lparr>onPeriod := on_period_in_milliseconds m, offPeriod := off_period_in_milliseconds m\<rparr>)
   | ShutdownLED \<Rightarrow> None)"

definition period :: "server \<Rightarrow> u32" where
  "period s = (let p = (if odd (ledCount s) then onPeriod s else offPeriod s) in if p = 0 then 500 else p)"

definition blink_spec :: "server \<Rightarrow> server \<times> led_event list" where
  "blink_spec s =
    (if active s then
       let s = s\<lparr>ledCount := ledCount s + 1\<rparr> in
       (s, [Led (odd (ledCount s)), Nap (uint (tv_sec (period s))) (uint (tv_nsec (period s)))])
     else (s, [Pause]))"

text \<open>The server as a machine that consumes the pending messages \<open>ms\<close>; its rounds and their events.\<close>

primrec serve :: "nat \<Rightarrow> Message_t list \<Rightarrow> server \<Rightarrow> (bool \<times> led_event list)" where
  "serve 0 ms s = (False, [])"
| "serve (Suc n) ms s =
    (case (case ms of [] \<Rightarrow> Some s | m # _ \<Rightarrow> obey_spec m s) of
       None \<Rightarrow> (True, [])
     | Some s \<Rightarrow>
         (case blink_spec s of (s, es) \<Rightarrow>
            (case serve n (tl ms) s of (ended, es') \<Rightarrow> (ended, es @ es'))))"

section \<open>One round\<close>

lemma runs_obey:
  assumes "calm K led_obs"
  shows "runs K led_obs (obey m s) q (Inr (obey_spec m s)) q []"
  by (cases "discriminator m")
     (auto simp: obey_def obey_spec_def intro!: runs_thread_call [OF assms])

lemma runs_seen:
  assumes "calm K obs" "obs (f, args) = Some e" "runs K obs p g x g' ls"
  shows "runs K obs (Do f args p) g x g' (e # ls)"
  using runs_Call [of K thread_ok f args obs "\<lambda>_. p" g x g' ls] assms by (simp add: calm_def)

lemma led_obs_simps [simp]:
  "led_obs (fputs, [VStr ''LED ON\<newline>'', VRef ''stderr'']) = Some (Led True)"
  "led_obs (fputs, [VStr ''LED OFF\<newline>'', VRef ''stderr'']) = Some (Led False)"
  "led_obs (nanosleep, [VInt a, VInt b]) = Some (Nap a b)"
  "led_obs (sleep, args) = Some Pause"
  "led_obs (delete_object, args) = Some Deleted"
  by (simp_all add: led_obs_def)

lemma runs_blink:
  assumes "calm K led_obs"
  shows "runs K led_obs (blink s) q (Inr (fst (blink_spec s))) q (snd (blink_spec s))"
proof (cases "active s")
  case False
  then show ?thesis by (auto simp: blink_def blink_spec_def intro!: runs_seen [OF assms])
next
  case True
  then show ?thesis
    by (auto simp: blink_def blink_spec_def period_def Let_def LED_ON_def LED_OFF_def
        odd_iff_mod_2_eq_one [symmetric] intro!: runs_seen [OF assms])
qed

lemma runs_round:
  fixes s :: server
  assumes "calm K led_obs" "mq_wf q"
  defines "ms \<equiv> contents q"
  defines "r \<equiv> (case ms of [] \<Rightarrow> Some s | x # _ \<Rightarrow> obey_spec x s)"
  shows "\<exists>q' m'. mq_wf q' \<and> contents q' = tl ms \<and> depthM q' = depthM q \<and>
    (case r of
       None \<Rightarrow> runs K led_obs (thread_round w junk m s) q (Inr None) q' []
     | Some s' \<Rightarrow> runs K led_obs (thread_round w junk m s) q
         (Inr (Some (m', fst (blink_spec s')))) q' (snd (blink_spec s')))"
proof -
  have 1: "runs K led_obs (IsAvailable LEDQ) q (Inr (ms \<noteq> [])) q []"
    unfolding ms_def by (rule runs_IsAvailable [OF assms(1)])
  define after where "after = (\<lambda>r :: (Message_t \<times> server) option. case r of
       None \<Rightarrow> Ret (Inr None)
     | Some (m, s) \<Rightarrow> bindx (blink s) (\<lambda>s. Ret (Inr (Some (m, s)))))"
  have 3: "runs K led_obs (case r of
       None \<Rightarrow> Ret (Inr None)
     | Some (m, s) \<Rightarrow> bindx (blink s) (\<lambda>s. Ret (Inr (Some (m, s))))) q'
     (Inr (map_option (\<lambda>(m, s). (m, fst (blink_spec s))) r)) q'
     (case r of None \<Rightarrow> [] | Some (m, s) \<Rightarrow> snd (blink_spec s))" for r q'
  proof (cases r)
    case (Some a)
    obtain m' s' where a: "a = (m', s')" by (cases a)
    have "runs K led_obs (bindp (blink s') (\<lambda>r. case r of Inl e \<Rightarrow> Ret (Inl e) | Inr s \<Rightarrow> Ret (Inr (Some (m', s))))) q'
      (Inr (Some (m', fst (blink_spec s')))) q' (snd (blink_spec s') @ [])"
      by (rule runs_bindp [OF runs_blink [OF assms(1)]]) simp
    then show ?thesis by (simp add: Some a bindx_def)
  qed simp
  show ?thesis
  proof (cases ms)
    case Nil
    have "runs K led_obs (thread_round w junk m s) q
      (Inr (Some (m, fst (blink_spec s)))) q (snd (blink_spec s))"
      unfolding thread_round_def
      by (rule runs_bindx [OF 1]) (use Nil 3 [of "Some (m, s)" q] in simp)
    then show ?thesis using Nil assms(2) by (intro exI [of _ q] exI [of _ m]) (simp add: r_def ms_def)
  next
    case (Cons x xs)
    let ?q = "read_effect q"
    let ?r = "map_option (\<lambda>s. (x, s)) (obey_spec x s)"
    have 2: "runs K led_obs
      (bindx (Read LEDQ None w junk m) (\<lambda>(_, m). bindx (obey m s) (\<lambda>r. Ret (Inr (map_option (\<lambda>s. (m, s)) r)))))
      q (Inr ?r) ?q []"
      using runs_Read [OF assms(1,2), of LEDQ None w junk m] Cons
      by (auto simp: ms_def convert_def intro!: runs_bindx runs_obey [OF assms(1)])
    have 4: "runs K led_obs
      (bindx (bindx (Read LEDQ None w junk m)
        (\<lambda>(_, m). bindx (obey m s) (\<lambda>r. Ret (Inr (map_option (\<lambda>s. (m, s)) r))))) after)
      q (Inr (map_option (\<lambda>(m, s). (m, fst (blink_spec s))) ?r)) ?q
      (case ?r of None \<Rightarrow> [] | Some (m, s) \<Rightarrow> snd (blink_spec s))"
      by (rule runs_bindx [OF 2]) (use 3 [of ?r ?q] in \<open>simp add: after_def\<close>)
    have "runs K led_obs (thread_round w junk m s) q
      (Inr (map_option (\<lambda>(m, s). (m, fst (blink_spec s))) ?r)) ?q
      (case ?r of None \<Rightarrow> [] | Some (m, s) \<Rightarrow> snd (blink_spec s))"
      unfolding thread_round_def
      by (rule runs_bindx [OF 1]) (use Cons 4 in \<open>simp add: after_def\<close>)
    then show ?thesis using Cons assms(2) read_effect_wf [OF assms(2)] read_effect_contents [of q]
      by (intro exI [of _ ?q] exI [of _ x]) (auto simp: r_def ms_def split: option.split)
  qed
qed


section \<open>The whole thread\<close>

text \<open>A run of the loop from any history: its outcome, and what was seen.\<close>

lemma runs_exec:
  assumes "runs K obs p g x g' ls"
  obtains h' where "exec K p g h = (Done x, g', h')" "observed obs h' = observed obs h @ ls"
  using assms unfolding runs_def by blast

lemma loop_serves:
  assumes "calm K led_obs" "mq_wf q"
  shows "\<exists>q' h'. exec K (thread_loop n w junk m s) q h =
      (if fst (serve n (contents q) s) then Done (Inr ()) else Unfinished, q', h') \<and>
    observed led_obs h' = observed led_obs h @ snd (serve n (contents q) s)"
  using assms(2)
proof (induction n arbitrary: q m s h)
  case (Suc n)
  let ?r = "case contents q of [] \<Rightarrow> Some s | x # _ \<Rightarrow> obey_spec x s"
  obtain q1 m1 where q1: "mq_wf q1" "contents q1 = tl (contents q)" and
    r: "case ?r of
       None \<Rightarrow> runs K led_obs (thread_round w junk m s) q (Inr None) q1 []
     | Some s' \<Rightarrow> runs K led_obs (thread_round w junk m s) q
         (Inr (Some (m1, fst (blink_spec s')))) q1 (snd (blink_spec s'))"
    using runs_round [OF assms(1) Suc.prems, where s = s and w = w and junk = junk and m = m] by blast
  show ?case
  proof (cases ?r)
    case None
    then obtain h' where "exec K (thread_round w junk m s) q h = (Done (Inr None), q1, h')"
      "observed led_obs h' = observed led_obs h"
      using r runs_exec [of K led_obs "thread_round w junk m s" q "Inr None" q1 "[]"] by auto
    then show ?thesis using None by (simp add: bindx_def exec_bindp)
  next
    case (Some s')
    then obtain h' where h': "exec K (thread_round w junk m s) q h =
        (Done (Inr (Some (m1, fst (blink_spec s')))), q1, h')"
      "observed led_obs h' = observed led_obs h @ snd (blink_spec s')"
      using r by (auto elim: runs_exec)
    obtain q2 h2 where "exec K (thread_loop n w junk m1 (fst (blink_spec s'))) q1 h' =
        (if fst (serve n (tl (contents q)) (fst (blink_spec s'))) then Done (Inr ()) else Unfinished, q2, h2)"
      "observed led_obs h2 = observed led_obs h' @ snd (serve n (tl (contents q)) (fst (blink_spec s')))"
      using Suc.IH [OF q1(1)] unfolding q1(2) by blast
    then show ?thesis using Some h' by (simp add: bindx_def exec_bindp split: prod.split)
  qed
qed simp

lemma thread_serves:
  assumes "calm K led_obs" "mq_wf q"
  shows "\<exists>q' h'. exec K (ThreadBody n w junk m) q h =
      (if fst (serve n (contents q) server_start) then Done (Inr ()) else Unfinished, q', h') \<and>
    observed led_obs h' = observed led_obs h @ snd (serve n (contents q) server_start)"
  unfolding ThreadBody_def by (rule loop_serves [OF assms])

text \<open>
  C5: On a queue with any contents, the thread of the LED server behaves as its specification, a
  function of the list of messages: the same LED commands and delays in the same order, and it
  returns exactly if the specification reaches a shutdown.
\<close>

theorem ThreadBody_serves:
  assumes "calm K led_obs" "mq_wf q"
  shows "\<exists>q' h'. exec K (ThreadBody n w junk m) q h =
      (if fst (serve n (contents q) server_start) then Done (Inr ()) else Unfinished, q', h') \<and>
    observed led_obs h' = observed led_obs h @ snd (serve n (contents q) server_start)"
  by (rule thread_serves [OF assms])

section \<open>Shutting down\<close>

definition shuts :: "Message_t \<Rightarrow> bool" where
  "shuts m \<longleftrightarrow> discriminator m = ShutdownLED"

lemma obey_spec_None: "obey_spec m s = None \<longleftrightarrow> shuts m"
  by (cases "discriminator m") (auto simp: obey_spec_def shuts_def)

lemma serve_shuts:
  assumes "list_ex shuts ms"
  shows "length (takeWhile (\<lambda>m. \<not> shuts m) ms) < n \<Longrightarrow> fst (serve n ms s)"
  using assms
proof (induction n arbitrary: ms s)
  case (Suc n)
  then obtain x xs where ms: "ms = x # xs" by (cases ms) auto
  show ?case
  proof (cases "shuts x")
    case False
    then obtain s' where s': "obey_spec x s = Some s'" using obey_spec_None [of x s] by (cases "obey_spec x s") auto
    have "fst (serve n xs (fst (blink_spec s')))"
      using Suc False ms by simp
    then show ?thesis by (simp add: ms s' split: prod.split) (metis fst_conv)
  next
    case True
    then have "obey_spec x s = None" by (simp add: obey_spec_None)
    then show ?thesis by (simp add: ms)
  qed
qed simp

lemma serve_no_shuts:
  assumes "\<not> list_ex shuts ms"
  shows "\<not> fst (serve n ms s)"
  using assms
proof (induction n arbitrary: ms s)
  case (Suc n)
  obtain s' where "(case ms of [] \<Rightarrow> Some s | m # _ \<Rightarrow> obey_spec m s) = Some s'"
    using Suc.prems by (cases ms; cases "obey_spec (hd ms) s") (auto simp: obey_spec_None)
  moreover have "\<not> fst (serve n (tl ms) (fst (blink_spec s')))"
    using Suc by (cases ms) auto
  ultimately show ?case by (simp split: prod.split) (metis fst_conv)
qed simp

text \<open>
  C20: When a shutdown request is among the pending messages, the thread of the LED server returns
  in at most as many rounds as there are messages up to it.
\<close>

theorem shutdown_returns:
  assumes "calm K led_obs" "mq_wf q" "list_ex shuts (contents q)"
    and "length (takeWhile (\<lambda>m. \<not> shuts m) (contents q)) < n"
  shows "fst (exec K (ThreadBody n w junk m) q h) = Done (Inr ())"
proof -
  obtain q' h' where "exec K (ThreadBody n w junk m) q h =
      (if fst (serve n (contents q) server_start) then Done (Inr ()) else Unfinished, q', h')"
    using thread_serves [OF assms(1,2)] by blast
  then show ?thesis using serve_shuts [OF assms(3,4)] by simp
qed


section \<open>Clients\<close>

primrec write_all :: "Message_t \<Rightarrow> Message_t list \<Rightarrow> (Message_t, unit) mq" where
  "write_all zero [] = Ret (Inr ())"
| "write_all zero (m # ms) = bindx (write_msg zero m) (\<lambda>_. write_all zero ms)"

lemma runs_write_msg:
  assumes "calm K obs" "mq_wf q"
  shows "runs K obs (write_msg zero m) q (Inr ()) (write_effect zero None m q) []"
  unfolding write_msg_def write_effect_def
  by (rule runs_bindx [OF runs_Write [OF assms]]) simp

lemma runs_write_all:
  assumes "calm K obs"
  shows "mq_wf q \<Longrightarrow> runs K obs (write_all zero ms) q (Inr ()) (fold (\<lambda>m. write_effect zero None m) ms q) []"
proof (induction ms arbitrary: q)
  case (Cons m ms)
  have "runs K obs (bindx (write_msg zero m) (\<lambda>_. write_all zero ms)) q (Inr ())
      (fold (\<lambda>m. write_effect zero None m) ms (write_effect zero None m q)) []"
    by (rule runs_bindx [OF runs_write_msg [OF assms Cons.prems]])
       (rule Cons.IH [OF write_effect_wf [OF Cons.prems]])
  then show ?case by simp
qed simp

text \<open>
  C2: When clients write any messages into an empty queue and the thread of the LED server then
  runs, the LED commands, naps and pauses it gives are those that the specification of the server
  gives for the first messages that fit into the queue, in order, and it returns exactly if one of
  them asks for the shutdown.
\<close>

theorem server_obeys_clients:
  assumes "calm K led_obs" "mq_wf q" "contents q = []"
  shows "\<exists>q1. runs K led_obs (write_all zero ms) q (Inr ()) q1 [] \<and>
    (\<forall>n w junk m h. \<exists>q' h'.
      exec K (ThreadBody n w junk m) q1 h =
        (if fst (serve n (take (depthM q) ms) server_start) then Done (Inr ()) else Unfinished, q', h') \<and>
      observed led_obs h' = observed led_obs h @ snd (serve n (take (depthM q) ms) server_start))"
proof (rule exI, intro conjI allI)
  let ?q1 = "fold (\<lambda>m. write_effect zero None m) ms q"
  show "runs K led_obs (write_all zero ms) q (Inr ()) ?q1 []"
    by (rule runs_write_all [OF assms(1,2)])
  have "mq_wf ?q1" "contents ?q1 = take (depthM q) ms"
    using lmq.put_all [OF assms(2), of zero ms] assms(3) by simp_all
  then show "\<exists>q' h'.
      exec K (ThreadBody n w junk m) ?q1 h =
        (if fst (serve n (take (depthM q) ms) server_start) then Done (Inr ()) else Unfinished, q', h') \<and>
      observed led_obs h' = observed led_obs h @ snd (serve n (take (depthM q) ms) server_start)"
    for n w junk m h
    using thread_serves [OF assms(1)] by metis
qed


section \<open>The delays\<close>

lemma mod_of_difference:
  fixes a k m :: int
  assumes "(a - k) mod m = a mod m" shows "m dvd k"
  using assms by (simp add: mod_eq_dvd_iff)

text \<open>
  C35: For the periods that the menu allows, the time that the LED server sleeps is the period in
  milliseconds exactly if the period is at most 4294; above, the product overflows 32 bits.
\<close>

theorem nap_duration:
  assumes "0 < p" "p \<le> 10000"
  shows "uint (tv_sec p) * 1000000000 + uint (tv_nsec p) = uint p * 1000000 \<longleftrightarrow> p \<le> 4294"
proof -
  define x where "x = uint p"
  have x: "0 \<le> x" "x \<le> 10000" using assms(2) by (auto simp: x_def word_le_def)
  have sec: "uint (tv_sec p) = x div 1000" by (simp add: tv_sec_def x_def uint_div)
  have "uint (p * 1000000) = x * 1000000 mod 2 ^ 32" by (simp add: x_def uint_word_ariths)
  then have nsec: "uint (tv_nsec p) = x * 1000000 mod 2 ^ 32 mod 1000000000"
    by (simp add: tv_nsec_def uint_mod)
  have le: "p \<le> 4294 \<longleftrightarrow> x \<le> 4294" by (simp add: x_def word_le_def)
  have "x * 1000000 mod 1000000000 = x mod 1000 * 1000000"
    using mod_mult_mult2 [of x 1000000 1000] by simp
  then have split: "x div 1000 * 1000000000 + x * 1000000 mod 1000000000 = x * 1000000"
    using div_mult_mod_eq [of x 1000] by linarith
  show ?thesis
  proof (cases "x \<le> 4294")
    case True
    then have "x * 1000000 mod 2 ^ 32 = x * 1000000" using x by simp
    then show ?thesis using True split by (simp add: sec nsec le flip: x_def)
  next
    case False
    define k where "k = x * 1000000 div 2 ^ 32"
    have k: "k = 1 \<or> k = 2" using False x by (auto simp: k_def)
    have wrap: "x * 1000000 mod 2 ^ 32 = x * 1000000 - k * 2 ^ 32"
      unfolding k_def by (simp only: minus_div_mult_eq_mod)
    have "uint (tv_sec p) * 1000000000 + uint (tv_nsec p) \<noteq> x * 1000000"
    proof
      assume "uint (tv_sec p) * 1000000000 + uint (tv_nsec p) = x * 1000000"
      then have "x * 1000000 mod 2 ^ 32 mod 1000000000 = x * 1000000 mod 1000000000"
        using split by (simp add: sec nsec)
      then have "(x * 1000000 - k * 2 ^ 32) mod 1000000000 = x * 1000000 mod 1000000000"
        by (simp only: wrap)
      then have "1000000000 dvd k * 2 ^ 32" by (rule mod_of_difference)
      then show False using k by auto
    qed
    then show ?thesis using False by (simp add: le x_def)
  qed
qed


section \<open>Examples\<close>

definition start_msg :: Message_t where
  "start_msg = \<lparr>discriminator = StartLED, on_period_in_milliseconds = 0, off_period_in_milliseconds = 0\<rparr>"

definition shutdown_msg :: Message_t where
  "shutdown_msg = start_msg\<lparr>discriminator := ShutdownLED\<rparr>"

definition two_messages :: "Message_t mqueue" where
  "two_messages = \<lparr>depthM = 10, inactiveM = [], pendingM = [1, 2],
     messages = (\<lambda>_. None)(1 \<mapsto> start_msg, 2 \<mapsto> shutdown_msg), fresh = 3\<rparr>"

definition one_slot :: "Message_t mqueue" where
  "one_slot = \<lparr>depthM = 1, inactiveM = [], pendingM = [1],
     messages = (\<lambda>_. None)(1 \<mapsto> start_msg), fresh = 2\<rparr>"

lemma calm_all_well: "calm all_well led_obs"
  by (auto simp: calm_def all_well_def responsive_def obeys_def thread_ok_def led_obs_def thread_calls_def)

lemma example_queues:
  "mq_wf two_messages" "contents two_messages = [start_msg, shutdown_msg]"
  "mq_wf one_slot" "contents one_slot = [start_msg]" "depthM one_slot = 1"
  "mq_wf (empty_queue 10)" "contents (empty_queue 10) = []" "depthM (empty_queue n) = n"
  by (auto simp: mq_wf_def contents_def two_messages_def one_slot_def empty_queue_def)

theorem ThreadBody_serves_witness:
  "\<exists>q' h'. exec all_well (ThreadBody 5 1 0 start_msg) two_messages [] = (Done (Inr ()), q', h') \<and>
    observed led_obs h' = [Led True, Nap 0 500000000]"
  using ThreadBody_serves [OF calm_all_well example_queues(1), of 5 1 0 start_msg "[]"]
  by (simp add: example_queues numeral_eq_Suc obey_spec_def start_msg_def shutdown_msg_def blink_spec_def
      server_start_def period_def Let_def)
     (simp add: tv_sec_def tv_nsec_def)

theorem shutdown_returns_witness:
  "fst (exec all_well (ThreadBody 2 1 0 start_msg) two_messages []) = Done (Inr ())"
  by (rule shutdown_returns [OF calm_all_well example_queues(1)])
     (simp_all add: example_queues shuts_def start_msg_def shutdown_msg_def)

theorem server_obeys_clients_witness:
  "\<exists>q1. runs all_well led_obs (write_all start_msg [start_msg, shutdown_msg]) (empty_queue 10) (Inr ()) q1 [] \<and>
    (\<forall>n w junk m h. \<exists>q' h'.
      exec all_well (ThreadBody n w junk m) q1 h =
        (if fst (serve n (take (depthM (empty_queue 10 :: Message_t mqueue)) [start_msg, shutdown_msg]) server_start)
         then Done (Inr ()) else Unfinished, q', h') \<and>
      observed led_obs h' = observed led_obs h @
        snd (serve n (take (depthM (empty_queue 10 :: Message_t mqueue)) [start_msg, shutdown_msg]) server_start))"
  by (rule server_obeys_clients [OF calm_all_well example_queues(6,7)])


theorem nap_duration_witness:
  "uint (tv_sec 5000) * 1000000000 + uint (tv_nsec 5000) \<noteq> 5000 * 1000000"
  using nap_duration [of 5000] by simp

end
