(* ===== verification/Mqueue_Lock.thy ===== *)
theory Mqueue_Lock
  imports Mqueue_Props
begin

text \<open>
  The discipline of the queue's mutex: an access to the lists of the queue happens with the mutex
  held, every method returns without it, and so no two threads that use the queue's methods are ever
  about to access the lists at the same time.
\<close>

section \<open>The discipline\<close>

text \<open>
  The contents of a message belong to the thread that holds its address; an access is one to the
  other fields.
\<close>

definition heap_only_get :: "('m mqueue \<Rightarrow> ('m mqueue, 'a) prog) \<Rightarrow> bool" where
  "heap_only_get k \<longleftrightarrow> (\<forall>q q'. messages q = messages q' \<longrightarrow> k q = k q')"

definition heap_only_put :: "('m mqueue \<Rightarrow> 'm mqueue) \<Rightarrow> bool" where
  "heap_only_put u \<longleftrightarrow> (\<forall>q. \<exists>ms. u q = q\<lparr>messages := ms\<rparr>)"

definition accesses :: "('m mqueue, 'a) prog \<Rightarrow> bool" where
  "accesses p \<longleftrightarrow> (case p of Get k \<Rightarrow> \<not> heap_only_get k | Put u _ \<Rightarrow> \<not> heap_only_put u | _ \<Rightarrow> False)"

text \<open>
  A call that takes the mutex or gives it back does so if it succeeds; a thread waits for the
  condition without it.  What POSIX guarantees to the owner of a mutex: its calls succeed.
\<close>

definition takes :: "event \<Rightarrow> bool" where
  "takes e \<longleftrightarrow> fst (fst e) \<in> {pthread_mutex_lock, pthread_cond_wait_return} \<and> ret (snd e) = VInt 0"

definition gives :: "event \<Rightarrow> bool" where
  "gives e \<longleftrightarrow> fst (fst e) \<in> {pthread_mutex_unlock, pthread_cond_wait}"

definition owner_ok :: "syscall \<Rightarrow> reply \<Rightarrow> bool" where
  "owner_ok c r \<longleftrightarrow>
    (fst c \<in> {pthread_mutex_unlock, pthread_cond_signal, pthread_cond_wait_return} \<longrightarrow> ret r = VInt 0)"

text \<open>\<open>disciplined p b\<close>: from here on, \<open>p\<close> follows the discipline, \<open>b\<close> telling whether it holds the mutex.\<close>

primrec disciplined :: "('m mqueue, 'a) prog \<Rightarrow> bool \<Rightarrow> bool" where
  "disciplined (Ret x) b = (\<not> b)"
| "disciplined Halt b = True"
| "disciplined Cut b = True"
| "disciplined (Call f args k) b =
    ((f \<in> {pthread_mutex_lock, pthread_cond_wait_return} \<longrightarrow> \<not> b) \<and>
     (f \<in> {pthread_mutex_unlock, pthread_cond_wait} \<longrightarrow> b) \<and>
     (\<forall>r. owner_ok (f, args) r \<longrightarrow>
       disciplined (k r) ((b \<or> takes ((f, args), r)) \<and> \<not> gives ((f, args), r))))"
| "disciplined (Get k) b = ((b \<or> heap_only_get k) \<and> (\<forall>q. disciplined (k q) b))"
| "disciplined (Put u p) b = ((b \<or> heap_only_put u) \<and> disciplined p b)"

lemma disciplined_bindp:
  "disciplined p b \<Longrightarrow> (\<And>x. disciplined (q x) False) \<Longrightarrow> disciplined (bindp p q) b"
proof (induction p arbitrary: b)
  case (Get k)
  have "heap_only_get k \<Longrightarrow> heap_only_get (\<lambda>g. bindp (k g) q)"
    unfolding heap_only_get_def by metis
  then show ?case using Get by auto
qed auto

lemma disciplined_bindx:
  "disciplined p b \<Longrightarrow> (\<And>x. disciplined (q x) False) \<Longrightarrow> disciplined (bindx p q) b"
  unfolding bindx_def by (rule disciplined_bindp) (auto split: sum.split)

lemma disciplined_locked:
  assumes "disciplined p True"
  shows "disciplined (bindx (lock nm) (\<lambda>_. p)) False"
  using assms by (simp add: bindx_def lock_def throw_def takes_def gives_def)

lemma disciplined_unlocked:
  assumes "disciplined p False"
  shows "disciplined (bindx (unlock nm) (\<lambda>_. p)) True"
  using assms by (simp add: bindx_def unlock_def throw_def takes_def gives_def owner_ok_def)

lemma disciplined_unlock: "disciplined (unlock nm) True"
  by (simp add: unlock_def throw_def takes_def gives_def owner_ok_def)

lemma disciplined_signal:
  assumes "disciplined p True"
  shows "disciplined (bindx (signal nm) (\<lambda>_. p)) True"
  using assms by (simp add: bindx_def signal_def throw_def takes_def gives_def owner_ok_def)

lemma disciplined_wait:
  assumes "disciplined p True"
  shows "disciplined (bindx (wait nm) (\<lambda>_. p)) True"
  using assms by (simp add: bindx_def wait_def throw_def takes_def gives_def owner_ok_def)

section \<open>Every method follows it\<close>

lemma disciplined_Allocate: "disciplined (Allocate zero nm) False"
  unfolding Allocate_def
  by (rule disciplined_locked)
     (auto simp: new_message_def front_def split: list.split intro!: disciplined_unlocked)

lemma disciplined_Deallocate: "disciplined (Deallocate nm b) False"
  unfolding Deallocate_def by (rule disciplined_locked) (simp add: disciplined_unlock)

lemma disciplined_Send: "disciplined (Send nm b) False"
  unfolding Send_def
  by (auto intro!: disciplined_locked disciplined_unlocked disciplined_signal)

lemma disciplined_receive_wait:
  "(\<And>x. disciplined (q x) True) \<Longrightarrow> disciplined (bindx (receive_wait nm n m) q) True"
proof (induction n arbitrary: m)
  case 0
  then show ?case by (simp add: bindx_def)
next
  case (Suc n)
  have a: "bindx (bindx (wait nm) f) q = bindx (wait nm) (\<lambda>x. bindx (f x) q)" for f
    by (simp add: bindx_def wait_def throw_def bindp_if cong: if_cong)
  show ?case using Suc.IH Suc.prems
    by (auto simp: a Let_def intro!: disciplined_wait)
qed

lemma disciplined_Receive: "disciplined (Receive nm n junk) False"
  unfolding Receive_def
  by (intro disciplined_locked)
     (auto simp: front_def split: list.split intro!: disciplined_receive_wait disciplined_unlocked)

lemma disciplined_ReceivePoll: "disciplined (ReceivePoll nm) False"
  unfolding ReceivePoll_def
  by (intro disciplined_locked) (auto simp: front_def bindx_def [of Halt] split: list.split intro!: disciplined_unlocked)

lemma disciplined_IsAvailable: "disciplined (IsAvailable nm) False"
  unfolding IsAvailable_def Queue_IsAvailable_def
  by (intro disciplined_locked) (auto simp: Let_def intro!: disciplined_unlocked)

lemma disciplined_getNumberPending: "disciplined (getNumberPending nm) False"
  unfolding getNumberPending_def
  by (intro disciplined_locked) (auto simp: Let_def intro!: disciplined_unlocked)

lemma disciplined_Read: "disciplined (Read nm ntoh n junk buffer) False"
  unfolding Read_def
  by (rule disciplined_bindp [OF disciplined_Receive])
     (auto simp: not_read_def takes_def gives_def heap_only_get_def split: sum.split option.split
       intro!: disciplined_bindx [OF disciplined_Deallocate])

lemma disciplined_Write: "disciplined (Write zero nm hton buffer) False"
  unfolding Write_def
  by (rule disciplined_bindx [OF disciplined_Allocate])
     (auto simp: heap_only_put_def takes_def gives_def intro!: disciplined_bindx [OF disciplined_Send])


text \<open>Every method takes the mutex before it touches the queue, and gives it back.\<close>

theorem methods_disciplined:
  "disciplined (Allocate zero nm) False \<and> disciplined (Deallocate nm b) False \<and>
   disciplined (Send nm b) False \<and> disciplined (Receive nm n junk) False \<and>
   disciplined (ReceivePoll nm) False \<and> disciplined (getNumberPending nm) False \<and>
   disciplined (IsAvailable nm) False \<and> disciplined (Read nm ntoh n junk buffer) False \<and>
   disciplined (Write zero nm hton buffer) False"
  by (intro conjI disciplined_Allocate disciplined_Deallocate disciplined_Send disciplined_Receive
      disciplined_ReceivePoll disciplined_getNumberPending disciplined_IsAvailable disciplined_Read
      disciplined_Write)

section \<open>Mutual exclusion\<close>

definition holders :: "event list \<Rightarrow> int" where
  "holders h = int (length (filter takes h)) - int (length (filter gives h))"

text \<open>The mutex: it is taken only while nobody holds it.\<close>

definition mutex_law :: "kernel \<Rightarrow> bool" where
  "mutex_law K \<longleftrightarrow> obeys K owner_ok \<and>
    (\<forall>h c r. K h c = Some r \<longrightarrow> takes (c, r) \<longrightarrow> holders h = 0)"

definition lock_inv :: "('m mqueue, unit) prog list \<Rightarrow> event list \<Rightarrow> nat set \<Rightarrow> bool" where
  "lock_inv ps h S \<longleftrightarrow> S \<subseteq> {..<length ps} \<and> (\<forall>i<length ps. disciplined (ps ! i) (i \<in> S)) \<and>
    int (card S) = holders h \<and> card S \<le> 1"

lemma takes_not_gives: "takes e \<Longrightarrow> \<not> gives e"
  by (auto simp: takes_def gives_def)

lemma holders_snoc: "holders (h @ [e]) = holders h + (if takes e then 1 else 0) - (if gives e then 1 else 0)"
  by (simp add: holders_def)

lemma started_disciplined:
  assumes "\<forall>t v p. entries t v = Some p \<longrightarrow> disciplined p False"
  shows "\<forall>p\<in>set (started entries e). disciplined p False"
  using started_entry [of entries e] assms by auto

lemma lock_inv_append:
  assumes "lock_inv ps h S" "\<forall>p\<in>set qs. disciplined p False"
  shows "lock_inv (ps @ qs) h S"
proof -
  have "i \<notin> S" if "\<not> i < length ps" for i using assms(1) that by (auto simp: lock_inv_def)
  then show ?thesis using assms by (auto simp: lock_inv_def nth_append)
qed

lemma lock_inv_Call:
  assumes "lock_inv ps h S" "mutex_law K" "i < length ps" "ps ! i = Call f args k" "K h (f, args) = Some r"
  shows "\<exists>S'. lock_inv (ps[i := k r]) (h @ [((f, args), r)]) S'"
proof -
  let ?e = "((f, args), r)"
  have fin: "finite S" and S: "S \<subseteq> {..<length ps}" "int (card S) = holders h" "card S \<le> 1"
    and d: "\<And>j. j < length ps \<Longrightarrow> disciplined (ps ! j) (j \<in> S)"
    using assms(1) by (auto simp: lock_inv_def dest: finite_subset)
  have ok: "owner_ok (f, args) r" and law: "takes ?e \<Longrightarrow> holders h = 0"
    using assms(2,5) by (auto simp: mutex_law_def obeys_def)
  have di: "disciplined (Call f args k) (i \<in> S)" using d [OF assms(3)] assms(4) by simp
  then have next_i: "disciplined (k r) ((i \<in> S \<or> takes ?e) \<and> \<not> gives ?e)" using ok by simp
  consider (T) "takes ?e" | (G) "gives ?e" "\<not> takes ?e" | (N) "\<not> takes ?e" "\<not> gives ?e" by blast
  then show ?thesis
  proof cases
    case T
    then have "S = {}" using law S(2) fin by simp
    then have "lock_inv (ps[i := k r]) (h @ [?e]) {i}"
      using T next_i d S assms(3) takes_not_gives [OF T]
      by (auto simp: lock_inv_def holders_snoc nth_list_update)
    then show ?thesis by blast
  next
    case G
    then have "i \<in> S" using di by (auto simp: gives_def)
    then have "card (S - {i}) = card S - 1" "0 < card S" using fin by (auto simp: card_gt_0_iff)
    then have "lock_inv (ps[i := k r]) (h @ [?e]) (S - {i})"
      using G next_i d S assms(3) by (auto simp: lock_inv_def holders_snoc nth_list_update)
    then show ?thesis by blast
  next
    case N
    then have "lock_inv (ps[i := k r]) (h @ [?e]) S"
      using next_i d S assms(3) by (auto simp: lock_inv_def holders_snoc nth_list_update)
    then show ?thesis by blast
  qed
qed

lemma lock_inv_step:
  assumes "pstep K entries (ps, g, h) (ps', g', h')" "lock_inv ps h S" "mutex_law K"
    and "\<forall>t v p. entries t v = Some p \<longrightarrow> disciplined p False"
  shows "\<exists>S'. lock_inv ps' h' S'"
  using assms(1)
proof (cases rule: pstep.cases)
  case (PCall i f args k r)
  then show ?thesis
    using lock_inv_Call [OF assms(2,3)] lock_inv_append started_disciplined [OF assms(4)] by blast
next
  case (PGet i k)
  then have "lock_inv ps' h' S"
    using assms(2) by (auto simp: lock_inv_def nth_list_update)
  then show ?thesis by blast
next
  case (PPut i u p)
  then have "lock_inv ps' h' S"
    using assms(2) by (auto simp: lock_inv_def nth_list_update)
  then show ?thesis by blast
qed

lemma lock_inv_run:
  assumes "(pstep K entries)\<^sup>*\<^sup>* c c'" "lock_inv (fst c) (snd (snd c)) S" "mutex_law K"
    and "\<forall>t v p. entries t v = Some p \<longrightarrow> disciplined p False"
  shows "\<exists>S'. lock_inv (fst c') (snd (snd c')) S'"
  using assms(1)
proof induction
  case base
  then show ?case using assms(2) by blast
next
  case (step c1 c2)
  then show ?case using lock_inv_step [OF _ _ assms(3,4)] by (cases c1; cases c2) auto
qed

lemma accesses_held: "disciplined p b \<Longrightarrow> accesses p \<Longrightarrow> b"
  by (cases p) (auto simp: accesses_def)

lemma disciplined_exclusion:
  assumes "mutex_law K" "\<forall>p\<in>set ps. disciplined p False"
    and "\<forall>t v p. entries t v = Some p \<longrightarrow> disciplined p False"
    and "(pstep K entries)\<^sup>*\<^sup>* (ps, g, []) (ps', g', h)"
    and "i < length ps'" "j < length ps'" "accesses (ps' ! i)" "accesses (ps' ! j)"
  shows "i = j"
proof -
  have "lock_inv ps [] {}" using assms(2) by (simp add: lock_inv_def holders_def)
  then obtain S where S: "lock_inv ps' h S" using lock_inv_run [OF assms(4) _ assms(1,3)] by auto
  then have "i \<in> S" "j \<in> S" using assms(5-8) accesses_held by (auto simp: lock_inv_def)
  moreover have "card S \<le> Suc 0" "finite S" using S by (auto simp: lock_inv_def dest: finite_subset)
  ultimately show ?thesis using card_le_Suc0_iff_eq by blast
qed


text \<open>A thread that calls the methods in any order; what they return, and what they throw, is not used.\<close>

datatype 'm operation =
    Write_op 'm | Read_op nat nat 'm | IsAvailable_op
  | Send_op nat | Receive_op nat nat | ReceivePoll_op | Allocate_op | Deallocate_op nat | Pending_op

definition ignoring :: "('m, 'a) mq \<Rightarrow> ('m mqueue, unit) prog" where
  "ignoring p = bindp p (\<lambda>_. Ret ())"

primrec perform :: "'m \<Rightarrow> string \<Rightarrow> ('m \<Rightarrow> 'm) option \<Rightarrow> 'm operation \<Rightarrow> ('m mqueue, unit) prog" where
  "perform zero nm conv (Write_op m) = ignoring (Write zero nm conv m)"
| "perform zero nm conv (Read_op n junk buffer) = ignoring (Read nm conv n junk buffer)"
| "perform zero nm conv IsAvailable_op = ignoring (IsAvailable nm)"
| "perform zero nm conv (Send_op b) = ignoring (Send nm b)"
| "perform zero nm conv (Receive_op n junk) = ignoring (Receive nm n junk)"
| "perform zero nm conv ReceivePoll_op = ignoring (ReceivePoll nm)"
| "perform zero nm conv Allocate_op = ignoring (Allocate zero nm)"
| "perform zero nm conv (Deallocate_op b) = ignoring (Deallocate nm b)"
| "perform zero nm conv Pending_op = ignoring (getNumberPending nm)"

primrec session :: "'m \<Rightarrow> string \<Rightarrow> ('m \<Rightarrow> 'm) option \<Rightarrow> 'm operation list \<Rightarrow> ('m mqueue, unit) prog" where
  "session zero nm conv [] = Ret ()"
| "session zero nm conv (o1 # ops) = bindp (perform zero nm conv o1) (\<lambda>_. session zero nm conv ops)"

lemma disciplined_session: "disciplined (session zero nm conv ops) False"
proof (induction ops)
  case (Cons o1 ops)
  have "disciplined (perform zero nm conv o1) False"
    by (cases o1)
       (auto simp: ignoring_def intro!: disciplined_bindp disciplined_Allocate disciplined_Deallocate
         disciplined_Send disciplined_Receive disciplined_ReceivePoll disciplined_getNumberPending
         disciplined_IsAvailable disciplined_Read disciplined_Write)
  from disciplined_bindp [OF this] Cons show ?case by simp
qed simp

text \<open>
  C3: In every interleaving of threads that use the message queue only through its methods, on
  mutexes that one thread holds at a time, no two threads are about to access the queue's fields
  at the same time.
\<close>

theorem mutual_exclusion:
  assumes "mutex_law K"
    and "(pstep K (\<lambda>_ _. None))\<^sup>*\<^sup>* (map (session zero nm conv) opss, q, []) (ps, q', h)"
    and "i < length ps" "j < length ps" "accesses (ps ! i)" "accesses (ps ! j)"
  shows "i = j"
  using disciplined_exclusion [OF assms(1) _ _ assms(2) assms(3-6)] by (auto simp: disciplined_session)

section \<open>An example\<close>

definition mutex_kernel :: kernel where
  "mutex_kernel h c =
    (if takes (c, Reply (VInt 0) []) \<and> holders h \<noteq> 0 then None else Some (Reply (VInt 0) []))"

abbreviation returning :: "nat \<Rightarrow> (nat mqueue, unit) prog" where
  "returning b \<equiv> session 0 ''Q'' None [Deallocate_op b]"

lemma mutex_kernel_law: "mutex_law mutex_kernel"
  by (auto simp: mutex_law_def obeys_def mutex_kernel_def owner_ok_def split: if_splits)

lemma put_is_access: "\<not> heap_only_put (\<lambda>q :: nat mqueue. q\<lparr>inactiveM := inactiveM q @ [b]\<rparr>)"
proof
  let ?q = "empty_queue 0 :: nat mqueue"
  assume "heap_only_put (\<lambda>q :: nat mqueue. q\<lparr>inactiveM := inactiveM q @ [b]\<rparr>)"
  then obtain ms where "?q\<lparr>inactiveM := inactiveM ?q @ [b]\<rparr> = ?q\<lparr>messages := ms\<rparr>"
    unfolding heap_only_put_def by blast
  from arg_cong [OF this, of inactiveM] show False by simp
qed

lemma example_run:
  "\<exists>p. schedule mutex_kernel (\<lambda>_ _. None) [0] ([returning 1, returning 2], empty_queue 1, []) =
      Some ([p, returning 2], empty_queue 1, [((pthread_mutex_lock, [VRef ''&mutexM'']), Reply (VInt 0) [])]) \<and>
    accesses p"
  by (simp add: turn_def mutex_kernel_def holders_def ignoring_def Deallocate_def bindx_def lock_def
      started_def accesses_def put_is_access [of "Suc 0", simplified])

theorem mutual_exclusion_witness:
  "\<exists>p h. (pstep mutex_kernel (\<lambda>_ _. None))\<^sup>*\<^sup>*
      (map (session 0 ''Q'' None) [[Deallocate_op 1], [Deallocate_op 2]], empty_queue 1, [])
      ([p, returning 2], empty_queue 1, h) \<and> accesses p \<and> \<not> accesses (returning 2)"
proof -
  obtain p where p: "schedule mutex_kernel (\<lambda>_ _. None) [0] ([returning 1, returning 2], empty_queue 1, []) =
      Some ([p, returning 2], empty_queue 1, [((pthread_mutex_lock, [VRef ''&mutexM'']), Reply (VInt 0) [])])"
    "accesses p"
    using example_run by blast
  have steps: "(pstep mutex_kernel (\<lambda>_ _. None))\<^sup>*\<^sup>*
      (map (session 0 ''Q'' None) [[Deallocate_op 1], [Deallocate_op 2]], empty_queue 1, [])
      ([p, returning 2], empty_queue 1, [((pthread_mutex_lock, [VRef ''&mutexM'']), Reply (VInt 0) [])])"
    using schedule_pstep [OF p(1)] by simp
  from mutual_exclusion [OF mutex_kernel_law this, of 0 1] have "\<not> accesses (returning 2)"
    using p(2) by auto
  then show ?thesis using steps p(2) by blast
qed

end
