(* ===== verification/Menu.thy ===== *)
theory Menu
  imports Complex_Main RT_Prog "HOL-Library.Char_ord"
begin

text \<open>
  The text menus of \<open>led/complex1\<close>: \<open>menu.h\<close> and \<open>menu.cc\<close>.

  \<open>fgets\<close> stores a line, or nothing at the end of the input; the buffer then keeps its contents, at
  first the parameter \<open>junk\<close>.  \<open>strtol\<close> is the function of the C standard, on a 32-bit \<open>long\<close>; it yields the
  number and the rest of the string.  A loop makes at most \<open>n\<close> attempts and is then cut.
\<close>

section \<open>\<open>strtol\<close>\<close>

definition is_digit :: "char \<Rightarrow> bool" where
  "is_digit c \<longleftrightarrow> CHR ''0'' \<le> c \<and> c \<le> CHR ''9''"

definition digit :: "char \<Rightarrow> int" where
  "digit c = int (of_char c) - 48"

definition clamp :: "int \<Rightarrow> int" where
  "clamp v = max (- (2 ^ 31)) (min (2 ^ 31 - 1) v)"

definition sign :: "string \<Rightarrow> int \<times> string" where
  "sign s = (case s of
     [] \<Rightarrow> (1, [])
   | c # cs \<Rightarrow> if c = CHR ''-'' then (- 1, cs) else if c = CHR ''+'' then (1, cs) else (1, s))"

definition strtol :: "string \<Rightarrow> int \<times> string" where
  "strtol s =
    (case sign (dropWhile is_space s) of (sg, t) \<Rightarrow>
       let ds = takeWhile is_digit t in
       if ds = [] then (0, s)
       else (clamp (sg * foldl (\<lambda>v c. 10 * v + digit c) 0 ds), drop (length ds) t))"

section \<open>\<open>menu.h\<close>\<close>

text \<open>A routine of a menu is a program on the globals of the application.\<close>

record 'g Menu_entry =
  entry_name :: string
  routine :: "('g, unit) prog"

record 'g Test_menu =
  header :: string
  entry :: "'g Menu_entry list"

section \<open>\<open>menu.cc\<close>\<close>

definition read_line :: "string \<Rightarrow> int \<Rightarrow> (string \<Rightarrow> ('g, 'a) prog) \<Rightarrow> ('g, 'a) prog" where
  "read_line msg len k =
     Call fgets [VRef ''Message'', VInt len, VRef ''stdin''] (\<lambda>r.
     k (case outs r of VStr s # _ \<Rightarrow> s | _ \<Rightarrow> msg))"

definition invalid :: "bool \<Rightarrow> ('g, 'a) prog \<Rightarrow> ('g, 'a) prog" where
  "invalid again p = (if again then Do printf [VStr ''  Invalid Entry\<newline>''] p else p)"

definition flush_both :: "('g, 'a) prog \<Rightarrow> ('g, 'a) prog" where
  "flush_both p = Do fflush [VRef ''stdout''] (Do fflush [VRef ''stdin''] p)"

text \<open>The condition under which a line is accepted, and the number it stands for.\<close>

definition accept_bounded :: "int \<Rightarrow> int \<Rightarrow> string \<Rightarrow> int option" where
  "accept_bounded lo hi msg =
    (case c_str msg of
       [] \<Rightarrow> None
     | c # _ \<Rightarrow>
         if c = CHR 0x0A then None
         else case strtol (c_str msg) of (selection, temp) \<Rightarrow>
           if temp = [] \<or> hd temp = CHR 0x0A \<or> hd temp = CHR 0x0D then
             (if \<not> (selection < lo \<or> selection > hi) then Some selection else None)
           else None)"

primrec bounded_loop :: "nat \<Rightarrow> string \<Rightarrow> int \<Rightarrow> int \<Rightarrow> bool \<Rightarrow> string \<Rightarrow> ('g, int) prog" where
  "bounded_loop 0 str lo hi again msg = Cut"
| "bounded_loop (Suc n) str lo hi again msg =
     invalid again (
     Do printf [VStr ''\<newline> %s (%d:%d) > '', VStr str, VInt lo, VInt hi] (
     flush_both (
     read_line msg 80 (\<lambda>msg.
     case accept_bounded lo hi msg of
       Some selection \<Rightarrow> Ret selection
     | None \<Rightarrow> bounded_loop n str lo hi True msg))))"

definition Test_menu_Get_int_bounded :: "nat \<Rightarrow> string \<Rightarrow> string \<Rightarrow> int \<Rightarrow> int \<Rightarrow> ('g, int) prog" where
  "Test_menu_Get_int_bounded n junk str lo hi =
     asserting (lo \<le> hi) (bounded_loop n str lo hi False junk)"

primrec int_loop :: "nat \<Rightarrow> string \<Rightarrow> bool \<Rightarrow> string \<Rightarrow> ('g, int) prog" where
  "int_loop 0 str again msg = Cut"
| "int_loop (Suc n) str again msg =
     invalid again (
     Do printf [VStr ''\<newline> %s > '', VStr str] (
     flush_both (
     read_line msg 80 (\<lambda>msg.
     case strtol (c_str msg) of (selection, temp) \<Rightarrow>
       if temp = [] then Ret selection else int_loop n str True msg))))"

definition Test_menu_Get_int :: "nat \<Rightarrow> string \<Rightarrow> string \<Rightarrow> ('g, int) prog" where
  "Test_menu_Get_int n junk str = int_loop n str False junk"

text \<open>
  Floating point: a \<open>double\<close> is a number or not a number, every comparison with which is false.
  \<open>strtod\<close> is the parameter \<open>to_double\<close>; the result is converted to \<open>float\<close> by \<open>to_float\<close>.
\<close>

datatype double = NaN | Fin rat

fun less_double :: "double \<Rightarrow> double \<Rightarrow> bool" where
  "less_double (Fin x) (Fin y) = (x < y)"
| "less_double _ _ = False"

definition accept_float :: "(string \<Rightarrow> double \<times> string) \<Rightarrow> rat \<Rightarrow> rat \<Rightarrow> string \<Rightarrow> double option" where
  "accept_float to_double lo hi msg =
    (case to_double (c_str msg) of (selection, temp) \<Rightarrow>
       if temp = [] \<or> hd temp = CHR 0x0A then
         (if \<not> (less_double selection (Fin lo) \<or> less_double (Fin hi) selection) then Some selection else None)
       else None)"

primrec float_loop :: "nat \<Rightarrow> (string \<Rightarrow> double \<times> string) \<Rightarrow> string \<Rightarrow> rat \<Rightarrow> rat \<Rightarrow> bool \<Rightarrow> string \<Rightarrow> ('g, double) prog" where
  "float_loop 0 to_double str lo hi again msg = Cut"
| "float_loop (Suc n) to_double str lo hi again msg =
     invalid again (
     Do printf [VStr ''\<newline> %s (%f:%f) > '', VStr str, VRef ''min'', VRef ''max''] (
     flush_both (
     read_line msg 80 (\<lambda>msg.
     case accept_float to_double lo hi msg of
       Some selection \<Rightarrow> Ret selection
     | None \<Rightarrow> float_loop n to_double str lo hi True msg))))"

definition Test_menu_Get_float_bounded ::
    "nat \<Rightarrow> (string \<Rightarrow> double \<times> string) \<Rightarrow> (double \<Rightarrow> double) \<Rightarrow> string \<Rightarrow> string \<Rightarrow> rat \<Rightarrow> rat \<Rightarrow> ('g, double) prog" where
  "Test_menu_Get_float_bounded n to_double to_float junk str lo hi =
     asserting (lo \<le> hi) (bindp (float_loop n to_double str lo hi False junk) (\<lambda>v. Ret (to_float v)))"

text \<open>The title underlined, and the list of a selection in one or two columns.\<close>

primrec underline :: "nat \<Rightarrow> ('g, 'a) prog \<Rightarrow> ('g, 'a) prog" where
  "underline 0 p = p"
| "underline (Suc n) p = Do printf [VStr ''=''] (underline n p)"

definition headline :: "string \<Rightarrow> ('g, 'a) prog \<Rightarrow> ('g, 'a) prog" where
  "headline title p =
     Do printf [VStr ''\<newline>     %s     \<newline>     '', VStr title] (
     underline (length title) (
     Do printf [VStr ''\<newline>''] p))"

fun one_column :: "int \<Rightarrow> string list \<Rightarrow> ('g, 'a) prog \<Rightarrow> ('g, 'a) prog" where
  "one_column i [] p = p"
| "one_column i (s # ss) p = Do printf [VStr ''\<newline>(%d) %s'', VInt i, VStr s] (one_column (i + 1) ss p)"

fun two_columns :: "int \<Rightarrow> string list \<Rightarrow> ('g, 'a) prog \<Rightarrow> ('g, 'a) prog" where
  "two_columns i [] p = p"
| "two_columns i [s] p = Do printf [VStr ''\<newline>(%2d) %-30s'', VInt i, VStr s] p"
| "two_columns i (s # t # ss) p =
     Do printf [VStr ''\<newline>(%2d) %-30s'', VInt i, VStr s] (
     Do printf [VStr ''    (%2d) %-30s'', VInt (i + 1), VStr t] (two_columns (i + 2) ss p))"

definition Test_menu_Get_selection :: "nat \<Rightarrow> string \<Rightarrow> string \<Rightarrow> string list \<Rightarrow> ('g, int) prog" where
  "Test_menu_Get_selection n junk title selection =
     headline title (
     (if length selection < 21 then one_column 0 selection else two_columns 0 selection) (
     Test_menu_Get_int_bounded n junk ''    Enter your selection> '' 0 (int (length selection) - 1)))"

text \<open>
  \<open>Message\<close> is a static buffer; the access before its first element when the line is empty is \<open>Halt\<close>.
\<close>

definition Test_menu_Get_string :: "string \<Rightarrow> string \<Rightarrow> ('g, string) prog" where
  "Test_menu_Get_string static str =
     Do printf [VStr ''\<newline> Enter %s : '', VStr str] (
     read_line static 500 (\<lambda>msg.
     let msg = c_str msg in
     if msg = [] then Halt
     else Ret (if last msg = CHR 0x0A then butlast msg else msg)))"

fun menu_lines :: "int \<Rightarrow> 'g Menu_entry list \<Rightarrow> ('g, 'a) prog \<Rightarrow> ('g, 'a) prog" where
  "menu_lines i [] p = p"
| "menu_lines i (e # es) p =
     Do printf [VStr ''\<newline>     (%d) %s'', VInt (i + 1), VStr (entry_name e)] (menu_lines (i + 1) es p)"

text \<open>An index outside the table would be \<open>Halt\<close>.\<close>

primrec Test_menu_run :: "nat \<Rightarrow> nat \<Rightarrow> string \<Rightarrow> 'g Test_menu \<Rightarrow> ('g, unit) prog" where
  "Test_menu_run 0 n junk menu = Cut"
| "Test_menu_run (Suc m) n junk menu =
     headline (header menu) (
     menu_lines 0 (entry menu) (
     Do printf [VStr ''\<newline>     (0) Exit\<newline>''] (
     bindp (Test_menu_Get_int_bounded n junk ''    Enter your selection> '' 0 (int (length (entry menu)))) (\<lambda>selection.
     if selection = 0 then Ret ()
     else if 0 < selection \<and> selection \<le> int (length (entry menu)) then
       bindp (routine (entry menu ! nat (selection - 1))) (\<lambda>_. Test_menu_run m n junk menu)
     else Halt))))"

end
