(* ===== verification/Menu_Props.thy ===== *)
theory Menu_Props
  imports Menu RT_Runs
begin

text \<open>
  What the menus return: numbers within the bounds they were given, valid indices, all entries in
  order; and the inputs on which they do not do what their names say.
\<close>

section \<open>Results within bounds\<close>

lemma accept_bounded_range: "accept_bounded lo hi msg = Some v \<Longrightarrow> lo \<le> v \<and> v \<le> hi"
  by (auto simp: accept_bounded_def split: list.splits prod.splits if_splits)

text \<open>An observation that does not see the prompts.\<close>

definition unprompted :: "(syscall \<Rightarrow> 'b option) \<Rightarrow> bool" where
  "unprompted obs \<longleftrightarrow> (\<forall>args. obs (fgets, args) = None \<and> obs (fflush, args) = None) \<and>
    obs (printf, [VStr ''  Invalid Entry\<newline>'']) = None \<and>
    (\<forall>s a b. obs (printf, [VStr ''\<newline> %s (%d:%d) > '', s, a, b]) = None)"

lemmas prompt_defs = invalid_def flush_both_def read_line_def

lemma emits_bounded_loop:
  "unprompted obs \<Longrightarrow> emits R obs (bounded_loop n str lo hi again msg) (\<lambda>v. lo \<le> v \<and> v \<le> hi) []"
  by (induction n arbitrary: again msg)
     (auto simp: prompt_defs unprompted_def split: option.split dest: accept_bounded_range)

lemma emits_Get_int_bounded:
  "unprompted obs \<Longrightarrow> lo \<le> hi \<Longrightarrow>
    emits R obs (Test_menu_Get_int_bounded n junk str lo hi) (\<lambda>v. lo \<le> v \<and> v \<le> hi) []"
  by (simp add: Test_menu_Get_int_bounded_def asserting_def emits_bounded_loop)

lemma unhalted_bounded_loop: "unhalted R (bounded_loop n str lo hi again msg)"
  by (induction n arbitrary: again msg) (auto simp: prompt_defs split: option.split)

text \<open>
  A number that Test_menu_Get_int_bounded returns is within the bounds it was given.
\<close>

theorem Get_int_bounded_bounds:
  assumes "exec K (Test_menu_Get_int_bounded n junk str lo hi) g h = (Done v, g', h')"
  shows "lo \<le> v \<and> v \<le> hi"
proof (cases "lo \<le> hi")
  case True
  have "emits any_reply (\<lambda>_. None :: unit option) (Test_menu_Get_int_bounded n junk str lo hi) (\<lambda>v. lo \<le> v \<and> v \<le> hi) []"
    by (rule emits_Get_int_bounded [OF _ True]) (simp add: unprompted_def)
  from emits_exec [OF obeys_any this assms] show ?thesis by auto
next
  case False
  then show ?thesis using assms
    by (auto simp: Test_menu_Get_int_bounded_def asserting_def split: option.splits)
qed

section \<open>Reading until a line is valid\<close>

lemma exec_read_line:
  assumes "responsive K" "input_law K lines" "calls_to fgets h < length lines"
  shows "\<exists>h'. exec K (read_line msg n k) g h = exec K (k (lines ! calls_to fgets h)) g h' \<and>
    calls_to fgets h' = calls_to fgets h + 1"
proof -
  let ?c = "(fgets, [VRef ''Message'', VInt n, VRef ''stdin''])"
  obtain r where r: "K h ?c = Some r" using assms(1) unfolding responsive_def by blast
  then have "outs r = [VStr (lines ! calls_to fgets h)]" using assms(2,3) unfolding input_law_def by blast
  then show ?thesis using r by (intro exI [of _ "h @ [(?c, r)]"]) (simp add: read_line_def)
qed

lemma exec_prompt:
  assumes "responsive K" "input_law K lines" "calls_to fgets h < length lines"
  shows "\<exists>h'. exec K (invalid again (Do printf pr (flush_both (read_line msg n k)))) g h =
      exec K (k (lines ! calls_to fgets h)) g h' \<and> calls_to fgets h' = calls_to fgets h + 1"
proof -
  note quiet = exec_quiet [OF assms(1)]
  let ?p1 = "Do printf pr (flush_both (read_line msg n k))"
  let ?p3 = "Do fflush [VRef ''stdin''] (read_line msg n k)"
  obtain h1 where 1: "exec K (invalid again ?p1) g h = exec K ?p1 g h1" "calls_to fgets h1 = calls_to fgets h"
    using quiet [of printf "[VStr ''  Invalid Entry\<newline>'']" ?p1 g h] by (cases again) (auto simp: invalid_def)
  obtain h2 where 2: "exec K ?p1 g h1 = exec K (flush_both (read_line msg n k)) g h2" "calls_to fgets h2 = calls_to fgets h1"
    using quiet [of printf pr "flush_both (read_line msg n k)" g h1] by auto
  obtain h3 where 3: "exec K (flush_both (read_line msg n k)) g h2 = exec K ?p3 g h3" "calls_to fgets h3 = calls_to fgets h2"
    using quiet [of fflush "[VRef ''stdout'']" ?p3 g h2] by (auto simp: flush_both_def)
  obtain h4 where 4: "exec K ?p3 g h3 = exec K (read_line msg n k) g h4" "calls_to fgets h4 = calls_to fgets h3"
    using quiet [of fflush "[VRef ''stdin'']" "read_line msg n k" g h3] by auto
  show ?thesis
    using exec_read_line [OF assms(1,2), of h4 msg n k g] assms(3) 1 2 3 4 by simp
qed

lemma bounded_loop_step:
  assumes "responsive K" "input_law K lines" "calls_to fgets h < length lines"
  shows "\<exists>h'. exec K (bounded_loop (Suc n) str lo hi again msg) g h =
      exec K (case accept_bounded lo hi (lines ! calls_to fgets h) of
        Some selection \<Rightarrow> Ret selection
      | None \<Rightarrow> bounded_loop n str lo hi True (lines ! calls_to fgets h)) g h' \<and>
    calls_to fgets h' = calls_to fgets h + 1"
  unfolding bounded_loop.simps by (rule exec_prompt [OF assms])

lemma bounded_loop_exec:
  assumes "responsive K" "input_law K lines"
    and "\<forall>i<k. accept_bounded lo hi (lines ! (calls_to fgets h + i)) = None"
    and "accept_bounded lo hi (lines ! (calls_to fgets h + k)) = Some v"
    and "calls_to fgets h + k < length lines" "k < n"
  shows "\<exists>h'. exec K (bounded_loop n str lo hi again msg) g h = (Done v, g, h') \<and>
    calls_to fgets h' = calls_to fgets h + k + 1"
  using assms(3-)
proof (induction k arbitrary: n again msg h)
  case 0
  then obtain n' where n: "n = Suc n'" by (cases n) auto
  show ?case using bounded_loop_step [OF assms(1,2), of h n' str lo hi again msg g] 0 n by auto
next
  case (Suc k)
  then obtain n' where n: "n = Suc n'" by (cases n) auto
  let ?l = "lines ! calls_to fgets h"
  have l: "calls_to fgets h < length lines" using Suc.prems(3) by simp
  have rej: "accept_bounded lo hi ?l = None" using Suc.prems(1) [rule_format, of 0] by simp
  obtain h' where h': "exec K (bounded_loop n str lo hi again msg) g h = exec K (bounded_loop n' str lo hi True ?l) g h'"
    "calls_to fgets h' = calls_to fgets h + 1"
    using bounded_loop_step [OF assms(1,2) l, of n' str lo hi again msg g] rej n by auto
  have "\<forall>i<k. accept_bounded lo hi (lines ! (calls_to fgets h' + i)) = None"
  proof (intro allI impI)
    fix i
    assume "i < k"
    then show "accept_bounded lo hi (lines ! (calls_to fgets h' + i)) = None"
      using Suc.prems(1) [rule_format, of "Suc i"] h'(2) by simp
  qed
  then have "\<exists>h''. exec K (bounded_loop n' str lo hi True ?l) g h' = (Done v, g, h'') \<and>
      calls_to fgets h'' = calls_to fgets h' + k + 1"
    using Suc.prems(2-4) n h'(2) by (intro Suc.IH) simp_all
  then show ?case using h' by auto
qed

text \<open>
  What the user may type: blanks, a sign or none, and one digit or more.  \<open>denotes t v\<close>: the text \<open>t\<close>
  has this form, and \<open>v\<close> is the number that its digits stand for by their positions.
\<close>

definition denotes :: "string \<Rightarrow> int \<Rightarrow> bool" where
  "denotes t v \<longleftrightarrow> (\<exists>blanks sg ds. t = blanks @ sg @ ds \<and>
     (\<forall>c\<in>set blanks. is_space c) \<and> sg \<in> {[], ''+'', ''-''} \<and> ds \<noteq> [] \<and> (\<forall>c\<in>set ds. is_digit c) \<and>
     v = (if sg = ''-'' then - 1 else 1) * (\<Sum>i<length ds. digit (rev ds ! i) * 10 ^ i))"

text \<open>Text within a line: \<open>fgets\<close> adds the newline, and a terminal does not send a carriage return.\<close>

definition within_line :: "string \<Rightarrow> bool" where
  "within_line t \<longleftrightarrow> set t \<inter> {CHR 0x00, CHR 0x0A, CHR 0x0D} = {}"

lemma foldl_digits: "foldl (\<lambda>v c. 10 * v + digit c) 0 ds = (\<Sum>i<length ds. digit (rev ds ! i) * 10 ^ i)"
proof (induction ds rule: rev_induct)
  case (snoc c ds)
  have "(\<Sum>i<Suc (length ds). digit ((c # rev ds) ! i) * 10 ^ i) =
      digit c + (\<Sum>i<length ds. digit (rev ds ! i) * 10 ^ Suc i)"
    by (simp add: sum.lessThan_Suc_shift del: sum.lessThan_Suc)
  also have "\<dots> = digit c + 10 * (\<Sum>i<length ds. digit (rev ds ! i) * 10 ^ i)"
    by (simp add: sum_distrib_left mult.assoc mult.left_commute)
  finally show ?case using snoc.IH by simp
qed simp

lemma not_digit: "\<not> is_digit (CHR 0x0A)" "\<not> is_digit (CHR ''-'')" "\<not> is_digit (CHR ''+'')"
  by (simp_all add: is_digit_def less_eq_char_def)

lemma digit_not_space: "is_digit c \<Longrightarrow> \<not> is_space c"
  by (auto simp: is_digit_def is_space_def less_eq_char_def)

lemma is_space_special: "is_space (CHR 0x0A)" "\<not> is_space (CHR ''-'')" "\<not> is_space (CHR ''+'')"
  by (simp_all add: is_space_def)

text \<open>The value of the digits, and the code's reading of a line.\<close>

definition digits_value :: "string \<Rightarrow> int" where
  "digits_value ds = foldl (\<lambda>v c. 10 * v + digit c) 0 ds"

lemma strtol_line:
  assumes "\<forall>c\<in>set blanks. is_space c" "sg \<in> {[], ''+'', ''-''}"
    and "\<forall>c\<in>set ds. is_digit c" "rest = [] \<or> \<not> is_digit (hd rest)" "ds = [] \<longrightarrow> sg \<noteq> [] \<or> rest = [] \<or> \<not> is_space (hd rest)"
    and "ds = [] \<longrightarrow> sg = [] \<longrightarrow> rest = [] \<or> hd rest \<notin> {CHR ''+'', CHR ''-''}"
  shows "Menu.strtol (blanks @ sg @ ds @ rest) =
    (if ds = [] then (0, blanks @ sg @ ds @ rest)
     else (clamp ((if sg = ''-'' then - 1 else 1) * digits_value ds), rest))"
proof -
  have t: "takeWhile is_digit (ds @ rest) = ds"
    using assms(3,4) by (cases rest) (simp_all add: takeWhile_append)
  have s: "sg @ ds @ rest = [] \<or> \<not> is_space (hd (sg @ ds @ rest))"
    using assms(2,3,5) digit_not_space is_space_special by (cases ds) auto
  have "dropWhile is_space (blanks @ sg @ ds @ rest) = dropWhile is_space (sg @ ds @ rest)"
    using assms(1) by (simp add: dropWhile_append2)
  then have d: "dropWhile is_space (blanks @ sg @ ds @ rest) = sg @ ds @ rest"
    using s by (cases "sg @ ds @ rest") auto
  have "Menu.sign (sg @ ds @ rest) = (if sg = ''-'' then - 1 else 1, ds @ rest)"
  proof (cases "sg = []")
    case True
    have "hd (ds @ rest) \<notin> {CHR ''+'', CHR ''-''}" if "ds @ rest \<noteq> []"
      using that assms(3,6) True not_digit by (cases ds) auto
    then show ?thesis using True by (cases "ds @ rest") (auto simp: Menu.sign_def)
  qed (use assms(2) in \<open>auto simp: Menu.sign_def\<close>)
  then show ?thesis unfolding Menu.strtol_def d by (simp add: t Let_def digits_value_def)
qed

lemma split_line:
  obtains blanks sg ds rest where "t = blanks @ sg @ ds @ rest" "\<forall>c\<in>set blanks. is_space c"
    "sg \<in> {[], ''+'', ''-''}" "\<forall>c\<in>set ds. is_digit c" "rest = [] \<or> \<not> is_digit (hd rest)"
    "ds = [] \<longrightarrow> sg \<noteq> [] \<or> rest = [] \<or> \<not> is_space (hd rest)"
    "ds = [] \<longrightarrow> sg = [] \<longrightarrow> rest = [] \<or> hd rest \<notin> {CHR ''+'', CHR ''-''}"
proof -
  let ?b = "takeWhile is_space t" and ?u = "dropWhile is_space t"
  define sg where "sg = (if ?u \<noteq> [] \<and> hd ?u \<in> {CHR ''+'', CHR ''-''} then [hd ?u] else [])"
  define w where "w = drop (length sg) ?u"
  have u: "?u = sg @ w" by (cases ?u) (auto simp: sg_def w_def)
  have h: "?u \<noteq> [] \<Longrightarrow> \<not> is_space (hd ?u)" by (rule hd_dropWhile)
  have r: "dropWhile is_digit w = [] \<or> \<not> is_digit (hd (dropWhile is_digit w))" using hd_dropWhile by blast
  have dw: "takeWhile is_digit w = [] \<Longrightarrow> dropWhile is_digit w = w" by (metis append_Nil takeWhile_dropWhile_id)
  show ?thesis
  proof (rule that [of ?b sg "takeWhile is_digit w" "dropWhile is_digit w"])
    show "t = ?b @ sg @ takeWhile is_digit w @ dropWhile is_digit w" using u by (metis takeWhile_dropWhile_id)
    show "takeWhile is_digit w = [] \<longrightarrow> sg \<noteq> [] \<or> dropWhile is_digit w = [] \<or> \<not> is_space (hd (dropWhile is_digit w))"
      using u h dw by force
    show "takeWhile is_digit w = [] \<longrightarrow> sg = [] \<longrightarrow> dropWhile is_digit w = [] \<or>
        hd (dropWhile is_digit w) \<notin> {CHR ''+'', CHR ''-''}"
      using u dw by (auto simp: sg_def split: if_splits)
  qed (use r in \<open>auto simp: sg_def dest: set_takeWhileD\<close>)
qed

lemma denotes_strtol:
  assumes "denotes t v"
  shows "Menu.strtol t = (clamp v, [])" "t \<noteq> []"
proof -
  obtain b sg ds where t: "t = b @ sg @ ds" "\<forall>c\<in>set b. is_space c" "sg \<in> {[], ''+'', ''-''}" "ds \<noteq> []"
    "\<forall>c\<in>set ds. is_digit c" "v = (if sg = ''-'' then - 1 else 1) * digits_value ds"
    using assms unfolding denotes_def digits_value_def foldl_digits by blast
  show "Menu.strtol t = (clamp v, [])"
    using strtol_line [OF t(2,3,5), of "[]"] t(1,4,6) by simp
  show "t \<noteq> []" using t(1,4) by simp
qed

lemma accept_nonblank:
  assumes "t \<noteq> []" "hd t \<noteq> CHR 0x0A" "c_str (t @ u) = t @ u"
  shows "accept_bounded lo hi (t @ u) = (case Menu.strtol (t @ u) of (selection, temp) \<Rightarrow>
    if temp = [] \<or> hd temp = CHR 0x0A \<or> hd temp = CHR 0x0D then
      (if \<not> (selection < lo \<or> selection > hi) then Some selection else None)
    else None)"
  using assms by (cases t) (simp_all add: accept_bounded_def)

lemma accept_typed:
  assumes "within_line t" "- (2 ^ 31) < lo" "hi < 2 ^ 31 - 1"
  shows "accept_bounded lo hi (t @ [CHR 0x0A]) = Some v \<longleftrightarrow> denotes t v \<and> lo \<le> v \<and> v \<le> hi"
proof -
  have c: "c_str (t @ [CHR 0x0A]) = t @ [CHR 0x0A]"
    using assms(1) unfolding c_str_def within_line_def by (subst takeWhile_append2) auto
  have hd: "hd t \<notin> {CHR 0x0A, CHR 0x0D}" if "t \<noteq> []"
    using assms(1) hd_in_set [OF that] by (auto simp: within_line_def)
  obtain b sg ds rest where t: "t = b @ sg @ ds @ rest" "\<forall>c\<in>set b. is_space c"
    "sg \<in> {[], ''+'', ''-''}" "\<forall>c\<in>set ds. is_digit c" "rest = [] \<or> \<not> is_digit (hd rest)"
    "ds = [] \<longrightarrow> sg \<noteq> [] \<or> rest = [] \<or> \<not> is_space (hd rest)"
    "ds = [] \<longrightarrow> sg = [] \<longrightarrow> rest = [] \<or> hd rest \<notin> {CHR ''+'', CHR ''-''}"
    using split_line [of t] .
  have plain: "Menu.strtol t = (if ds = [] then (0, t) else (clamp ((if sg = ''-'' then - 1 else 1) * digits_value ds), rest))"
    using strtol_line [OF t(2-7)] t(1) by simp
  show ?thesis
  proof (cases "ds = []")
    case True
    have "Menu.strtol (t @ [CHR 0x0A]) = (0, t @ [CHR 0x0A])"
    proof (cases "sg = [] \<and> rest = []")
      case True
      then show ?thesis
        using strtol_line [of "b @ [CHR 0x0A]" "[]" "[]" "[]"] t(1,2) \<open>ds = []\<close> is_space_special by auto
    next
      case False
      have "Menu.strtol (b @ sg @ [] @ (rest @ [CHR 0x0A])) = (0, b @ sg @ [] @ (rest @ [CHR 0x0A]))"
        using strtol_line [OF t(2,3), of "[]" "rest @ [CHR 0x0A]"] t(5-7) True False not_digit by (cases rest) auto
      then show ?thesis using t(1) True by simp
    qed
    moreover have "\<not> denotes t v" using denotes_strtol [of t v] plain True by auto
    ultimately show ?thesis using hd unfolding accept_bounded_def c by (cases t) auto
  next
    case False
    let ?V = "(if sg = ''-'' then - 1 else 1) * digits_value ds"
    have st: "Menu.strtol (t @ [CHR 0x0A]) = (clamp ?V, rest @ [CHR 0x0A])"
      using strtol_line [OF t(2-4), of "rest @ [CHR 0x0A]"] t(1,5) False not_digit by (cases rest) auto
    have ne: "t \<noteq> []" using t(1) False by simp
    have rest: "hd (rest @ [CHR 0x0A]) \<in> {CHR 0x0A, CHR 0x0D} \<longleftrightarrow> rest = []"
      using assms(1) t(1) by (cases rest) (auto simp: within_line_def)
    have acc: "accept_bounded lo hi (t @ [CHR 0x0A]) = Some v \<longleftrightarrow> rest = [] \<and> v = clamp ?V \<and> lo \<le> v \<and> v \<le> hi"
      using rest accept_nonblank [OF ne _ c] hd [OF ne] by (auto simp: st)
    have clamp: "v = clamp w \<longleftrightarrow> v = w" if "lo \<le> v" "v \<le> hi" for w
      using that assms(2,3) by (auto simp: clamp_def)
    have den: "denotes t ?V" if "rest = []"
      unfolding denotes_def using t(1-4) that False
      by (intro exI [of _ b] exI [of _ sg] exI [of _ ds]) (simp add: digits_value_def foldl_digits)
    have unden: "rest = [] \<and> v = ?V" if "denotes t v" "lo \<le> v" "v \<le> hi"
    proof -
      have "clamp v = clamp ?V" "rest = []" using denotes_strtol(1) [OF that(1)] plain False by simp_all
      then show ?thesis using clamp [OF that(2,3), of v] clamp [OF that(2,3), of ?V] by simp
    qed
    show ?thesis
    proof (cases "lo \<le> v \<and> v \<le> hi")
      case True
      then have "rest = [] \<and> v = clamp ?V \<longleftrightarrow> denotes t v" using den unden clamp [of ?V] by metis
      then show ?thesis using acc True by blast
    qed (use acc in blast)
  qed
qed

text \<open>
  C26: 
\<close>

theorem Get_int_bounded_answers:
  assumes "responsive K" "input_law K (map (\<lambda>t. t @ [CHR 0x0A]) typed)" "\<forall>t\<in>set typed. within_line t"
    and "lo \<le> hi" "- (2 ^ 31) < lo" "hi < 2 ^ 31 - 1"
    and "k < length typed" "k < n" "denotes (typed ! k) v" "lo \<le> v" "v \<le> hi"
    and "\<forall>i<k. \<forall>w. denotes (typed ! i) w \<longrightarrow> \<not> (lo \<le> w \<and> w \<le> hi)"
  shows "\<exists>h'. exec K (Test_menu_Get_int_bounded n junk str lo hi) g [] = (Done v, g, h') \<and>
    calls_to fgets h' = k + 1"
proof -
  let ?lines = "map (\<lambda>t. t @ [CHR 0x0A]) typed"
  have acc: "accept_bounded lo hi (?lines ! i) = Some w \<longleftrightarrow> denotes (typed ! i) w \<and> lo \<le> w \<and> w \<le> hi"
    if "i < length typed" for i w
    using accept_typed [OF _ assms(5,6)] assms(3) that by simp
  have "accept_bounded lo hi (?lines ! i) = None" if "i < k" for i
  proof (cases "accept_bounded lo hi (?lines ! i)")
    case (Some w)
    then have "denotes (typed ! i) w \<and> lo \<le> w \<and> w \<le> hi" using acc [of i w] assms(7) that by simp
    then show ?thesis using assms(12) that by blast
  qed
  moreover have "accept_bounded lo hi (?lines ! k) = Some v" using acc assms(7,9-11) by blast
  ultimately show ?thesis
    using bounded_loop_exec [OF assms(1,2), of k lo hi "[]" v n str False junk g] assms(4,7,8)
    by (simp add: Test_menu_Get_int_bounded_def asserting_def)
qed

section \<open>Lines that are never accepted\<close>

text \<open>Replies with a complete line, as \<open>fgets\<close> delivers every line that fits into the buffer.\<close>

definition line_reply :: "syscall \<Rightarrow> reply \<Rightarrow> bool" where
  "line_reply c r \<longleftrightarrow>
    (fst c = fgets \<longrightarrow> (\<exists>s. outs r = [VStr (s @ [CHR 0x0A])] \<and> CHR 0x00 \<notin> set s))"

lemma strtol_leaves_newline: "snd (Menu.strtol (s @ [CHR 0x0A])) \<noteq> []"
proof -
  have rest: "drop (length (takeWhile is_digit t)) t \<noteq> []" if "CHR 0x0A \<in> set t" for t
  proof -
    have "\<not> is_digit (CHR 0x0A)" by (simp add: is_digit_def less_eq_char_def)
    then have "dropWhile is_digit t \<noteq> []" using that by (auto simp: dropWhile_eq_Nil_conv)
    then show ?thesis by (simp add: dropWhile_eq_drop)
  qed
  define t where "t = dropWhile is_space (s @ [CHR 0x0A])"
  show ?thesis
  proof (cases "t = []")
    case True
    then show ?thesis by (simp add: Menu.strtol_def t_def [symmetric] sign_def)
  next
    case False
    then have "last t = CHR 0x0A"
      unfolding t_def by (metis last_appendR last_snoc takeWhile_dropWhile_id)
    then have "CHR 0x0A \<in> set (snd (sign t)) \<or> snd (sign t) = []"
      using False last_in_set [of "tl t"] last_in_set [of t]
      by (cases t) (auto simp: sign_def split: if_splits)
    then show ?thesis
      using rest [of "snd (sign t)"]
      by (auto simp: Menu.strtol_def t_def [symmetric] Let_def split: prod.split)
  qed
qed

lemma emits_int_loop: "emits line_reply (\<lambda>_. None :: unit option) (int_loop n str again msg) (\<lambda>_. False) []"
proof (induction n arbitrary: again msg)
  case (Suc n)
  have "c_str (s @ [CHR 0x0A]) = s @ [CHR 0x0A]" if "CHR 0x00 \<notin> set s" for s
    using that unfolding c_str_def by (subst takeWhile_append2) auto
  then show ?case
    using Suc strtol_leaves_newline
    by (auto simp: prompt_defs line_reply_def split: prod.split) (metis snd_conv)
qed simp

lemma unhalted_int_loop: "unhalted R (int_loop n str again msg)"
  by (induction n arbitrary: again msg) (auto simp: prompt_defs split: prod.split)

text \<open>
  C27: On lines that end with a newline, which is how fgets delivers them, Test_menu_Get_int never
  returns, whatever is typed: it accepts only a number that the terminator follows.
\<close>

theorem Get_int_never_returns:
  assumes "responsive K" "obeys K line_reply"
  shows "fst (exec K (Test_menu_Get_int n junk str) g h) = Unfinished"
proof -
  obtain oc g' h' where e: "exec K (Test_menu_Get_int n junk str) g h = (oc, g', h')" by (metis prod_cases3)
  have "emits line_reply (\<lambda>_. None :: unit option) (Test_menu_Get_int n junk str) (\<lambda>_. False) []"
    by (simp add: Test_menu_Get_int_def emits_int_loop)
  then have "oc \<noteq> Done v" for v using emits_exec [OF assms(2) _ e] by blast
  moreover have "oc \<noteq> Halted"
    using e unhalted_exec [OF assms(2) unhalted_int_loop] by (auto simp: Test_menu_Get_int_def)
  moreover have "oc \<noteq> Blocked c" for c
    using e responsive_exec [OF assms(1), of "Test_menu_Get_int n junk str" g h c g' h'] by auto
  ultimately show ?thesis using e by (cases oc) auto
qed

lemma float_loop_step:
  assumes "responsive K" "input_law K lines" "calls_to fgets h < length lines"
  shows "\<exists>h'. exec K (float_loop (Suc n) to_double str lo hi again msg) g h =
      exec K (case accept_float to_double lo hi (lines ! calls_to fgets h) of
        Some selection \<Rightarrow> Ret selection
      | None \<Rightarrow> float_loop n to_double str lo hi True (lines ! calls_to fgets h)) g h' \<and>
    calls_to fgets h' = calls_to fgets h + 1"
  unfolding float_loop.simps by (rule exec_prompt [OF assms])

text \<open>Not a number is within every bounds.\<close>

theorem Get_float_accepts_nan:
  assumes "responsive K" "input_law K (line # lines)" "to_double (c_str line) = (NaN, rest)"
    and "rest = [] \<or> hd rest = CHR 0x0A" "lo \<le> hi" "0 < n"
  shows "fst (exec K (Test_menu_Get_float_bounded n to_double to_float junk str lo hi) g []) = Done (to_float NaN)"
proof -
  obtain n' where n: "n = Suc n'" using assms(6) by (cases n) auto
  have "accept_float to_double lo hi line = Some NaN"
    using assms(3,4) by (simp add: accept_float_def)
  moreover obtain h' where
    "exec K (float_loop n to_double str lo hi False junk) g [] =
      exec K (case accept_float to_double lo hi line of
        Some selection \<Rightarrow> Ret selection
      | None \<Rightarrow> float_loop n' to_double str lo hi True line) g h'"
    using float_loop_step [OF assms(1,2), of "[]" n' to_double str lo hi False junk g]
    unfolding n calls_to_simps nth_Cons_0 by auto
  ultimately show ?thesis
    using assms(5) by (simp add: Test_menu_Get_float_bounded_def asserting_def exec_bindp)
qed

section \<open>The lists and the menu\<close>

text \<open>The lines of a list, and the entries of a selection as they are printed, with their numbers.\<close>

definition listed :: "syscall \<Rightarrow> (int \<times> val) option" where
  "listed c =
    (if fst c = printf \<and> length (snd c) = 3 \<and>
        hd (snd c) \<in> {VStr ''\<newline>(%d) %s'', VStr ''\<newline>(%2d) %-30s'', VStr ''    (%2d) %-30s''}
     then Some (as_int (snd c ! 1), snd c ! 2) else None)"

definition entries :: "nat \<Rightarrow> string list \<Rightarrow> (int \<times> val) list" where
  "entries k ss = map (\<lambda>(i, s). (int i, VStr s)) (List.enumerate k ss)"

lemma entries_simps [simp]:
  "entries k [] = []"
  "entries k (s # ss) = (int k, VStr s) # entries (Suc k) ss"
  by (simp_all add: entries_def)

lemma emits_one_column:
  "emits R listed p Q ls \<Longrightarrow> emits R listed (one_column (int k) ss p) Q (entries k ss @ ls)"
proof (induction ss arbitrary: k)
  case (Cons s ss)
  then show ?case using Cons.IH [of "Suc k"] by (simp add: listed_def algebra_simps)
qed simp

lemma emits_two_columns:
  "emits R listed p Q ls \<Longrightarrow> emits R listed (two_columns (int k) ss p) Q (entries k ss @ ls)"
proof (induction "int k" ss p arbitrary: k rule: two_columns.induct)
  case (3 s t ss p)
  then show ?case using "3.hyps" [of "Suc (Suc k)"] by (simp add: listed_def algebra_simps)
qed (auto simp: listed_def)

lemma emits_underline: "emits R listed p Q ls \<Longrightarrow> emits R listed (underline n p) Q ls"
  by (induction n) (auto simp: listed_def)

lemma unprompted_listed: "unprompted listed"
  by (simp add: unprompted_def listed_def)

lemma emits_headline: "emits R listed p Q ls \<Longrightarrow> emits R listed (headline title p) Q ls"
  by (simp add: headline_def listed_def emits_underline)

lemma emits_Get_selection:
  assumes "selection \<noteq> []"
  shows "emits R listed (Test_menu_Get_selection n junk title selection)
    (\<lambda>v. 0 \<le> v \<and> v \<le> int (length selection) - 1) (entries 0 selection)"
proof -
  let ?p = "Test_menu_Get_int_bounded n junk ''    Enter your selection> '' 0 (int (length selection) - 1)"
  have "emits R listed ?p (\<lambda>v. 0 \<le> v \<and> v \<le> int (length selection) - 1) []"
    using assms by (intro emits_Get_int_bounded unprompted_listed) (simp add: Suc_le_eq)
  from emits_one_column [OF this, of 0 selection] emits_two_columns [OF this, of 0 selection]
  show ?thesis by (auto simp: Test_menu_Get_selection_def intro!: emits_headline)
qed

text \<open>\<close>

theorem Get_selection_lists:
  assumes "exec K (Test_menu_Get_selection n junk title selection) g h = (Done v, g', h')" "selection \<noteq> []"
  shows "0 \<le> v \<and> v < int (length selection) \<and>
    observed listed h' = observed listed h @ map (\<lambda>(i, s). (int i, VStr s)) (List.enumerate 0 selection)"
proof -
  obtain t where "observed listed h' = observed listed h @ t"
    "0 \<le> v \<and> v \<le> int (length selection) - 1 \<and> t = entries 0 selection"
    using emits_exec [OF obeys_any emits_Get_selection [OF assms(2)] assms(1)] by auto
  then show ?thesis by (simp add: entries_def)
qed

lemma unhalted_underline: "unhalted R p \<Longrightarrow> unhalted R (underline n p)"
  by (induction n) auto

lemma unhalted_menu_lines: "unhalted R p \<Longrightarrow> unhalted R (menu_lines i es p)"
  by (induction es arbitrary: i) auto

lemma unhalted_headline: "unhalted R p \<Longrightarrow> unhalted R (headline title p)"
  by (simp add: headline_def unhalted_underline)

text \<open>What a program does with a value, when the value that precedes it satisfies a condition.\<close>

lemma unhalted_bind_range:
  assumes "unhalted R p" "emits R (\<lambda>_. None :: unit option) p Q ls" "\<And>x. Q x \<Longrightarrow> unhalted R (q x)"
  shows "unhalted R (bindp p q)"
  using assms(1,2)
  by (induction p arbitrary: ls) (auto intro: assms(3) rangeI)

lemma unhalted_Test_menu_run:
  assumes "\<forall>e\<in>set (entry menu). unhalted R (routine e)"
  shows "unhalted R (Test_menu_run m n junk menu)"
proof (induction m)
  case (Suc m)
  let ?N = "int (length (entry menu))"
  let ?p = "Test_menu_Get_int_bounded n junk ''    Enter your selection> '' 0 ?N"
  have range: "emits R (\<lambda>_. None :: unit option) ?p (\<lambda>v. 0 \<le> v \<and> v \<le> ?N) []"
    by (rule emits_Get_int_bounded) (simp_all add: unprompted_def)
  have ok: "unhalted R ?p"
    by (simp add: Test_menu_Get_int_bounded_def asserting_def unhalted_bounded_loop)
  have row: "unhalted R (routine (entry menu ! nat (v - 1)))" if "0 < v" "v \<le> ?N" for v
    using that assms by (intro bspec [OF assms] nth_mem) linarith
  show ?case
    unfolding Test_menu_run.simps
    by (intro unhalted_headline unhalted_menu_lines)
       (auto intro!: unhalted_bind_range [OF ok range] unhalted_bindp row Suc)
qed simp

text \<open>The menu never calls a routine outside its table.\<close>

theorem menu_index_in_table:
  assumes "\<forall>e\<in>set (entry menu). unhalted any_reply (routine e)"
  shows "fst (exec K (Test_menu_run m n junk menu) g h) \<noteq> Halted"
proof -
  obtain oc g' h' where e: "exec K (Test_menu_run m n junk menu) g h = (oc, g', h')" by (metis prod_cases3)
  then show ?thesis
    using unhalted_exec [OF obeys_any unhalted_Test_menu_run [OF assms], of K m n junk g h g' h'] by auto
qed

section \<open>Examples\<close>

text \<open>A terminal at which the lines are typed; it answers every call.\<close>

definition typist :: "string list \<Rightarrow> kernel" where
  "typist lines h c =
    Some (Reply (VInt 0)
      (if fst c = fgets then [VStr (if calls_to fgets h < length lines then lines ! calls_to fgets h else ''y\<newline>'')] else []))"

lemma typist_laws: "responsive (typist lines)" "input_law (typist lines) lines"
  by (auto simp: typist_def responsive_def input_law_def)

lemma typist_lines: "obeys (typist [''7\<newline>'']) line_reply"
  by (auto simp: typist_def obeys_def line_reply_def intro: exI [of _ "''7''"] exI [of _ "''y''"])

lemma typed_numbers:
  "accept_bounded 0 9 ''x\<newline>'' = None" "accept_bounded 0 9 ''7\<newline>'' = Some 7"
  "accept_bounded 0 1 ''1\<newline>'' = Some 1"
  by code_simp+

lemma Get_int_bounded_bounds_witness:
  "\<exists>h'. exec (typist [''7\<newline>'']) (Test_menu_Get_int_bounded 2 [] ''n'' 0 9) () [] = (Done 7, (), h') \<and>
    0 \<le> (7::int) \<and> (7::int) \<le> 9"
proof -
  obtain h' where h': "exec (typist [''7\<newline>'']) (bounded_loop 2 ''n'' 0 9 False []) () [] = (Done 7, (), h')"
    using bounded_loop_exec [OF typist_laws, of 0 0 9 "[''7\<newline>'']" "[]" 7 2 "''n''" False "[]" "()"] typed_numbers
    by auto
  then have "exec (typist [''7\<newline>'']) (Test_menu_Get_int_bounded 2 [] ''n'' 0 9) () [] = (Done 7, (), h')"
    by (simp add: Test_menu_Get_int_bounded_def asserting_def)
  with Get_int_bounded_bounds [OF this] show ?thesis by blast
qed

theorem Get_int_bounded_answers_witness:
  "\<exists>h'. exec (typist [''x\<newline>'', ''70\<newline>'', ''7\<newline>'']) (Test_menu_Get_int_bounded 3 [] ''n'' 0 9) () [] = (Done 7, (), h') \<and>
    calls_to fgets h' = 3"
proof -
  have w: "within_line ''x''" "within_line ''70''" "within_line ''7''" by (simp_all add: within_line_def)
  have "accept_bounded 0 9 (''x'' @ [CHR 0x0A]) = None" "accept_bounded 0 9 (''70'' @ [CHR 0x0A]) = None"
    "accept_bounded 0 9 (''7'' @ [CHR 0x0A]) = Some 7" by code_simp+
  then have d: "denotes ''7'' 7" "\<not> (denotes ''x'' v \<and> 0 \<le> v \<and> v \<le> 9)" "\<not> (denotes ''70'' v \<and> 0 \<le> v \<and> v \<le> 9)" for v
    using accept_typed [OF w(1), of 0 9] accept_typed [OF w(2), of 0 9] accept_typed [OF w(3), of 0 9 7] by auto
  have "\<forall>i<2. \<forall>v. denotes ([''x'', ''70'', ''7''] ! i) v \<longrightarrow> \<not> (0 \<le> v \<and> v \<le> 9)"
    using d by (simp add: numeral_2_eq_2 less_Suc_eq all_conj_distrib)
  then show ?thesis
    using Get_int_bounded_answers [where K = "typist [''x\<newline>'', ''70\<newline>'', ''7\<newline>'']" and typed = "[''x'', ''70'', ''7'']"
        and lo = 0 and hi = 9 and k = 2 and n = 3 and v = 7 and junk = "[]" and str = "''n''" and g = "()"] w d(1)
    by (simp add: typist_laws)
qed

lemma Get_int_never_returns_witness:
  "fst (exec (typist [''7\<newline>'']) (Test_menu_Get_int 100 [] ''n'') () []) = Unfinished"
  by (rule Get_int_never_returns [OF typist_laws(1) typist_lines])

text \<open>A \<open>strtod\<close> that reads three characters as not a number.\<close>

lemma Get_float_accepts_nan_witness:
  "fst (exec (typist [''nan\<newline>'']) (Test_menu_Get_float_bounded 1 (\<lambda>s. (NaN, drop 3 s)) (\<lambda>v. v) [] ''x'' 0 1) () []) =
    Done NaN"
  by (rule Get_float_accepts_nan [OF typist_laws, of _ _ "drop 3 (c_str ''nan\<newline>'')"]) (simp_all add: c_str_def)

lemma Get_selection_lists_witness:
  "\<exists>h'. exec (typist [''1\<newline>'']) (Test_menu_Get_selection 2 [] ''t'' [''a'', ''b'']) () [] = (Done 1, (), h') \<and>
    observed listed h' = [(0, VStr ''a''), (1, VStr ''b'')]"
proof -
  have run: "\<exists>h'. exec (typist [''1\<newline>'']) (bounded_loop 2 str 0 1 False []) () h = (Done 1, (), h')"
    if "calls_to fgets h = 0" for h str
    using bounded_loop_exec [OF typist_laws, of 0 0 1 "[''1\<newline>'']" h 1 2 str False "[]" "()"] that
    by (auto simp: typed_numbers)
  have "\<exists>h'. exec (typist [''1\<newline>'']) (Test_menu_Get_selection 2 [] ''t'' [''a'', ''b'']) () [] = (Done 1, (), h')"
    by (simp add: Test_menu_Get_selection_def Test_menu_Get_int_bounded_def asserting_def headline_def)
       (simp add: typist_def run)
  then obtain h' where "exec (typist [''1\<newline>'']) (Test_menu_Get_selection 2 [] ''t'' [''a'', ''b'']) () [] = (Done 1, (), h')"
    by blast
  from Get_selection_lists [OF this] this show ?thesis by auto
qed

lemma menu_index_in_table_witness:
  "fst (exec (typist [''1\<newline>'', ''0\<newline>''])
      (Test_menu_run 3 1 [] \<lparr>header = ''m'', entry = [\<lparr>entry_name = ''e'', routine = Do printf [] (Ret ())\<rparr>]\<rparr>) () [])
    \<noteq> Halted"
  by (rule menu_index_in_table) simp

end
