(* ===== verification/Periodic.thy ===== *)
theory Periodic
  imports Menu Led
begin

text \<open>
  The periodic tasks of \<open>led/complex1\<close>: \<open>periodic.c\<close>, the menu of \<open>test.cc\<close> that controls them, and
  the initialization task of \<open>main.cc\<close>.

  An access outside an array is \<open>Halt\<close>; so a loop over an array needs no more than its length and
  one more round.
\<close>

section \<open>\<open>periodic.c\<close>\<close>

abbreviation MAX_PERIODIC :: nat where "MAX_PERIODIC \<equiv> 100"

record periodic_vars =
  PeriodicThreads_Ids :: "val list"
  PeriodicThreads_Periods :: "val list"
  PeriodicThreads_initialized :: bool
  PeriodicThreads_running :: bool
  PeriodicThreads_Count :: u32

definition periodic_start :: periodic_vars where
  "periodic_start =
    \<lparr>PeriodicThreads_Ids = replicate MAX_PERIODIC (VInt 0),
     PeriodicThreads_Periods = replicate MAX_PERIODIC (VInt 0),
     PeriodicThreads_initialized = False, PeriodicThreads_running = False,
     PeriodicThreads_Count = 10\<rparr>"

abbreviation failed :: "reply \<Rightarrow> bool" where
  "failed r \<equiv> ret r \<noteq> SUCCESSFUL"

abbreviation complain_stderr :: "string \<Rightarrow> ('g, unit) prog" where
  "complain_stderr s \<equiv> Do fprintf [VRef ''stderr'', VStr s] (Ret ())"

text \<open>The four characters that \<open>sprintf\<close> writes for a prefix and \<open>%02x\<close>; an index has two digits.\<close>

definition hex_digit :: "nat \<Rightarrow> char" where
  "hex_digit n = (if n < 10 then char_of (48 + n) else char_of (87 + n))"

definition name_of_index :: "string \<Rightarrow> nat \<Rightarrow> val" where
  "name_of_index s i = VStr (s @ [hex_digit (i div 16 mod 16), hex_digit (i mod 16)])"

definition factorial :: "int32 \<Rightarrow> int32" where
  "factorial i = (if i = 1 then 1 else i * (i - 1))"

definition PeriodicThreads_Body :: "nat \<Rightarrow> nat \<Rightarrow> (periodic_vars, unit) prog" where
  "PeriodicThreads_Body n index =
     (let t = int index + 1 in
     Do fprintf [VRef ''stderr'', VStr ''Periodic task %d starting\<newline>'', VInt t] (
     if MAX_PERIODIC \<le> index then Halt
     else
       Call rtems_rate_monotonic_create
         [name_of_index ''PE'' index, VOp ''&PeriodicThreads_Periods'' [VInt (int index)]] (\<lambda>r.
       Put (\<lambda>g. g\<lparr>PeriodicThreads_Periods := (PeriodicThreads_Periods g)
         [index := out r 0 (PeriodicThreads_Periods g ! index)]\<rparr>) (
       if failed r then complain_stderr ''PeriodicThreads -- period create failed\<newline>''
       else
         let _ = factorial (word_of_int (t * 100)) in
         forever n (\<lambda>_.
           Get (\<lambda>g.
           Do rtems_rate_monotonic_period [PeriodicThreads_Periods g ! index, VInt (t * 2)] (
           Do rtems_task_wake_after [VInt t] (
           Ret ())))) ()))))"

text \<open>
  A loop \<open>for( i=0 ; i<PeriodicThreads_Count ; i++ )\<close>, at index \<open>i\<close>, with \<open>k\<close> elements left in the
  arrays: the body gets what follows, and may return instead.
\<close>

primrec for_count :: "nat \<Rightarrow> (nat \<Rightarrow> (periodic_vars, unit) prog \<Rightarrow> (periodic_vars, unit) prog) \<Rightarrow>
    (periodic_vars, unit) prog \<Rightarrow> nat \<Rightarrow> (periodic_vars, unit) prog" where
  "for_count 0 body p i = Get (\<lambda>g. if i < unat (PeriodicThreads_Count g) then Halt else p)"
| "for_count (Suc k) body p i =
     Get (\<lambda>g. if i < unat (PeriodicThreads_Count g) then body i (for_count k body p (Suc i)) else p)"

definition create_and_start :: "nat \<Rightarrow> (periodic_vars, unit) prog \<Rightarrow> (periodic_vars, unit) prog" where
  "create_and_start i p =
     Call rtems_task_create
       [name_of_index ''TA'' i, VInt 2, VOp ''*'' [VRef ''RTEMS_MINIMUM_STACK_SIZE'', VInt 4],
        VRef ''RTEMS_DEFAULT_MODES'', VRef ''RTEMS_FLOATING_POINT'',
        VOp ''&PeriodicThreads_Ids'' [VInt (int i)]] (\<lambda>r.
     Put (\<lambda>g. g\<lparr>PeriodicThreads_Ids := (PeriodicThreads_Ids g)
       [i := out r 0 (PeriodicThreads_Ids g ! i)]\<rparr>) (
     if failed r then complain_stderr ''PeriodicThreads -- task create failed\<newline>''
     else
       Get (\<lambda>g.
       Call rtems_task_start [PeriodicThreads_Ids g ! i, VRef ''PeriodicThreads_Body'', VInt (int i)] (\<lambda>r.
       if failed r then complain_stderr ''PeriodicThreads -- task start failed\<newline>''
       else p))))"

definition PeriodicThreads_Initialize :: "(periodic_vars, unit) prog" where
  "PeriodicThreads_Initialize =
     Get (\<lambda>g.
     if PeriodicThreads_initialized g then Ret ()
     else
       Put (\<lambda>g. g\<lparr>PeriodicThreads_running := False\<rparr>) (
       for_count MAX_PERIODIC create_and_start (
       Put (\<lambda>g. g\<lparr>PeriodicThreads_running := True\<rparr>) (
       Put (\<lambda>g. g\<lparr>PeriodicThreads_initialized := True\<rparr>) (
       Ret ()))) 0))"

definition PeriodicThreads_Start :: "(periodic_vars, unit) prog" where
  "PeriodicThreads_Start = PeriodicThreads_Initialize"

definition delete_both :: "nat \<Rightarrow> (periodic_vars, unit) prog \<Rightarrow> (periodic_vars, unit) prog" where
  "delete_both i p =
     Get (\<lambda>g.
     Call rtems_rate_monotonic_delete [PeriodicThreads_Periods g ! i] (\<lambda>r.
     if failed r then complain_stderr ''PeriodicThreads -- period delete failed\<newline>''
     else
       Get (\<lambda>g.
       Call rtems_task_delete [PeriodicThreads_Ids g ! i] (\<lambda>r.
       if failed r then complain_stderr ''PeriodicThreads -- task delete failed\<newline>''
       else p))))"

definition PeriodicThreads_Stop :: "(periodic_vars, unit) prog" where
  "PeriodicThreads_Stop =
     Get (\<lambda>g.
     if \<not> PeriodicThreads_initialized g then Ret ()
     else
       Do fprintf [VRef ''stderr'', VStr ''Stopping Periodic Threads\<newline>''] (
       for_count MAX_PERIODIC delete_both (
       Put (\<lambda>g. g\<lparr>PeriodicThreads_running := False\<rparr>) (
       Put (\<lambda>g. g\<lparr>PeriodicThreads_initialized := False\<rparr>) (
       Ret ()))) 0))"

section \<open>The menu of \<open>test.cc\<close>\<close>

definition SetNumberOfPeriodicThreads :: "nat \<Rightarrow> string \<Rightarrow> (periodic_vars, unit) prog" where
  "SetNumberOfPeriodicThreads n junk =
     bindp (Test_menu_Get_int_bounded n junk ''How many periodic threads do you want to create'' 1 100) (\<lambda>threads.
     Put (\<lambda>g. g\<lparr>PeriodicThreads_Count := word_of_int threads\<rparr>) (Ret ()))"

definition PeriodicThreadsMenu :: "nat \<Rightarrow> string \<Rightarrow> periodic_vars Test_menu" where
  "PeriodicThreadsMenu n junk =
    \<lparr>header = ''Periodic Threads Menu'',
     entry =
      [\<lparr>entry_name = ''Start Periodic Threads'', routine = PeriodicThreads_Start\<rparr>,
       \<lparr>entry_name = ''Stop Periodic Threads'', routine = PeriodicThreads_Stop\<rparr>,
       \<lparr>entry_name = ''Set Number Of Periodic Threads'', routine = SetNumberOfPeriodicThreads n junk\<rparr>]\<rparr>"

definition PeriodicThreadsFunction :: "nat \<Rightarrow> nat \<Rightarrow> string \<Rightarrow> (periodic_vars, unit) prog" where
  "PeriodicThreadsFunction m n junk = Test_menu_run m n junk (PeriodicThreadsMenu n junk)"

section \<open>\<open>main.cc\<close>\<close>

text \<open>The initialization task, for a \<open>doTest\<close>, on a board without and with small memory.\<close>

definition complex1_Init :: "bool \<Rightarrow> ('g, unit) prog \<Rightarrow> ('g, unit) prog" where
  "complex1_Init small doTest =
     bindp (if small then Ret () else doTest) (\<lambda>_.
     Do exit [VInt 0] Halt)"

definition complex1_config :: "bool \<Rightarrow> config_macros" where
  "complex1_config small =
    [(CONFIGURE_APPLICATION_NEEDS_CONSOLE_DRIVER, defined),
     (CONFIGURE_APPLICATION_NEEDS_CLOCK_DRIVER, defined),
     (CONFIGURE_MICROSECONDS_PER_TICK, VOp ''RTEMS_MILLISECONDS_TO_MICROSECONDS'' [VInt 1]),
     (CONFIGURE_INIT_TASK_ATTRIBUTES, VRef ''RTEMS_FLOATING_POINT''),
     (CONFIGURE_RTEMS_INIT_TASKS_TABLE, defined)] @
    (if small then [(CONFIGURE_MAXIMUM_TASKS, VInt 1)]
     else
       [(CONFIGURE_MAXIMUM_TASKS, VInt 102),
        (CONFIGURE_MAXIMUM_PERIODS, VInt 100),
        (CONFIGURE_MAXIMUM_POSIX_THREADS, VInt 2),
        (CONFIGURE_EXTRA_TASK_STACKS,
          VOp ''+'' [VOp ''*'' [VInt 102, VInt 3, VRef ''RTEMS_MINIMUM_STACK_SIZE''], VInt 0]),
        (CONFIGURE_USE_IMFS_AS_BASE_FILESYSTEM, defined),
        (CONFIGURE_MAXIMUM_FILE_DESCRIPTORS, VInt 20),
        (CONFIGURE_STACK_CHECKER_ENABLED, defined)]) @
    [(CONFIGURE_INIT, defined)]"

end
