(* ===== verification/RT_Keeps.thy ===== *)
theory RT_Keeps
  imports RT_Prog
begin

text \<open>
  Invariants of shared globals.  \<open>keeps I C R p Q\<close>: every access of \<open>p\<close> finds and leaves globals that
  satisfy \<open>I\<close>, whatever other tasks that keep \<open>I\<close> do in between; all its calls satisfy \<open>C\<close>; \<open>p\<close> never
  reaches \<open>Halt\<close>, and a value that it returns satisfies \<open>Q\<close>.
\<close>

primrec keeps :: "('g \<Rightarrow> bool) \<Rightarrow> (syscall \<Rightarrow> bool) \<Rightarrow> (syscall \<Rightarrow> reply \<Rightarrow> bool) \<Rightarrow> ('g, 'a) prog \<Rightarrow> ('a \<Rightarrow> bool) \<Rightarrow> bool" where
  "keeps I C R (Ret x) Q = Q x"
| "keeps I C R Halt Q = False"
| "keeps I C R Cut Q = True"
| "keeps I C R (Call f args k) Q = (C (f, args) \<and> (\<forall>r. R (f, args) r \<longrightarrow> keeps I C R (k r) Q))"
| "keeps I C R (Get k) Q = (\<forall>g. I g \<longrightarrow> keeps I C R (k g) Q)"
| "keeps I C R (Put u p) Q = ((\<forall>g. I g \<longrightarrow> I (u g)) \<and> keeps I C R p Q)"

abbreviation anything :: "'a \<Rightarrow> bool" where "anything \<equiv> \<lambda>_. True"

lemma keeps_bindp:
  "keeps I C R p P \<Longrightarrow> (\<And>x. P x \<Longrightarrow> keeps I C R (q x) Q) \<Longrightarrow> keeps I C R (bindp p q) Q"
  by (induction p) auto

lemma keeps_weaken: "keeps I C R p P \<Longrightarrow> (\<And>x. P x \<Longrightarrow> Q x) \<Longrightarrow> keeps I C R p Q"
  by (induction p) auto

lemma keeps_forever:
  assumes "\<And>l. P l \<Longrightarrow> keeps I C R (body l) P" "P l"
  shows "keeps I C R (forever n body l) Q"
  using assms(2)
proof (induction n arbitrary: l)
  case (Suc n)
  show ?case using keeps_bindp [OF assms(1) [OF Suc.prems] Suc.IH] by simp
qed simp

lemma keeps_exec:
  "keeps I C R p Q \<Longrightarrow> obeys K R \<Longrightarrow> I g \<Longrightarrow> exec K p g h = (oc, g', h') \<Longrightarrow>
    I g' \<and> oc \<noteq> Halted \<and> (\<forall>x. oc = Done x \<longrightarrow> Q x)"
proof (induction p arbitrary: g h)
  case (Call f args k)
  show ?case
  proof (cases "K h (f, args)")
    case (Some r)
    then have "keeps I C R (k r) Q" using Call.prems(1,2) by (simp add: obeys_def)
    moreover have "exec K (k r) g (h @ [((f, args), r)]) = (oc, g', h')" using Call.prems(4) Some by simp
    ultimately show ?thesis using Call.IH [OF rangeI _ Call.prems(2,3)] by blast
  qed (use Call.prems in auto)
next
  case (Get k)
  then have "keeps I C R (k g) Q" by simp
  moreover have "exec K (k g) g h = (oc, g', h')" using Get.prems(4) by simp
  ultimately show ?case using Get.IH [OF rangeI _ Get.prems(2,3)] by blast
qed auto

text \<open>Tasks that keep an invariant, in any interleaving, with the tasks that they start.\<close>

definition safe :: "('g \<Rightarrow> bool) \<Rightarrow> (syscall \<Rightarrow> bool) \<Rightarrow> (syscall \<Rightarrow> reply \<Rightarrow> bool) \<Rightarrow> ('g, unit) prog list \<times> 'g \<times> event list \<Rightarrow> bool" where
  "safe I C R c = (I (fst (snd c)) \<and> (\<forall>p\<in>set (fst c). keeps I C R p anything))"

definition starts_keeping :: "('g \<Rightarrow> bool) \<Rightarrow> (syscall \<Rightarrow> bool) \<Rightarrow> (syscall \<Rightarrow> reply \<Rightarrow> bool) \<Rightarrow>
    (string \<Rightarrow> val \<Rightarrow> ('g, unit) prog option) \<Rightarrow> bool" where
  "starts_keeping I C R entries \<longleftrightarrow>
    (\<forall>e. C (fst e) \<longrightarrow> (\<forall>p\<in>set (started entries e). keeps I C R p anything))"

lemma started_keeps:
  assumes "starts_keeping I C R entries" "C (fst e)"
  shows "\<forall>p\<in>set (started entries e). keeps I C R p anything"
  using assms unfolding starts_keeping_def by blast

lemma safe_nth: "safe I C R (ps, g, h) \<Longrightarrow> i < length ps \<Longrightarrow> keeps I C R (ps ! i) anything"
  by (auto simp: safe_def)

lemma safe_update:
  assumes "safe I C R (ps, g, h)" "I g'" "keeps I C R p anything" "\<forall>q\<in>set qs. keeps I C R q anything"
  shows "safe I C R (ps[i := p] @ qs, g', h')"
  using assms set_update_subset_insert [of ps i p] by (fastforce simp: safe_def)

lemma safe_step:
  assumes "pstep K entries (ps, g, h) c'" "obeys K R" "safe I C R (ps, g, h)"
    and "starts_keeping I C R entries"
  shows "safe I C R c'"
proof -
  have I: "I g" using assms(3) by (simp add: safe_def)
  from assms(1) show ?thesis
  proof (cases rule: pstep.cases)
    case (PCall i f args k r)
    then have "keeps I C R (Call f args k) anything" using safe_nth [OF assms(3)] by metis
    then have "keeps I C R (k r) anything" and c: "C (fst ((f, args), r))"
      using PCall assms(2) by (simp_all add: obeys_def)
    from safe_update [OF assms(3) I this(1) started_keeps [OF assms(4) c]] show ?thesis by (simp add: PCall)
  next
    case (PGet i k)
    then have "keeps I C R (Get k) anything" using safe_nth [OF assms(3)] by metis
    then have "keeps I C R (k g) anything" using I by simp
    from safe_update [OF assms(3) I this, of "[]"] show ?thesis by (simp add: PGet)
  next
    case (PPut i u p)
    then have "keeps I C R (Put u p) anything" using safe_nth [OF assms(3)] by metis
    then have "I (u g)" "keeps I C R p anything" using I by simp_all
    from safe_update [OF assms(3) this, of "[]"] show ?thesis by (simp add: PPut)
  qed
qed

lemma safe_run:
  assumes "(pstep K entries)\<^sup>*\<^sup>* c c'" "obeys K R" "safe I C R c"
    and "starts_keeping I C R entries"
  shows "safe I C R c'"
  using assms(1,3)
proof induction
  case (step c1 c2)
  then show ?case using safe_step [OF _ assms(2) _ assms(4)] by (cases c1) blast
qed

lemma safe_not_Halt: "safe I C R (ps, g, h) \<Longrightarrow> Halt \<notin> set ps"
  by (auto simp: safe_def)

end
