(* ===== verification/Periodic_Props.thy ===== *)
theory Periodic_Props
  imports Periodic RT_Keeps Menu_Props
begin

text \<open>
  The periodic tasks: the arrays are never left, in any interleaving of the menu with the tasks that
  it starts; starting and stopping are inverse; and the states in which they are not.
\<close>

section \<open>The arrays are never left\<close>

definition slots_ok :: "periodic_vars \<Rightarrow> bool" where
  "slots_ok g \<longleftrightarrow> length (PeriodicThreads_Ids g) = 100 \<and> length (PeriodicThreads_Periods g) = 100 \<and>
    unat (PeriodicThreads_Count g) \<le> 100"

definition starts_in_range :: "syscall \<Rightarrow> bool" where
  "starts_in_range c \<longleftrightarrow> (fst c = rtems_task_start \<longrightarrow> (\<exists>i<100. snd c ! 2 = VInt (int i)))"

abbreviation in_bounds :: "(periodic_vars, 'a) prog \<Rightarrow> ('a \<Rightarrow> bool) \<Rightarrow> bool" where
  "in_bounds p Q \<equiv> keeps slots_ok starts_in_range any_reply p Q"

lemma keeps_for_count:
  assumes "in_bounds p anything" "\<And>i q. i < 100 \<Longrightarrow> in_bounds q anything \<Longrightarrow> in_bounds (body i q) anything"
  shows "k + i = 100 \<Longrightarrow> in_bounds (for_count k body p i) anything"
proof (induction k arbitrary: i)
  case 0
  moreover have "\<not> 100 < unat (PeriodicThreads_Count g)" if "slots_ok g" for g
    using that by (simp add: slots_ok_def)
  ultimately show ?case using assms(1) by auto
next
  case (Suc k)
  then have "in_bounds (body i (for_count k body p (Suc i))) anything" by (intro assms(2)) simp_all
  then show ?case using assms(1) by simp
qed

lemma keeps_Initialize: "in_bounds PeriodicThreads_Start anything"
proof -
  have "in_bounds (for_count 100 create_and_start (Put (\<lambda>g. g\<lparr>PeriodicThreads_running := True\<rparr>) (
      Put (\<lambda>g. g\<lparr>PeriodicThreads_initialized := True\<rparr>) (Ret ()))) 0) anything"
    by (rule keeps_for_count) (auto simp: create_and_start_def slots_ok_def starts_in_range_def)
  then show ?thesis
    by (simp add: PeriodicThreads_Start_def PeriodicThreads_Initialize_def) (simp add: slots_ok_def)
qed

lemma keeps_Stop: "in_bounds PeriodicThreads_Stop anything"
proof -
  have "in_bounds (for_count 100 delete_both (Put (\<lambda>g. g\<lparr>PeriodicThreads_running := False\<rparr>) (
      Put (\<lambda>g. g\<lparr>PeriodicThreads_initialized := False\<rparr>) (Ret ()))) 0) anything"
    by (rule keeps_for_count) (auto simp: delete_both_def slots_ok_def starts_in_range_def)
  then show ?thesis
    by (simp add: PeriodicThreads_Stop_def starts_in_range_def)
qed

lemma keeps_Body: "index < 100 \<Longrightarrow> in_bounds (PeriodicThreads_Body n index) anything"
  unfolding PeriodicThreads_Body_def Let_def
  by (auto simp: slots_ok_def starts_in_range_def intro!: keeps_forever [where P = anything])

text \<open>The menu: its prompts touch no globals.\<close>

lemma keeps_Get_int_bounded:
  "lo \<le> hi \<Longrightarrow> in_bounds (Test_menu_Get_int_bounded n junk str lo hi) (\<lambda>v. lo \<le> v \<and> v \<le> hi)"
proof -
  have "in_bounds (bounded_loop n str lo hi again msg) (\<lambda>v. lo \<le> v \<and> v \<le> hi)" for again msg
    by (induction n arbitrary: again msg)
       (auto simp: prompt_defs starts_in_range_def split: option.split dest: accept_bounded_range)
  then show "lo \<le> hi \<Longrightarrow> ?thesis" by (simp add: Test_menu_Get_int_bounded_def asserting_def)
qed

lemma keeps_SetNumber: "in_bounds (SetNumberOfPeriodicThreads n junk) anything"
  unfolding SetNumberOfPeriodicThreads_def
  by (rule keeps_bindp [OF keeps_Get_int_bounded])
     (auto simp: slots_ok_def unsigned_of_int take_bit_int_eq_self nat_le_iff)

lemma keeps_headline: "in_bounds p Q \<Longrightarrow> in_bounds (headline title p) Q"
proof -
  have "in_bounds p Q \<Longrightarrow> in_bounds (underline k p) Q" for k p
    by (induction k) (simp_all add: starts_in_range_def)
  then show "in_bounds p Q \<Longrightarrow> ?thesis" by (simp add: headline_def starts_in_range_def)
qed

lemma keeps_menu_lines: "in_bounds p Q \<Longrightarrow> in_bounds (menu_lines i es p) Q"
  by (induction es arbitrary: i) (simp_all add: starts_in_range_def)

lemma keeps_Test_menu_run:
  assumes "\<forall>e\<in>set (entry menu). in_bounds (routine e) anything"
  shows "in_bounds (Test_menu_run m n junk menu) anything"
proof (induction m)
  case (Suc m)
  have row: "in_bounds (routine (entry menu ! nat (v - 1))) anything" if "0 < v" "v \<le> int (length (entry menu))" for v
    using that assms by (intro bspec [OF assms] nth_mem) linarith
  show ?case
    unfolding Test_menu_run.simps
    by (intro keeps_headline keeps_menu_lines)
       (auto simp: starts_in_range_def intro!: keeps_bindp [OF keeps_Get_int_bounded] keeps_bindp [OF row] Suc)
qed simp

lemma keeps_Function: "in_bounds (PeriodicThreadsFunction m n junk) anything"
  unfolding PeriodicThreadsFunction_def
  by (rule keeps_Test_menu_run) (simp add: PeriodicThreadsMenu_def keeps_Initialize keeps_Stop keeps_SetNumber)

text \<open>The entry point that the tasks are started with.\<close>

definition periodic_entries :: "nat \<Rightarrow> string \<Rightarrow> val \<Rightarrow> (periodic_vars, unit) prog option" where
  "periodic_entries n t v = (if t = ''PeriodicThreads_Body'' then Some (PeriodicThreads_Body n (nat (as_int v))) else None)"

lemma starts_keeping_entries: "starts_keeping slots_ok starts_in_range any_reply (periodic_entries n)"
proof -
  have "in_bounds p anything" if "starts_in_range (fst e)" "p \<in> set (started (periodic_entries n) e)" for e p
  proof -
    note prems = that
    obtain t where t: "fst (fst e) = rtems_task_start" "periodic_entries n t (snd (fst e) ! 2) = Some p"
      using started_task [OF prems(2)] by blast
    then obtain i where "i < 100" "snd (fst e) ! 2 = VInt (int i)"
      using prems(1) unfolding starts_in_range_def by blast
    moreover from this have "p = PeriodicThreads_Body n i"
      using t(2) by (auto simp: periodic_entries_def split: if_splits)
    ultimately show ?thesis using keeps_Body by blast
  qed
  then show ?thesis by (auto simp: starts_keeping_def)
qed

text \<open>
  C6: However the menu of the periodic threads, whatever is typed, and the tasks that it starts
  are interleaved: no access leaves the arrays of identifiers, no assertion fails, and the number
  of threads stays at most 100.
\<close>

theorem periodic_tasks_in_bounds:
  assumes "(pstep K (periodic_entries n))\<^sup>*\<^sup>*
      ([bindp (PeriodicThreadsFunction m n junk) (\<lambda>_. PeriodicThreads_Stop)], periodic_start, []) (ps, g, h)"
  shows "Halt \<notin> set ps \<and> length (PeriodicThreads_Ids g) = 100 \<and> length (PeriodicThreads_Periods g) = 100 \<and>
    unat (PeriodicThreads_Count g) \<le> 100"
proof -
  have "in_bounds (bindp (PeriodicThreadsFunction m n junk) (\<lambda>_. PeriodicThreads_Stop)) anything"
    by (rule keeps_bindp [OF keeps_Function keeps_Stop])
  then have "safe slots_ok starts_in_range any_reply
      ([bindp (PeriodicThreadsFunction m n junk) (\<lambda>_. PeriodicThreads_Stop)], periodic_start, [])"
    by (simp add: safe_def slots_ok_def periodic_start_def)
  from safe_run [OF assms obeys_any this starts_keeping_entries] show ?thesis
    using safe_not_Halt by (auto simp: safe_def slots_ok_def)
qed

section \<open>Starting and stopping\<close>

text \<open>
  The objects of a history: \<open>live cr ds h\<close> holds the identifiers that successful calls of \<open>cr\<close> returned
  and that no successful call of one of \<open>ds\<close> has named since.  A dormant task has been created and not
  been started; the others run.
\<close>

definition after_event :: "sysfn \<Rightarrow> sysfn set \<Rightarrow> val set \<Rightarrow> event \<Rightarrow> val set" where
  "after_event cr ds L e = (case e of ((f, args), r) \<Rightarrow>
     if ret r = SUCCESSFUL \<and> f = cr then insert (hd (outs r)) L
     else if ret r = SUCCESSFUL \<and> f \<in> ds then L - {hd args}
     else L)"

definition live :: "sysfn \<Rightarrow> sysfn set \<Rightarrow> event list \<Rightarrow> val set" where
  "live cr ds h = foldl (after_event cr ds) {} h"

lemma live_simps [simp]:
  "live cr ds [] = {}" "live cr ds (h @ [e]) = after_event cr ds (live cr ds h) e"
  by (simp_all add: live_def)

abbreviation live_tasks :: "event list \<Rightarrow> val set" where
  "live_tasks \<equiv> live rtems_task_create {rtems_task_delete}"

abbreviation dormant_tasks :: "event list \<Rightarrow> val set" where
  "dormant_tasks \<equiv> live rtems_task_create {rtems_task_start, rtems_task_delete}"

abbreviation live_periods :: "event list \<Rightarrow> val set" where
  "live_periods \<equiv> live rtems_rate_monotonic_create {rtems_rate_monotonic_delete}"

definition running :: "event list \<Rightarrow> val set" where
  "running h = live_tasks h - dormant_tasks h"

lemma dormant_live: "dormant_tasks h \<subseteq> live_tasks h"
  by (induction h rule: rev_induct) (auto simp: after_event_def split: prod.splits)

text \<open>
  The kernel of \<open>n\<close> tasks, as the RTEMS documentation has it: a creation returns a new identifier
  while there is room, a start wants a dormant task, a deletion an object that exists.
\<close>

definition task_law :: "kernel \<Rightarrow> nat \<Rightarrow> bool" where
  "task_law K n \<longleftrightarrow>
    (\<forall>h args. \<exists>r. K h (rtems_task_create, args) = Some r \<and>
      (if calls_to rtems_task_create h < n then ret r = SUCCESSFUL \<and> (\<exists>v. outs r = [v] \<and> v \<notin> live_tasks h)
       else ret r \<noteq> SUCCESSFUL \<and> outs r = [])) \<and>
    (\<forall>h v args. \<exists>r. K h (rtems_task_start, v # args) = Some r \<and> (ret r = SUCCESSFUL \<longleftrightarrow> v \<in> dormant_tasks h)) \<and>
    (\<forall>h v. \<exists>r. K h (rtems_task_delete, [v]) = Some r \<and> (ret r = SUCCESSFUL \<longleftrightarrow> v \<in> live_tasks h)) \<and>
    (\<forall>h args. \<exists>r v. K h (rtems_rate_monotonic_create, args) = Some r \<and> ret r = SUCCESSFUL \<and> outs r = [v] \<and>
      v \<notin> live_periods h) \<and>
    (\<forall>h v. \<exists>r. K h (rtems_rate_monotonic_delete, [v]) = Some r \<and> (ret r = SUCCESSFUL \<longleftrightarrow> v \<in> live_periods h)) \<and>
    (\<forall>h f args. f \<in> {fprintf, rtems_rate_monotonic_period, rtems_task_wake_after} \<longrightarrow> K h (f, args) \<noteq> None)"

lemma task_law_create:
  "task_law K n \<Longrightarrow> calls_to rtems_task_create h < n \<Longrightarrow>
    \<exists>r v. K h (rtems_task_create, args) = Some r \<and> ret r = SUCCESSFUL \<and> outs r = [v] \<and> v \<notin> live_tasks h"
  unfolding task_law_def by meson

lemma task_law_refuse:
  "task_law K n \<Longrightarrow> \<not> calls_to rtems_task_create h < n \<Longrightarrow>
    \<exists>r. K h (rtems_task_create, args) = Some r \<and> ret r \<noteq> SUCCESSFUL \<and> outs r = []"
  unfolding task_law_def by meson

lemma task_law_parts:
  assumes "task_law K n"
  shows "\<forall>h v args. \<exists>r. K h (rtems_task_start, v # args) = Some r \<and> (ret r = SUCCESSFUL \<longleftrightarrow> v \<in> dormant_tasks h)"
    "\<forall>h v. \<exists>r. K h (rtems_task_delete, [v]) = Some r \<and> (ret r = SUCCESSFUL \<longleftrightarrow> v \<in> live_tasks h)"
    "\<forall>h args. \<exists>r v. K h (rtems_rate_monotonic_create, args) = Some r \<and> ret r = SUCCESSFUL \<and> outs r = [v] \<and>
      v \<notin> live_periods h"
    "\<forall>h v. \<exists>r. K h (rtems_rate_monotonic_delete, [v]) = Some r \<and> (ret r = SUCCESSFUL \<longleftrightarrow> v \<in> live_periods h)"
    "\<forall>h f args. f \<in> {fprintf, rtems_rate_monotonic_period, rtems_task_wake_after} \<longrightarrow> K h (f, args) \<noteq> None"
  using assms unfolding task_law_def by - (elim conjE, assumption)+

lemma task_law_start:
  "task_law K n \<Longrightarrow> v \<in> dormant_tasks h \<Longrightarrow>
    \<exists>r. K h (rtems_task_start, v # args) = Some r \<and> ret r = SUCCESSFUL"
  using task_law_parts(1) by blast

lemma task_law_deletes:
  "task_law K n \<Longrightarrow> \<exists>r. K h (rtems_task_delete, [v]) = Some r \<and> (ret r = SUCCESSFUL \<longleftrightarrow> v \<in> live_tasks h)"
  "task_law K n \<Longrightarrow>
    \<exists>r. K h (rtems_rate_monotonic_delete, [v]) = Some r \<and> (ret r = SUCCESSFUL \<longleftrightarrow> v \<in> live_periods h)"
  by (drule task_law_parts(2), drule spec, erule spec) (drule task_law_parts(4), drule spec, erule spec)

lemma task_law_period:
  "task_law K n \<Longrightarrow> \<exists>r v. K h (rtems_rate_monotonic_create, args) = Some r \<and> ret r = SUCCESSFUL \<and>
    outs r = [v] \<and> v \<notin> live_periods h"
  by (drule task_law_parts(3), drule spec, erule spec)

lemma task_law_other:
  "task_law K n \<Longrightarrow> f \<in> {fprintf, rtems_rate_monotonic_period, rtems_task_wake_after} \<Longrightarrow>
    \<exists>r. K h (f, args) = Some r"
  using task_law_parts(5) by blast

text \<open>What a part of the program leaves of the objects.\<close>

definition objects :: "event list \<Rightarrow> val set \<times> val set \<times> val set" where
  "objects h = (live_tasks h, dormant_tasks h, live_periods h)"

lemma objects_other [simp]:
  "f \<notin> {rtems_task_create, rtems_task_start, rtems_task_delete, rtems_rate_monotonic_create,
     rtems_rate_monotonic_delete} \<Longrightarrow> objects (h @ [((f, args), r)]) = objects h"
  by (simp add: objects_def after_event_def)

lemma objects_failed [simp]: "ret r \<noteq> SUCCESSFUL \<Longrightarrow> objects (h @ [(c, r)]) = objects h"
  by (cases c) (simp add: objects_def after_event_def)

lemma objects_events:
  assumes "ret r = SUCCESSFUL" "objects h = (T, D, P)"
  shows "objects (h @ [((rtems_task_create, args), r)]) = (insert (hd (outs r)) T, insert (hd (outs r)) D, P)"
    "objects (h @ [((rtems_task_start, args), r)]) = (T, D - {hd args}, P)"
    "objects (h @ [((rtems_task_delete, args), r)]) = (T - {hd args}, D - {hd args}, P)"
    "objects (h @ [((rtems_rate_monotonic_create, args), r)]) = (T, D, insert (hd (outs r)) P)"
    "objects (h @ [((rtems_rate_monotonic_delete, args), r)]) = (T, D, P - {hd args})"
  using assms by (simp_all add: objects_def after_event_def)

text \<open>
  The two loops: the first loop creates and starts a task for each index and stores its identifier,
  the second one deletes what it finds.
\<close>

lemma start_one:
  assumes "task_law K n" "calls_to rtems_task_create h < n" "i < length (PeriodicThreads_Ids g)"
    and "objects h = (T, D, P)"
  shows "\<exists>v h'. exec K (create_and_start i p) g h =
      exec K p (g\<lparr>PeriodicThreads_Ids := (PeriodicThreads_Ids g)[i := v]\<rparr>) h' \<and>
    v \<notin> T \<and> objects h' = (insert v T, D, P) \<and>
    calls_to rtems_task_create h' = Suc (calls_to rtems_task_create h)"
proof -
  let ?a = "[name_of_index ''TA'' i, VInt 2, VOp ''*'' [VRef ''RTEMS_MINIMUM_STACK_SIZE'', VInt 4],
    VRef ''RTEMS_DEFAULT_MODES'', VRef ''RTEMS_FLOATING_POINT'', VOp ''&PeriodicThreads_Ids'' [VInt (int i)]]"
  obtain r v where r: "K h (rtems_task_create, ?a) = Some r" "ret r = SUCCESSFUL" "outs r = [v]" "v \<notin> live_tasks h"
    using task_law_create [OF assms(1,2)] by blast
  let ?h = "h @ [((rtems_task_create, ?a), r)]"
  let ?b = "[v, VRef ''PeriodicThreads_Body'', VInt (int i)]"
  have h: "v \<in> dormant_tasks ?h" using r by (simp add: after_event_def)
  obtain s where s: "K ?h (rtems_task_start, ?b) = Some s" "ret s = SUCCESSFUL"
    using task_law_start [OF assms(1) h] by blast
  have v: "v \<notin> T" "v \<notin> D" using r(4) dormant_live [of h] assms(4) by (auto simp: objects_def)
  have "objects ?h = (insert v T, insert v D, P)" using objects_events(1) [OF r(2) assms(4)] r(3) by simp
  then have "objects (?h @ [((rtems_task_start, ?b), s)]) = (insert v T, D, P)"
    using objects_events(2) [OF s(2)] v by (simp del: append_assoc)
  then show ?thesis
    by (intro exI [of _ v] exI [of _ "?h @ [((rtems_task_start, ?b), s)]"])
       (use r s v assms(3) in \<open>simp add: create_and_start_def out_def del: append_assoc\<close>)
qed

lemma stop_one:
  assumes "task_law K n" "objects h = (T, D, P)"
    and "PeriodicThreads_Periods g ! i \<in> P" "PeriodicThreads_Ids g ! i \<in> T"
  shows "\<exists>h'. exec K (delete_both i p) g h = exec K p g h' \<and>
    objects h' = (T - {PeriodicThreads_Ids g ! i}, D - {PeriodicThreads_Ids g ! i}, P - {PeriodicThreads_Periods g ! i})"
proof -
  let ?a = "[PeriodicThreads_Periods g ! i]" and ?b = "[PeriodicThreads_Ids g ! i]"
  obtain r where r: "K h (rtems_rate_monotonic_delete, ?a) = Some r" "ret r = SUCCESSFUL"
    using task_law_deletes(2) [OF assms(1)] assms(2,3) by (fastforce simp: objects_def)
  let ?h = "h @ [((rtems_rate_monotonic_delete, ?a), r)]"
  have "PeriodicThreads_Ids g ! i \<in> live_tasks ?h" using assms(2,4) by (simp add: objects_def after_event_def)
  then obtain s where s: "K ?h (rtems_task_delete, ?b) = Some s" "ret s = SUCCESSFUL"
    using task_law_deletes(1) [OF assms(1)] by blast
  show ?thesis
    using objects_events(3) [OF s(2) objects_events(5) [OF r(2) assms(2)], of ?a ?b] r s
    by (intro exI [of _ "?h @ [((rtems_task_delete, ?b), s)]"]) (simp add: delete_both_def del: append_assoc)
qed

lemma start_loop:
  assumes "task_law K n" "k + i = 100" "i \<le> j" "unat (PeriodicThreads_Count g) \<le> 100"
    and "j \<le> unat (PeriodicThreads_Count g)" "length (PeriodicThreads_Ids g) = 100"
    and "calls_to rtems_task_create h + (j - i) \<le> n" "objects h = (T, D, P)"
  shows "\<exists>ids h'. length ids = j - i \<and> distinct ids \<and> set ids \<inter> T = {} \<and>
    exec K (for_count k create_and_start p i) g h =
      exec K (for_count (100 - j) create_and_start p j)
        (g\<lparr>PeriodicThreads_Ids := take i (PeriodicThreads_Ids g) @ ids @ drop j (PeriodicThreads_Ids g)\<rparr>) h' \<and>
    objects h' = (T \<union> set ids, D, P) \<and>
    calls_to rtems_task_create h' = calls_to rtems_task_create h + (j - i)"
  using assms(2-)
proof (induction k arbitrary: i g h T)
  case 0
  then have "j = i" "i = 100" by simp_all
  then show ?case using 0 by (intro exI [of _ "[]"] exI [of _ h]) simp
next
  case (Suc k)
  show ?case
  proof (cases "i = j")
    case True
    then have "100 - j = Suc k" using Suc.prems(1) by simp
    then show ?thesis using True Suc.prems by (intro exI [of _ "[]"] exI [of _ h]) simp
  next
    case False
    then have i: "i < j" "i < length (PeriodicThreads_Ids g)" "i < unat (PeriodicThreads_Count g)"
      and n: "calls_to rtems_task_create h < n" using Suc.prems by simp_all
    let ?q = "for_count k create_and_start p (Suc i)"
    obtain v h1 where 1: "exec K (create_and_start i ?q) g h =
        exec K ?q (g\<lparr>PeriodicThreads_Ids := (PeriodicThreads_Ids g)[i := v]\<rparr>) h1"
      "v \<notin> T" "objects h1 = (insert v T, D, P)"
      "calls_to rtems_task_create h1 = Suc (calls_to rtems_task_create h)"
      using start_one [OF assms(1) n i(2) Suc.prems(7), of ?q] by blast
    let ?g = "g\<lparr>PeriodicThreads_Ids := (PeriodicThreads_Ids g)[i := v]\<rparr>"
    have "\<exists>ids h'. length ids = j - Suc i \<and> distinct ids \<and> set ids \<inter> insert v T = {} \<and>
        exec K ?q ?g h1 =
        exec K (for_count (100 - j) create_and_start p j)
          (?g\<lparr>PeriodicThreads_Ids := take (Suc i) (PeriodicThreads_Ids ?g) @ ids @ drop j (PeriodicThreads_Ids ?g)\<rparr>) h' \<and>
        objects h' = (insert v T \<union> set ids, D, P) \<and>
        calls_to rtems_task_create h' = calls_to rtems_task_create h1 + (j - Suc i)"
      using Suc.prems i n 1(3,4) by (intro Suc.IH) simp_all
    then obtain ids h' where 2: "length ids = j - Suc i" "distinct ids" "set ids \<inter> insert v T = {}"
      "exec K ?q ?g h1 =
        exec K (for_count (100 - j) create_and_start p j)
          (?g\<lparr>PeriodicThreads_Ids := take (Suc i) (PeriodicThreads_Ids ?g) @ ids @ drop j (PeriodicThreads_Ids ?g)\<rparr>) h'"
      "objects h' = (insert v T \<union> set ids, D, P)"
      "calls_to rtems_task_create h' = calls_to rtems_task_create h1 + (j - Suc i)" by blast
    have "take (Suc i) ((PeriodicThreads_Ids g)[i := v]) = take i (PeriodicThreads_Ids g) @ [v]"
      "drop j ((PeriodicThreads_Ids g)[i := v]) = drop j (PeriodicThreads_Ids g)"
      using i by (simp_all add: take_Suc_conv_app_nth)
    then show ?thesis
      using 1 2 i by (intro exI [of _ "v # ids"] exI [of _ h']) (simp, linarith)
  qed
qed

text \<open>A task after its start: it creates its period, and runs on without touching an object.\<close>

lemma rounds_run:
  assumes "task_law K m"
  shows "\<exists>h'. exec K (forever n (\<lambda>_.
      Get (\<lambda>g. Do rtems_rate_monotonic_period [PeriodicThreads_Periods g ! i, VInt a] (
      Do rtems_task_wake_after [VInt b] (Ret ())))) ()) g h = (Unfinished, g, h') \<and> objects h' = objects h"
proof (induction n arbitrary: h)
  case (Suc n)
  let ?a = "[PeriodicThreads_Periods g ! i, VInt a]"
  obtain r where r: "K h (rtems_rate_monotonic_period, ?a) = Some r" using task_law_other [OF assms] by blast
  let ?h = "h @ [((rtems_rate_monotonic_period, ?a), r)]"
  obtain s where s: "K ?h (rtems_task_wake_after, [VInt b]) = Some s" using task_law_other [OF assms] by blast
  show ?case
    using r s Suc.IH [of "?h @ [((rtems_task_wake_after, [VInt b]), s)]"] by (simp del: append_assoc)
qed simp

lemma body_runs:
  assumes "task_law K m" "i < 100" "objects h = (T, D, P)"
  shows "\<exists>v h'. exec K (PeriodicThreads_Body n i) g h =
      (Unfinished, g\<lparr>PeriodicThreads_Periods := (PeriodicThreads_Periods g)[i := v]\<rparr>, h') \<and>
    v \<notin> P \<and> objects h' = (T, D, insert v P)"
proof -
  let ?a = "[VRef ''stderr'', VStr ''Periodic task %d starting\<newline>'', VInt (int i + 1)]"
  obtain r where r: "K h (fprintf, ?a) = Some r" using task_law_other [OF assms(1)] by blast
  let ?h = "h @ [((fprintf, ?a), r)]"
  let ?b = "[name_of_index ''PE'' i, VOp ''&PeriodicThreads_Periods'' [VInt (int i)]]"
  obtain s v where s: "K ?h (rtems_rate_monotonic_create, ?b) = Some s" "ret s = SUCCESSFUL" "outs s = [v]"
    "v \<notin> live_periods ?h"
    using task_law_period [OF assms(1)] by blast
  let ?h2 = "?h @ [((rtems_rate_monotonic_create, ?b), s)]"
  have o: "objects ?h = (T, D, P)" using assms(3) by simp
  then have v: "v \<notin> P" using s(4) by (simp add: objects_def)
  let ?g = "g\<lparr>PeriodicThreads_Periods := (PeriodicThreads_Periods g)[i := v]\<rparr>"
  let ?loop = "forever n (\<lambda>_.
      Get (\<lambda>g. Do rtems_rate_monotonic_period [PeriodicThreads_Periods g ! i, VInt ((int i + 1) * 2)] (
      Do rtems_task_wake_after [VInt (int i + 1)] (Ret ())))) () :: (periodic_vars, unit) prog"
  have 1: "exec K (PeriodicThreads_Body n i) g h = exec K ?loop ?g ?h2"
    using r s assms(2) by (simp add: PeriodicThreads_Body_def out_def Let_def del: append_assoc live_simps)
  obtain h' where "exec K ?loop ?g ?h2 = (Unfinished, ?g, h')" "objects h' = objects ?h2"
    using rounds_run [OF assms(1)] by blast
  moreover have "objects ?h2 = (T, D, insert v P)"
    using objects_events(4) [OF s(2) o] s(3) by (simp del: append_assoc)
  ultimately show ?thesis using v unfolding 1 by (intro exI [of _ v] exI [of _ h']) simp
qed

text \<open>The started tasks run, in some order, each for some number of rounds.\<close>

primrec run_tasks :: "kernel \<Rightarrow> (nat \<Rightarrow> nat) \<Rightarrow> nat list \<Rightarrow> periodic_vars \<Rightarrow> event list \<Rightarrow> periodic_vars \<times> event list" where
  "run_tasks K rounds [] g h = (g, h)"
| "run_tasks K rounds (i # order) g h =
    (case exec K (PeriodicThreads_Body (rounds i) i) g h of (r, g', h') \<Rightarrow> run_tasks K rounds order g' h')"

lemma tasks_run:
  assumes "task_law K m" "distinct order" "set order \<subseteq> {..<100}" "length (PeriodicThreads_Periods g) = 100"
    and "objects h = (T, D, P)"
  shows "\<exists>qs h'. run_tasks K rounds order g h = (g\<lparr>PeriodicThreads_Periods := qs\<rparr>, h') \<and> length qs = 100 \<and>
    inj_on (nth qs) (set order) \<and> nth qs ` set order \<inter> P = {} \<and>
    objects h' = (T, D, P \<union> nth qs ` set order) \<and>
    (\<forall>j. j \<notin> set order \<longrightarrow> qs ! j = PeriodicThreads_Periods g ! j)"
  using assms(2-)
proof (induction order arbitrary: g h P)
  case Nil
  then show ?case by (intro exI [of _ "PeriodicThreads_Periods g"] exI [of _ h]) simp
next
  case (Cons i order)
  obtain v h1 where 1: "exec K (PeriodicThreads_Body (rounds i) i) g h =
      (Unfinished, g\<lparr>PeriodicThreads_Periods := (PeriodicThreads_Periods g)[i := v]\<rparr>, h1)"
    "v \<notin> P" "objects h1 = (T, D, insert v P)"
    using body_runs [OF assms(1) _ Cons.prems(4), of i "rounds i" g] Cons.prems(2) by auto
  let ?g = "g\<lparr>PeriodicThreads_Periods := (PeriodicThreads_Periods g)[i := v]\<rparr>"
  obtain qs h' where 2: "run_tasks K rounds order ?g h1 = (?g\<lparr>PeriodicThreads_Periods := qs\<rparr>, h')" "length qs = 100"
    "inj_on (nth qs) (set order)" "nth qs ` set order \<inter> insert v P = {}"
    "objects h' = (T, D, insert v P \<union> nth qs ` set order)"
    "\<forall>j. j \<notin> set order \<longrightarrow> qs ! j = PeriodicThreads_Periods ?g ! j"
    using Cons.IH [OF _ _ _ 1(3), of ?g] Cons.prems by auto
  have "qs ! i = v" using 2(6) Cons.prems(1-3) by simp
  then show ?case
    using 1 2 Cons.prems(1) by (intro exI [of _ qs] exI [of _ h']) auto
qed

lemma stop_loop:
  assumes "task_law K n" "k + i = 100" "i \<le> j" "j \<le> unat (PeriodicThreads_Count g)" "j \<le> 100"
    and "length (PeriodicThreads_Ids g) = 100" "length (PeriodicThreads_Periods g) = 100"
    and "distinct (take j (PeriodicThreads_Ids g))" "distinct (take j (PeriodicThreads_Periods g))"
    and "objects h = (T, D, P)"
    and "set (drop i (take j (PeriodicThreads_Ids g))) \<subseteq> T" "set (drop i (take j (PeriodicThreads_Periods g))) \<subseteq> P"
  shows "\<exists>h'. exec K (for_count k delete_both p i) g h = exec K (for_count (100 - j) delete_both p j) g h' \<and>
    objects h' = (T - set (drop i (take j (PeriodicThreads_Ids g))), D - set (drop i (take j (PeriodicThreads_Ids g))),
      P - set (drop i (take j (PeriodicThreads_Periods g))))"
  using assms(2-)
proof (induction k arbitrary: i h T D P)
  case 0
  then show ?case by (intro exI [of _ h]) simp
next
  case (Suc k)
  show ?case
  proof (cases "i = j")
    case True
    then have "100 - j = Suc k" using Suc.prems(1) by simp
    then show ?thesis using True Suc.prems(9) by (intro exI [of _ h]) simp
  next
    case False
    let ?q = "for_count k delete_both p (Suc i)"
    let ?Is = "PeriodicThreads_Ids g" and ?Ps = "PeriodicThreads_Periods g"
    have i: "i < j" using Suc.prems False by simp
    have ds: "drop i (take j xs) = xs ! i # drop (Suc i) (take j xs)" if "length xs = 100" for xs :: "val list"
      using that Suc.prems(4) i by (subst Cons_nth_drop_Suc [symmetric]) simp_all
    have fresh: "xs ! i \<notin> set (drop (Suc i) (take j xs))" if "length xs = 100" "distinct (take j xs)" for xs :: "val list"
      using distinct_drop [OF that(2), of i] ds [OF that(1)] by simp
    obtain h1 where 1: "exec K (delete_both i ?q) g h = exec K ?q g h1"
      "objects h1 = (T - {?Is ! i}, D - {?Is ! i}, P - {?Ps ! i})"
      using stop_one [OF assms(1) Suc.prems(9), of g i ?q] Suc.prems(10,11) ds [OF Suc.prems(5)] ds [OF Suc.prems(6)]
      by auto
    have "\<exists>h'. exec K ?q g h1 = exec K (for_count (100 - j) delete_both p j) g h' \<and>
      objects h' = (T - {?Is ! i} - set (drop (Suc i) (take j ?Is)), D - {?Is ! i} - set (drop (Suc i) (take j ?Is)),
        P - {?Ps ! i} - set (drop (Suc i) (take j ?Ps)))"
    proof (rule Suc.IH [OF _ _ Suc.prems(3-8) 1(2)])
      show "k + Suc i = 100" "Suc i \<le> j" using Suc.prems(1) i by simp_all
      show "set (drop (Suc i) (take j ?Is)) \<subseteq> T - {?Is ! i}" "set (drop (Suc i) (take j ?Ps)) \<subseteq> P - {?Ps ! i}"
        using Suc.prems(10,11) ds [OF Suc.prems(5)] ds [OF Suc.prems(6)]
          fresh [OF Suc.prems(5,7)] fresh [OF Suc.prems(6,8)] by auto
    qed
    then obtain h' where 2: "exec K ?q g h1 = exec K (for_count (100 - j) delete_both p j) g h'"
      "objects h' = (T - {?Is ! i} - set (drop (Suc i) (take j ?Is)), D - {?Is ! i} - set (drop (Suc i) (take j ?Is)),
        P - {?Ps ! i} - set (drop (Suc i) (take j ?Ps)))" by blast
    show ?thesis
      using 1(1) 2 i Suc.prems(3) ds [OF Suc.prems(5)] ds [OF Suc.prems(6)]
      by (intro exI [of _ h']) (auto simp: set_diff_eq)
  qed
qed

lemma for_count_end: "exec K (for_count (100 - unat (PeriodicThreads_Count g)) body p (unat (PeriodicThreads_Count g))) g h = exec K p g h"
  by (cases "100 - unat (PeriodicThreads_Count g)") simp_all

lemma start_runs:
  assumes "task_law K n" "\<not> PeriodicThreads_initialized g" "unat (PeriodicThreads_Count g) \<le> 100"
    and "length (PeriodicThreads_Ids g) = 100" "calls_to rtems_task_create h + unat (PeriodicThreads_Count g) \<le> n"
    and "objects h = (T, D, P)"
  obtains ids h' where "length ids = unat (PeriodicThreads_Count g)" "distinct ids" "set ids \<inter> T = {}"
    "exec K PeriodicThreads_Start g h =
      (Done (), g\<lparr>PeriodicThreads_Ids := ids @ drop (unat (PeriodicThreads_Count g)) (PeriodicThreads_Ids g),
        PeriodicThreads_initialized := True, PeriodicThreads_running := True\<rparr>, h')"
    "objects h' = (T \<union> set ids, D, P)"
proof -
  let ?c = "unat (PeriodicThreads_Count g)"
  let ?p = "Put (\<lambda>g. g\<lparr>PeriodicThreads_running := True\<rparr>) (Put (\<lambda>g. g\<lparr>PeriodicThreads_initialized := True\<rparr>) (Ret ()))"
  let ?g = "g\<lparr>PeriodicThreads_running := False\<rparr>"
  obtain ids h1 where 1: "length ids = ?c" "distinct ids" "set ids \<inter> T = {}"
    "exec K (for_count 100 create_and_start ?p 0) ?g h =
      exec K (for_count (100 - ?c) create_and_start ?p ?c)
        (?g\<lparr>PeriodicThreads_Ids := ids @ drop ?c (PeriodicThreads_Ids g)\<rparr>) h1"
    "objects h1 = (T \<union> set ids, D, P)"
    using start_loop [OF assms(1), of 100 0 ?c ?g h T D P ?p] assms(3-6) by auto
  have "exec K (for_count (100 - ?c) create_and_start ?p ?c)
      (?g\<lparr>PeriodicThreads_Ids := ids @ drop ?c (PeriodicThreads_Ids g)\<rparr>) h1 =
    (Done (), g\<lparr>PeriodicThreads_Ids := ids @ drop ?c (PeriodicThreads_Ids g),
      PeriodicThreads_initialized := True, PeriodicThreads_running := True\<rparr>, h1)"
    using for_count_end [of K "?g\<lparr>PeriodicThreads_Ids := ids @ drop ?c (PeriodicThreads_Ids g)\<rparr>"] by simp
  then show ?thesis
    using that [OF 1(1-3) _ 1(5)] 1(4) assms(2)
    by (simp add: PeriodicThreads_Start_def PeriodicThreads_Initialize_def)
qed

lemma stop_runs:
  assumes "task_law K n" "PeriodicThreads_initialized g" "c = unat (PeriodicThreads_Count g)" "c \<le> 100"
    and "length (PeriodicThreads_Ids g) = 100" "length (PeriodicThreads_Periods g) = 100"
    and "distinct (take c (PeriodicThreads_Ids g))" "distinct (take c (PeriodicThreads_Periods g))"
    and "objects h = (T, D, P)"
    and "set (take c (PeriodicThreads_Ids g)) \<subseteq> T" "set (take c (PeriodicThreads_Periods g)) \<subseteq> P"
  shows "\<exists>h'. exec K PeriodicThreads_Stop g h =
      (Done (), g\<lparr>PeriodicThreads_running := False, PeriodicThreads_initialized := False\<rparr>, h') \<and>
    objects h' = (T - set (take c (PeriodicThreads_Ids g)), D - set (take c (PeriodicThreads_Ids g)),
      P - set (take c (PeriodicThreads_Periods g)))"
proof -
  let ?q = "Put (\<lambda>g. g\<lparr>PeriodicThreads_running := False\<rparr>) (Put (\<lambda>g. g\<lparr>PeriodicThreads_initialized := False\<rparr>) (Ret ()))"
  let ?a = "[VRef ''stderr'', VStr ''Stopping Periodic Threads\<newline>'']"
  obtain r where r: "K h (fprintf, ?a) = Some r" using task_law_other [OF assms(1)] by blast
  let ?h = "h @ [((fprintf, ?a), r)]"
  have "objects ?h = (T, D, P)" using assms(9) by simp
  then obtain h' where 1: "exec K (for_count 100 delete_both ?q 0) g ?h = exec K (for_count (100 - c) delete_both ?q c) g h'"
    "objects h' = (T - set (take c (PeriodicThreads_Ids g)), D - set (take c (PeriodicThreads_Ids g)),
      P - set (take c (PeriodicThreads_Periods g)))"
    using stop_loop [OF assms(1), of 100 0 c g ?h T D P ?q] assms(3-) by auto
  have "exec K (for_count (100 - c) delete_both ?q c) g h' =
      (Done (), g\<lparr>PeriodicThreads_running := False, PeriodicThreads_initialized := False\<rparr>, h')"
    using for_count_end [of K g delete_both ?q h'] assms(3) by simp
  then show ?thesis
    using 1 r assms(2) by (intro exI [of _ h']) (simp add: PeriodicThreads_Stop_def)
qed



text \<open>
  When the count has been raised between start and stop, stopping deletes the tasks that run,
  fails at the first period that was never created and keeps the state initialised, so that
  starting afterwards does nothing.
\<close>

theorem count_raised_sticks:
  assumes "task_law K n" "PeriodicThreads_initialized g" "c < unat (PeriodicThreads_Count g)" "c < 100"
    and "length (PeriodicThreads_Ids g) = 100" "length (PeriodicThreads_Periods g) = 100"
    and "distinct (take c (PeriodicThreads_Ids g))" "distinct (take c (PeriodicThreads_Periods g))"
    and "set (take c (PeriodicThreads_Ids g)) \<subseteq> live_tasks h"
    and "set (take c (PeriodicThreads_Periods g)) \<subseteq> live_periods h" "PeriodicThreads_Periods g ! c \<notin> live_periods h"
  shows "\<exists>h'. exec K (bindp PeriodicThreads_Stop (\<lambda>_. PeriodicThreads_Start)) g h = (Done (), g, h') \<and>
    live_tasks h' = live_tasks h - set (take c (PeriodicThreads_Ids g))"
proof -
  let ?q = "Put (\<lambda>g. g\<lparr>PeriodicThreads_running := False\<rparr>) (Put (\<lambda>g. g\<lparr>PeriodicThreads_initialized := False\<rparr>) (Ret ()))"
  let ?a = "[VRef ''stderr'', VStr ''Stopping Periodic Threads\<newline>'']"
  obtain r where r: "K h (fprintf, ?a) = Some r" using task_law_other [OF assms(1)] by blast
  let ?h = "h @ [((fprintf, ?a), r)]"
  have "objects ?h = (live_tasks h, dormant_tasks h, live_periods h)" by (simp add: objects_def [of h])
  then obtain h1 where 1: "exec K (for_count 100 delete_both ?q 0) g ?h = exec K (for_count (100 - c) delete_both ?q c) g h1"
    "live_tasks h1 = live_tasks h - set (take c (PeriodicThreads_Ids g))"
    "live_periods h1 \<subseteq> live_periods h"
    using stop_loop [OF assms(1) _ _ _ _ assms(5-8), of 100 0 ?h _ _ _ ?q] assms(3,4,9,10)
    by (auto simp: objects_def)
  obtain m where m: "100 - c = Suc m" using assms(4) by (cases "100 - c") auto
  let ?d = "[PeriodicThreads_Periods g ! c]"
  obtain s where s: "K h1 (rtems_rate_monotonic_delete, ?d) = Some s" "ret s \<noteq> SUCCESSFUL"
    using task_law_deletes(2) [OF assms(1)] 1(3) assms(11) by blast
  let ?h1 = "h1 @ [((rtems_rate_monotonic_delete, ?d), s)]"
  let ?b = "[VRef ''stderr'', VStr ''PeriodicThreads -- period delete failed\<newline>'']"
  obtain t where t: "K ?h1 (fprintf, ?b) = Some t" using task_law_other [OF assms(1)] by blast
  have "exec K (for_count (100 - c) delete_both ?q c) g h1 = (Done (), g, ?h1 @ [((fprintf, ?b), t)])"
    using s t assms(3) by (simp add: m delete_both_def del: append_assoc)
  then have "exec K PeriodicThreads_Stop g h = (Done (), g, ?h1 @ [((fprintf, ?b), t)])"
    using 1(1) r assms(2) by (simp add: PeriodicThreads_Stop_def)
  moreover have "live_tasks (?h1 @ [((fprintf, ?b), t)]) = live_tasks h1"
    using s(2) by (simp add: after_event_def del: append_assoc)
  ultimately show ?thesis
    using 1(2) assms(2)
    by (intro exI [of _ "?h1 @ [((fprintf, ?b), t)]"])
       (simp add: exec_bindp PeriodicThreads_Start_def PeriodicThreads_Initialize_def del: append_assoc live_simps)
qed

section \<open>Examples\<close>

text \<open>A kernel of \<open>n\<close> tasks; a new identifier is greater than all that it has returned.\<close>

definition unused :: "event list \<Rightarrow> int" where
  "unused h = 1 + int (sum_list (map (\<lambda>e. nat (as_int (hd (outs (snd e))))) h))"

lemma live_returned: "v \<in> live cr ds h \<Longrightarrow> \<exists>e\<in>set h. v = hd (outs (snd e))"
  by (induction h rule: rev_induct) (auto simp: after_event_def split: prod.splits if_splits)

lemma unused_fresh: "VInt (unused h) \<notin> live cr ds h"
proof
  assume "VInt (unused h) \<in> live cr ds h"
  then obtain e where e: "e \<in> set h" "hd (outs (snd e)) = VInt (unused h)" using live_returned by metis
  have "nat (as_int (hd (outs (snd e)))) \<le> sum_list (map (\<lambda>e. nat (as_int (hd (outs (snd e))))) h)"
    using e(1) by (induction h) auto
  then show False using e(2) by (simp add: unused_def)
qed

definition task_kernel :: "nat \<Rightarrow> kernel" where
  "task_kernel n h c =
    (let new = Reply SUCCESSFUL [VInt (unused h)];
         reply = (\<lambda>b. Reply (if b then SUCCESSFUL else VRef ''RTEMS_INVALID_ID'') []) in
     Some (if fst c = rtems_task_create then
             if calls_to rtems_task_create h < n then new else Reply (VRef ''RTEMS_TOO_MANY'') []
           else if fst c = rtems_rate_monotonic_create then new
           else if fst c = rtems_task_start then reply (hd (snd c) \<in> dormant_tasks h)
           else if fst c = rtems_task_delete then reply (hd (snd c) \<in> live_tasks h)
           else if fst c = rtems_rate_monotonic_delete then reply (hd (snd c) \<in> live_periods h)
           else reply True))"

lemma task_kernel_law: "task_law (task_kernel n) n"
  unfolding task_law_def by (intro conjI allI) (simp_all add: task_kernel_def unused_fresh)



definition one_task :: periodic_vars where
  "one_task = periodic_start\<lparr>PeriodicThreads_Ids := VInt 7 # replicate 99 (VInt 0),
    PeriodicThreads_Periods := VInt 8 # replicate 99 (VInt 0),
    PeriodicThreads_initialized := True, PeriodicThreads_Count := 2\<rparr>"

definition one_started :: "event list" where
  "one_started = [((rtems_task_create, []), Reply SUCCESSFUL [VInt 7]),
    ((rtems_task_start, [VInt 7]), Reply SUCCESSFUL []),
    ((rtems_rate_monotonic_create, []), Reply SUCCESSFUL [VInt 8])]"

theorem count_raised_sticks_witness:
  "\<exists>h'. exec (task_kernel 10) (bindp PeriodicThreads_Stop (\<lambda>_. PeriodicThreads_Start)) one_task one_started =
    (Done (), one_task, h') \<and> live_tasks h' = {}"
proof -
  have "live_tasks one_started = {VInt 7}" "live_periods one_started = {VInt 8}"
    by (simp_all add: one_started_def live_def after_event_def)
  then show ?thesis
    using count_raised_sticks [OF task_kernel_law [of 10], of one_task 1 one_started]
    by (simp add: one_task_def periodic_start_def)
qed

lemma periodic_tasks_in_bounds_witness:
  "\<exists>ps g h. schedule (\<lambda>_ _. Some (Reply (VInt 0) [])) (periodic_entries 1) [0, 0, 0]
      ([bindp (PeriodicThreadsFunction 1 1 []) (\<lambda>_. PeriodicThreads_Stop)], periodic_start, []) = Some (ps, g, h) \<and>
    Halt \<notin> set ps \<and> unat (PeriodicThreads_Count g) \<le> 100"
proof -
  have "\<exists>c. schedule (\<lambda>_ _. Some (Reply (VInt 0) [])) (periodic_entries 1) [0, 0, 0]
      ([bindp (PeriodicThreadsFunction 1 1 []) (\<lambda>_. PeriodicThreads_Stop)], periodic_start, []) = Some c"
    by (simp add: turn_def started_def PeriodicThreadsFunction_def PeriodicThreadsMenu_def headline_def)
  then obtain ps g h where run: "schedule (\<lambda>_ _. Some (Reply (VInt 0) [])) (periodic_entries 1) [0, 0, 0]
      ([bindp (PeriodicThreadsFunction 1 1 []) (\<lambda>_. PeriodicThreads_Stop)], periodic_start, []) = Some (ps, g, h)"
    by (metis prod_cases3)
  from periodic_tasks_in_bounds [OF schedule_pstep [OF this]] run show ?thesis by blast
qed

end
