(* ===== verification/Userdrv.thy ===== *)
theory Userdrv
  imports RT_Runs Posix_Init
begin

text \<open>
  The example driver of \<open>misc/userdrv\<close>: its entry points \<open>userdrv.c\<close>, and the program \<open>main.c\<close> that
  exercises it.

  An argument block is passed by address, \<open>None\<close> is the null pointer; a \<open>buffer\<close> is the whole object
  it points to.  A null dereference, and an access outside the buffer, is \<open>Halt\<close>.
\<close>

section \<open>\<open>userdrv.h\<close>\<close>

definition USERDRV_IOCTL_DO_SOMETHING :: u32 where
  "USERDRV_IOCTL_DO_SOMETHING = 0x320001"

text \<open>The fields of \<open>rtems_libio_rw_args_t\<close> and \<open>rtems_libio_ioctl_args_t\<close> that the driver uses.\<close>

record rw_args =
  buffer :: string
  count :: nat
  bytes_moved :: nat

record ioctl_args =
  command :: u32
  ioctl_buffer :: string
  ioctl_return :: int

section \<open>\<open>userdrv.c\<close>\<close>

record userdrv_vars =
  USERDRV_major :: u32
  initialized :: bool

definition printk_string :: "string \<Rightarrow> string \<Rightarrow> ('g, 'a) prog \<Rightarrow> ('g, 'a) prog" where
  "printk_string format s p =
     (if CHR 0x00 \<in> set s then Do printk [VStr format, VStr (c_str s)] p else Halt)"

definition userdrv_initialize :: "u32 \<Rightarrow> u32 \<Rightarrow> (userdrv_vars, val) prog" where
  "userdrv_initialize major minor =
     Do printk [VStr ''  userdrv_initialize\<newline>''] (
     Get (\<lambda>g.
     if \<not> initialized g then
       Put (\<lambda>g. g\<lparr>initialized := True\<rparr>) (
       Call rtems_io_register_name [VStr ''/dev/userdrv'', VInt (uint major), VInt 0] (\<lambda>r.
       if ret r \<noteq> SUCCESSFUL then Do rtems_fatal_error_occurred [ret r] Halt
       else Put (\<lambda>g. g\<lparr>USERDRV_major := major\<rparr>) (Ret SUCCESSFUL)))
     else Ret SUCCESSFUL))"

definition userdrv_open :: "u32 \<Rightarrow> u32 \<Rightarrow> (userdrv_vars, val) prog" where
  "userdrv_open major minor = Do printk [VStr ''  userdrv_open\<newline>''] (Ret SUCCESSFUL)"

definition userdrv_close :: "u32 \<Rightarrow> u32 \<Rightarrow> (userdrv_vars, val) prog" where
  "userdrv_close major minor = Do printk [VStr ''  userdrv_close\<newline>''] (Ret SUCCESSFUL)"

abbreviation outstr :: string where "outstr \<equiv> ''this is output'' @ [CHR 0x00]"
abbreviation outlen :: nat where "outlen \<equiv> 15"

definition userdrv_read :: "u32 \<Rightarrow> u32 \<Rightarrow> rw_args option \<Rightarrow> (userdrv_vars, val \<times> rw_args) prog" where
  "userdrv_read major minor pargp =
     Do printk [VStr ''  userdrv_read\<newline>''] (
     bindp (if pargp = None then Do printk [VStr ''  nothing to read\<newline>''] (Ret ()) else Ret ()) (\<lambda>_.
     case pargp of
       None \<Rightarrow> Halt
     | Some a \<Rightarrow>
         bindp (if count a = 0 then Do printk [VStr ''  buffer of zero\<newline>''] (Ret ()) else Ret ()) (\<lambda>_.
         let a = a\<lparr>bytes_moved := outlen\<rparr> in
         if length (buffer a) < outlen then Halt
         else
           let a = a\<lparr>buffer := outstr @ drop outlen (buffer a)\<rparr> in
           Do printk [VStr ''  %d buffer size\<newline>'', VInt (int (count a))] (
           printk_string ''  buffer: %s\<newline>'' (buffer a) (
           Ret (SUCCESSFUL, a))))))"

definition userdrv_write :: "u32 \<Rightarrow> u32 \<Rightarrow> rw_args option \<Rightarrow> (userdrv_vars, val \<times> rw_args) prog" where
  "userdrv_write major minor pargp =
     Do printk [VStr ''  userdrv_write\<newline>''] (
     case pargp of
       Some a \<Rightarrow>
         Do printk [VStr ''  %d to write\<newline>'', VInt (int (count a))] (
         printk_string ''  buffer: %s\<newline>'' (buffer a) (
         Ret (SUCCESSFUL, a\<lparr>bytes_moved := count a\<rparr>)))
     | None \<Rightarrow> Do printk [VStr ''  nothing to write\<newline>''] Halt)"

definition userdrv_control :: "u32 \<Rightarrow> u32 \<Rightarrow> ioctl_args option \<Rightarrow> (userdrv_vars, val \<times> ioctl_args) prog" where
  "userdrv_control major minor pargp =
     Do printk [VStr ''  userdrv_control\<newline>''] (
     case pargp of
       None \<Rightarrow> Halt
     | Some a \<Rightarrow>
         if command a = USERDRV_IOCTL_DO_SOMETHING then
           printk_string ''  Buffer: %s\<newline>'' (ioctl_buffer a) (
           Ret (SUCCESSFUL, a\<lparr>ioctl_return := 0\<rparr>))
         else Ret (VRef ''RTEMS_INVALID_NUMBER'', a\<lparr>ioctl_return := 0\<rparr>))"

text \<open>The macro \<open>USERDRV_DRIVER_TABLE_ENTRY\<close>: the entry points by their position in the driver table.\<close>

record driver_table =
  initialization_entry :: "u32 \<Rightarrow> u32 \<Rightarrow> (userdrv_vars, val) prog"
  open_entry :: "u32 \<Rightarrow> u32 \<Rightarrow> (userdrv_vars, val) prog"
  close_entry :: "u32 \<Rightarrow> u32 \<Rightarrow> (userdrv_vars, val) prog"
  read_entry :: "u32 \<Rightarrow> u32 \<Rightarrow> rw_args option \<Rightarrow> (userdrv_vars, val \<times> rw_args) prog"
  write_entry :: "u32 \<Rightarrow> u32 \<Rightarrow> rw_args option \<Rightarrow> (userdrv_vars, val \<times> rw_args) prog"
  control_entry :: "u32 \<Rightarrow> u32 \<Rightarrow> ioctl_args option \<Rightarrow> (userdrv_vars, val \<times> ioctl_args) prog"

definition USERDRV_DRIVER_TABLE_ENTRY :: driver_table where
  "USERDRV_DRIVER_TABLE_ENTRY =
    \<lparr>initialization_entry = userdrv_initialize, open_entry = userdrv_open, close_entry = userdrv_close,
     read_entry = userdrv_read, write_entry = userdrv_write, control_entry = userdrv_control\<rparr>"

section \<open>\<open>main.c\<close>\<close>

abbreviation string_to_write :: string where
  "string_to_write \<equiv> ''Application data to write with driver.''"

abbreviation ioctl_string :: string where
  "ioctl_string \<equiv> ''ioctl buffer string''"

definition userdrv_main :: "val \<Rightarrow> int \<Rightarrow> string list \<Rightarrow> ('g, int) prog" where
  "userdrv_main junk argc argv =
     Do printf [VStr ''\<newline>\<newline>*** USER DRIVER TEST ***\<newline>''] (
     Do printf [VStr ''open(userdrv)\<newline>''] (
     Call open_fd [VStr ''/dev/userdrv'', VRef ''O_RDWR''] (\<lambda>r.
     let drv = ret r in
     asserting (drv \<noteq> VInt (- 1)) (
     let to_write = int (length string_to_write) in
     Do printf [VStr ''\<newline>write(%zd, %s)\<newline>'', VInt to_write, VStr string_to_write] (
     Call write_fd [drv, VStr string_to_write, VInt to_write] (\<lambda>r.
     Do printf [VStr ''  write() returned bytes written=%zd\<newline>'', ret r] (
     asserting (ret r = VInt to_write) (
     let bufsize = 80 in
     Do printf [VStr ''\<newline>read(%zd)\<newline>'', VInt bufsize] (
     Call read_fd [drv, VRef ''inbuf'', VInt bufsize] (\<lambda>r.
     Do printf [VStr ''  read() returned bytes read=%zd\<newline>'', ret r] (
     Do printf [VStr ''  %zd bytes: %s\<newline>'', ret r, out r 0 junk] (
     Do printf [VStr ''\<newline>ioctl(%s)\<newline>'', VStr ioctl_string] (
     Call ioctl [drv, VInt (uint USERDRV_IOCTL_DO_SOMETHING), VStr ioctl_string] (\<lambda>r.
     asserting (ret r = VInt 0) (
     Do printf [VStr ''  ioctl() returned %d\<newline>'', ret r] (
     Do printf [VStr ''\<newline>close(userdrv)\<newline>''] (
     Call close_fd [drv] (\<lambda>r.
     asserting (ret r = VInt 0) (
     Do printf [VStr ''  close() returned %d\<newline>'', ret r] (
     Do printf [VStr ''*** END OF USER DRIVER TEST ***\<newline>''] (
     Do exit [VInt 0] Halt)))))))))))))))))))))"

section \<open>The entry points\<close>

text \<open>What an entry point returns on a console that prints; \<open>None\<close> if it does not return.\<close>

definition entry_result :: "(userdrv_vars, 'a) prog \<Rightarrow> 'a option" where
  "entry_result p =
    (case fst (exec (\<lambda>_ _. Some (Reply SUCCESSFUL [])) p \<lparr>USERDRV_major = 0, initialized = True\<rparr> []) of
       Done x \<Rightarrow> Some x | _ \<Rightarrow> None)"

text \<open>
  The driver's read always stores fifteen bytes and reports fifteen, whatever count was asked
  for: it overruns a shorter buffer, and after its message about a null argument block it
  dereferences it.
\<close>

theorem userdrv_read_result:
  assumes "responsive K"
  shows "fst (exec K (userdrv_read major minor pargp) g h) =
    (case pargp of
       None \<Rightarrow> Halted
     | Some a \<Rightarrow>
         if length (buffer a) < 15 then Halted
         else Done (SUCCESSFUL, a\<lparr>buffer := ''this is output'' @ [CHR 0x00] @ drop 15 (buffer a), bytes_moved := 15\<rparr>))"
  by (cases pargp)
     (auto simp: userdrv_read_def printk_string_def exec_Call_responsive [OF assms] Let_def simp del: exec.simps(4))

lemma userdrv_write_result:
  assumes "responsive K"
  shows "fst (exec K (userdrv_write major minor pargp) g h) =
    (case pargp of
       None \<Rightarrow> Halted
     | Some a \<Rightarrow> if CHR 0x00 \<in> set (buffer a) then Done (SUCCESSFUL, a\<lparr>bytes_moved := count a\<rparr>) else Halted)"
  by (cases pargp)
     (auto simp: userdrv_write_def printk_string_def exec_Call_responsive [OF assms] Let_def simp del: exec.simps(4))

lemma userdrv_control_result:
  assumes "responsive K"
  shows "fst (exec K (userdrv_control major minor pargp) g h) =
    (case pargp of
       None \<Rightarrow> Halted
     | Some a \<Rightarrow>
         if command a \<noteq> USERDRV_IOCTL_DO_SOMETHING then Done (VRef ''RTEMS_INVALID_NUMBER'', a\<lparr>ioctl_return := 0\<rparr>)
         else if CHR 0x00 \<in> set (ioctl_buffer a) then Done (SUCCESSFUL, a\<lparr>ioctl_return := 0\<rparr>)
         else Halted)"
  by (cases pargp)
     (auto simp: userdrv_control_def printk_string_def exec_Call_responsive [OF assms] Let_def simp del: exec.simps(4))

lemma console_responsive: "responsive (\<lambda>_ _. Some r)"
  by (simp add: responsive_def)

text \<open>The device is registered once, under the first major number.\<close>

definition registered :: "syscall \<Rightarrow> val option" where
  "registered c = (if fst c = rtems_io_register_name then Some (snd c ! 1) else None)"

definition registers :: "syscall \<Rightarrow> reply \<Rightarrow> bool" where
  "registers c r \<longleftrightarrow> (fst c = rtems_io_register_name \<longrightarrow> ret r = SUCCESSFUL)"

lemma userdrv_initialize_again:
  assumes "responsive K" "initialized g"
  shows "runs K registered (userdrv_initialize major minor) g SUCCESSFUL g []"
  unfolding userdrv_initialize_def
  by (rule runs_silent [OF assms(1) obeys_any]) (simp_all add: registered_def assms(2))

lemma userdrv_initialize_first:
  assumes "responsive K" "obeys K registers" "\<not> initialized g"
  shows "runs K registered (userdrv_initialize major minor) g SUCCESSFUL
    (g\<lparr>initialized := True, USERDRV_major := major\<rparr>) [VInt (uint major)]"
proof -
  let ?c = "(rtems_io_register_name, [VStr ''/dev/userdrv'', VInt (uint major), VInt 0])"
  let ?k = "\<lambda>r. if ret r \<noteq> SUCCESSFUL then Do rtems_fatal_error_occurred [ret r] Halt
    else Put (\<lambda>g. g\<lparr>USERDRV_major := major\<rparr>) (Ret SUCCESSFUL)"
  have "runs K registered (Call (fst ?c) (snd ?c) ?k) (g\<lparr>initialized := True\<rparr>) SUCCESSFUL
      (g\<lparr>initialized := True, USERDRV_major := major\<rparr>) ((case registered ?c of None \<Rightarrow> [] | Some b \<Rightarrow> [b]) @ [])"
    unfolding fst_conv snd_conv
    by (rule runs_Call [OF assms(1,2)]) (simp add: registers_def)
  then show ?thesis
    unfolding userdrv_initialize_def
    by (intro runs_silent [OF assms(1) obeys_any]) (simp_all add: registered_def assms(3))
qed

lemma userdrv_initialize_all:
  assumes "responsive K" "initialized g"
  shows "runs K registered (for_each majors (\<lambda>m _. userdrv_initialize m minor) s) g (if majors = [] then s else SUCCESSFUL) g []"
proof (induction majors arbitrary: s)
  case (Cons m majors)
  have "runs K registered (for_each majors (\<lambda>m _. userdrv_initialize m minor) SUCCESSFUL) g SUCCESSFUL g []"
    using Cons [of SUCCESSFUL] by simp
  from runs_bindp [where q = "for_each majors (\<lambda>m _. userdrv_initialize m minor)",
      OF userdrv_initialize_again [OF assms] this] show ?case by simp
qed simp

text \<open>However often the driver is initialized.\<close>

theorem userdrv_registers_once:
  assumes "responsive K" "obeys K registers" "\<not> initialized g"
  shows "runs K registered (for_each (m # majors) (\<lambda>m _. userdrv_initialize m minor) s) g SUCCESSFUL
    (g\<lparr>initialized := True, USERDRV_major := m\<rparr>) [VInt (uint m)]"
proof -
  let ?g = "g\<lparr>initialized := True, USERDRV_major := m\<rparr>"
  have "runs K registered (for_each majors (\<lambda>m _. userdrv_initialize m minor) SUCCESSFUL) ?g SUCCESSFUL ?g []"
    using userdrv_initialize_all [OF assms(1), of ?g majors minor SUCCESSFUL] by simp
  from runs_bindp [where q = "for_each majors (\<lambda>m _. userdrv_initialize m minor)",
      OF userdrv_initialize_first [OF assms] this] show ?thesis by simp
qed

section \<open>The program over the driver\<close>

text \<open>
  The file system between the program and the driver, as \<open>userdrv.h\<close> and the RTEMS documentation
  describe it.  It keeps the names registered for the driver with the number \<open>major\<close>, and the
  descriptors that stand for it: those that \<open>open\<close> returned for such a name, for reading and
  writing, and that were not closed since.
\<close>

definition after_io :: "u32 \<Rightarrow> val set \<times> val set \<Rightarrow> event \<Rightarrow> val set \<times> val set" where
  "after_io major s e = (case s of (names, fds) \<Rightarrow> (case e of ((f, args), r) \<Rightarrow>
     if f = rtems_io_register_name \<and> ret r = SUCCESSFUL \<and> args ! 1 = VInt (uint major)
     then (insert (hd args) names, fds)
     else if f = open_fd \<and> ret r \<noteq> VInt (- 1) \<and> hd args \<in> names \<and> args ! 1 = VRef ''O_RDWR''
     then (names, insert (ret r) fds)
     else if f = close_fd \<and> ret r = VInt 0 then (names, fds - {hd args})
     else (names, fds)))"

definition device :: "u32 \<Rightarrow> event list \<Rightarrow> val set \<times> val set" where
  "device major h = foldl (after_io major) ({}, {}) h"

text \<open>
  A call with such a name or descriptor goes to the entry point of the driver table: the entry gets
  the buffer, the count and \<open>bytes_moved\<close> set to \<open>0\<close>; the call returns \<open>bytes_moved\<close> or
  \<open>ioctl_return\<close> on success, and \<open>-1\<close> on error.  A buffer of \<open>read\<close> has the length that is asked for.
  Nothing is said of other names and descriptors.
\<close>

definition moved :: "(val \<times> rw_args) option \<Rightarrow> val" where
  "moved res = (case res of Some (s, a) \<Rightarrow> if s = SUCCESSFUL then VInt (int (bytes_moved a)) else VInt (- 1) | None \<Rightarrow> VInt (- 1))"

definition through_driver :: "driver_table \<Rightarrow> u32 \<Rightarrow> val set \<times> val set \<Rightarrow> syscall \<Rightarrow> reply \<Rightarrow> bool" where
  "through_driver T major s c r \<longleftrightarrow>
    (\<forall>p m. c = (open_fd, [p, m]) \<longrightarrow> p \<in> fst s \<longrightarrow> entry_result (open_entry T major 0) = Some SUCCESSFUL \<longrightarrow>
      ret r \<noteq> VInt (- 1)) \<and>
    (\<forall>d b n. c = (write_fd, [d, VStr b, VInt (int n)]) \<longrightarrow> d \<in> snd s \<longrightarrow>
      ret r = moved (entry_result (write_entry T major 0 (Some \<lparr>buffer = b @ [CHR 0x00], count = n, bytes_moved = 0\<rparr>)))) \<and>
    (\<forall>d b n. c = (read_fd, [d, b, VInt (int n)]) \<longrightarrow> d \<in> snd s \<longrightarrow>
      (\<exists>old. length old = n \<and>
        (let res = entry_result (read_entry T major 0 (Some \<lparr>buffer = old, count = n, bytes_moved = 0\<rparr>)) in
         ret r = moved res \<and> (\<forall>s a. res = Some (s, a) \<longrightarrow> outs r = [VStr (c_str (buffer a))])))) \<and>
    (\<forall>d n b. c = (ioctl, [d, VInt n, VStr b]) \<longrightarrow> d \<in> snd s \<longrightarrow>
      (\<forall>st a. entry_result (control_entry T major 0 (Some \<lparr>command = word_of_int n, ioctl_buffer = b @ [CHR 0x00], ioctl_return = 1\<rparr>)) =
          Some (st, a) \<longrightarrow> st = SUCCESSFUL \<longrightarrow> ret r = VInt (ioctl_return a))) \<and>
    (\<forall>d. c = (close_fd, [d]) \<longrightarrow> d \<in> snd s \<longrightarrow> entry_result (close_entry T major 0) = Some SUCCESSFUL \<longrightarrow>
      ret r = VInt 0)"

text \<open>The registration of the name succeeds.\<close>

definition io_law :: "kernel \<Rightarrow> driver_table \<Rightarrow> u32 \<Rightarrow> bool" where
  "io_law K T major \<longleftrightarrow> responsive K \<and>
    (\<forall>h c r. K h c = Some r \<longrightarrow> registers c r \<and> through_driver T major (device major h) c r)"

lemma entry_results:
  "entry_result (userdrv_open m 0) = Some SUCCESSFUL"
  "entry_result (userdrv_close m 0) = Some SUCCESSFUL"
  "entry_result (userdrv_write m 0 (Some \<lparr>buffer = s @ [CHR 0x00], count = n, bytes_moved = 0\<rparr>)) =
    Some (SUCCESSFUL, \<lparr>buffer = s @ [CHR 0x00], count = n, bytes_moved = n\<rparr>)"
  "15 \<le> length old \<Longrightarrow>
    entry_result (userdrv_read m 0 (Some \<lparr>buffer = old, count = n, bytes_moved = 0\<rparr>)) =
      Some (SUCCESSFUL, \<lparr>buffer = outstr @ drop outlen old, count = n, bytes_moved = 15\<rparr>)"
  "entry_result (userdrv_control m 0 (Some \<lparr>command = USERDRV_IOCTL_DO_SOMETHING, ioctl_buffer = s @ [CHR 0x00], ioctl_return = v\<rparr>)) =
    Some (SUCCESSFUL, \<lparr>command = USERDRV_IOCTL_DO_SOMETHING, ioctl_buffer = s @ [CHR 0x00], ioctl_return = 0\<rparr>)"
  by (simp_all add: entry_result_def userdrv_open_def userdrv_close_def userdrv_write_def userdrv_control_def
      userdrv_read_def printk_string_def)

text \<open>What the program shows of its run: the text it read, a failed assertion, and its exit.\<close>

definition shown :: "syscall \<Rightarrow> syscall option" where
  "shown c =
    (if fst c \<in> {exit, assert_func} \<or> fst c = printf \<and> snd c \<noteq> [] \<and> hd (snd c) = VStr ''  %zd bytes: %s\<newline>''
     then Some c else None)"

lemma through_driver_replies:
  fixes m :: u32
  defines "law \<equiv> through_driver USERDRV_DRIVER_TABLE_ENTRY m"
  shows "law s (open_fd, [p, o']) r \<Longrightarrow> p \<in> fst s \<Longrightarrow> ret r \<noteq> VInt (- 1)"
    "law s (write_fd, [d, VStr b, VInt (int n)]) r \<Longrightarrow> d \<in> snd s \<Longrightarrow> ret r = VInt (int n)"
    "law s (read_fd, [d, b', VInt 80]) r \<Longrightarrow> d \<in> snd s \<Longrightarrow> ret r = VInt 15 \<and> outs r = [VStr ''this is output'']"
    "law s (ioctl, [d, VInt (uint USERDRV_IOCTL_DO_SOMETHING), VStr b]) r \<Longrightarrow> d \<in> snd s \<Longrightarrow> ret r = VInt 0"
    "law s (close_fd, [d]) r \<Longrightarrow> d \<in> snd s \<Longrightarrow> ret r = VInt 0"
proof -
  note defs = law_def through_driver_def USERDRV_DRIVER_TABLE_ENTRY_def driver_table.simps entry_results
  show "law s (open_fd, [p, o']) r \<Longrightarrow> p \<in> fst s \<Longrightarrow> ret r \<noteq> VInt (- 1)"
    "law s (close_fd, [d]) r \<Longrightarrow> d \<in> snd s \<Longrightarrow> ret r = VInt 0"
    by (simp_all add: defs)
  show "law s (write_fd, [d, VStr b, VInt (int n)]) r \<Longrightarrow> d \<in> snd s \<Longrightarrow> ret r = VInt (int n)"
    by (simp add: defs moved_def)
  show "law s (ioctl, [d, VInt (uint USERDRV_IOCTL_DO_SOMETHING), VStr b]) r \<Longrightarrow> d \<in> snd s \<Longrightarrow> ret r = VInt 0"
    by (simp add: defs)
  assume "law s (read_fd, [d, b', VInt 80]) r" "d \<in> snd s"
  then have "\<forall>n. (80::int) = int n \<longrightarrow> (\<exists>old. length old = n \<and>
      (let res = entry_result (userdrv_read m 0 (Some \<lparr>buffer = old, count = n, bytes_moved = 0\<rparr>)) in
       ret r = moved res \<and> (\<forall>s a. res = Some (s, a) \<longrightarrow> outs r = [VStr (c_str (buffer a))])))"
    by (simp add: defs)
  from this [rule_format, of 80] obtain old where "length old = 80"
    "let res = entry_result (userdrv_read m 0 (Some \<lparr>buffer = old, count = 80, bytes_moved = 0\<rparr>)) in
       ret r = moved res \<and> (\<forall>s a. res = Some (s, a) \<longrightarrow> outs r = [VStr (c_str (buffer a))])" by auto
  then show "ret r = VInt 15 \<and> outs r = [VStr ''this is output'']"
    by (simp add: entry_results moved_def c_str_def)
qed

text \<open>
  \<open>ends_in L U obs p s g ls\<close>: while the state \<open>s\<close> of the file system follows the calls by \<open>U\<close> and allows
  their replies by \<open>L\<close>, \<open>p\<close> runs from \<open>g\<close> into \<open>Halt\<close>, and its observed calls until then are \<open>ls\<close>.
\<close>

primrec ends_in :: "('s \<Rightarrow> syscall \<Rightarrow> reply \<Rightarrow> bool) \<Rightarrow> ('s \<Rightarrow> event \<Rightarrow> 's) \<Rightarrow> (syscall \<Rightarrow> 'b option) \<Rightarrow>
    ('g, 'a) prog \<Rightarrow> 's \<Rightarrow> 'g \<Rightarrow> 'b list \<Rightarrow> bool" where
  "ends_in L U obs (Ret x) s g ls = False"
| "ends_in L U obs Halt s g ls = (ls = [])"
| "ends_in L U obs Cut s g ls = False"
| "ends_in L U obs (Call f args k) s g ls =
    (case obs (f, args) of
       None \<Rightarrow> (\<forall>r. L s (f, args) r \<longrightarrow> ends_in L U obs (k r) (U s ((f, args), r)) g ls)
     | Some b \<Rightarrow> ls \<noteq> [] \<and> hd ls = b \<and>
         (\<forall>r. L s (f, args) r \<longrightarrow> ends_in L U obs (k r) (U s ((f, args), r)) g (tl ls)))"
| "ends_in L U obs (Get k) s g ls = ends_in L U obs (k g) s g ls"
| "ends_in L U obs (Put u p) s g ls = ends_in L U obs p s (u g) ls"

lemma ends_in_exec:
  assumes "responsive K" "\<And>h c r. K h c = Some r \<Longrightarrow> L (foldl U s0 h) c r"
  shows "ends_in L U obs p (foldl U s0 h) g ls \<Longrightarrow>
    \<exists>g' h'. exec K p g h = (Halted, g', h') \<and> observed obs h' = observed obs h @ ls"
proof (induction p arbitrary: g h ls)
  case (Call f args k)
  obtain r where r: "K h (f, args) = Some r" using assms(1) unfolding responsive_def by blast
  let ?h = "h @ [((f, args), r)]"
  have ok: "L (foldl U s0 h) (f, args) r" by (rule assms(2) [OF r])
  show ?case
  proof (cases "obs (f, args)")
    case None
    then have "ends_in L U obs (k r) (foldl U s0 ?h) g ls" using Call.prems ok by simp
    from Call.IH [OF rangeI this] show ?thesis using r None by auto
  next
    case (Some b)
    then have "ends_in L U obs (k r) (foldl U s0 ?h) g (tl ls)" "ls = b # tl ls"
      using Call.prems ok by (auto simp: neq_Nil_conv)
    with Call.IH [OF rangeI this(1)] show ?thesis using r Some by auto
  qed
qed auto

text \<open>
  C25: 
\<close>

theorem userdrv_program_exits:
  assumes "io_law K USERDRV_DRIVER_TABLE_ENTRY major" "\<not> initialized g"
  shows "\<exists>g' h'. exec K
      (bindp (initialization_entry USERDRV_DRIVER_TABLE_ENTRY major 0) (\<lambda>_.
       userdrv_POSIX_Init (userdrv_main junk))) g [] = (Halted, g', h') \<and>
    observed shown h' =
      [(printf, [VStr ''  %zd bytes: %s\<newline>'', VInt 15, VStr ''this is output'']), (exit, [VInt 0])]"
proof -
  let ?law = "through_driver USERDRV_DRIVER_TABLE_ENTRY major"
  let ?L = "\<lambda>s c r. registers c r \<and> ?law s c r"
  have w: "?law s (write_fd, [d, VStr b, VInt 38]) r \<Longrightarrow> d \<in> snd s \<Longrightarrow> ret r = VInt 38" for s d b r
    using through_driver_replies(2) [of major s d b 38 r] by simp
  have "ends_in ?L (after_io major) shown
      (bindp (initialization_entry USERDRV_DRIVER_TABLE_ENTRY major 0) (\<lambda>_.
       userdrv_POSIX_Init (userdrv_main junk))) ({}, {}) g
      [(printf, [VStr ''  %zd bytes: %s\<newline>'', VInt 15, VStr ''this is output'']), (exit, [VInt 0])]"
    unfolding userdrv_POSIX_Init_def userdrv_main_def
    using assms(2)
    by (auto simp: USERDRV_DRIVER_TABLE_ENTRY_def userdrv_initialize_def registers_def shown_def Let_def
        asserting_def out_def after_io_def
        dest: through_driver_replies [unfolded USERDRV_DRIVER_TABLE_ENTRY_def] w [unfolded USERDRV_DRIVER_TABLE_ENTRY_def])
  moreover have "responsive K" "\<And>h c r. K h c = Some r \<Longrightarrow> ?L (foldl (after_io major) ({}, {}) h) c r"
    using assms(1) by (auto simp: io_law_def device_def)
  ultimately show ?thesis
    using ends_in_exec [where K = K and L = ?L and U = "after_io major" and h = "[]" and ?s0.0 = "({}, {})"] by simp
qed

section \<open>Examples\<close>

lemma userdrv_read_result_witness:
  "fst (exec (\<lambda>_ _. Some (Reply SUCCESSFUL [])) (userdrv_read 0 0 (Some \<lparr>buffer = replicate 4 CHR ''x'', count = 4, bytes_moved = 0\<rparr>))
    \<lparr>USERDRV_major = 0, initialized = True\<rparr> []) = Halted"
  using userdrv_read_result [OF console_responsive] by simp

lemma userdrv_registers_once_witness:
  "runs (\<lambda>_ _. Some (Reply SUCCESSFUL [])) registered (for_each [5, 6] (\<lambda>m _. userdrv_initialize m 0) SUCCESSFUL)
    \<lparr>USERDRV_major = 0, initialized = False\<rparr> SUCCESSFUL \<lparr>USERDRV_major = 5, initialized = True\<rparr> [VInt 5]"
proof -
  have "obeys (\<lambda>_ _. Some (Reply SUCCESSFUL [])) registers" by (simp add: obeys_def registers_def)
  from userdrv_registers_once [OF console_responsive this, of "\<lparr>USERDRV_major = 0, initialized = False\<rparr>" 5 "[6]" 0 SUCCESSFUL]
  show ?thesis by simp
qed

text \<open>A file system that has the device only: it answers a read from the driver's text.\<close>

definition file_system :: kernel where
  "file_system h c =
    Some (case c of
      (f, [d, b, VInt n]) \<Rightarrow>
        if f = write_fd then Reply (VInt n) []
        else if f = read_fd then
          if 15 \<le> n then Reply (VInt 15) [VStr ''this is output''] else Reply (VInt (- 1)) []
        else if f = rtems_io_register_name then Reply SUCCESSFUL []
        else Reply (VInt 0) []
    | (f, _) \<Rightarrow> if f = rtems_io_register_name then Reply SUCCESSFUL [] else Reply (VInt 0) [])"

lemma short_read:
  "length old < 15 \<Longrightarrow>
    entry_result (userdrv_read m 0 (Some \<lparr>buffer = old, count = n, bytes_moved = 0\<rparr>)) = None"
  by (simp add: entry_result_def userdrv_read_def)

lemma c_str_outstr: "c_str (outstr @ xs) = ''this is output''"
  by (simp add: c_str_def)

lemma control_returns_0:
  "entry_result (userdrv_control m 0 (Some x)) = Some (st, a) \<Longrightarrow> ioctl_return a = 0"
  using userdrv_control_result [OF console_responsive, of "Reply SUCCESSFUL []" m 0 "Some x"]
  by (auto simp: entry_result_def split: if_splits)

lemma file_system_through:
  assumes r: "file_system h c = Some r"
  shows "through_driver USERDRV_DRIVER_TABLE_ENTRY m s c r"
proof -
  obtain f args where c: "c = (f, args)" by (cases c)
  have "ret r = VInt 0" if "f \<notin> {write_fd, read_fd, rtems_io_register_name}"
    using r that unfolding c file_system_def by (auto split: list.splits val.splits)
  moreover have "ret r = VInt (int n)" if "c = (write_fd, [d, VStr b, VInt (int n)])" for d b n
    using r that by (auto simp: file_system_def)
  moreover have "\<exists>old. length old = n \<and>
      (let res = entry_result (userdrv_read m 0 (Some \<lparr>buffer = old, count = n, bytes_moved = 0\<rparr>)) in
       ret r = moved res \<and> (\<forall>s a. res = Some (s, a) \<longrightarrow> outs r = [VStr (c_str (buffer a))]))"
    if e: "c = (read_fd, [d, b, VInt (int n)])" for d b n
  proof (rule exI [of _ "replicate n CHR ''x''"], intro conjI)
    show "let res = entry_result (userdrv_read m 0 (Some \<lparr>buffer = replicate n CHR ''x'', count = n, bytes_moved = 0\<rparr>)) in
        ret r = moved res \<and> (\<forall>s a. res = Some (s, a) \<longrightarrow> outs r = [VStr (c_str (buffer a))])"
      using r e by (cases "15 \<le> n")
        (auto simp: file_system_def entry_results short_read moved_def c_str_outstr [simplified])
  qed simp
  ultimately show ?thesis
    unfolding through_driver_def USERDRV_DRIVER_TABLE_ENTRY_def driver_table.simps
    by (auto simp: c entry_results moved_def dest: control_returns_0)
qed

lemma file_system_law: "io_law file_system USERDRV_DRIVER_TABLE_ENTRY m"
proof -
  have "registers c r" if "file_system h c = Some r" for h c r
    using that by (cases c) (auto simp: file_system_def registers_def split: list.splits val.splits)
  then show ?thesis
    using file_system_through by (auto simp: io_law_def responsive_def file_system_def)
qed

theorem userdrv_program_exits_witness:
  "\<exists>g' h'. exec file_system
      (bindp (initialization_entry USERDRV_DRIVER_TABLE_ENTRY 5 0) (\<lambda>_.
       userdrv_POSIX_Init (userdrv_main (VInt 0)))) \<lparr>USERDRV_major = 0, initialized = False\<rparr> [] = (Halted, g', h') \<and>
    observed shown h' =
      [(printf, [VStr ''  %zd bytes: %s\<newline>'', VInt 15, VStr ''this is output'']), (exit, [VInt 0])]"
  by (rule userdrv_program_exits [OF file_system_law]) simp

end
