(* ===== verification/Adamain.thy ===== *)
theory Adamain
  imports RT_Runs
begin

text \<open>
  The startup code of an Ada program, \<open>misc/adamain\<close>: \<open>rtems_init.c\<close>, and the C program
  \<open>adacode.c\<close> in the place of the Ada main procedure.

  The parser of the command line works in the line itself.  A pointer in \<open>argv\<close> is an offset into
  that line, or the address of \<open>arg0\<close>, or null; an access outside the line is \<open>None\<close>, and then \<open>Halt\<close>.
  The line, a local variable of \<open>start_gnat_main\<close>, is part of the state; no other thread runs then.
\<close>

section \<open>\<open>parse_arguments\<close>\<close>

datatype arg = Null | Arg0 | At nat

record ada =
  argc :: nat
  argv :: "arg list"
  linebuf :: string

abbreviation COMMAND_LINE_MAXIMUM :: nat where "COMMAND_LINE_MAXIMUM \<equiv> 200"
abbreviation argv_size :: nat where "argv_size \<equiv> 20"
abbreviation NUL :: char where "NUL \<equiv> CHR 0x00"

definition ada_start :: "string \<Rightarrow> ada" where
  "ada_start junk = \<lparr>argc = 1, argv = Arg0 # replicate 19 Null, linebuf = junk\<rparr>"

definition arg_string :: "ada \<Rightarrow> arg \<Rightarrow> string option" where
  "arg_string g a =
    (case a of Null \<Rightarrow> None | Arg0 \<Rightarrow> Some ''rtems'' | At i \<Rightarrow> Some (c_str (drop i (linebuf g))))"

text \<open>The two inner loops: the first one overwrites what it skips.\<close>

function skip_spaces :: "string \<Rightarrow> nat \<Rightarrow> (string \<times> nat) option" where
  "skip_spaces buf cp =
    (if length buf \<le> cp then None
     else if is_space (buf ! cp) then skip_spaces (buf[cp := NUL]) (Suc cp)
     else Some (buf, cp))"
  by pat_completeness auto
termination by (relation "measure (\<lambda>(buf, cp). length buf - cp)") auto

function skip_word :: "string \<Rightarrow> nat \<Rightarrow> nat option" where
  "skip_word buf cp =
    (if length buf \<le> cp then None
     else if is_space (buf ! cp) \<or> buf ! cp = NUL then Some cp
     else skip_word buf (Suc cp))"
  by pat_completeness auto
termination by (relation "measure (\<lambda>(buf, cp). length buf - cp)") auto

declare skip_spaces.simps [simp del] skip_word.simps [simp del]

text \<open>
  Breaking the line into arguments, in at most \<open>n\<close> words; the flag tells that there are too many.
\<close>

primrec split_args :: "nat \<Rightarrow> ada \<Rightarrow> nat \<Rightarrow> (ada \<times> bool) option" where
  "split_args 0 g cp = None"
| "split_args (Suc n) g cp = do {
     (buf, cp) \<leftarrow> skip_spaces (linebuf g) cp;
     let g = g\<lparr>linebuf := buf\<rparr>;
     if buf ! cp = NUL then Some (g, False)
     else if argc g \<ge> argv_size - 1 then Some (g\<lparr>argc := 0\<rparr>, True)
     else do {
       cp' \<leftarrow> skip_word buf cp;
       split_args n (g\<lparr>argv := (argv g)[argc g := At cp], argc := argc g + 1\<rparr>) cp'
     }
   }"

definition overwrite :: "string \<Rightarrow> string \<Rightarrow> string" where
  "overwrite s buf = take (length buf) (s @ [NUL] @ drop (Suc (length s)) buf)"

text \<open>Where the line comes from: \<open>MAIN_COMMAND_LINE\<close> when that is defined, and the terminal otherwise.\<close>

definition fill :: "string option \<Rightarrow> (ada, unit) prog" where
  "fill cl =
    (case cl of
       Some s \<Rightarrow>
         Put (\<lambda>g. g\<lparr>linebuf := take COMMAND_LINE_MAXIMUM (s @ replicate COMMAND_LINE_MAXIMUM NUL)\<rparr>) (Ret ())
     | None \<Rightarrow>
         Get (\<lambda>g.
         case arg_string g (argv g ! 0) of
           None \<Rightarrow> Halt
         | Some name \<Rightarrow>
             Do printf [VStr ''>>> %s '', VStr name] (
             Do fflush [VRef ''stdout''] (
             Call fgets [VRef ''linebuf'', VInt (int COMMAND_LINE_MAXIMUM), VRef ''stdin''] (\<lambda>r.
             Put (\<lambda>g. case outs r of VStr s # _ \<Rightarrow> g\<lparr>linebuf := overwrite s (linebuf g)\<rparr> | _ \<Rightarrow> g) (
             Get (\<lambda>g.
             let n = length (c_str (linebuf g)) in
             if n = 0 then Halt
             else if linebuf g ! (n - 1) = CHR 0x0A \<or> linebuf g ! (n - 1) = CHR 0x0D then
               Put (\<lambda>g. g\<lparr>linebuf := (linebuf g)[n - 1 := NUL]\<rparr>) (Ret ())
             else Ret ())))))))"

primrec parse_arguments :: "nat \<Rightarrow> string option \<Rightarrow> (ada, unit) prog" where
  "parse_arguments 0 cl = Cut"
| "parse_arguments (Suc n) cl =
     bindp (fill cl) (\<lambda>_.
     Get (\<lambda>g.
     case split_args (Suc (length (linebuf g))) g 0 of
       None \<Rightarrow> Halt
     | Some (g, too_many) \<Rightarrow>
         Put (\<lambda>_. g) (
         bindp (if too_many then Do printf [VStr ''Too many arguments.\<newline>''] (Ret ()) else Ret ()) (\<lambda>_.
         Get (\<lambda>g.
         if argc g > 1 then Put (\<lambda>g. g\<lparr>argv := (argv g)[argc g := Null]\<rparr>) (Ret ())
         else
           Do printf [VStr ''You must give some arguments!\<newline>''] (
           parse_arguments n cl))))))"

section \<open>\<open>adacode.c\<close> and the threads\<close>

text \<open>The loop over the arguments, with \<open>n\<close> of them left; \<open>%s\<close> of a null pointer is undefined.\<close>

primrec print_args :: "nat \<Rightarrow> nat \<Rightarrow> (ada, int) prog" where
  "print_args 0 i = Ret 0"
| "print_args (Suc n) i =
     Get (\<lambda>g.
     case arg_string g (argv g ! i) of
       None \<Rightarrow> Halt
     | Some s \<Rightarrow> Do printf [VStr ''argv[%d]= %s\<newline>'', VInt (int i), VStr s] (print_args n (Suc i)))"

definition gnat_main :: "(ada, int) prog" where
  "gnat_main =
     Get (\<lambda>g.
     Do printf [VStr ''gnat_main: argc=%d\<newline>'', VInt (int (argc g))] (
     print_args (argc g) 0))"

text \<open>\<open>command_line\<close> is \<open>None\<close> without \<open>MAIN_USE_REQUIRES_COMMAND_LINE\<close>.\<close>

definition start_gnat_main :: "nat \<Rightarrow> string option option \<Rightarrow> (ada, unit) prog" where
  "start_gnat_main n command_line =
     Do printk [VStr ''Entering gnat_main\<newline>''] (
     bindp (case command_line of None \<Rightarrow> Ret () | Some cl \<Rightarrow> parse_arguments n cl) (\<lambda>_.
     Do printk [VStr ''Invoking gnat_main\<newline>''] (
     bindp gnat_main (\<lambda>_.
     Do printk [VStr ''Exiting Ada application\<newline>''] (
     Do exit [VInt 0] Halt)))))"

text \<open>
  \<open>minimum\<close> is the result of \<open>_ada_pthread_minimum_stack_size\<close>, and \<open>space\<close> is \<open>GNAT_MAIN_STACKSPACE\<close>.
  The attributes are an argument of \<open>pthread_create\<close>: the stack size and the two fields set here.
\<close>

definition ada_POSIX_Init :: "nat \<Rightarrow> nat \<Rightarrow> (ada, unit) prog" where
  "ada_POSIX_Init minimum space =
     Do printk [VStr ''Entering POSIX_Init\<newline>''] (
     Do printk [VStr ''Creating GNAT Main thread\<newline>''] (
     Call pthread_attr_init [VRef ''&attr''] (\<lambda>r.
     asserting (ret r = VInt 0) (
     let stacksize = space * 1024;
         stacksize = (if stacksize < minimum then minimum else stacksize) in
     Call pthread_attr_setstacksize [VRef ''&attr'', VInt (int stacksize)] (\<lambda>r.
     asserting (ret r = VInt 0) (
     Call pthread_create
       [VRef ''&thread_id'', VOp ''attr'' [VInt (int stacksize), VRef ''SCHED_RR'', VInt 122],
        VRef ''start_gnat_main'', VRef ''NULL''] (\<lambda>r.
     asserting (ret r = VInt 0) (
     Do printk [VStr ''Exiting POSIX_Init\<newline>''] (
     Do pthread_exit [VInt 0] Halt)))))))))"

definition ada_config :: "nat \<Rightarrow> config_macros" where
  "ada_config space =
    [(CONFIGURE_APPLICATION_NEEDS_CONSOLE_DRIVER, defined),
     (CONFIGURE_APPLICATION_NEEDS_CLOCK_DRIVER, defined),
     (CONFIGURE_MAXIMUM_FILE_DESCRIPTORS, VInt 20),
     (CONFIGURE_USE_IMFS_AS_BASE_FILESYSTEM, defined),
     (CONFIGURE_MAXIMUM_TASKS, VInt 20),
     (CONFIGURE_MAXIMUM_SEMAPHORES, VInt 20),
     (CONFIGURE_MICROSECONDS_PER_TICK, VOp ''RTEMS_MILLISECONDS_TO_MICROSECONDS'' [VInt 1]),
     (CONFIGURE_POSIX_INIT_THREAD_TABLE, defined),
     (CONFIGURE_GNAT_RTEMS, defined),
     (CONFIGURE_MAXIMUM_ADA_TASKS, VInt 20),
     (CONFIGURE_MAXIMUM_FAKE_ADA_TASKS, VInt 0),
     (CONFIGURE_MEMORY_OVERHEAD, VOp ''+'' [VInt 0, VInt (int space)]),
     (CONFIGURE_ZERO_WORKSPACE_AUTOMATICALLY, VRef ''TRUE''),
     (CONFIGURE_INIT, defined)]"

end
