(* ===== verification/Adamain_Props.thy ===== *)
theory Adamain_Props
  imports Adamain
begin

text \<open>
  The parser of the command line finds the words of the line; what it does when there are too many.
\<close>

section \<open>Words\<close>

text \<open>The words of a string, with their offsets.\<close>

function words_at :: "nat \<Rightarrow> string \<Rightarrow> (nat \<times> string) list" where
  "words_at k s =
    (let i = k + length (takeWhile is_space s); t = dropWhile is_space s;
         w = takeWhile (\<lambda>c. \<not> is_space c) t in
     if t = [] then [] else (i, w) # words_at (i + length w) (dropWhile (\<lambda>c. \<not> is_space c) t))"
  by pat_completeness auto
termination
proof (relation "measure (\<lambda>(k, s). length s)", goal_cases)
  case (2 k s i t w)
  then obtain c cs where t: "t = c # cs" by (metis list.exhaust)
  have "dropWhile is_space s = c # cs" using 2 t by metis
  then have "\<not> is_space c" by (metis hd_dropWhile list.distinct(1) list.sel(1))
  then have "length (dropWhile (\<lambda>c. \<not> is_space c) t) \<le> length cs"
    using t by (simp add: length_dropWhile_le)
  also have "\<dots> < length t" using t by simp
  also have "\<dots> \<le> length s" using 2 by (simp add: length_dropWhile_le)
  finally show ?case by simp
qed simp

declare words_at.simps [simp del]

definition words :: "string \<Rightarrow> string list" where
  "words s = map snd (words_at 0 s)"

text \<open>The first word of a string.\<close>

lemma words_at_cases:
  obtains (none) "\<forall>c\<in>set s. is_space c" "words_at k s = []"
  | (word) sp c cs rest where "s = sp @ (c # cs) @ rest" "\<forall>x\<in>set sp. is_space x"
      "\<forall>x\<in>set (c # cs). \<not> is_space x" "rest = [] \<or> is_space (hd rest)"
      "words_at k s = (k + length sp, c # cs) # words_at (k + length sp + length (c # cs)) rest"
proof (cases "dropWhile is_space s")
  case Nil
  then have "words_at k s = []" by (simp add: words_at.simps [of k s])
  moreover have "\<forall>c\<in>set s. is_space c" using Nil by (simp add: dropWhile_eq_Nil_conv)
  ultimately show ?thesis using none by blast
next
  case (Cons c t)
  let ?w = "takeWhile (\<lambda>c. \<not> is_space c) (c # t)" and ?r = "dropWhile (\<lambda>c. \<not> is_space c) (c # t)"
  have c: "\<not> is_space c" using Cons hd_dropWhile [of is_space s] by simp
  then obtain cs where w: "?w = c # cs" by simp
  show ?thesis
  proof (rule word)
    have "s = takeWhile is_space s @ (c # t)" using takeWhile_dropWhile_id [of is_space s] Cons by simp
    also have "c # t = ?w @ ?r" by (simp only: takeWhile_dropWhile_id)
    finally show "s = takeWhile is_space s @ (c # cs) @ ?r" unfolding w .
    show "\<forall>x\<in>set (takeWhile is_space s). is_space x" by (auto dest: set_takeWhileD)
    show "\<forall>x\<in>set (c # cs). \<not> is_space x" unfolding w [symmetric] by (auto dest: set_takeWhileD)
    show "?r = [] \<or> is_space (hd ?r)" using hd_dropWhile [of "\<lambda>c. \<not> is_space c" "c # t"] by blast
    show "words_at k s = (k + length (takeWhile is_space s), c # cs) #
        words_at (k + length (takeWhile is_space s) + length (c # cs)) ?r"
      by (subst words_at.simps) (simp only: Cons Let_def w list.distinct if_False)
  qed
qed

lemma words_at_induct [consumes 0, case_names none word]:
  assumes "\<And>k s. \<forall>c\<in>set s. is_space c \<Longrightarrow> words_at k s = [] \<Longrightarrow> P k s"
    and "\<And>k sp c cs rest. \<forall>x\<in>set sp. is_space x \<Longrightarrow> \<forall>x\<in>set (c # cs). \<not> is_space x \<Longrightarrow>
      rest = [] \<or> is_space (hd rest) \<Longrightarrow>
      words_at k (sp @ (c # cs) @ rest) = (k + length sp, c # cs) # words_at (k + length sp + length (c # cs)) rest \<Longrightarrow>
      P (k + length sp + length (c # cs)) rest \<Longrightarrow> P k (sp @ (c # cs) @ rest)"
  shows "P k s"
proof (induction "length s" arbitrary: k s rule: less_induct)
  case less
  show ?case
  proof (cases rule: words_at_cases [of s k])
    case none
    then show ?thesis by (rule assms(1))
  next
    case (word sp c cs rest)
    then have "P (k + length sp + length (c # cs)) rest" by (intro less) simp
    with assms(2) [OF word(2-4)] word(1,5) show ?thesis by simp
  qed
qed

section \<open>The loops\<close>

definition blank :: "string \<Rightarrow> string" where
  "blank s = map (\<lambda>c. if is_space c then NUL else c) s"

lemma blank_simps [simp]: "blank [] = []" "blank (s @ t) = blank s @ blank t" "length (blank s) = length s"
  by (simp_all add: blank_def)

lemma blank_spaces: "\<forall>c\<in>set s. is_space c \<Longrightarrow> blank s = replicate (length s) NUL"
  by (induction s) (simp_all add: blank_def)

lemma blank_word: "\<forall>c\<in>set s. \<not> is_space c \<Longrightarrow> blank s = s"
  by (induction s) (simp_all add: blank_def)

lemma NUL_no_space [simp]: "\<not> is_space NUL"
  by (simp add: is_space_def)

lemma skip_spaces_spec:
  "\<forall>x\<in>set sp. is_space x \<Longrightarrow> \<not> is_space c \<Longrightarrow>
    skip_spaces (pre @ sp @ c # rest) (length pre) = Some (pre @ blank sp @ c # rest, length pre + length sp)"
proof (induction sp arbitrary: pre)
  case Nil
  then show ?case by (subst skip_spaces.simps) simp
next
  case (Cons x sp)
  then have x: "blank [x] = [NUL]" by (simp add: blank_def)
  have "skip_spaces (pre @ (x # sp) @ c # rest) (length pre) =
      skip_spaces ((pre @ [NUL]) @ sp @ c # rest) (length (pre @ [NUL]))"
    using Cons.prems by (subst skip_spaces.simps) simp
  also have "\<dots> = Some ((pre @ [NUL]) @ blank sp @ c # rest, length (pre @ [NUL]) + length sp)"
    using Cons.prems by (intro Cons.IH) simp_all
  finally show ?case using blank_simps(2) [of "[x]" sp] x by simp
qed

lemma skip_word_spec:
  "\<forall>x\<in>set w. \<not> is_space x \<and> x \<noteq> NUL \<Longrightarrow> is_space c \<or> c = NUL \<Longrightarrow>
    skip_word (pre @ w @ c # rest) (length pre) = Some (length pre + length w)"
proof (induction w arbitrary: pre)
  case Nil
  then show ?case by (subst skip_word.simps) simp
next
  case (Cons x w)
  have "skip_word (pre @ (x # w) @ c # rest) (length pre) = skip_word ((pre @ [x]) @ w @ c # rest) (length (pre @ [x]))"
    using Cons.prems by (subst skip_word.simps) simp
  also have "\<dots> = Some (length (pre @ [x]) + length w)"
    using Cons.prems by (intro Cons.IH) simp_all
  finally show ?case by simp
qed

text \<open>What the parser makes of the argument vector.\<close>

definition place :: "nat \<Rightarrow> 'a list \<Rightarrow> 'a list \<Rightarrow> 'a list" where
  "place k xs ys = take k ys @ xs @ drop (k + length xs) ys"

lemma place_Nil [simp]: "place k [] ys = ys"
  by (simp add: place_def)

lemma place_Cons: "k < length ys \<Longrightarrow> place (Suc k) xs (ys[k := x]) = place k (x # xs) ys"
  by (simp add: place_def take_Suc_conv_app_nth)

abbreviation pointers :: "(nat \<times> string) list \<Rightarrow> arg list" where
  "pointers ws \<equiv> map (\<lambda>(i, w). At i) ws"

lemma split_step:
  assumes "\<forall>x\<in>set sp. is_space x" "\<forall>x\<in>set (c # cs). \<not> is_space x" "rest = [] \<or> is_space (hd rest)"
    and "NUL \<notin> set (c # cs)" "linebuf g = pre @ (sp @ (c # cs) @ rest) @ NUL # post"
  shows "split_args (Suc n) g (length pre) =
    (let g' = g\<lparr>linebuf := (pre @ blank sp @ c # cs) @ rest @ NUL # post\<rparr> in
     if argc g \<ge> 19 then Some (g'\<lparr>argc := 0\<rparr>, True)
     else split_args n (g'\<lparr>argv := (argv g)[argc g := At (length pre + length sp)], argc := argc g + 1\<rparr>)
       (length (pre @ blank sp @ c # cs)))"
proof -
  let ?pre = "pre @ blank sp"
  have 1: "skip_spaces (linebuf g) (length pre) = Some (pre @ blank sp @ c # cs @ rest @ NUL # post, length pre + length sp)"
    using skip_spaces_spec [OF assms(1), of c pre "cs @ rest @ NUL # post"] assms(2,5) by simp
  obtain d ds where d: "rest @ NUL # post = d # ds" "is_space d \<or> d = NUL"
    using assms(3) by (cases rest) auto
  have "skip_word (?pre @ (c # cs) @ d # ds) (length ?pre) = Some (length ?pre + length (c # cs))"
    by (rule skip_word_spec [OF _ d(2)]) (use assms(2,4) in auto)
  then have 2: "skip_word (pre @ blank sp @ c # cs @ rest @ NUL # post) (length pre + length sp) =
      Some (length pre + length sp + Suc (length cs))"
    using d(1) by simp
  have c: "c \<noteq> NUL" "(pre @ blank sp @ c # cs @ rest @ NUL # post) ! (length pre + length sp) = c"
    using assms(4) nth_append_length [of ?pre c] by auto
  show ?thesis
    using 1 2 c by (simp add: Let_def add.assoc)
qed

lemma split_done:
  assumes "\<forall>x\<in>set s. is_space x" "linebuf g = pre @ s @ NUL # post"
  shows "split_args (Suc n) g (length pre) = Some (g\<lparr>linebuf := pre @ blank s @ NUL # post\<rparr>, False)"
  using skip_spaces_spec [OF assms(1), of NUL pre post] nth_append_length [of "pre @ blank s" NUL post]
  by (simp add: assms(2) Let_def)

lemma split_args_words:
  "k = length pre \<Longrightarrow> NUL \<notin> set s \<Longrightarrow> linebuf g = pre @ s @ NUL # post \<Longrightarrow> length s < n \<Longrightarrow>
    length (argv g) = 20 \<Longrightarrow> argc g + length (words_at k s) \<le> 19 \<Longrightarrow>
    split_args n g k =
      Some (g\<lparr>linebuf := pre @ blank s @ NUL # post, argc := argc g + length (words_at k s),
        argv := place (argc g) (pointers (words_at k s)) (argv g)\<rparr>, False)"
proof (induction k s arbitrary: pre g n rule: words_at_induct)
  case (none k s)
  then obtain m where "n = Suc m" by (cases n) auto
  then show ?case using split_done [of s g pre post m] none by simp
next
  case (word k sp c cs rest)
  then obtain m where n: "n = Suc m" by (cases n) auto
  let ?pre = "pre @ blank sp @ c # cs"
  let ?g = "g\<lparr>linebuf := ?pre @ rest @ NUL # post, argv := (argv g)[argc g := At (length pre + length sp)],
    argc := argc g + 1\<rparr>"
  have argc: "argc g < 19" "argc g < length (argv g)" using word by simp_all
  have "split_args n g k = split_args m ?g (length ?pre)"
    unfolding n word.prems(1)
    using split_step [OF word(1-3), of g pre post m] word.prems argc by (simp add: Let_def)
  also have "length ?pre = k + length sp + length (c # cs)" using word.prems(1) by simp
  also have "split_args m ?g (k + length sp + length (c # cs)) =
      Some (?g\<lparr>linebuf := ?pre @ blank rest @ NUL # post,
        argc := argc ?g + length (words_at (k + length sp + length (c # cs)) rest),
        argv := place (argc ?g) (pointers (words_at (k + length sp + length (c # cs)) rest)) (argv ?g)\<rparr>, False)"
    using word.prems word(4) n by (intro word.IH) simp_all
  finally show ?case
    using word(2,4) argc word.prems(1) blank_word [of "c # cs"] blank_simps(2) [of "c # cs" rest]
    by (simp add: place_Cons)
qed

lemma split_args_too_many:
  "k = length pre \<Longrightarrow> NUL \<notin> set s \<Longrightarrow> linebuf g = pre @ s @ NUL # post \<Longrightarrow> length s < n \<Longrightarrow>
    length (argv g) = 20 \<Longrightarrow> argc g \<le> 19 \<Longrightarrow> 19 < argc g + length (words_at k s) \<Longrightarrow>
    \<exists>g'. split_args n g k = Some (g', True) \<and> argc g' = 0 \<and> length (argv g') = 20 \<and>
      length (linebuf g') = length (linebuf g) \<and> (0 < argc g \<longrightarrow> argv g' ! 0 = argv g ! 0)"
proof (induction k s arbitrary: pre g n rule: words_at_induct)
  case (none k s)
  then show ?case by simp
next
  case (word k sp c cs rest)
  then obtain m where n: "n = Suc m" by (cases n) auto
  let ?pre = "pre @ blank sp @ c # cs"
  let ?g = "g\<lparr>linebuf := ?pre @ rest @ NUL # post, argv := (argv g)[argc g := At (length pre + length sp)],
    argc := argc g + 1\<rparr>"
  note step = split_step [OF word(1-3), of g pre post m]
  show ?case
  proof (cases "19 \<le> argc g")
    case True
    then show ?thesis unfolding n word.prems(1) using step word.prems by (simp add: Let_def)
  next
    case False
    have e: "split_args n g k = split_args m ?g (length ?pre)"
      unfolding n word.prems(1) using step word.prems False by (simp add: Let_def)
    have len: "length ?pre = k + length sp + length (c # cs)" using word.prems(1) by simp
    have "\<exists>g'. split_args m ?g (k + length sp + length (c # cs)) = Some (g', True) \<and> argc g' = 0 \<and>
        length (argv g') = 20 \<and> length (linebuf g') = length (linebuf ?g) \<and>
        (0 < argc ?g \<longrightarrow> argv g' ! 0 = argv ?g ! 0)"
      using word.prems word(4) n False by (intro word.IH) simp_all
    then obtain g' where g': "split_args m ?g (k + length sp + length (c # cs)) = Some (g', True)" "argc g' = 0"
        "length (argv g') = 20" "length (linebuf g') = length (linebuf ?g)" "argv g' ! 0 = argv ?g ! 0"
      by auto
    show ?thesis
    proof (intro exI conjI impI)
      show "split_args n g k = Some (g', True)" unfolding e len by (rule g'(1))
      show "length (linebuf g') = length (linebuf g)" using g'(4) word.prems(3) by simp
      show "argv g' ! 0 = argv g ! 0" if "0 < argc g" using g'(5) that by simp
    qed (rule g'(2), rule g'(3))
  qed
qed

text \<open>The words are where the pointers point.\<close>

lemma words_found:
  "k = length pre \<Longrightarrow> NUL \<notin> set s \<Longrightarrow> (i, w) \<in> set (words_at k s) \<Longrightarrow>
    c_str (drop i (pre @ blank s @ NUL # post)) = w"
proof (induction k s arbitrary: pre rule: words_at_induct)
  case (none k s)
  then show ?case by simp
next
  case (word k sp c cs rest)
  let ?pre = "pre @ blank sp @ c # cs"
  have b: "pre @ blank (sp @ (c # cs) @ rest) @ NUL # post = ?pre @ blank rest @ NUL # post"
    using blank_word [OF word(2)] blank_simps(2) [of "c # cs" rest] by simp
  consider "i = k + length sp \<and> w = c # cs" | "(i, w) \<in> set (words_at (k + length sp + length (c # cs)) rest)"
    using word.prems(3) word(4) by auto
  then show ?case
  proof cases
    case 1
    obtain xs where xs: "blank rest @ NUL # post = NUL # xs"
      using word(3) by (cases rest) (auto simp: blank_def)
    have "c_str ((c # cs) @ NUL # xs) = c # cs"
      using word.prems(2) unfolding c_str_def by (subst takeWhile_append2) auto
    then show ?thesis unfolding b using 1 word.prems(1) xs by simp
  next
    case 2
    then show ?thesis unfolding b
      by (intro word.IH) (use word.prems in simp_all)
  qed
qed

section \<open>The command line\<close>

text \<open>What the program shows: the arguments that the main procedure prints, and the exit.\<close>

definition told :: "syscall \<Rightarrow> val list option" where
  "told c =
    (if fst c = printf \<and> snd c \<noteq> [] \<and> hd (snd c) = VStr ''argv[%d]= %s\<newline>'' then Some (tl (snd c))
     else if fst c \<in> {exit, pthread_exit} then Some (snd c) else None)"

lemma exec_told_quiet:
  assumes "responsive K" "told (f, args) = None" "f \<noteq> fgets"
  shows "\<exists>h'. exec K (Do f args p) g h = exec K p g h' \<and> calls_to fgets h' = calls_to fgets h \<and>
    observed told h' = observed told h"
proof -
  obtain r where "K h (f, args) = Some r" using assms(1) unfolding responsive_def by blast
  then show ?thesis using assms(2,3) by (intro exI [of _ "h @ [((f, args), r)]"]) simp
qed

lemma overwrite_line:
  assumes "length s + 2 \<le> length buf"
  shows "overwrite (s @ [c]) buf = s @ c # NUL # drop (length s + 2) buf"
proof -
  have "length buf - length s = Suc (Suc (length buf - (length s + 2)))" using assms by simp
  then show ?thesis using assms by (simp add: overwrite_def)
qed

lemma exec_fill:
  assumes "responsive K" "input_law K lines" "calls_to fgets h < length lines"
    and "lines ! calls_to fgets h = s @ [CHR 0x0A]" "NUL \<notin> set s" "length s < 199" "length (linebuf g) = 200"
    and "argv g ! 0 = Arg0"
  shows "\<exists>h'. exec K (fill None) g h =
      (Done (), g\<lparr>linebuf := s @ NUL # NUL # drop (length s + 2) (linebuf g)\<rparr>, h') \<and>
    calls_to fgets h' = Suc (calls_to fgets h) \<and> observed told h' = observed told h"
proof -
  let ?k = "\<lambda>r. Put (\<lambda>g. case outs r of VStr s # _ \<Rightarrow> g\<lparr>linebuf := overwrite s (linebuf g)\<rparr> | _ \<Rightarrow> g) (
    Get (\<lambda>g.
    let n = length (c_str (linebuf g)) in
    if n = 0 then Halt
    else if linebuf g ! (n - 1) = CHR 0x0A \<or> linebuf g ! (n - 1) = CHR 0x0D then
      Put (\<lambda>g. g\<lparr>linebuf := (linebuf g)[n - 1 := NUL]\<rparr>) (Ret ())
    else Ret ()))"
  let ?c = "[VRef ''linebuf'', VInt (int 200), VRef ''stdin'']"
  let ?p1 = "Do fflush [VRef ''stdout''] (Call fgets ?c ?k)"
  have fill: "exec K (fill None) g h = exec K (Do printf [VStr ''>>> %s '', VStr ''rtems''] ?p1) g h"
    using assms(8) by (simp add: fill_def arg_string_def)
  obtain h1 where 1: "exec K (Do printf [VStr ''>>> %s '', VStr ''rtems''] ?p1) g h = exec K ?p1 g h1"
    "calls_to fgets h1 = calls_to fgets h" "observed told h1 = observed told h"
    using exec_told_quiet [OF assms(1), of printf "[VStr ''>>> %s '', VStr ''rtems'']" ?p1 g h]
    by (auto simp: told_def)
  obtain h2 where 2: "exec K ?p1 g h1 = exec K (Call fgets ?c ?k) g h2"
    "calls_to fgets h2 = calls_to fgets h1" "observed told h2 = observed told h1"
    using exec_told_quiet [OF assms(1), of fflush "[VRef ''stdout'']" "Call fgets ?c ?k" g h1]
    by (auto simp: told_def)
  obtain r where r: "K h2 (fgets, ?c) = Some r" using assms(1) unfolding responsive_def by blast
  then have out: "outs r = [VStr (s @ [CHR 0x0A])]"
    using assms(2-4) 1(2) 2(2) unfolding input_law_def by metis
  have line: "overwrite (s @ [CHR 0x0A]) (linebuf g) = s @ CHR 0x0A # NUL # drop (length s + 2) (linebuf g)"
    using assms(6,7) by (intro overwrite_line) simp
  have "c_str (s @ CHR 0x0A # NUL # xs) = s @ [CHR 0x0A]" for xs
    using assms(5) unfolding c_str_def by (subst takeWhile_append2) auto
  then have "exec K (Call fgets ?c ?k) g h2 =
      (Done (), g\<lparr>linebuf := s @ NUL # NUL # drop (length s + 2) (linebuf g)\<rparr>, h2 @ [((fgets, ?c), r)])"
    using r by (simp add: out line Let_def)
  then show ?thesis
    using fill 1 2 by (intro exI [of _ "h2 @ [((fgets, ?c), r)]"]) (simp add: told_def)
qed

lemma parse_accepts:
  assumes "exec K (fill cl) g h = (Done (), g1, h1)" "split_args (Suc (length (linebuf g1))) g1 0 = Some (g2, False)"
    and "1 < argc g2"
  shows "exec K (parse_arguments (Suc n) cl) g h = (Done (), g2\<lparr>argv := (argv g2)[argc g2 := Null]\<rparr>, h1)"
  using assms by (simp add: exec_bindp del: split_args.simps)

lemma exec_parse_words:
  assumes "responsive K" "input_law K lines" "calls_to fgets h < length lines"
    and "lines ! calls_to fgets h = s @ [CHR 0x0A]" "NUL \<notin> set s" "length s < 199" "length (linebuf g) = 200"
    and "argv g ! 0 = Arg0" "length (argv g) = 20"
    and "argc g + length (words s) \<le> 19" "1 < argc g + length (words s)"
  shows "\<exists>h' post. exec K (parse_arguments (Suc n) None) g h =
      (Done (), g\<lparr>linebuf := blank s @ NUL # post, argc := argc g + length (words s),
        argv := (place (argc g) (pointers (words_at 0 s)) (argv g))[argc g + length (words s) := Null]\<rparr>, h') \<and>
    observed told h' = observed told h"
proof -
  obtain h' where 1: "exec K (fill None) g h =
      (Done (), g\<lparr>linebuf := s @ NUL # NUL # drop (length s + 2) (linebuf g)\<rparr>, h')"
    "observed told h' = observed told h"
    using exec_fill [OF assms(1-8)] by blast
  let ?post = "NUL # drop (length s + 2) (linebuf g)"
  let ?g = "g\<lparr>linebuf := s @ NUL # ?post\<rparr>"
  have "split_args (Suc (length (linebuf ?g))) ?g 0 = Some (?g\<lparr>linebuf := [] @ blank s @ NUL # ?post,
      argc := argc ?g + length (words_at 0 s), argv := place (argc ?g) (pointers (words_at 0 s)) (argv ?g)\<rparr>, False)"
    using assms by (intro split_args_words [of 0 "[]"]) (simp_all add: words_def)
  from parse_accepts [OF 1(1) this] show ?thesis
    using 1(2) assms(11) by (intro exI [of _ h'] exI [of _ ?post]) (simp add: words_def)
qed

lemma exec_print_args:
  assumes "responsive K"
  shows "\<forall>j<length names. arg_string g (argv g ! (i + j)) = Some (names ! j) \<Longrightarrow>
    \<exists>h'. exec K (print_args (length names) i) g h = (Done 0, g, h') \<and>
      observed told h' = observed told h @ map (\<lambda>(k, w). [VInt (int k), VStr w]) (List.enumerate i names)"
proof (induction names arbitrary: i h)
  case (Cons w names)
  let ?c = "(printf, [VStr ''argv[%d]= %s\<newline>'', VInt (int i), VStr w])"
  obtain r where r: "K h ?c = Some r" using assms unfolding responsive_def by blast
  have w: "arg_string g (argv g ! i) = Some w" using Cons.prems [rule_format, of 0] by simp
  have "\<forall>j<length names. arg_string g (argv g ! (Suc i + j)) = Some (names ! j)"
    using Cons.prems by (metis Suc_less_eq add_Suc_shift length_Cons nth_Cons_Suc)
  from Cons.IH [OF this, of "h @ [(?c, r)]"] show ?case
    using r w by (auto simp: told_def)
qed simp

lemma exec_gnat_main:
  assumes "responsive K" "argc g = length names" "\<forall>j<length names. arg_string g (argv g ! j) = Some (names ! j)"
  shows "\<exists>h'. exec K gnat_main g h = (Done 0, g, h') \<and>
    observed told h' = observed told h @ map (\<lambda>(k, w). [VInt (int k), VStr w]) (List.enumerate 0 names)"
proof -
  let ?c = "(printf, [VStr ''gnat_main: argc=%d\<newline>'', VInt (int (argc g))])"
  obtain r where r: "K h ?c = Some r" using assms(1) unfolding responsive_def by blast
  have "\<forall>j<length names. arg_string g (argv g ! (0 + j)) = Some (names ! j)" using assms(3) by simp
  from exec_print_args [OF assms(1) this, of "h @ [(?c, r)]"] show ?thesis
    using r assms(2) by (auto simp: gnat_main_def told_def)
qed

lemma parsed_strings:
  assumes "NUL \<notin> set s" "k + length (words s) \<le> 19" "length (argv g) = 20" "linebuf g = blank s @ NUL # post"
    and "argv g = (place k (pointers (words_at 0 s)) ys)[k + length (words s) := Null]" "j < length (words s)" "k \<le> length ys"
  shows "arg_string g (argv g ! (k + j)) = Some (words s ! j)"
proof -
  obtain i w where iw: "words_at 0 s ! j = (i, w)" by fastforce
  then have "(i, w) \<in> set (words_at 0 s)" using assms(6) nth_mem [of j "words_at 0 s"] by (simp add: words_def)
  then have "c_str (drop i (linebuf g)) = w" using words_found [of 0 "[]" s i w post] assms(1,4) by simp
  moreover have "argv g ! (k + j) = At i"
    using assms(5-7) iw by (simp add: place_def nth_append words_def)
  ultimately show ?thesis using iw assms(6) by (simp add: arg_string_def words_def)
qed

lemma exec_main_after_parse:
  assumes "responsive K" "\<exists>h'. exec K (parse_arguments n None) g h = (Done (), g', h') \<and> observed told h' = ls"
    and "argc g' = length names" "\<forall>j<length names. arg_string g' (argv g' ! j) = Some (names ! j)"
  shows "\<exists>h'. exec K (bindp (parse_arguments n None) (\<lambda>_.
      Do printk [VStr ''Invoking gnat_main\<newline>''] (
      bindp gnat_main (\<lambda>_.
      Do printk [VStr ''Exiting Ada application\<newline>''] (
      Do exit [VInt 0] Halt))))) g h = (Halted, g', h') \<and>
    observed told h' = ls @ map (\<lambda>(k, w). [VInt (int k), VStr w]) (List.enumerate 0 names) @ [[VInt 0]]"
proof -
  obtain h1 where 1: "exec K (parse_arguments n None) g h = (Done (), g', h1)" "observed told h1 = ls"
    using assms(2) by blast
  let ?c1 = "(printk, [VStr ''Invoking gnat_main\<newline>''])"
  obtain r1 where r1: "K h1 ?c1 = Some r1" using assms(1) unfolding responsive_def by blast
  obtain h2 where 2: "exec K gnat_main g' (h1 @ [(?c1, r1)]) = (Done 0, g', h2)"
    "observed told h2 = observed told (h1 @ [(?c1, r1)]) @ map (\<lambda>(k, w). [VInt (int k), VStr w]) (List.enumerate 0 names)"
    using exec_gnat_main [OF assms(1,3,4)] by blast
  let ?c2 = "(printk, [VStr ''Exiting Ada application\<newline>''])"
  obtain r2 where r2: "K h2 ?c2 = Some r2" using assms(1) unfolding responsive_def by blast
  let ?c3 = "(exit, [VInt 0])"
  obtain r3 where r3: "K (h2 @ [(?c2, r2)]) ?c3 = Some r3" using assms(1) unfolding responsive_def by blast
  show ?thesis
    using 1 2 r1 r2 r3
    by (intro exI [of _ "(h2 @ [(?c2, r2)]) @ [(?c3, r3)]"]) (simp add: exec_bindp told_def del: append_assoc)
qed

lemma exec_start:
  assumes "responsive K"
  shows "\<exists>h'. exec K (start_gnat_main n (Some cl)) g h = exec K (bindp (parse_arguments n cl) (\<lambda>_.
      Do printk [VStr ''Invoking gnat_main\<newline>''] (
      bindp gnat_main (\<lambda>_.
      Do printk [VStr ''Exiting Ada application\<newline>''] (
      Do exit [VInt 0] Halt))))) g h' \<and>
    calls_to fgets h' = calls_to fgets h \<and> observed told h' = observed told h"
  unfolding start_gnat_main_def option.case
  by (rule exec_told_quiet [OF assms]) (simp_all add: told_def)

text \<open>
  C28: A typed line of at most eighteen words reaches the main program as its argument vector: the
  parser, which overwrites the line in place and keeps pointers into it, delivers the name and the
  words of the line, in order.
\<close>

theorem command_line_arguments:
  assumes "responsive K" "input_law K (map (\<lambda>s. s @ [CHR 0x0A]) (s # rest))" "NUL \<notin> set s" "length s < 199"
    and "words s \<noteq> []" "length (words s) \<le> 18" "length junk = 200"
  shows "\<exists>g' h'. exec K (start_gnat_main (Suc n) (Some None)) (ada_start junk) [] = (Halted, g', h') \<and>
    observed told h' =
      map (\<lambda>(k, w). [VInt (int k), VStr w]) (List.enumerate 0 (''rtems'' # words s)) @ [[VInt 0]]"
proof -
  let ?g = "ada_start junk" and ?ws = "''rtems'' # words s"
  obtain h1 where 1: "exec K (start_gnat_main (Suc n) (Some None)) ?g [] = exec K (bindp (parse_arguments (Suc n) None) (\<lambda>_.
      Do printk [VStr ''Invoking gnat_main\<newline>''] (
      bindp gnat_main (\<lambda>_.
      Do printk [VStr ''Exiting Ada application\<newline>''] (
      Do exit [VInt 0] Halt))))) ?g h1"
    "calls_to fgets h1 = 0" "observed told h1 = []"
    using exec_start [OF assms(1), of "Suc n" None ?g "[]"] by auto
  obtain h2 post where 2: "exec K (parse_arguments (Suc n) None) ?g h1 = (Done (), ?g\<lparr>linebuf := blank s @ NUL # post,
      argc := 1 + length (words s),
      argv := (place 1 (pointers (words_at 0 s)) (argv ?g))[1 + length (words s) := Null]\<rparr>, h2)"
    "observed told h2 = []"
    using exec_parse_words [OF assms(1,2), of h1 s ?g n] assms(3-7) 1 by (auto simp: ada_start_def Suc_le_eq)
  let ?g' = "?g\<lparr>linebuf := blank s @ NUL # post, argc := 1 + length (words s),
      argv := (place 1 (pointers (words_at 0 s)) (argv ?g))[1 + length (words s) := Null]\<rparr>"
  have len: "length (argv ?g') = 20" using assms(6) by (simp add: ada_start_def place_def words_def)
  have "arg_string ?g' (argv ?g' ! j) = Some (?ws ! j)" if "j < length ?ws" for j
  proof (cases j)
    case 0
    then show ?thesis using assms(5) by (simp add: ada_start_def place_def arg_string_def words_def)
  next
    case (Suc i)
    then show ?thesis
      using parsed_strings [of s 1 ?g' post "argv ?g" i] assms(3,6) len that by (simp add: ada_start_def)
  qed
  then have "\<forall>j<length ?ws. arg_string ?g' (argv ?g' ! j) = Some (?ws ! j)" by blast
  from exec_main_after_parse [OF assms(1) _ _ this, of "Suc n" ?g h1 "[]"] show ?thesis
    using 1(1) 2 by auto
qed

lemma parse_rejects:
  assumes "exec K (fill cl) g h = (Done (), g1, h1)" "split_args (Suc (length (linebuf g1))) g1 0 = Some (g2, True)"
    and "argc g2 = 0" "responsive K"
  shows "\<exists>h'. exec K (parse_arguments (Suc n) cl) g h = exec K (parse_arguments n cl) g2 h' \<and>
    calls_to fgets h' = calls_to fgets h1 \<and> observed told h' = observed told h1"
proof -
  let ?c1 = "(printf, [VStr ''Too many arguments.\<newline>''])"
  let ?c2 = "(printf, [VStr ''You must give some arguments!\<newline>''])"
  obtain r1 where r1: "K h1 ?c1 = Some r1" using assms(4) unfolding responsive_def by blast
  obtain r2 where r2: "K (h1 @ [(?c1, r1)]) ?c2 = Some r2" using assms(4) unfolding responsive_def by blast
  show ?thesis
    using assms(1-3) r1 r2
    by (intro exI [of _ "(h1 @ [(?c1, r1)]) @ [(?c2, r2)]"])
       (simp add: exec_bindp told_def del: split_args.simps append_assoc)
qed


section \<open>Examples\<close>

definition ada_terminal :: "string list \<Rightarrow> kernel" where
  "ada_terminal lines h c =
    Some (Reply (VInt 0) (if fst c = fgets \<and> calls_to fgets h < length lines then [VStr (lines ! calls_to fgets h)] else []))"

lemma ada_terminal_laws: "responsive (ada_terminal lines)" "input_law (ada_terminal lines) lines"
  by (auto simp: ada_terminal_def responsive_def input_law_def)

lemma example_words: "words ''a bc'' = [''a'', ''bc'']"
  by code_simp

definition long_line :: string where
  "long_line = concat (replicate 19 ''x '')"

lemma long_line_facts: "length (words long_line) = 19" "NUL \<notin> set long_line" "length long_line = 38"
  by code_simp+

theorem command_line_arguments_witness:
  "\<exists>g' h'. exec (ada_terminal [''a bc\<newline>'']) (start_gnat_main 1 (Some None)) (ada_start (replicate 200 NUL)) [] =
      (Halted, g', h') \<and>
    observed told h' = [[VInt 0, VStr ''rtems''], [VInt 1, VStr ''a''], [VInt 2, VStr ''bc''], [VInt 0]]"
  using command_line_arguments [of "ada_terminal [''a bc\<newline>'']" "''a bc''" "[]" "replicate 200 NUL" 0]
  by (simp add: ada_terminal_laws example_words)


end
