(* ===== verification/Schedsim.thy ===== *)
theory Schedsim
  imports RT_Runs
begin

text \<open>
  The scheduler simulator, \<open>schedsim/schedsim_priority\<close>: \<open>schedsim.cc\<close>, which interprets a script of
  shell commands, and the wrapper of the thread dispatcher.

  The shell of RTEMS, that splits a line into arguments and knows the commands, is not part of the
  repository; \<open>rtems_shell_command\<close> stands for the call of the function of a command.
\<close>

section \<open>\<open>schedsim.cc\<close>\<close>

record schedsim =
  verbose :: bool
  ScriptFileLine :: int

abbreviation NULL :: val where "NULL \<equiv> VRef ''NULL''"
abbreviation stderr :: val where "stderr \<equiv> VRef ''stderr''"

definition usage :: "val \<Rightarrow> ('g, 'a) prog" where
  "usage progname =
     Do fprintf [stderr, VStr ''Usage: %s [-v] script\<newline>\<newline>  -v           - enable verbose output\<newline>'', progname] (
     Do exit [VInt (- 1)] Halt)"

definition is_blank :: "char \<Rightarrow> bool" where
  "is_blank c \<longleftrightarrow> c = CHR '' '' \<or> c = CHR 0x09"

definition chomp :: "string \<Rightarrow> string" where
  "chomp s = (if last s = CHR 0x0A then butlast s else s)"

text \<open>
  The loop, at most \<open>n\<close> rounds.  \<open>argv\<close> keeps what earlier lines left in it; \<open>buffer[-1]\<close>, when a line
  is empty, is \<open>Halt\<close>.  The last message prints the line as the shell's parser has left it.
\<close>

primrec ProcessScript :: "nat \<Rightarrow> val \<Rightarrow> string \<Rightarrow> val list \<Rightarrow> (schedsim, unit) prog" where
  "ProcessScript 0 script buffer argv = Cut"
| "ProcessScript (Suc n) script buffer argv =
     Call fgets [VRef ''buffer'', VInt 512, script] (\<lambda>r.
     if ret r = NULL then Ret ()
     else
       let buffer = c_str (case outs r of VStr s # _ \<Rightarrow> s | _ \<Rightarrow> buffer) in
       if buffer = [] then Halt
       else
         let buffer = chomp buffer in
         bindp
           (Get (\<lambda>g. if verbose g then
              Put (\<lambda>g. g\<lparr>ScriptFileLine := ScriptFileLine g + 1\<rparr>) (
              Get (\<lambda>g. Do fprintf [stderr, VStr ''%d: %s\<newline>'', VInt (ScriptFileLine g), VStr buffer] (Ret ())))
            else Ret ())) (\<lambda>_.
         if buffer \<noteq> [] \<and> hd buffer = CHR ''#'' then ProcessScript n script buffer argv
         else
           let c = dropWhile is_blank buffer in
           if c = ''bye'' \<or> c = ''exit'' then Ret ()
           else
             Call rtems_shell_make_args [VStr c, VRef ''&argc'', VRef ''argv'', VInt 128] (\<lambda>r.
             let argv = outs r @ drop (length (outs r)) argv in
             if ret r \<noteq> VInt 0 then
               Do fprintf [stderr, VStr ''Error parsing arguments\<newline>''] (ProcessScript n script buffer argv)
             else
               Call rtems_shell_lookup_cmd [argv ! 0] (\<lambda>l.
               if ret l = NULL then
                 Do fprintf [stderr, VStr ''%s is unknown command\<newline>'', VRef ''c''] (ProcessScript n script buffer argv)
               else Do rtems_shell_command (ret l # outs r) (ProcessScript n script buffer argv)))))"

text \<open>
  The options: \<open>optind\<close>, a global variable of the C library, is an output of \<open>getopt\<close>.
\<close>

primrec options :: "nat \<Rightarrow> val \<Rightarrow> (schedsim, val) prog" where
  "options 0 progname = Cut"
| "options (Suc n) progname =
     Call getopt [VRef ''argc'', VRef ''argv'', VStr ''v''] (\<lambda>r.
     if ret r = VInt (- 1) then Ret (out r 0 (VInt 1))
     else if ret r = VInt 118 then Put (\<lambda>g. g\<lparr>verbose := True\<rparr>) (options n progname)
     else usage progname)"

definition schedsim_main :: "nat \<Rightarrow> string \<Rightarrow> val list \<Rightarrow> string list \<Rightarrow> (schedsim, int) prog" where
  "schedsim_main n junk args argv =
     (let progname = VStr (argv ! 0) in
      bindp (options n progname) (\<lambda>optind.
      let i = nat (as_int optind) in
      if length argv \<le> i then
        Do fprintf [stderr, VStr ''no script to process\<newline>''] (usage progname)
      else
        let scriptname = argv ! i in
        bindp
          (Get (\<lambda>g. if verbose g then
             Do fprintf [stderr, VStr ''Script File               : %s\<newline>verbose                   : %d\<newline>'',
               VStr scriptname, VInt 1] (Ret ())
           else Ret ())) (\<lambda>_.
        Do rtems_shell_initialize_command_set [] (
        Call fopen [VStr scriptname, VStr ''r''] (\<lambda>r.
        if ret r = NULL then
          Do fprintf [stderr, VStr ''Unable to open script file (%s)\<newline>'', VStr scriptname] (
          Do exit [VInt (- 1)] Halt)
        else
          bindp (ProcessScript n (ret r) junk args) (\<lambda>_.
          Do fclose [ret r] (
          Ret 0)))))))"

section \<open>\<open>wrap_thread_dispatch.c\<close> and \<open>printheir_executing.c\<close>\<close>

text \<open>The threads of RTEMS, \<open>_Thread_Heir\<close> and \<open>_Thread_Executing\<close>, are pointers; \<open>tcb\<close> yields id and priority.\<close>

record dispatcher =
  last_heir :: nat
  last_executing :: nat
  Thread_Heir :: nat
  Thread_Executing :: nat

definition PRINT_EXECUTING :: "(nat \<Rightarrow> int \<times> int) \<Rightarrow> (dispatcher, unit) prog" where
  "PRINT_EXECUTING tcb =
     Get (\<lambda>g. case tcb (Thread_Executing g) of (i, prio) \<Rightarrow>
     Do printf [VStr ''  Thread Executing: 0x%08x priority=%ld\<newline>'', VInt i, VInt prio] (Ret ()))"

definition PRINT_HEIR :: "(nat \<Rightarrow> int \<times> int) \<Rightarrow> (dispatcher, unit) prog" where
  "PRINT_HEIR tcb =
     Get (\<lambda>g. case tcb (Thread_Heir g) of (i, prio) \<Rightarrow>
     Do printf [VStr ''  Thread Heir: 0x%08x priority=%ld\<newline>'', VInt i, VInt prio] (Ret ()))"

definition check_heir_and_executing :: "(nat \<Rightarrow> int \<times> int) \<Rightarrow> (dispatcher, unit) prog" where
  "check_heir_and_executing tcb =
     bindp (Get (\<lambda>g. if last_heir g \<noteq> Thread_Heir g then PRINT_HEIR tcb else Ret ())) (\<lambda>_.
     bindp (Get (\<lambda>g. if last_executing g \<noteq> Thread_Executing g then PRINT_EXECUTING tcb else Ret ())) (\<lambda>_.
     Put (\<lambda>g. g\<lparr>last_heir := Thread_Heir g\<rparr>) (
     Put (\<lambda>g. g\<lparr>last_executing := Thread_Executing g\<rparr>) (
     Ret ()))))"

text \<open>The dispatcher of RTEMS is the parameter \<open>real_Thread_Dispatch\<close>.\<close>

definition wrap_Thread_Dispatch ::
    "(dispatcher, unit) prog \<Rightarrow> (nat \<Rightarrow> int \<times> int) \<Rightarrow> (dispatcher, unit) prog" where
  "wrap_Thread_Dispatch real_Thread_Dispatch tcb =
     bindp (check_heir_and_executing tcb) (\<lambda>_.
     bindp real_Thread_Dispatch (\<lambda>_.
     check_heir_and_executing tcb))"

section \<open>What a script does\<close>

text \<open>
  A specification of the interpreter, on the text of the script line by line, for a shell that splits
  a line by \<open>split\<close> and knows the commands \<open>known\<close>: the argument vectors of the commands that are
  executed.
\<close>

fun without_indent :: "string \<Rightarrow> string" where
  "without_indent [] = []"
| "without_indent (x # xs) = (if x = CHR '' '' \<or> x = CHR 0x09 then without_indent xs else x # xs)"

fun script_commands :: "(string \<Rightarrow> string list option) \<Rightarrow> (string \<Rightarrow> bool) \<Rightarrow> string list \<Rightarrow> string list list" where
  "script_commands split known [] = []"
| "script_commands split known (text # texts) =
     (if take 1 text = ''#'' then script_commands split known texts
      else if without_indent text \<in> {''bye'', ''exit''} then []
      else case split (without_indent text) of
        Some (v # vs) \<Rightarrow>
          if known v then (v # vs) # script_commands split known texts else script_commands split known texts
      | _ \<Rightarrow> script_commands split known texts)"

text \<open>The lines of a file with these texts; the last one may lack its newline if it is not empty.\<close>

definition file_lines :: "bool \<Rightarrow> string list \<Rightarrow> string list" where
  "file_lines terminated texts =
    (if terminated \<or> texts = [] then map (\<lambda>t. t @ [CHR 0x0A]) texts
     else map (\<lambda>t. t @ [CHR 0x0A]) (butlast texts) @ [last texts])"

text \<open>
  The laws of the shell and of the file: the shell's parser answers by \<open>split\<close>, a command is found by
  its name, and the lines come one by one, then the null pointer.
\<close>

definition shell_law :: "kernel \<Rightarrow> (string \<Rightarrow> string list option) \<Rightarrow> (string \<Rightarrow> bool) \<Rightarrow> bool" where
  "shell_law K split known \<longleftrightarrow>
    (\<forall>h c a v n r. K h (rtems_shell_make_args, [VStr c, a, v, n]) = Some r \<longrightarrow>
      (case split c of None \<Rightarrow> ret r \<noteq> VInt 0 | Some vs \<Rightarrow> ret r = VInt 0 \<and> outs r = map VStr vs)) \<and>
    (\<forall>h v r. K h (rtems_shell_lookup_cmd, [VStr v]) = Some r \<longrightarrow>
      ret r = (if known v then VOp ''command'' [VStr v] else NULL))"

definition file_law :: "kernel \<Rightarrow> string list \<Rightarrow> bool" where
  "file_law K lines \<longleftrightarrow>
    (\<forall>h args r. K h (fgets, args) = Some r \<longrightarrow>
      (if calls_to fgets h < length lines then ret r \<noteq> NULL \<and> outs r = [VStr (lines ! calls_to fgets h)]
       else ret r = NULL))"

text \<open>What is observed: the function that is called, and its arguments.\<close>

definition executed :: "syscall \<Rightarrow> val list option" where
  "executed c = (if fst c = rtems_shell_command then Some (snd c) else None)"

definition command_call :: "string list \<Rightarrow> val list" where
  "command_call vs = VOp ''command'' [VStr (hd vs)] # map VStr vs"

lemma exec_shell_quiet:
  assumes "responsive K" "f \<noteq> fgets" "f \<noteq> rtems_shell_command"
  shows "\<exists>h'. exec K (Do f args p) g h = exec K p g h' \<and> calls_to fgets h' = calls_to fgets h \<and>
    observed executed h' = observed executed h"
proof -
  obtain r where "K h (f, args) = Some r" using assms(1) unfolding responsive_def by blast
  then show ?thesis using assms(2,3) by (intro exI [of _ "h @ [((f, args), r)]"]) (simp add: executed_def)
qed

lemma exec_verbose:
  assumes "responsive K"
  shows "\<exists>g' h'. exec K (bindp
      (Get (\<lambda>g. if verbose g then
         Put (\<lambda>g. g\<lparr>ScriptFileLine := ScriptFileLine g + 1\<rparr>) (
         Get (\<lambda>g. Do fprintf [stderr, VStr ''%d: %s\<newline>'', VInt (ScriptFileLine g), VStr b] (Ret ())))
       else Ret ())) (\<lambda>_. p)) g h = exec K p g' h' \<and>
    calls_to fgets h' = calls_to fgets h \<and> observed executed h' = observed executed h"
proof (cases "verbose g")
  case True
  let ?g = "g\<lparr>ScriptFileLine := ScriptFileLine g + 1\<rparr>"
  obtain h' where "exec K (Do fprintf [stderr, VStr ''%d: %s\<newline>'', VInt (ScriptFileLine ?g), VStr b] p) ?g h = exec K p ?g h'"
    "calls_to fgets h' = calls_to fgets h" "observed executed h' = observed executed h"
    using exec_shell_quiet [OF assms, of fprintf "[stderr, VStr ''%d: %s\<newline>'', VInt (ScriptFileLine ?g), VStr b]" p ?g h]
    by auto
  then show ?thesis using True by (intro exI [of _ ?g] exI [of _ h']) simp
next
  case False
  then show ?thesis by (intro exI [of _ g] exI [of _ h]) simp
qed

text \<open>One round, after the line is read; \<open>p\<close> is the rest of the loop.\<close>

definition obey_line :: "string \<Rightarrow> val list \<Rightarrow> (val list \<Rightarrow> (schedsim, unit) prog) \<Rightarrow> (schedsim, unit) prog" where
  "obey_line c argv p =
     (if c = ''bye'' \<or> c = ''exit'' then Ret ()
      else
        Call rtems_shell_make_args [VStr c, VRef ''&argc'', VRef ''argv'', VInt 128] (\<lambda>r.
        let argv = outs r @ drop (length (outs r)) argv in
        if ret r \<noteq> VInt 0 then
          Do fprintf [stderr, VStr ''Error parsing arguments\<newline>''] (p argv)
        else
          Call rtems_shell_lookup_cmd [argv ! 0] (\<lambda>l.
          if ret l = NULL then
            Do fprintf [stderr, VStr ''%s is unknown command\<newline>'', VRef ''c''] (p argv)
          else Do rtems_shell_command (ret l # outs r) (p argv))))"

lemma exec_obey_line:
  assumes "responsive K" "shell_law K split known" "c \<noteq> ''bye''" "c \<noteq> ''exit''"
    and "split c \<noteq> Some []"
  shows "\<exists>argv' h'. exec K (obey_line c argv p) g h = exec K (p argv') g h' \<and>
    calls_to fgets h' = calls_to fgets h \<and>
    observed executed h' = observed executed h @
      (case split c of Some (v # vs) \<Rightarrow> if known v then [command_call (v # vs)] else [] | _ \<Rightarrow> [])"
proof -
  let ?m = "(rtems_shell_make_args, [VStr c, VRef ''&argc'', VRef ''argv'', VInt 128])"
  obtain r where r: "K h ?m = Some r" using assms(1) unfolding responsive_def by blast
  have law: "case split c of None \<Rightarrow> ret r \<noteq> VInt 0 | Some vs \<Rightarrow> ret r = VInt 0 \<and> outs r = map VStr vs"
    using assms(2) r unfolding shell_law_def by blast
  let ?h = "h @ [(?m, r)]" and ?argv = "outs r @ drop (length (outs r)) argv"
  show ?thesis
  proof (cases "split c")
    case None
    then have "ret r \<noteq> VInt 0" using law by simp
    moreover obtain h' where "exec K (Do fprintf [stderr, VStr ''Error parsing arguments\<newline>''] (p ?argv)) g ?h = exec K (p ?argv) g h'"
      "calls_to fgets h' = calls_to fgets ?h" "observed executed h' = observed executed ?h"
      using exec_shell_quiet [OF assms(1), of fprintf "[stderr, VStr ''Error parsing arguments\<newline>'']" "p ?argv" g ?h]
      by auto
    ultimately show ?thesis
      using None r assms(3,4) by (intro exI [of _ ?argv] exI [of _ h']) (simp add: obey_line_def executed_def Let_def)
  next
    case (Some ws)
    then obtain v vs where ws: "ws = v # vs" using assms(5) by (cases ws) auto
    have ok: "ret r = VInt 0" "outs r = map VStr (v # vs)" using law Some ws by simp_all
    let ?l = "(rtems_shell_lookup_cmd, [VStr v])"
    obtain l where l: "K ?h ?l = Some l" using assms(1) unfolding responsive_def by blast
    then have look: "ret l = (if known v then VOp ''command'' [VStr v] else NULL)"
      using assms(2) unfolding shell_law_def by blast
    let ?h2 = "?h @ [(?l, l)]"
    show ?thesis
    proof (cases "known v")
      case True
      let ?x = "(rtems_shell_command, ret l # outs r)"
      obtain x where x: "K ?h2 ?x = Some x" using assms(1) unfolding responsive_def by blast
      show ?thesis
        using Some ws ok r l look True x assms(3,4)
        by (intro exI [of _ ?argv] exI [of _ "?h2 @ [(?x, x)]"]) (simp add: obey_line_def executed_def command_call_def Let_def del: append_assoc)
    next
      case False
      obtain h' where "exec K (Do fprintf [stderr, VStr ''%s is unknown command\<newline>'', VRef ''c''] (p ?argv)) g ?h2 = exec K (p ?argv) g h'"
        "calls_to fgets h' = calls_to fgets ?h2" "observed executed h' = observed executed ?h2"
        using exec_shell_quiet [OF assms(1), of fprintf "[stderr, VStr ''%s is unknown command\<newline>'', VRef ''c'']" "p ?argv" g ?h2]
        by auto
      then show ?thesis
        using Some ws ok r l look False assms(3,4)
        by (intro exI [of _ ?argv] exI [of _ h']) (simp add: obey_line_def executed_def Let_def del: append_assoc)
    qed
  qed
qed

lemma ProcessScript_step:
  assumes "responsive K" "file_law K lines" "calls_to fgets h < length lines"
    and "line = lines ! calls_to fgets h" "line \<noteq> []" "CHR 0x00 \<notin> set line"
  shows "\<exists>g' h'. exec K (ProcessScript (Suc n) script buffer argv) g h =
      exec K (let l = chomp line in
        if l \<noteq> [] \<and> hd l = CHR ''#'' then ProcessScript n script l argv
        else obey_line (dropWhile is_blank l) argv (ProcessScript n script l)) g' h' \<and>
    calls_to fgets h' = Suc (calls_to fgets h) \<and> observed executed h' = observed executed h"
proof -
  let ?f = "(fgets, [VRef ''buffer'', VInt 512, script])"
  obtain r where r: "K h ?f = Some r" using assms(1) unfolding responsive_def by blast
  then have f: "ret r \<noteq> NULL" "outs r = [VStr line]" using assms(2-4) unfolding file_law_def by auto
  have c: "c_str line = line" using assms(6) unfolding c_str_def by (auto simp: takeWhile_eq_all_conv)
  let ?p = "let l = chomp line in
        if l \<noteq> [] \<and> hd l = CHR ''#'' then ProcessScript n script l argv
        else obey_line (dropWhile is_blank l) argv (ProcessScript n script l)"
  obtain g' h' where "exec K (bindp
      (Get (\<lambda>g. if verbose g then
         Put (\<lambda>g. g\<lparr>ScriptFileLine := ScriptFileLine g + 1\<rparr>) (
         Get (\<lambda>g. Do fprintf [stderr, VStr ''%d: %s\<newline>'', VInt (ScriptFileLine g), VStr (chomp line)] (Ret ())))
       else Ret ())) (\<lambda>_. ?p)) g (h @ [(?f, r)]) = exec K ?p g' h'"
    "calls_to fgets h' = calls_to fgets (h @ [(?f, r)])" "observed executed h' = observed executed (h @ [(?f, r)])"
    using exec_verbose [OF assms(1), of "chomp line" ?p g "h @ [(?f, r)]"] by blast
  then show ?thesis
    using r f c assms(5)
    by (intro exI [of _ g'] exI [of _ h']) (simp add: executed_def obey_line_def Let_def cong: if_cong)
qed

text \<open>The interpreter's own reading of the lines, with its \<open>chomp\<close> and \<open>isblank\<close>.\<close>

fun line_commands :: "(string \<Rightarrow> string list option) \<Rightarrow> (string \<Rightarrow> bool) \<Rightarrow> string list \<Rightarrow> string list list" where
  "line_commands split known [] = []"
| "line_commands split known (line # lines) =
     (let l = chomp line; c = dropWhile is_blank l in
      if l \<noteq> [] \<and> hd l = CHR ''#'' then line_commands split known lines
      else if c = ''bye'' \<or> c = ''exit'' then []
      else case split c of
        Some (v # vs) \<Rightarrow>
          if known v then (v # vs) # line_commands split known lines else line_commands split known lines
      | _ \<Rightarrow> line_commands split known lines)"

lemma ProcessScript_exec:
  assumes "responsive K" "shell_law K split known" "file_law K lines" "\<forall>l\<in>set lines. l \<noteq> [] \<and> CHR 0x00 \<notin> set l"
    and "\<forall>l\<in>set lines. chomp l \<noteq> [] \<and> hd (chomp l) = CHR ''#'' \<or> split (dropWhile is_blank (chomp l)) \<noteq> Some []"
  shows "calls_to fgets h \<le> length lines \<Longrightarrow> length lines - calls_to fgets h < n \<Longrightarrow>
    \<exists>g' h'. exec K (ProcessScript n script buffer argv) g h = (Done (), g', h') \<and>
      observed executed h' = observed executed h @
        map command_call (line_commands split known (drop (calls_to fgets h) lines))"
proof (induction n arbitrary: buffer argv g h)
  case (Suc n)
  show ?case
  proof (cases "calls_to fgets h = length lines")
    case True
    let ?f = "(fgets, [VRef ''buffer'', VInt 512, script])"
    obtain r where r: "K h ?f = Some r" using assms(1) unfolding responsive_def by blast
    then have "ret r = NULL" using assms(3) True unfolding file_law_def by (metis less_irrefl)
    then show ?thesis using r True by (intro exI [of _ g] exI [of _ "h @ [(?f, r)]"]) (simp add: executed_def)
  next
    case False
    let ?line = "lines ! calls_to fgets h"
    have lt: "calls_to fgets h < length lines" using False Suc.prems by simp
    have line: "?line \<noteq> []" "CHR 0x00 \<notin> set ?line" using assms(4) lt nth_mem by blast+
    let ?l = "chomp ?line" and ?c = "dropWhile is_blank (chomp ?line)"
    obtain g1 h1 where 1: "exec K (ProcessScript (Suc n) script buffer argv) g h =
        exec K (let l = ?l in
          if l \<noteq> [] \<and> hd l = CHR ''#'' then ProcessScript n script l argv
          else obey_line (dropWhile is_blank l) argv (ProcessScript n script l)) g1 h1"
      "calls_to fgets h1 = Suc (calls_to fgets h)" "observed executed h1 = observed executed h"
      using ProcessScript_step [OF assms(1,3) lt refl line, of n script buffer argv g] by blast
    have drop: "drop (calls_to fgets h) lines = ?line # drop (Suc (calls_to fgets h)) lines"
      using lt by (rule Cons_nth_drop_Suc [symmetric])
    have IH: "\<exists>g' h'. exec K (ProcessScript n script b a) g1 h2 = (Done (), g', h') \<and>
        observed executed h' = observed executed h2 @
          map command_call (line_commands split known (drop (Suc (calls_to fgets h)) lines))"
      if "calls_to fgets h2 = Suc (calls_to fgets h)" for b a h2
      using Suc.IH [of h2 b a g1] that Suc.prems lt by simp
    consider (comment) "?l \<noteq> [] \<and> hd ?l = CHR ''#''"
      | (leave) "\<not> (?l \<noteq> [] \<and> hd ?l = CHR ''#'')" "?c = ''bye'' \<or> ?c = ''exit''"
      | (command) "\<not> (?l \<noteq> [] \<and> hd ?l = CHR ''#'')" "?c \<noteq> ''bye''" "?c \<noteq> ''exit''" by blast
    then show ?thesis
    proof cases
      case comment
      then show ?thesis using 1 IH [OF 1(2), of ?l argv] by (simp add: drop)
    next
      case leave
      then have "exec K (ProcessScript (Suc n) script buffer argv) g h = (Done (), g1, h1)"
        unfolding 1(1) by (auto simp: obey_line_def Let_def)
      then show ?thesis using 1(3) leave by (intro exI [of _ g1] exI [of _ h1]) (auto simp: drop Let_def)
    next
      case command
      have nonempty: "split ?c \<noteq> Some []" using assms(5) command(1) lt nth_mem by blast
      obtain a h2 where 2: "exec K (obey_line ?c argv (ProcessScript n script ?l)) g1 h1 = exec K (ProcessScript n script ?l a) g1 h2"
        "calls_to fgets h2 = calls_to fgets h1"
        "observed executed h2 = observed executed h1 @
          (case split ?c of Some (v # vs) \<Rightarrow> if known v then [command_call (v # vs)] else [] | _ \<Rightarrow> [])"
        using exec_obey_line [OF assms(1,2) command(2,3) nonempty, of argv "ProcessScript n script ?l" g1 h1] by blast
      obtain g' h' where 3: "exec K (ProcessScript n script ?l a) g1 h2 = (Done (), g', h')"
        "observed executed h' = observed executed h2 @
          map command_call (line_commands split known (drop (Suc (calls_to fgets h)) lines))"
        using IH [of h2 ?l a] 2(2) 1(2) by auto
      have "exec K (ProcessScript (Suc n) script buffer argv) g h = (Done (), g', h')"
        unfolding 1(1) using 2(1) 3(1) command(1) by (auto simp: Let_def)
      moreover have "observed executed h' = observed executed h @
          map command_call (line_commands split known (drop (calls_to fgets h) lines))"
        using 1(3) 2(3) 3(2) command by (auto simp: drop Let_def split: option.split list.split)
      ultimately show ?thesis by blast
    qed
  qed
qed simp

lemma without_indent_eq: "without_indent t = dropWhile is_blank t"
  by (induction t) (simp_all add: is_blank_def)

lemma chomp_text: "CHR 0x0A \<notin> set t \<Longrightarrow> chomp (t @ [CHR 0x0A]) = t" "CHR 0x0A \<notin> set t \<Longrightarrow> t \<noteq> [] \<Longrightarrow> chomp t = t"
proof -
  show "chomp (t @ [CHR 0x0A]) = t" by (simp add: chomp_def)
  assume "CHR 0x0A \<notin> set t" "t \<noteq> []"
  then have "last t \<noteq> CHR 0x0A" using last_in_set by metis
  then show "chomp t = t" by (simp add: chomp_def)
qed

lemma chomp_file_lines:
  assumes "\<forall>t\<in>set texts. CHR 0x0A \<notin> set t" "terminated \<or> texts = [] \<or> last texts \<noteq> []"
  shows "map chomp (file_lines terminated texts) = texts"
  using assms by (cases texts rule: rev_cases) (auto simp: file_lines_def chomp_text intro!: map_idI)

lemma line_commands_texts:
  "line_commands split known lines = script_commands split known (map chomp lines)"
proof (induction lines)
  case (Cons line lines)
  have "take 1 t = ''#'' \<longleftrightarrow> t \<noteq> [] \<and> hd t = CHR ''#''" for t by (cases t) auto
  then show ?case using Cons
    by (simp add: without_indent_eq Let_def split: option.split list.split)
qed simp

text \<open>
  C30: The scheduler simulator's interpreter executes exactly the commands of its script that the
  specification names, in order: comments, lines that the shell cannot parse and unknown commands
  are skipped, and bye or exit ends the script.
\<close>

theorem script_executes:
  assumes "responsive K" "shell_law K split known" "file_law K (file_lines terminated texts)"
    and "\<forall>t\<in>set texts. CHR 0x00 \<notin> set t \<and> CHR 0x0A \<notin> set t"
    and "terminated \<or> texts = [] \<or> last texts \<noteq> []"
    and "\<forall>t\<in>set texts. take 1 t = ''#'' \<or> split (without_indent t) \<noteq> Some []" "length texts < n"
  shows "\<exists>g' h'. exec K (ProcessScript n script buffer argv) g [] = (Done (), g', h') \<and>
    observed executed h' =
      map (\<lambda>vs. VOp ''command'' [VStr (hd vs)] # map VStr vs) (script_commands split known texts)"
proof -
  let ?lines = "file_lines terminated texts"
  have texts: "map chomp ?lines = texts" using chomp_file_lines [of texts terminated] assms(4,5) by blast
  have "l \<noteq> [] \<and> CHR 0x00 \<notin> set l" if "l \<in> set ?lines" for l
    using that assms(4,5) by (cases texts rule: rev_cases) (auto simp: file_lines_def split: if_splits)
  moreover have "chomp l \<noteq> [] \<and> hd (chomp l) = CHR ''#'' \<or> split (dropWhile is_blank (chomp l)) \<noteq> Some []"
    if "l \<in> set ?lines" for l
  proof -
    have "chomp l \<in> set texts" using imageI [OF that, of chomp] texts by (metis list.set_map)
    then have "take 1 (chomp l) = ''#'' \<or> split (dropWhile is_blank (chomp l)) \<noteq> Some []"
      using assms(6) by (simp add: without_indent_eq)
    then show ?thesis by (cases "chomp l") auto
  qed
  moreover have "length ?lines = length texts" using texts by (metis length_map)
  moreover have "command_call = (\<lambda>vs. VOp ''command'' [VStr (hd vs)] # map VStr vs)"
    by (simp add: fun_eq_iff command_call_def)
  ultimately show ?thesis
    using ProcessScript_exec [OF assms(1-3), of "[]" n script buffer argv g] assms(7)
    by (simp add: line_commands_texts texts)
qed

section \<open>Lines that do not fit into the buffer\<close>

text \<open>What \<open>fgets\<close> delivers from a file into a buffer of 512 characters.\<close>

definition first_line :: "string \<Rightarrow> string" where
  "first_line s = take (min 511 (Suc (length (takeWhile (\<lambda>c. c \<noteq> CHR 0x0A) s)))) s"

function fgets_lines :: "string \<Rightarrow> string list" where
  "fgets_lines s = (if s = [] then [] else first_line s # fgets_lines (drop (length (first_line s)) s))"
  by pat_completeness auto
termination by (relation "measure length") (auto simp: first_line_def)

declare fgets_lines.simps [simp del]

lemma long_comment_lines:
  assumes "length xs = 510" "CHR 0x0A \<notin> set xs" "CHR 0x0A \<notin> set c" "length c < 511"
  shows "fgets_lines ((CHR ''#'' # xs) @ c @ [CHR 0x0A]) = [CHR ''#'' # xs, c @ [CHR 0x0A]]"
proof -
  have "takeWhile (\<lambda>c. c \<noteq> CHR 0x0A) ((CHR ''#'' # xs) @ c @ [CHR 0x0A]) = (CHR ''#'' # xs) @ c"
    using assms(2,3) by (auto simp: takeWhile_append)
  then have 1: "first_line ((CHR ''#'' # xs) @ c @ [CHR 0x0A]) = CHR ''#'' # xs"
    using assms(1) by (simp add: first_line_def)
  have "takeWhile (\<lambda>c. c \<noteq> CHR 0x0A) (c @ [CHR 0x0A]) = c"
    using assms(3) by (subst takeWhile_append2) auto
  then have 2: "first_line (c @ [CHR 0x0A]) = c @ [CHR 0x0A]"
    using assms(4) by (simp add: first_line_def)
  have "fgets_lines (c @ [CHR 0x0A]) = [c @ [CHR 0x0A]]"
    by (subst fgets_lines.simps) (simp add: 2 fgets_lines.simps [of "[]"])
  then show ?thesis
    by (subst fgets_lines.simps) (simp add: 1 [simplified])
qed

text \<open>
  C33: The tail of a comment longer than 511 characters is executed as a command, as the reader
  takes it for a line of its own.
\<close>

theorem long_comment_runs:
  assumes "responsive K" "shell_law K split known"
    and "file_law K (fgets_lines ((CHR ''#'' # xs) @ c @ [CHR 0x0A]))"
    and "length xs = 510" "CHR 0x0A \<notin> set xs" "CHR 0x0A \<notin> set c" "CHR 0x00 \<notin> set xs" "CHR 0x00 \<notin> set c"
    and "length c < 511" "c \<noteq> []" "hd c \<noteq> CHR ''#''" "hd c \<notin> {CHR '' '', CHR 0x09}" "c \<noteq> ''bye''" "c \<noteq> ''exit''"
    and "split c = Some (v # vs)" "known v"
  shows "\<exists>g' h'. exec K (ProcessScript 3 script buffer argv) g [] = (Done (), g', h') \<and>
    observed executed h' = [VOp ''command'' [VStr v] # map VStr (v # vs)]"
proof -
  let ?lines = "[CHR ''#'' # xs, c @ [CHR 0x0A]]"
  have lines: "fgets_lines ((CHR ''#'' # xs) @ c @ [CHR 0x0A]) = ?lines"
    by (rule long_comment_lines [OF assms(4-6,9)])
  have "xs \<noteq> []" using assms(4) by auto
  then have "last xs \<in> set xs" by (rule last_in_set)
  then have "last xs \<noteq> CHR 0x0A" using assms(5) by metis
  with \<open>xs \<noteq> []\<close> have "chomp (CHR ''#'' # xs) = CHR ''#'' # xs" by (simp add: chomp_def)
  moreover have "chomp (c @ [CHR 0x0A]) = c" by (simp add: chomp_def)
  moreover have "dropWhile is_blank c = c" using assms(10,12) by (cases c) (simp_all add: is_blank_def)
  moreover have "\<forall>l\<in>set ?lines. l \<noteq> [] \<and> CHR 0x00 \<notin> set l" using assms(7,8) by simp
  ultimately have "\<exists>g' h'. exec K (ProcessScript 3 script buffer argv) g [] = (Done (), g', h') \<and>
      observed executed h' = map command_call (line_commands split known ?lines)"
    using ProcessScript_exec [OF assms(1,2) assms(3) [unfolded lines], of "[]" 3 script buffer argv g] assms(15) by simp
  moreover have "line_commands split known ?lines = [v # vs]"
    using \<open>chomp (CHR ''#'' # xs) = CHR ''#'' # xs\<close> \<open>chomp (c @ [CHR 0x0A]) = c\<close> \<open>dropWhile is_blank c = c\<close>
      assms(10,11,13-16) by simp
  ultimately show ?thesis by (simp add: command_call_def)
qed

section \<open>The dispatcher\<close>

definition printed :: "syscall \<Rightarrow> val list option" where
  "printed c = (if fst c = printf then Some (snd c) else None)"

text \<open>After a check, the last threads are the current ones; it prints exactly those that have changed.\<close>

lemma check_heir_and_executing_runs:
  assumes "responsive K"
  shows "runs K printed (check_heir_and_executing tcb) g ()
    (g\<lparr>last_heir := Thread_Heir g, last_executing := Thread_Executing g\<rparr>)
    ((if last_heir g \<noteq> Thread_Heir g
      then [[VStr ''  Thread Heir: 0x%08x priority=%ld\<newline>'', VInt (fst (tcb (Thread_Heir g))), VInt (snd (tcb (Thread_Heir g)))]]
      else []) @
     (if last_executing g \<noteq> Thread_Executing g
      then [[VStr ''  Thread Executing: 0x%08x priority=%ld\<newline>'', VInt (fst (tcb (Thread_Executing g))), VInt (snd (tcb (Thread_Executing g)))]]
      else []))"
proof -
  note seen = runs_Call [OF assms obeys_any, where obs = printed and f = printf]
  have 1: "runs K printed (Get (\<lambda>g. if last_heir g \<noteq> Thread_Heir g then PRINT_HEIR tcb else Ret ())) g () g
      (if last_heir g \<noteq> Thread_Heir g
       then [[VStr ''  Thread Heir: 0x%08x priority=%ld\<newline>'', VInt (fst (tcb (Thread_Heir g))), VInt (snd (tcb (Thread_Heir g)))]]
       else [])"
    using seen [where args = "[VStr ''  Thread Heir: 0x%08x priority=%ld\<newline>'', VInt (fst (tcb (Thread_Heir g))), VInt (snd (tcb (Thread_Heir g)))]"
        and k = "\<lambda>_. Ret ()" and g = g and x = "()" and g' = g and ls = "[]"]
    by (simp add: PRINT_HEIR_def printed_def case_prod_unfold)
  have 2: "runs K printed (Get (\<lambda>g. if last_executing g \<noteq> Thread_Executing g then PRINT_EXECUTING tcb else Ret ())) g () g
      (if last_executing g \<noteq> Thread_Executing g
       then [[VStr ''  Thread Executing: 0x%08x priority=%ld\<newline>'', VInt (fst (tcb (Thread_Executing g))), VInt (snd (tcb (Thread_Executing g)))]]
       else [])"
    using seen [where args = "[VStr ''  Thread Executing: 0x%08x priority=%ld\<newline>'', VInt (fst (tcb (Thread_Executing g))), VInt (snd (tcb (Thread_Executing g)))]"
        and k = "\<lambda>_. Ret ()" and g = g and x = "()" and g' = g and ls = "[]"]
    by (simp add: PRINT_EXECUTING_def printed_def case_prod_unfold)
  have 3: "runs K printed (Put (\<lambda>g. g\<lparr>last_heir := Thread_Heir g\<rparr>) (Put (\<lambda>g. g\<lparr>last_executing := Thread_Executing g\<rparr>) (Ret ())))
      g () (g\<lparr>last_heir := Thread_Heir g, last_executing := Thread_Executing g\<rparr>) []"
    using runs_Ret [of K printed "()" "g\<lparr>last_heir := Thread_Heir g, last_executing := Thread_Executing g\<rparr>"] by simp
  from runs_bindp [where q = "\<lambda>_. bindp (Get (\<lambda>g. if last_executing g \<noteq> Thread_Executing g then PRINT_EXECUTING tcb else Ret ())) (\<lambda>_.
     Put (\<lambda>g. g\<lparr>last_heir := Thread_Heir g\<rparr>) (Put (\<lambda>g. g\<lparr>last_executing := Thread_Executing g\<rparr>) (Ret ())))",
      OF 1 runs_bindp [where q = "\<lambda>_. Put (\<lambda>g. g\<lparr>last_heir := Thread_Heir g\<rparr>) (Put (\<lambda>g. g\<lparr>last_executing := Thread_Executing g\<rparr>) (Ret ()))",
        OF 2 3]] show ?thesis
    unfolding check_heir_and_executing_def by simp
qed

section \<open>Examples\<close>

text \<open>A shell without quotes, that knows one command.\<close>

definition plain_split :: "string \<Rightarrow> string list option" where
  "plain_split c = (if c = [] then None else Some [c])"

definition plain_shell :: "string list \<Rightarrow> kernel" where
  "plain_shell lines h c =
    Some (if fst c = fgets then
        if calls_to fgets h < length lines then Reply (VRef ''buffer'') [VStr (lines ! calls_to fgets h)] else Reply NULL []
      else case c of
        (f, VStr s # _) \<Rightarrow>
          if f = rtems_shell_make_args then
            if s = [] then Reply (VInt 1) [] else Reply (VInt 0) [VStr s]
          else if f = rtems_shell_lookup_cmd then
            if s = ''dispatch'' then Reply (VOp ''command'' [VStr s]) [] else Reply NULL []
          else Reply (VInt 0) []
      | _ \<Rightarrow> Reply (VInt 0) [])"

lemma plain_shell_laws:
  "responsive (plain_shell lines)" "shell_law (plain_shell lines) plain_split (\<lambda>v. v = ''dispatch'')"
  "file_law (plain_shell lines) lines"
proof -
  show "responsive (plain_shell lines)" by (simp add: responsive_def plain_shell_def)
  show "shell_law (plain_shell lines) plain_split (\<lambda>v. v = ''dispatch'')"
    unfolding shell_law_def by (auto simp: plain_shell_def plain_split_def)
  show "file_law (plain_shell lines) lines"
    unfolding file_law_def by (auto simp: plain_shell_def)
qed

theorem script_executes_witness:
  "\<exists>g' h'. exec (plain_shell (file_lines True [''# c'', '' dispatch'', ''x'', ''bye'', ''dispatch''])) (ProcessScript 6 NULL [] [])
      \<lparr>verbose = True, ScriptFileLine = 0\<rparr> [] = (Done (), g', h') \<and>
    observed executed h' = [[VOp ''command'' [VStr ''dispatch''], VStr ''dispatch'']]"
  using script_executes [OF plain_shell_laws, of "[''# c'', '' dispatch'', ''x'', ''bye'', ''dispatch'']" True 6 NULL "[]" "[]"
      "\<lparr>verbose = True, ScriptFileLine = 0\<rparr>"]
  by (simp add: plain_split_def)

theorem long_comment_runs_witness:
  "\<exists>g' h'. exec (plain_shell (fgets_lines ((CHR ''#'' # replicate 510 CHR ''x'') @ ''dispatch'' @ [CHR 0x0A])))
      (ProcessScript 3 NULL [] []) \<lparr>verbose = False, ScriptFileLine = 0\<rparr> [] = (Done (), g', h') \<and>
    observed executed h' = [[VOp ''command'' [VStr ''dispatch''], VStr ''dispatch'']]"
  using long_comment_runs [OF plain_shell_laws, of "replicate 510 CHR ''x''" "''dispatch''" "''dispatch''" "[]" NULL "[]" "[]"
      "\<lparr>verbose = False, ScriptFileLine = 0\<rparr>"]
  by (simp add: plain_split_def)

end
