(* ===== verification/Cxx_Objects.thy ===== *)
theory Cxx_Objects
  imports RT_Runs
begin

text \<open>
  The C++ example \<open>cxx/cxx_throw/init.cc\<close>: constructors, destructors and an exception.

  Memory that \<open>new\<close> has given is a list of strings, an address is a position in it; no code gives
  memory back.  A formatted string is its format and arguments.  The member \<open>string\<close> of an object is
  a map from the object's address; the two static objects are constructed before the
  initialization task and destroyed by \<open>exit\<close>, in the reverse order.
\<close>

section \<open>The classes\<close>

datatype cls = A | B

record cxx_vars =
  num_inst :: int
  heap :: "val list"
  string_of :: "val \<Rightarrow> nat option"

definition cxx_start :: cxx_vars where
  "cxx_start = \<lparr>num_inst = 0, heap = [], string_of = (\<lambda>_. None)\<rparr>"

definition order :: "int \<Rightarrow> val" where
  "order n = VOp ''sprintf'' [VStr ''Instantiation order %d'', VInt n]"

definition new_string :: "val \<Rightarrow> (cxx_vars, unit) prog" where
  "new_string this =
     Put (\<lambda>g. g\<lparr>heap := heap g @ [order (num_inst g)], string_of := (string_of g)(this \<mapsto> length (heap g))\<rparr>) (Ret ())"

definition construct_A :: "val \<Rightarrow> (cxx_vars, unit) prog" where
  "construct_A this =
     Put (\<lambda>g. g\<lparr>num_inst := num_inst g + 1\<rparr>) (
     Get (\<lambda>g.
     Do printf [VStr ''Hey I'm in base class constructor number %d for %p.\<newline>'', VInt (num_inst g), this] (
     new_string this)))"

definition construct_B :: "val \<Rightarrow> (cxx_vars, unit) prog" where
  "construct_B this =
     bindp (construct_A this) (\<lambda>_.
     Put (\<lambda>g. g\<lparr>num_inst := num_inst g + 1\<rparr>) (
     Get (\<lambda>g.
     Do printf [VStr ''Hey I'm in derived class constructor number %d for %p.\<newline>'', VInt (num_inst g), this] (
     new_string this))))"

text \<open>The two versions of \<open>print\<close>; an object that was never constructed has no string.\<close>

definition print_format :: "string \<Rightarrow> val \<Rightarrow> (cxx_vars, unit) prog" where
  "print_format fmt this =
     Get (\<lambda>g.
     case string_of g this of None \<Rightarrow> Halt
     | Some s \<Rightarrow> Do printf [VStr fmt, heap g ! s] (Ret ()))"

definition print_A :: "val \<Rightarrow> (cxx_vars, unit) prog" where
  "print_A = print_format ''%s\<newline>''"

definition print_B :: "val \<Rightarrow> (cxx_vars, unit) prog" where
  "print_B = print_format ''Derived class - %s\<newline>''"

text \<open>In a destructor a virtual function is that of the destructor's own class.\<close>

definition destroy_A :: "val \<Rightarrow> (cxx_vars, unit) prog" where
  "destroy_A this =
     Get (\<lambda>g.
     Do printf [VStr ''Hey I'm in base class destructor number %d for %p.\<newline>'', VInt (num_inst g), this] (
     bindp (print_A this) (\<lambda>_.
     Put (\<lambda>g. g\<lparr>num_inst := num_inst g - 1\<rparr>) (Ret ()))))"

definition destroy_B :: "val \<Rightarrow> (cxx_vars, unit) prog" where
  "destroy_B this =
     bindp
       (Get (\<lambda>g.
        Do printf [VStr ''Hey I'm in derived class destructor number %d for %p.\<newline>'', VInt (num_inst g), this] (
        bindp (print_B this) (\<lambda>_.
        Put (\<lambda>g. g\<lparr>num_inst := num_inst g - 1\<rparr>) (Ret ()))))) (\<lambda>_.
     destroy_A this)"

definition construct :: "cls \<times> val \<Rightarrow> (cxx_vars, unit) prog" where
  "construct ob = (case ob of (A, v) \<Rightarrow> construct_A v | (B, v) \<Rightarrow> construct_B v)"

definition destruct :: "cls \<times> val \<Rightarrow> (cxx_vars, unit) prog" where
  "destruct ob = (case ob of (A, v) \<Rightarrow> destroy_A v | (B, v) \<Rightarrow> destroy_B v)"

section \<open>The test\<close>

text \<open>A block with local objects: constructed in order, destroyed in the reverse order at its end.\<close>

primrec scoped :: "(cls \<times> val) list \<Rightarrow> (cxx_vars, unit) prog \<Rightarrow> (cxx_vars, unit) prog" where
  "scoped [] p = p"
| "scoped (ob # obs) p = bindp (construct ob) (\<lambda>_. bindp (scoped obs p) (\<lambda>_. destruct ob))"

text \<open>The implicit assignment operator copies the member, a pointer.\<close>

definition assign :: "val \<Rightarrow> val \<Rightarrow> cxx_vars \<Rightarrow> cxx_vars" where
  "assign a b g = g\<lparr>string_of := (string_of g)(a := string_of g b)\<rparr>"

fun catching :: "string + unit \<Rightarrow> (string \<Rightarrow> ('g, unit) prog) \<Rightarrow> ('g, unit) prog" where
  "catching (Inl e) handler = handler e"
| "catching (Inr _) handler = Ret ()"

definition cdtest_body :: "(cxx_vars, unit) prog" where
  "cdtest_body =
     Do cout [VStr ''Testing a C++ I/O stream''] (
     Put (assign (VRef ''&bar'') (VRef ''&blech'')) (
     Do printf [VStr ''before try block\<newline>''] (
     bindp (catching (Inl ''Raising this'') (\<lambda>e. Do printf [VStr ''Got it: %s\<newline>'', VStr e] (Ret ()))) (\<lambda>_.
     Do printf [VStr ''catch got called, exception handling worked !!!\<newline>''] (
     Ret ())))))"

abbreviation cdtest_objects :: "(cls \<times> val) list" where
  "cdtest_objects \<equiv> [(A, VRef ''&bar''), (A, VRef ''&blech''), (A, VRef ''&blah''), (B, VRef ''&bleak'')]"

definition cdtest :: "(cxx_vars, unit) prog" where
  "cdtest = scoped cdtest_objects cdtest_body"

text \<open>The initialization task; \<open>at_exit\<close> is what \<open>exit\<close> calls.\<close>

definition cxx_throw_Init :: "bool \<Rightarrow> (cxx_vars, unit) prog \<Rightarrow> (cxx_vars, unit) prog" where
  "cxx_throw_Init small at_exit =
     Do printf [VStr ''\<newline>\<newline>*** CONSTRUCTOR/DESTRUCTOR TEST ***\<newline>''] (
     bindp (if small then Ret () else cdtest) (\<lambda>_.
     Do printf [VStr ''*** END OF CONSTRUCTOR/DESTRUCTOR TEST ***\<newline>\<newline>\<newline>''] (
     Do exit [VInt 0] (
     bindp at_exit (\<lambda>_. Halt)))))"

definition static_objects :: "(cls \<times> val) list" where
  "static_objects = [(A, VRef ''&foo''), (B, VRef ''&foobar'')]"

text \<open>The program on a board that is not small.\<close>

definition cxx_throw_program :: "(cxx_vars, unit) prog" where
  "cxx_throw_program =
     bindp (for_each static_objects (\<lambda>ob _. construct ob) ()) (\<lambda>_.
     cxx_throw_Init False (for_each (rev static_objects) (\<lambda>ob _. destruct ob) ()))"

definition cxx_throw_config :: config_macros where
  "cxx_throw_config =
    [(CONFIGURE_APPLICATION_NEEDS_CONSOLE_DRIVER, defined),
     (CONFIGURE_APPLICATION_DOES_NOT_NEED_CLOCK_DRIVER, defined),
     (CONFIGURE_RTEMS_INIT_TASKS_TABLE, defined),
     (CONFIGURE_MAXIMUM_TASKS, VInt 1),
     (CONFIGURE_MAXIMUM_SEMAPHORES, VInt 1),
     (CONFIGURE_INIT, defined)]"

section \<open>What is printed\<close>

definition printed_args :: "syscall \<Rightarrow> val list option" where
  "printed_args c = (if fst c = printf then Some (snd c) else None)"

definition ctor_line :: "cls \<Rightarrow> int \<Rightarrow> val \<Rightarrow> val list" where
  "ctor_line c n this =
    [VStr (case c of A \<Rightarrow> ''Hey I'm in base class constructor number %d for %p.\<newline>''
       | B \<Rightarrow> ''Hey I'm in derived class constructor number %d for %p.\<newline>''), VInt n, this]"

definition dtor_line :: "cls \<Rightarrow> int \<Rightarrow> val \<Rightarrow> val list" where
  "dtor_line c n this =
    [VStr (case c of A \<Rightarrow> ''Hey I'm in base class destructor number %d for %p.\<newline>''
       | B \<Rightarrow> ''Hey I'm in derived class destructor number %d for %p.\<newline>''), VInt n, this]"

definition string_line :: "cls \<Rightarrow> val \<Rightarrow> val list" where
  "string_line c s = [VStr (case c of A \<Rightarrow> ''%s\<newline>'' | B \<Rightarrow> ''Derived class - %s\<newline>''), s]"

text \<open>The globals after a constructor and a destructor of one class.\<close>

definition born :: "val \<Rightarrow> cxx_vars \<Rightarrow> cxx_vars" where
  "born this g = g\<lparr>num_inst := num_inst g + 1, heap := heap g @ [order (num_inst g + 1)],
     string_of := (string_of g)(this \<mapsto> length (heap g))\<rparr>"

definition dead :: "cxx_vars \<Rightarrow> cxx_vars" where
  "dead g = g\<lparr>num_inst := num_inst g - 1\<rparr>"

lemma born_simps [simp]:
  "num_inst (born v g) = num_inst g + 1"
  "heap (born v g) = heap g @ [order (num_inst g + 1)]"
  "string_of (born v g) = (string_of g)(v \<mapsto> length (heap g))"
  "num_inst (dead g) = num_inst g - 1" "heap (dead g) = heap g" "string_of (dead g) = string_of g"
  by (simp_all add: born_def dead_def)

lemma runs_construct_A:
  assumes "responsive K"
  shows "runs K obs (construct_A v) g () (born v g) (seen obs printf (ctor_line A (num_inst g + 1) v))"
proof -
  have "runs K obs (new_string v) (g\<lparr>num_inst := num_inst g + 1\<rparr>) () (born v g) []"
    by (simp add: new_string_def born_def)
  from runs_Do [OF assms this, of printf "ctor_line A (num_inst g + 1) v"] show ?thesis
    by (simp add: construct_A_def ctor_line_def)
qed

lemma runs_construct_B:
  assumes "responsive K"
  shows "runs K obs (construct_B v) g () (born v (born v g))
    (seen obs printf (ctor_line A (num_inst g + 1) v) @ seen obs printf (ctor_line B (num_inst g + 2) v))"
proof -
  let ?g = "born v g"
  have "runs K obs (new_string v) (?g\<lparr>num_inst := num_inst ?g + 1\<rparr>) () (born v ?g) []"
    by (simp add: new_string_def born_def [of v ?g])
  from runs_Do [OF assms this, of printf "ctor_line B (num_inst g + 2) v"]
  have 2: "runs K obs (Put (\<lambda>g. g\<lparr>num_inst := num_inst g + 1\<rparr>) (
      Get (\<lambda>g. Do printf (ctor_line B (num_inst g) v) (new_string v)))) ?g () (born v ?g)
      (seen obs printf (ctor_line B (num_inst g + 2) v))"
    by (simp add: add.commute)
  show ?thesis
    using runs_bindp [OF runs_construct_A [OF assms], where q = "\<lambda>_. Put (\<lambda>g. g\<lparr>num_inst := num_inst g + 1\<rparr>) (
      Get (\<lambda>g. Do printf (ctor_line B (num_inst g) v) (new_string v)))", OF 2]
    unfolding construct_B_def ctor_line_def cls.case .
qed

lemma runs_destructor:
  assumes "responsive K" "string_of g v = Some s"
  shows "runs K obs (Get (\<lambda>g. Do printf (args g) (bindp (print_format fmt v) (\<lambda>_.
      Put (\<lambda>g. g\<lparr>num_inst := num_inst g - 1\<rparr>) (Ret ()))))) g () (dead g)
    (seen obs printf (args g) @ seen obs printf [VStr fmt, heap g ! s])"
proof -
  have 1: "runs K obs (print_format fmt v) g () g (seen obs printf [VStr fmt, heap g ! s])"
    using runs_last_Do [OF assms(1), of obs printf "[VStr fmt, heap g ! s]" "()" g] assms(2)
    by (simp add: print_format_def)
  have "runs K obs (bindp (print_format fmt v) (\<lambda>_. Put (\<lambda>g. g\<lparr>num_inst := num_inst g - 1\<rparr>) (Ret ()))) g () (dead g)
      (seen obs printf [VStr fmt, heap g ! s] @ [])"
    by (rule runs_bindp [OF 1]) (simp add: dead_def)
  from runs_Do [OF assms(1) this, of printf "args g"] show ?thesis by simp
qed

lemma runs_destroy_A:
  assumes "responsive K" "string_of g v = Some s"
  shows "runs K obs (destroy_A v) g () (dead g)
    (seen obs printf (dtor_line A (num_inst g) v) @ seen obs printf (string_line A (heap g ! s)))"
  using runs_destructor [OF assms, of obs "\<lambda>g. dtor_line A (num_inst g) v" "''%s\<newline>''"]
  by (simp add: destroy_A_def print_A_def dtor_line_def string_line_def)

lemma runs_destroy_B:
  assumes "responsive K" "string_of g v = Some s"
  shows "runs K obs (destroy_B v) g () (dead (dead g))
    (seen obs printf (dtor_line B (num_inst g) v) @ seen obs printf (string_line B (heap g ! s)) @
     seen obs printf (dtor_line A (num_inst g - 1) v) @ seen obs printf (string_line A (heap g ! s)))"
proof -
  have 1: "runs K obs (Get (\<lambda>g. Do printf (dtor_line B (num_inst g) v) (bindp (print_B v) (\<lambda>_.
      Put (\<lambda>g. g\<lparr>num_inst := num_inst g - 1\<rparr>) (Ret ()))))) g () (dead g)
    (seen obs printf (dtor_line B (num_inst g) v) @ seen obs printf (string_line B (heap g ! s)))"
    using runs_destructor [OF assms, of obs "\<lambda>g. dtor_line B (num_inst g) v" "''Derived class - %s\<newline>''"]
    by (simp add: print_B_def string_line_def)
  have 2: "runs K obs (destroy_A v) (dead g) () (dead (dead g))
    (seen obs printf (dtor_line A (num_inst g - 1) v) @ seen obs printf (string_line A (heap g ! s)))"
    using runs_destroy_A [OF assms(1), of "dead g" v s obs] assms(2) by simp
  from runs_bindp [OF 1, where q = "\<lambda>_. destroy_A v", OF 2] show ?thesis
    by (simp add: destroy_B_def dtor_line_def)
qed

definition alive :: "val \<Rightarrow> cxx_vars \<Rightarrow> bool" where
  "alive v g \<longleftrightarrow> string_of g v \<noteq> None"

lemma alive_simps [simp]: "alive v (born w g) \<longleftrightarrow> v = w \<or> alive v g" "alive v (dead g) \<longleftrightarrow> alive v g"
  by (auto simp: alive_def)

lemma runs_destroy_alive:
  assumes "responsive K" "alive v g"
  shows "runs K obs (destroy_A v) g () (dead g)
      (seen obs printf (dtor_line A (num_inst g) v) @ seen obs printf (string_line A (heap g ! the (string_of g v))))"
    "runs K obs (destroy_B v) g () (dead (dead g))
      (seen obs printf (dtor_line B (num_inst g) v) @ seen obs printf (string_line B (heap g ! the (string_of g v))) @
       seen obs printf (dtor_line A (num_inst g - 1) v) @ seen obs printf (string_line A (heap g ! the (string_of g v))))"
proof -
  obtain s where "string_of g v = Some s" using assms(2) by (auto simp: alive_def)
  then show "runs K obs (destroy_A v) g () (dead g)
      (seen obs printf (dtor_line A (num_inst g) v) @ seen obs printf (string_line A (heap g ! the (string_of g v))))"
    "runs K obs (destroy_B v) g () (dead (dead g))
      (seen obs printf (dtor_line B (num_inst g) v) @ seen obs printf (string_line B (heap g ! the (string_of g v))) @
       seen obs printf (dtor_line A (num_inst g - 1) v) @ seen obs printf (string_line A (heap g ! the (string_of g v))))"
    using runs_destroy_A [OF assms(1), of g v s obs] runs_destroy_B [OF assms(1), of g v s obs] by simp_all
qed

text \<open>A block with one object more.\<close>

lemma runs_scoped_A:
  assumes "responsive K" "runs K obs (scoped os p) (born v g) () g1 mid" "alive v g1"
  shows "runs K obs (scoped ((A, v) # os) p) g () (dead g1)
    (seen obs printf (ctor_line A (num_inst g + 1) v) @ mid @
     seen obs printf (dtor_line A (num_inst g1) v) @ seen obs printf (string_line A (heap g1 ! the (string_of g1 v))))"
  unfolding scoped.simps construct_def destruct_def prod.case cls.case
  by (rule runs_bindp [OF runs_construct_A [OF assms(1)]], rule runs_bindp [OF assms(2)])
     (rule runs_destroy_alive [OF assms(1,3)])

lemma runs_scoped_B:
  assumes "responsive K" "runs K obs (scoped os p) (born v (born v g)) () g1 mid" "alive v g1"
  shows "runs K obs (scoped ((B, v) # os) p) g () (dead (dead g1))
    ((seen obs printf (ctor_line A (num_inst g + 1) v) @ seen obs printf (ctor_line B (num_inst g + 2) v)) @ mid @
     seen obs printf (dtor_line B (num_inst g1) v) @ seen obs printf (string_line B (heap g1 ! the (string_of g1 v))) @
     seen obs printf (dtor_line A (num_inst g1 - 1) v) @ seen obs printf (string_line A (heap g1 ! the (string_of g1 v))))"
  unfolding scoped.simps construct_def destruct_def prod.case cls.case
  by (rule runs_bindp [OF runs_construct_B [OF assms(1)]], rule runs_bindp [OF assms(2)])
     (rule runs_destroy_alive [OF assms(1,3)])

section \<open>Blocks are balanced\<close>

text \<open>The lines that carry a number, and what they are for a block whose body shows \<open>mid\<close>.\<close>

definition numbered :: "syscall \<Rightarrow> val list option" where
  "numbered c = (if fst c = printf \<and> length (snd c) = 3 then Some (snd c) else None)"

lemma seen_numbered [simp]:
  "seen numbered printf (ctor_line c n v) = [ctor_line c n v]"
  "seen numbered printf (dtor_line c n v) = [dtor_line c n v]"
  "seen numbered printf (string_line c s) = []"
  by (simp_all add: seen_def numbered_def ctor_line_def dtor_line_def string_line_def)

fun lives :: "int \<Rightarrow> (cls \<times> val) list \<Rightarrow> val list list \<Rightarrow> val list list" where
  "lives n [] mid = mid"
| "lives n ((A, v) # obs) mid =
     [ctor_line A (n + 1) v] @ lives (n + 1) obs mid @ [dtor_line A (n + 1) v]"
| "lives n ((B, v) # obs) mid =
     [ctor_line A (n + 1) v, ctor_line B (n + 2) v] @ lives (n + 2) obs mid @
     [dtor_line B (n + 2) v, dtor_line A (n + 1) v]"

text \<open>
  C15: Whatever local objects a block has, the instance counter is the same after the block as
  before, and the destructors report the numbers of the constructors in the reverse order.
\<close>

theorem blocks_are_balanced:
  assumes "responsive K"
    and "\<And>g. \<exists>g'. runs K numbered p g () g' mid \<and> num_inst g' = num_inst g \<and> (\<forall>v. alive v g \<longrightarrow> alive v g')"
  shows "\<exists>g'. runs K numbered (scoped obs p) g () g' (lives (num_inst g) obs mid) \<and>
    num_inst g' = num_inst g \<and> (\<forall>v. alive v g \<longrightarrow> alive v g')"
proof (induction obs arbitrary: g)
  case Nil
  then show ?case using assms(2) by simp
next
  case (Cons ob obs)
  obtain c v where ob: "ob = (c, v)" by force
  show ?case
  proof (cases c)
    case A
    obtain g1 where 1: "runs K numbered (scoped obs p) (born v g) () g1 (lives (num_inst g + 1) obs mid)"
      "num_inst g1 = num_inst g + 1" "\<forall>w. alive w (born v g) \<longrightarrow> alive w g1"
      using Cons.IH [of "born v g"] by auto
    then have "alive v g1" by simp
    from runs_scoped_A [OF assms(1) 1(1) this] show ?thesis
      using ob A 1(2,3) by (intro exI [of _ "dead g1"]) simp
  next
    case B
    obtain g1 where 1: "runs K numbered (scoped obs p) (born v (born v g)) () g1 (lives (num_inst g + 2) obs mid)"
      "num_inst g1 = num_inst g + 2" "\<forall>w. alive w (born v (born v g)) \<longrightarrow> alive w g1"
      using Cons.IH [of "born v (born v g)"] by (auto simp: add.assoc)
    then have "alive v g1" by simp
    from runs_scoped_B [OF assms(1) 1(1) this] show ?thesis
      using ob B 1(2,3) by (intro exI [of _ "dead (dead g1)"]) (simp add: add.commute)
  qed
qed

section \<open>The whole program\<close>

lemma seen_printed [simp]:
  "seen printed_args printf args = [args]"
  "f \<noteq> printf \<Longrightarrow> seen printed_args f args = []"
  by (simp_all add: seen_def printed_args_def)

lemma assign_simps [simp]:
  "num_inst (assign a b g) = num_inst g" "heap (assign a b g) = heap g"
  "string_of (assign a b g) = (string_of g)(a := string_of g b)"
  by (simp_all add: assign_def)

lemma runs_cdtest_body:
  assumes "responsive K"
  shows "runs K printed_args cdtest_body g () (assign (VRef ''&bar'') (VRef ''&blech'') g)
    [[VStr ''before try block\<newline>''], [VStr ''Got it: %s\<newline>'', VStr ''Raising this''],
     [VStr ''catch got called, exception handling worked !!!\<newline>'']]"
proof -
  let ?g = "assign (VRef ''&bar'') (VRef ''&blech'') g"
  have 1: "runs K printed_args (catching (Inl ''Raising this'') (\<lambda>e. Do printf [VStr ''Got it: %s\<newline>'', VStr e] (Ret ()))) ?g () ?g
      [[VStr ''Got it: %s\<newline>'', VStr ''Raising this'']]"
    using runs_last_Do [OF assms, of printed_args printf "[VStr ''Got it: %s\<newline>'', VStr ''Raising this'']" "()" ?g] by simp
  have 2: "runs K printed_args (Do printf [VStr ''catch got called, exception handling worked !!!\<newline>''] (Ret ())) ?g () ?g
      [[VStr ''catch got called, exception handling worked !!!\<newline>'']]"
    using runs_last_Do [OF assms, of printed_args printf "[VStr ''catch got called, exception handling worked !!!\<newline>'']" "()" ?g]
    by simp
  have "runs K printed_args cdtest_body g () ?g (seen printed_args cout [VStr ''Testing a C++ I/O stream''] @
      seen printed_args printf [VStr ''before try block\<newline>''] @ [[VStr ''Got it: %s\<newline>'', VStr ''Raising this'']] @
      [[VStr ''catch got called, exception handling worked !!!\<newline>'']])"
    unfolding cdtest_body_def
    by (rule runs_Do [OF assms], unfold runs_Put, rule runs_Do [OF assms], rule runs_bindp [OF 1], rule 2)
  then show ?thesis by simp
qed

definition cdtest_lines :: "int \<Rightarrow> val list list" where
  "cdtest_lines n =
    [ctor_line A (n + 1) (VRef ''&bar''), ctor_line A (n + 2) (VRef ''&blech''), ctor_line A (n + 3) (VRef ''&blah''),
     ctor_line A (n + 4) (VRef ''&bleak''), ctor_line B (n + 5) (VRef ''&bleak''),
     [VStr ''before try block\<newline>''], [VStr ''Got it: %s\<newline>'', VStr ''Raising this''],
     [VStr ''catch got called, exception handling worked !!!\<newline>''],
     dtor_line B (n + 5) (VRef ''&bleak''), string_line B (order (n + 5)),
     dtor_line A (n + 4) (VRef ''&bleak''), string_line A (order (n + 5)),
     dtor_line A (n + 3) (VRef ''&blah''), string_line A (order (n + 3)),
     dtor_line A (n + 2) (VRef ''&blech''), string_line A (order (n + 2)),
     dtor_line A (n + 1) (VRef ''&bar''), string_line A (order (n + 2))]"

lemma runs_cdtest:
  assumes "responsive K"
  shows "\<exists>g'. runs K printed_args cdtest g () g' (cdtest_lines (num_inst g)) \<and> num_inst g' = num_inst g \<and>
    heap g' = heap g @ map (\<lambda>i. order (num_inst g + i)) [1, 2, 3, 4, 5] \<and>
    (\<forall>v. v \<notin> snd ` set cdtest_objects \<longrightarrow> string_of g' v = string_of g v)"
proof -
  let ?b = "\<lambda>s. born (VRef s)"
  let ?g = "?b ''&bleak'' (?b ''&bleak'' (?b ''&blah'' (?b ''&blech'' (?b ''&bar'' g))))"
  let ?h = "assign (VRef ''&bar'') (VRef ''&blech'') ?g"
  have "runs K printed_args cdtest g () (dead (dead (dead (dead (dead ?h))))) (cdtest_lines (num_inst g))"
    unfolding cdtest_def
    by (rule runs_as, rule runs_scoped_A [OF assms], rule runs_scoped_A [OF assms], rule runs_scoped_A [OF assms],
        rule runs_scoped_B [OF assms], unfold scoped.simps, rule runs_cdtest_body [OF assms])
       (simp_all add: alive_def cdtest_lines_def nth_append add.commute)
  then show ?thesis
    by (intro exI [of _ "dead (dead (dead (dead (dead ?h))))"]) (simp add: add.commute)
qed

text \<open>
  C14: The C++ test prints exactly the listed lines, static objects included: the copied object
  shows the string of the object it was copied from, and at the end no instance is left, but all
  eight strings still are.
\<close>

theorem constructor_destructor_output:
  assumes "responsive K"
  shows "\<exists>g' h'. exec K cxx_throw_program cxx_start [] = (Halted, g', h') \<and>
    observed printed_args h' =
      [ctor_line A 1 (VRef ''&foo''), ctor_line A 2 (VRef ''&foobar''), ctor_line B 3 (VRef ''&foobar''),
       [VStr ''\<newline>\<newline>*** CONSTRUCTOR/DESTRUCTOR TEST ***\<newline>'']] @
      cdtest_lines 3 @
      [[VStr ''*** END OF CONSTRUCTOR/DESTRUCTOR TEST ***\<newline>\<newline>\<newline>''],
       dtor_line B 3 (VRef ''&foobar''), string_line B (order 3),
       dtor_line A 2 (VRef ''&foobar''), string_line A (order 3),
       dtor_line A 1 (VRef ''&foo''), string_line A (order 1)] \<and>
    num_inst g' = 0 \<and> heap g' = map order [1, 2, 3, 4, 5, 6, 7, 8]"
    (is "\<exists>g' h'. _ \<and> _ = ?lines \<and> _")
proof -
  let ?g = "born (VRef ''&foobar'') (born (VRef ''&foobar'') (born (VRef ''&foo'') cxx_start))"
  have start: "num_inst cxx_start = 0" "heap cxx_start = []" "string_of cxx_start = (\<lambda>_. None)"
    by (simp_all add: cxx_start_def)
  obtain g1 where 1: "runs K printed_args cdtest ?g () g1 (cdtest_lines 3)"
    and g1: "num_inst g1 = 3" "heap g1 = map order [1, 2, 3, 4, 5, 6, 7, 8]"
      "string_of g1 (VRef ''&foo'') = Some 0" "string_of g1 (VRef ''&foobar'') = Some 2"
    using runs_cdtest [OF assms, of ?g] start by auto
  have 2: "runs K printed_args (for_each (rev static_objects) (\<lambda>ob _. destruct ob) ()) g1 () (dead (dead (dead g1)))
      [dtor_line B 3 (VRef ''&foobar''), string_line B (order 3),
       dtor_line A 2 (VRef ''&foobar''), string_line A (order 3),
       dtor_line A 1 (VRef ''&foo''), string_line A (order 1)]"
    unfolding static_objects_def destruct_def rev.simps append.simps for_each.simps prod.case cls.case
    by (rule runs_as, rule runs_bindp, rule runs_destroy_alive(2) [OF assms], simp add: alive_def g1, rule runs_bindp,
        rule runs_destroy_alive(1) [OF assms], simp add: alive_def g1, rule runs_Ret)
       (simp_all add: g1)
  let ?main = "\<lambda>_::unit. Do printf [VStr ''\<newline>\<newline>*** CONSTRUCTOR/DESTRUCTOR TEST ***\<newline>''] (
     bindp cdtest (\<lambda>_. Do printf [VStr ''*** END OF CONSTRUCTOR/DESTRUCTOR TEST ***\<newline>\<newline>\<newline>''] (
     Do exit [VInt 0] (for_each (rev static_objects) (\<lambda>ob _. destruct ob) ()))))"
  have "runs K printed_args (bindp (for_each static_objects (\<lambda>ob _. construct ob) ()) ?main) cxx_start () (dead (dead (dead g1))) ?lines"
    unfolding static_objects_def construct_def for_each.simps prod.case cls.case bindp_assoc bindp.simps
    by (rule runs_as, rule runs_bindp, rule runs_construct_A [OF assms], rule runs_bindp, rule runs_construct_B [OF assms],
        rule runs_Do [OF assms], rule runs_bindp [OF 1], rule runs_Do [OF assms], rule runs_Do [OF assms],
        rule 2 [unfolded static_objects_def])
       (simp_all add: start)
  from runs_Halt [OF this] obtain h' where
    "exec K (bindp (bindp (for_each static_objects (\<lambda>ob _. construct ob) ()) ?main) (\<lambda>_. Halt :: (cxx_vars, unit) prog)) cxx_start [] =
      (Halted, dead (dead (dead g1)), h')" "observed printed_args h' = ?lines" by blast
  moreover have "cxx_throw_program = bindp (bindp (for_each static_objects (\<lambda>ob _. construct ob) ()) ?main) (\<lambda>_. Halt)"
    by (simp add: cxx_throw_program_def cxx_throw_Init_def bindp_assoc)
  ultimately show ?thesis using g1 by (intro exI [of _ "dead (dead (dead g1))"] exI [of _ h']) simp
qed

section \<open>Examples\<close>

theorem blocks_are_balanced_witness:
  "\<exists>g'. runs silent_kernel numbered (scoped [(A, VInt 1), (B, VInt 2)] (Do cout [] (Ret ()))) cxx_start () g'
      [ctor_line A 1 (VInt 1), ctor_line A 2 (VInt 2), ctor_line B 3 (VInt 2),
       dtor_line B 3 (VInt 2), dtor_line A 2 (VInt 2), dtor_line A 1 (VInt 1)] \<and> num_inst g' = 0"
proof -
  have "runs silent_kernel numbered (Do cout [] (Ret ())) g () g []" for g :: cxx_vars
    using runs_Do [OF silent_kernel_responsive runs_Ret, of numbered cout "[]" "()" g] by (simp add: seen_def numbered_def)
  then have "\<exists>g'. runs silent_kernel numbered (Do cout [] (Ret ())) g () g' [] \<and> num_inst g' = num_inst g \<and>
      (\<forall>v. alive v g \<longrightarrow> alive v g')" for g
    by blast
  from blocks_are_balanced [OF silent_kernel_responsive this, of "[(A, VInt 1), (B, VInt 2)]" cxx_start] show ?thesis
    by (auto simp: cxx_start_def)
qed

theorem constructor_destructor_output_witness:
  "\<exists>g' h'. exec silent_kernel cxx_throw_program cxx_start [] = (Halted, g', h') \<and> num_inst g' = 0 \<and>
    heap g' = map order [1, 2, 3, 4, 5, 6, 7, 8]"
  using constructor_destructor_output [OF silent_kernel_responsive] by blast

end
