(* ===== verification/Tick_Wrap.thy ===== *)
theory Tick_Wrap
  imports RT_Runs
begin

text \<open>
  The clock test \<open>misc/nanosecond_tick_wrap/init.c\<close>: it reads the uptime 1000 times into microseconds of
  32 bits, which wrap around after 71 minutes, and prints the readings and their differences.
\<close>

section \<open>The program\<close>

record tick_vars =
  uptime_usec :: "u32 list"
  uptime :: "(int \<times> int) list"

definition LOOPS :: nat where "LOOPS = 1000"

definition usec_of :: "int \<times> int \<Rightarrow> u32" where
  "usec_of t = word_of_int (fst t) * 1000000 + word_of_int (snd t) div 1000"

definition read_uptime :: "nat \<Rightarrow> unit \<Rightarrow> (tick_vars, unit) prog" where
  "read_uptime i _ =
     Call rtems_clock_get_uptime [VOp ''&uptime'' [VInt (int i)]] (\<lambda>r.
     Put (\<lambda>g. g\<lparr>uptime := (uptime g)[i :=
       (as_int (out r 0 (VInt (fst (uptime g ! i)))), as_int (out r 1 (VInt (snd (uptime g ! i)))))]\<rparr>) (
     Put (\<lambda>g. g\<lparr>uptime_usec := (uptime_usec g)[i := usec_of (uptime g ! i)]\<rparr>) (
     Ret ())))"

definition print_uptime :: "nat \<Rightarrow> u32 \<Rightarrow> (tick_vars, u32) prog" where
  "print_uptime i t0 =
     Get (\<lambda>g.
     let t1 = uptime_usec g ! i;
         usec = t1 mod 1000;
         msec = (t1 div 1000) mod 1000;
         sec = t1 div 1000000 in
     Do printf [VStr ''TEST:rtems=%lld.%09ld   t=%u.%03u.%03u   dt=%u\<newline>'',
       VInt (fst (uptime g ! i)), VInt (snd (uptime g ! i)),
       VInt (uint sec), VInt (uint msec), VInt (uint usec), VInt (uint (t1 - t0))] (
     Ret t1))"

definition tick_wrap_Init :: "(tick_vars, unit) prog" where
  "tick_wrap_Init =
     Do puts [VStr ''\<newline>\<newline>*** Nanosecond Clock Tick Wrap Test ***''] (
     bindp (for_each [0..<LOOPS] read_uptime ()) (\<lambda>_.
     bindp (for_each [0..<LOOPS] print_uptime 0) (\<lambda>_.
     Do puts [VStr ''*** END OF Nanosecond Clock Tick Wrap Test ***''] (
     Do exit [VInt 0] Halt))))"

definition tick_start :: tick_vars where
  "tick_start = \<lparr>uptime_usec = replicate LOOPS 0, uptime = replicate LOOPS (0, 0)\<rparr>"

definition tick_wrap_config :: config_macros where
  "tick_wrap_config =
    [(CONFIGURE_INIT, defined),
     (CONFIGURE_APPLICATION_NEEDS_CONSOLE_DRIVER, defined),
     (CONFIGURE_APPLICATION_NEEDS_CLOCK_DRIVER, defined),
     (CONFIGURE_MAXIMUM_TASKS, VInt 1),
     (CONFIGURE_MICROSECONDS_PER_TICK, VOp ''/'' [VOp ''RTEMS_MILLISECONDS_TO_MICROSECONDS'' [VInt 1], VInt 2]),
     (CONFIGURE_RTEMS_INIT_TASKS_TABLE, defined)]"

section \<open>The clock\<close>

text \<open>A clock that answers its \<open>k\<close>-th reading with \<open>c k\<close>, and the microseconds of a reading.\<close>

definition uptime_law :: "kernel \<Rightarrow> (nat \<Rightarrow> int \<times> int) \<Rightarrow> bool" where
  "uptime_law K c \<longleftrightarrow> (\<forall>h args r. K h (rtems_clock_get_uptime, args) = Some r \<longrightarrow>
     outs r = [VInt (fst (c (calls_to rtems_clock_get_uptime h))), VInt (snd (c (calls_to rtems_clock_get_uptime h)))])"

definition micros :: "int \<times> int \<Rightarrow> int" where
  "micros t = fst t * 1000000 + snd t div 1000"

lemma usec_of_micros:
  assumes "0 \<le> snd t" "snd t < 1000000000"
  shows "usec_of t = word_of_int (micros t)"
proof -
  have "uint (word_of_int (snd t) div 1000 :: u32) = snd t div 1000"
    using assms by (simp add: uint_div unsigned_of_int take_bit_int_eq_self)
  then have "word_of_int (snd t) div 1000 = (word_of_int (snd t div 1000) :: u32)"
    by (metis word_of_int_uint)
  then show ?thesis by (simp add: usec_of_def micros_def)
qed

definition read_upto :: "(nat \<Rightarrow> int \<times> int) \<Rightarrow> nat \<Rightarrow> tick_vars \<Rightarrow> bool" where
  "read_upto c n g \<longleftrightarrow> (\<forall>i<n. uptime g ! i = c i \<and> uptime_usec g ! i = usec_of (c i))"

definition tick_told :: "syscall \<Rightarrow> val list option" where
  "tick_told c = (if fst c = printf then Some (tl (snd c)) else None)"

lemma exec_read_uptime:
  assumes "responsive K" "uptime_law K c"
  shows "k \<le> N \<Longrightarrow> calls_to rtems_clock_get_uptime h = k \<Longrightarrow> read_upto c k g \<Longrightarrow>
      length (uptime g) = N \<Longrightarrow> length (uptime_usec g) = N \<Longrightarrow>
    \<exists>g' h'. exec K (for_each [k..<N] read_uptime ()) g h = (Done (), g', h') \<and> read_upto c N g' \<and>
      observed tick_told h' = observed tick_told h"
proof (induction "N - k" arbitrary: k g h)
  case 0
  then show ?case by (intro exI [of _ g] exI [of _ h]) (simp add: upt_conv_Nil)
next
  case (Suc d)
  then have lt: "k < N" by simp
  let ?c = "(rtems_clock_get_uptime, [VOp ''&uptime'' [VInt (int k)]])"
  obtain r where r: "K h ?c = Some r" using assms(1) unfolding responsive_def by blast
  then have outs: "outs r = [VInt (fst (c k)), VInt (snd (c k))]"
    using assms(2) Suc.prems(2) unfolding uptime_law_def by metis
  let ?g1 = "g\<lparr>uptime := (uptime g)[k := c k]\<rparr>"
  let ?g = "?g1\<lparr>uptime_usec := (uptime_usec g)[k := usec_of (c k)]\<rparr>"
  have "\<exists>g' h'. exec K (for_each [Suc k..<N] read_uptime ()) ?g (h @ [(?c, r)]) = (Done (), g', h') \<and> read_upto c N g' \<and>
      observed tick_told h' = observed tick_told (h @ [(?c, r)])"
    using Suc lt by (intro Suc.hyps(1)) (auto simp: read_upto_def less_Suc_eq nth_list_update)
  moreover have "exec K (for_each [k..<N] read_uptime ()) g h = exec K (for_each [Suc k..<N] read_uptime ()) ?g (h @ [(?c, r)])"
    using r outs lt Suc.prems by (simp add: upt_conv_Cons read_uptime_def out_def)
  ultimately show ?case by (simp add: tick_told_def)
qed

section \<open>What is printed\<close>

text \<open>The line of a reading \<open>t\<close> of \<open>m\<close> microseconds, after one of \<open>m0\<close>.\<close>

definition reading :: "int \<times> int \<Rightarrow> int \<Rightarrow> int \<Rightarrow> val list" where
  "reading t m0 m =
    [VInt (fst t), VInt (snd t), VInt (m mod 2 ^ 32 div 1000000), VInt (m mod 2 ^ 32 div 1000 mod 1000),
     VInt (m mod 2 ^ 32 mod 1000), VInt ((m - m0) mod 2 ^ 32)]"

definition before :: "(nat \<Rightarrow> int \<times> int) \<Rightarrow> nat \<Rightarrow> int" where
  "before c i = (if i = 0 then 0 else micros (c (i - 1)))"

lemma uint_word_of_int32: "uint (word_of_int m :: u32) = m mod 2 ^ 32"
  by (simp add: unsigned_of_int take_bit_eq_mod)

lemma uint_diff32: "uint (word_of_int a - word_of_int b :: u32) = (a - b) mod 2 ^ 32"
  unfolding uint_word_of_int32 [symmetric] by simp

lemma upt_first: "0 < n \<Longrightarrow> [0..<n] = 0 # map Suc [0..<n - 1]"
  by (cases n) (simp_all add: map_Suc_upt upt_conv_Cons del: upt.upt_Suc)

lemma runs_print_uptime:
  assumes "responsive K" "\<forall>i. 0 \<le> snd (c i) \<and> snd (c i) < 1000000000" "read_upto c N g"
  shows "k \<le> N \<Longrightarrow> \<exists>t. runs K tick_told (for_each [k..<N] print_uptime (word_of_int (before c k))) g t g
    (map (\<lambda>i. reading (c i) (before c i) (micros (c i))) [k..<N])"
proof (induction "N - k" arbitrary: k)
  case 0
  then show ?case by (simp add: upt_conv_Nil) (blast intro: runs_Ret)
next
  case (Suc d)
  then have lt: "k < N" by simp
  let ?m = "micros (c k)"
  have g: "uptime g ! k = c k" "uptime_usec g ! k = word_of_int ?m"
    using assms(2,3) lt usec_of_micros by (simp_all add: read_upto_def)
  have "runs K tick_told (print_uptime k (word_of_int (before c k))) g (word_of_int ?m) g
      [reading (c k) (before c k) ?m]"
    using runs_last_Do [OF assms(1), of tick_told printf "VStr ''TEST:rtems=%lld.%09ld   t=%u.%03u.%03u   dt=%u\<newline>'' #
        reading (c k) (before c k) ?m" "word_of_int ?m" g]
    by (simp add: print_uptime_def Let_def g seen_def tick_told_def reading_def uint_mod uint_div uint_word_of_int32 uint_diff32)
  moreover have "d = N - Suc k" using Suc.hyps(2) by simp
  from Suc.hyps(1) [OF this] lt obtain t where "runs K tick_told (for_each [Suc k..<N] print_uptime (word_of_int (before c (Suc k)))) g t g
      (map (\<lambda>i. reading (c i) (before c i) (micros (c i))) [Suc k..<N])"
    by auto
  ultimately have "runs K tick_told (bindp (print_uptime k (word_of_int (before c k))) (for_each [Suc k..<N] print_uptime)) g t g
      ([reading (c k) (before c k) ?m] @ map (\<lambda>i. reading (c i) (before c i) (micros (c i))) [Suc k..<N])"
    by (intro runs_bindp [where q = "for_each [Suc k..<N] print_uptime"]) (simp_all add: before_def)
  then show ?case using lt by (auto simp: upt_conv_Cons)
qed

lemma tick_wrap_prints:
  assumes "responsive K" "uptime_law K c" "\<forall>i. 0 \<le> snd (c i) \<and> snd (c i) < 1000000000"
  shows "\<exists>g' h'. exec K tick_wrap_Init tick_start [] = (Halted, g', h') \<and>
    observed tick_told h' = map (\<lambda>i. reading (c i) (before c i) (micros (c i))) [0..<LOOPS]"
proof -
  let ?c1 = "(puts, [VStr ''\<newline>\<newline>*** Nanosecond Clock Tick Wrap Test ***''])"
  let ?c2 = "(puts, [VStr ''*** END OF Nanosecond Clock Tick Wrap Test ***''])"
  obtain r1 where r1: "K [] ?c1 = Some r1" using assms(1) unfolding responsive_def by blast
  obtain g2 h2 where 2: "exec K (for_each [0..<LOOPS] read_uptime ()) tick_start [(?c1, r1)] = (Done (), g2, h2)"
    "read_upto c LOOPS g2" "observed tick_told h2 = observed tick_told [(?c1, r1)]"
    using exec_read_uptime [OF assms(1,2), of 0 LOOPS "[(?c1, r1)]" tick_start] by (auto simp: read_upto_def tick_start_def)
  obtain t h3 where 3: "exec K (for_each [0..<LOOPS] print_uptime 0) g2 h2 = (Done t, g2, h3)"
    "observed tick_told h3 = observed tick_told h2 @ map (\<lambda>i. reading (c i) (before c i) (micros (c i))) [0..<LOOPS]"
    using runs_print_uptime [OF assms(1,3) 2(2), of 0] unfolding runs_def
    by (simp add: before_def [of c 0] del: upt.upt_Suc) blast
  obtain r3 where r3: "K h3 ?c2 = Some r3" using assms(1) unfolding responsive_def by blast
  obtain r4 where r4: "K (h3 @ [(?c2, r3)]) (exit, [VInt 0]) = Some r4" using assms(1) unfolding responsive_def by blast
  show ?thesis
    using r1 2 3 r3 r4 by (intro exI [of _ g2] exI [of _ "(h3 @ [(?c2, r3)]) @ [((exit, [VInt 0]), r4)]"])
      (simp add: tick_wrap_Init_def exec_bindp tick_told_def del: append_assoc upt.upt_Suc)
qed

lemma split_micros: "(m :: int) div 1000000 * 1000000 + m div 1000 mod 1000 * 1000 + m mod 1000 = m"
proof -
  have "m div 1000000 = m div 1000 div 1000" using div_mult2_eq' [of m 1000 1000] by simp
  then show ?thesis using div_mult_mod_eq [of m 1000] div_mult_mod_eq [of "m div 1000" 1000] by linarith
qed

text \<open>
  C16: The clock test's differences are exact, although its microseconds wrap around at 32 bits,
  as long as two readings are less than 4294.967296 seconds apart; the printed time is the reading
  modulo that period.
\<close>

theorem differences_survive_wrap:
  assumes "responsive K" "uptime_law K c" "\<forall>i. 0 \<le> snd (c i) \<and> snd (c i) < 1000000000"
    and "\<forall>i. micros (c i) \<le> micros (c (Suc i)) \<and> micros (c (Suc i)) < micros (c i) + 2 ^ 32"
    and "0 \<le> micros (c 0)" "micros (c 0) < 2 ^ 32"
  shows "\<exists>g' h'. exec K tick_wrap_Init tick_start [] = (Halted, g', h') \<and>
    map last (observed tick_told h') =
      VInt (micros (c 0)) # map (\<lambda>i. VInt (micros (c (Suc i)) - micros (c i))) [0..<LOOPS - 1] \<and>
    map (\<lambda>l. as_int (l ! 2) * 1000000 + as_int (l ! 3) * 1000 + as_int (l ! 4)) (observed tick_told h') =
      map (\<lambda>i. micros (c i) mod 2 ^ 32) [0..<LOOPS]"
proof -
  obtain g' h' where 1: "exec K tick_wrap_Init tick_start [] = (Halted, g', h')"
    "observed tick_told h' = map (\<lambda>i. reading (c i) (before c i) (micros (c i))) [0..<LOOPS]"
    using tick_wrap_prints [OF assms(1-3)] by blast
  have diff: "(micros (c i) - before c i) mod 2 ^ 32 = micros (c i) - before c i" for i
  proof (cases i)
    case (Suc j)
    then show ?thesis using assms(4) [rule_format, of j] by (simp add: before_def)
  qed (use assms(5,6) in \<open>simp add: before_def\<close>)
  have last: "last (reading (c i) (before c i) (micros (c i))) = VInt (micros (c i) - before c i)" for i
    by (simp add: reading_def diff [simplified])
  have "0 < LOOPS" by (simp add: LOOPS_def)
  have "map (\<lambda>i. VInt (micros (c i) - before c i)) [0..<LOOPS] =
      VInt (micros (c 0) - before c 0) # map (\<lambda>i. VInt (micros (c (Suc i)) - before c (Suc i))) [0..<LOOPS - 1]"
    unfolding upt_first [OF \<open>0 < LOOPS\<close>] list.map map_map o_def by (rule refl)
  then have "map last (observed tick_told h') =
      VInt (micros (c 0)) # map (\<lambda>i. VInt (micros (c (Suc i)) - micros (c i))) [0..<LOOPS - 1]"
    unfolding 1(2) map_map o_def last by (simp add: before_def)
  moreover have "map (\<lambda>l. as_int (l ! 2) * 1000000 + as_int (l ! 3) * 1000 + as_int (l ! 4)) (observed tick_told h') =
      map (\<lambda>i. micros (c i) mod 2 ^ 32) [0..<LOOPS]"
    unfolding 1(2) map_map o_def reading_def by (simp add: split_micros)
  ultimately show ?thesis using 1(1) by (intro exI [of _ g'] exI [of _ h'] conjI)
qed

section \<open>Examples\<close>

text \<open>A clock that starts five seconds before the wrap-around and advances by ten milliseconds.\<close>

definition late_clock :: "nat \<Rightarrow> int \<times> int" where
  "late_clock k = (4290 + int k div 100, int k mod 100 * 10000000)"

definition clocked :: "(nat \<Rightarrow> int \<times> int) \<Rightarrow> kernel" where
  "clocked c h s = Some (Reply (VInt 0)
    (if fst s = rtems_clock_get_uptime
     then [VInt (fst (c (calls_to rtems_clock_get_uptime h))), VInt (snd (c (calls_to rtems_clock_get_uptime h)))] else []))"

lemma clocked_laws: "responsive (clocked c)" "uptime_law (clocked c) c"
  by (auto simp: responsive_def uptime_law_def clocked_def)

lemma late_clock_micros: "micros (late_clock k) = 4290000000 + int k * 10000"
proof -
  have "int k mod 100 * 10000000 div 1000 = int k mod 100 * 10000"
    using nonzero_mult_div_cancel_right [of 1000 "int k mod 100 * 10000"] by simp
  moreover have "int k div 100 * 1000000 + int k mod 100 * 10000 = int k * 10000"
    using div_mult_mod_eq [of "int k" 100] by linarith
  ultimately show ?thesis by (simp add: micros_def late_clock_def distrib_right)
qed

theorem differences_survive_wrap_witness:
  "\<exists>g' h'. exec (clocked late_clock) tick_wrap_Init tick_start [] = (Halted, g', h') \<and>
    map last (observed tick_told h') = VInt 4290000000 # map (\<lambda>i. VInt 10000) [0..<LOOPS - 1]"
proof -
  have 1: "\<forall>i. 0 \<le> snd (late_clock i) \<and> snd (late_clock i) < 1000000000" by (simp add: late_clock_def)
  have 2: "\<forall>i. micros (late_clock i) \<le> micros (late_clock (Suc i)) \<and>
      micros (late_clock (Suc i)) < micros (late_clock i) + 2 ^ 32"
    and 3: "0 \<le> micros (late_clock 0)" "micros (late_clock 0) < 2 ^ 32"
    by (simp_all add: late_clock_micros)
  from differences_survive_wrap [OF clocked_laws 1 2 3] show ?thesis
    by (auto simp: late_clock_micros simp del: upt.upt_Suc)
qed

end
