(* ===== verification/Overwrite.thy ===== *)
theory Overwrite
  imports RT_Runs
begin

text \<open>
  The memory corruption example \<open>gdb/overwrite\<close>.  The structure is ten words in a row: eight of the
  array, and the two variables behind it.  An index beyond the array reaches them, as the example
  intends; an index beyond the structure is outside of what the program defines, \<open>None\<close>.
\<close>

section \<open>The program\<close>

type_synonym Struct_t = "u32 list"

definition RandomVariable :: "Struct_t \<Rightarrow> u32" where
  "RandomVariable S = S ! 8"

definition CorruptedVariable :: "Struct_t \<Rightarrow> u32" where
  "CorruptedVariable S = S ! 9"

definition writeEntry :: "int \<Rightarrow> u32 \<Rightarrow> Struct_t \<Rightarrow> Struct_t option" where
  "writeEntry index v S = (if index < 0 then None else wr S (nat index) v)"

definition write_entry :: "int \<Rightarrow> u32 \<Rightarrow> (Struct_t, unit) prog" where
  "write_entry index v =
     Get (\<lambda>S. case writeEntry index v S of None \<Rightarrow> Halt | Some S' \<Rightarrow> Put (\<lambda>_. S') (Ret ()))"

text \<open>\<open>S\<close> is at the address \<open>base\<close>.\<close>

definition overwrite_main :: "int \<Rightarrow> (Struct_t, int) prog" where
  "overwrite_main base =
     Do puts [VStr ''\<newline>\<newline>*** MEMORY CORRUPTION EXAMPLE ***''] (
     Put (\<lambda>_. replicate 10 0) (
     Put (\<lambda>S. S[8 := 0x1234]) (
     Put (\<lambda>S. S[9 := 0x5678]) (
     Do printf
       [VStr ''&TooShortArray[0] = %p\<newline>&TooShortArray[7] = %p\<newline>&RandomVariable = %p\<newline>&CorruptedVariable = %p\<newline>'',
        VInt base, VInt (base + 28), VInt (base + 32), VInt (base + 36)] (
     bindp (write_entry 8 0xdeadf00d) (\<lambda>_.
     bindp (write_entry 9 0x0badd00d) (\<lambda>_.
     Get (\<lambda>S.
     Do printf [VStr ''RandomVariable = 0x%08x\<newline>CorruptedVariable = 0x%08x\<newline>'',
       VInt (uint (RandomVariable S)), VInt (uint (CorruptedVariable S))] (
     Do puts [VStr ''*** END OF MEMORY CORRUPTION EXAMPLE ***''] (
     Do exit [VInt 0] Halt))))))))))"

definition overwrite_Init :: "int \<Rightarrow> (Struct_t, unit) prog" where
  "overwrite_Init base =
     bindp (overwrite_main base) (\<lambda>_.
     Do exit [VInt 0] Halt)"

definition overwrite_config :: config_macros where
  "overwrite_config =
    [(CONFIGURE_APPLICATION_DOES_NOT_NEED_CLOCK_DRIVER, defined),
     (CONFIGURE_APPLICATION_NEEDS_CONSOLE_DRIVER, defined),
     (CONFIGURE_RTEMS_INIT_TASKS_TABLE, defined),
     (CONFIGURE_MAXIMUM_TASKS, VInt 1),
     (CONFIGURE_INIT, defined)]"

section \<open>What is overwritten\<close>

lemma writeEntry_places:
  assumes "length A = 8"
  shows "writeEntry i v (A @ [r, c]) =
    (if 0 \<le> i \<and> i < 8 then Some (A[nat i := v] @ [r, c])
     else if i = 8 then Some (A @ [v, c])
     else if i = 9 then Some (A @ [r, v])
     else None)"
proof -
  consider "i < 0" | "0 \<le> i" "i < 8" | "i = 8" | "i = 9" | "9 < i" by linarith
  then show ?thesis
    using assms by cases (auto simp: writeEntry_def wr_def list_update_append nat_less_iff)
qed

text \<open>\<close>

theorem neighbours_are_overwritten:
  assumes "responsive K"
  shows "\<exists>h'. exec K (overwrite_Init base) S [] = (Halted, replicate 8 0 @ [0xdeadf00d, 0x0badd00d], h') \<and>
    (\<exists>addresses. observed (\<lambda>c. if fst c = printf then Some (tl (snd c)) else None) h' =
      [addresses, [VInt 0xdeadf00d, VInt 0x0badd00d]])"
proof -
  let ?S = "replicate 8 0 @ [0xdeadf00d, 0x0badd00d] :: Struct_t"
  have start: "(replicate 10 0)[8 := 0x1234, 9 := 0x5678] = (replicate 8 0 @ [0x1234, 0x5678] :: Struct_t)"
    by (simp add: numeral_eq_Suc)
  have vars: "RandomVariable ?S = 0xdeadf00d" "CorruptedVariable ?S = 0x0badd00d"
    by (simp_all add: RandomVariable_def CorruptedVariable_def nth_append)
  show ?thesis
    using assms
    by (simp add: overwrite_Init_def overwrite_main_def write_entry_def start vars exec_Call_responsive Let_def
        writeEntry_places [where A = "replicate 8 0"] del: exec.simps(4))
qed

theorem neighbours_are_overwritten_witness:
  "\<exists>h'. exec silent_kernel (overwrite_Init 0x1000) [] [] = (Halted, replicate 8 0 @ [0xdeadf00d, 0x0badd00d], h')"
  using neighbours_are_overwritten [OF silent_kernel_responsive, where base = "0x1000" and S = "[]"] by blast

end
