(* ===== verification/Sigmask.thy ===== *)
theory Sigmask
  imports RT_Runs
begin

text \<open>
  The signal mask test \<open>posix_api/psx_initial_sigmask/main.c\<close>.  A \<open>sigset_t\<close> is \<open>SIGSET_NBYTES\<close> bytes, and
  \<open>SIGSET_NWORDS\<close> is the number of words in it; both depend on the target and are arguments.  The mask of
  a thread belongs to the operating system.
\<close>

section \<open>The program\<close>

type_synonym sigset = "u8 list"

text \<open>The global \<open>main_sigmask\<close>; the other sets are local variables and are passed along.\<close>

record sigmask_vars =
  main_sigmask :: sigset

datatype set_var = Main | Local string

definition addr :: "set_var \<Rightarrow> val" where
  "addr p = (case p of Main \<Rightarrow> VRef ''&main_sigmask'' | Local s \<Rightarrow> VRef s)"

text \<open>What a call stored through a pointer to a set, and the store itself; the result is the local value.\<close>

definition stored_set :: "reply \<Rightarrow> sigset \<Rightarrow> sigset" where
  "stored_set r old = (if outs r = [] then old else map (\<lambda>v. word_of_int (as_int v)) (outs r))"

definition store :: "set_var \<Rightarrow> sigset \<Rightarrow> (sigmask_vars, sigset) prog \<Rightarrow> (sigmask_vars, sigset) prog" where
  "store p s q = (if p = Main then Put (\<lambda>g. g\<lparr>main_sigmask := s\<rparr>) q else q)"

definition print_byte :: "nat \<times> u8 \<Rightarrow> unit \<Rightarrow> (sigmask_vars, unit) prog" where
  "print_byte b _ =
     Do printf [VStr ''%02x%s'', VInt (uint (snd b)), VStr (if fst b mod 16 = 15 then ''\<newline>    '' else '' '')] (Ret ())"

text \<open>\<open>old\<close> is the content of the set before; the set after is the result.\<close>

definition print_sigmask :: "string \<Rightarrow> set_var \<Rightarrow> sigset \<Rightarrow> (sigmask_vars, sigset) prog" where
  "print_sigmask name p old =
     Call sigemptyset [addr p] (\<lambda>r.
     let s = stored_set r old in
     store p s (
     asserting (ret r = VInt 0) (
     Call sigprocmask [VRef ''SIG_SETMASK'', VRef ''NULL'', addr p] (\<lambda>r.
     let s = stored_set r s in
     store p s (
     asserting (ret r = VInt 0) (
     Do printf [VStr ''%s signal mask (in hex):\<newline>    '', VStr name] (
     bindp (for_each (List.enumerate 0 s) print_byte ()) (\<lambda>_.
     Do printf [VStr ''\<newline>''] (
     Ret s)))))))))"

definition block_sigmask :: "val \<Rightarrow> set_var \<Rightarrow> sigset \<Rightarrow> (sigmask_vars, sigset) prog" where
  "block_sigmask signo p old =
     Call sigemptyset [VRef ''&sigset''] (\<lambda>r.
     asserting (ret r = VInt 0) (
     Call sigaddset [VRef ''&sigset'', signo] (\<lambda>r.
     asserting (ret r = VInt 0) (
     Call sigprocmask [VRef ''SIG_BLOCK'', VRef ''&sigset'', VRef ''NULL''] (\<lambda>r.
     asserting (ret r = VInt 0) (
     Call sigemptyset [addr p] (\<lambda>r.
     let s = stored_set r old in
     store p s (
     Call sigprocmask [VRef ''SIG_SETMASK'', VRef ''NULL'', addr p] (\<lambda>r.
     let s = stored_set r s in
     store p s (
     asserting (ret r = VInt 0) (
     Ret s)))))))))))"

text \<open>\<open>memcmp\<close> of the first \<open>nwords\<close> bytes.\<close>

definition thread_body :: "nat \<Rightarrow> sigset \<Rightarrow> string \<Rightarrow> (sigmask_vars, unit) prog" where
  "thread_body nwords junk name =
     Do printf [VStr ''Ensure %s mask equals parent's mask\<newline>'', VStr name] (
     Get (\<lambda>g.
     bindp (print_sigmask ''main'' Main (main_sigmask g)) (\<lambda>_.
     bindp (print_sigmask name (Local ''&mask'') junk) (\<lambda>mask.
     Get (\<lambda>g.
     asserting (take nwords (main_sigmask g) = take nwords mask) (
     Ret ()))))))"

definition sigmask_main :: "sigset \<Rightarrow> (sigmask_vars, int) prog" where
  "sigmask_main junk =
     Do puts [VStr ''*** START OF SIGNAL MASK TEST ***''] (
     bindp (print_sigmask ''empty'' (Local ''&empty'') junk) (\<lambda>_.
     Get (\<lambda>g.
     bindp (print_sigmask ''main'' Main (main_sigmask g)) (\<lambda>_.
     Call pthread_create [VRef ''&id'', VRef ''NULL'', VRef ''thread_body'', VStr ''thread1''] (\<lambda>r.
     asserting (ret r = VInt 0) (
     Do sleep [VInt 1] (
     Get (\<lambda>g.
     bindp (block_sigmask (VRef ''SIGUSR1'') Main (main_sigmask g)) (\<lambda>_.
     Call pthread_create [VRef ''&id'', VRef ''NULL'', VRef ''thread_body'', VStr ''thread2''] (\<lambda>r.
     asserting (ret r = VInt 0) (
     Do sleep [VInt 1] (
     Do puts [VStr ''*** END OF SIGNAL MASK TEST ***''] (
     Do exit [VInt 0] Halt)))))))))))))"

section \<open>The check in the threads\<close>

text \<open>
  The calls of a thread with the signal mask \<open>cur\<close>: they succeed, and a query delivers the mask.
\<close>

definition mask_law :: "sigset \<Rightarrow> syscall \<Rightarrow> reply \<Rightarrow> bool" where
  "mask_law cur c r \<longleftrightarrow>
    (fst c \<in> {sigemptyset, sigaddset, sigprocmask} \<longrightarrow> ret r = VInt 0) \<and>
    (\<forall>p. c = (sigprocmask, [VRef ''SIG_SETMASK'', VRef ''NULL'', p]) \<longrightarrow> outs r = map (\<lambda>b. VInt (uint b)) cur)"

abbreviation unseen :: "syscall \<Rightarrow> unit option" where "unseen \<equiv> \<lambda>_. None"

lemma runs_print_bytes:
  assumes "responsive K"
  shows "runs K unseen (for_each bs print_byte ()) g () g []"
proof (induction bs)
  case (Cons b bs)
  have "runs K unseen (print_byte b ()) g () g []"
    using runs_last_Do [OF assms, where obs = unseen and x = "()" and g = g] by (simp add: print_byte_def seen_def)
  from runs_bindp [OF this, where q = "for_each bs print_byte", OF Cons] show ?case by simp
qed simp

lemma runs_print_sigmask:
  assumes "responsive K" "obeys K (mask_law cur)" "cur \<noteq> []"
  shows "runs K unseen (print_sigmask name p old) g cur (if p = Main then g\<lparr>main_sigmask := cur\<rparr> else g) []"
proof -
  have 1: "runs K unseen (Do printf [VStr ''\<newline>''] (Ret cur)) g cur g []" for g
    using runs_last_Do [OF assms(1), where obs = unseen and x = cur and g = g] by (simp add: seen_def)
  have 2: "runs K unseen (bindp (for_each (List.enumerate 0 cur) print_byte ()) (\<lambda>_. Do printf [VStr ''\<newline>''] (Ret cur))) g cur g []" for g
    using runs_bindp [OF runs_print_bytes [OF assms(1)], where q = "\<lambda>_. Do printf [VStr ''\<newline>''] (Ret cur)", OF 1] by simp
  show ?thesis
    unfolding print_sigmask_def
    by (rule runs_silent [OF assms(1,2)], simp, cases "p = Main")
       (auto simp: Let_def store_def asserting_def mask_law_def stored_set_def o_def assms(3)
          intro!: runs_silent [OF assms(1,2)] 2)
qed

text \<open>
  C22: The check that a thread has inherited its parent's signal mask cannot fail: whatever mask
  the parent has recorded and whatever mask the thread has, the thread overwrites the record with
  its own mask first.
\<close>

theorem mask_check_cannot_fail:
  assumes "responsive K" "obeys K (mask_law cur)" "cur \<noteq> []"
  shows "\<exists>h'. exec K (thread_body nwords junk name) g h = (Done (), g\<lparr>main_sigmask := cur\<rparr>, h')"
proof -
  let ?g = "g\<lparr>main_sigmask := cur\<rparr>"
  have 1: "runs K unseen (print_sigmask ''main'' Main (main_sigmask g)) g cur ?g []"
    using runs_print_sigmask [OF assms, of "''main''" Main "main_sigmask g" g] by simp
  have 2: "runs K unseen (print_sigmask name (Local ''&mask'') junk) ?g cur ?g []"
    using runs_print_sigmask [OF assms, of name "Local ''&mask''" junk ?g] by simp
  let ?check = "bindp (print_sigmask ''main'' Main (main_sigmask g)) (\<lambda>_.
      bindp (print_sigmask name (Local ''&mask'') junk) (\<lambda>mask.
      Get (\<lambda>g. asserting (take nwords (main_sigmask g) = take nwords mask) (Ret ()))))"
  have "runs K unseen ?check g () ?g ([] @ [] @ [])"
    by (rule runs_bindp [OF 1], rule runs_bindp [OF 2]) (simp add: asserting_def)
  then have "runs K unseen (thread_body nwords junk name) g () ?g []"
    unfolding thread_body_def by (intro runs_silent [OF assms(1,2)]) simp_all
  then show ?thesis unfolding runs_def by blast
qed

section \<open>Example\<close>

text \<open>A thread in which signal 1 is blocked, although its parent has recorded that none is.\<close>

definition masked :: "sigset \<Rightarrow> kernel" where
  "masked cur h c = Some (Reply (VInt 0) (if fst c = sigprocmask then map (\<lambda>b. VInt (uint b)) cur else []))"

lemma masked_laws: "responsive (masked cur)" "obeys (masked cur) (mask_law cur)"
  by (auto simp: responsive_def obeys_def mask_law_def masked_def)

theorem mask_check_cannot_fail_witness:
  "\<exists>h'. exec (masked [1, 0, 0, 0]) (thread_body 1 [] ''thread1'') \<lparr>main_sigmask = [0, 0, 0, 0]\<rparr> [] =
    (Done (), \<lparr>main_sigmask = [1, 0, 0, 0]\<rparr>, h')"
  using mask_check_cannot_fail [OF masked_laws, of "[1, 0, 0, 0]" 1 "[]" "''thread1''" "\<lparr>main_sigmask = [0, 0, 0, 0]\<rparr>" "[]"]
  by simp

end
