(* ===== verification/Task_Restart.thy ===== *)
theory Task_Restart
  imports RT_Runs
begin

text \<open>
  The restart example \<open>posix_api/psx_task_restart/psx_task_restart.c\<close>: a thread that cannot go on sends
  an event to a health thread, which restarts it with an argument that tells it so.
\<close>

section \<open>The threads\<close>

record thread_ids =
  Health_thread_id :: val
  Faulting_thread_id :: val

abbreviation HEALTH_EVENT :: val where "HEALTH_EVENT \<equiv> VInt 1"

definition print_priority :: "string \<Rightarrow> (thread_ids, unit) prog" where
  "print_priority name =
     Call rtems_task_set_priority [VRef ''RTEMS_SELF'', VRef ''RTEMS_CURRENT_PRIORITY'', VRef ''&current''] (\<lambda>r.
     asserting (ret r = SUCCESSFUL) (
     Do printk [VStr ''%s priority --> %d\<newline>'', VStr name, out r 0 (VRef ''current'')] (
     Ret ())))"

text \<open>At most \<open>n\<close> rounds of the endless loops.\<close>

definition restart_faulting :: "unit \<Rightarrow> (thread_ids, unit) prog" where
  "restart_faulting _ =
     Call rtems_event_receive
       [HEALTH_EVENT, VRef ''RTEMS_DEFAULT_OPTIONS'', VRef ''RTEMS_NO_TIMEOUT'', VRef ''&events''] (\<lambda>r.
     asserting (ret r = SUCCESSFUL) (
     Do printk [VStr ''Health Thread restarting Faulting thread\<newline>''] (
     Get (\<lambda>g.
     Call rtems_task_restart [Faulting_thread_id g, VInt 1] (\<lambda>r.
     asserting (ret r = SUCCESSFUL) (
     Ret ()))))))"

definition Health_Thread :: "nat \<Rightarrow> (thread_ids, unit) prog" where
  "Health_Thread n =
     Do printk [VStr ''Health Thread entered\<newline>''] (
     bindp (print_priority ''Health thread'') (\<lambda>_.
     forever n restart_faulting ()))"

definition Faulting_thread :: "bool \<Rightarrow> nat \<Rightarrow> val \<Rightarrow> (thread_ids, unit) prog" where
  "Faulting_thread use_pthreads n arg =
     Do printk [VStr ''Faulting thread entered: %p\<newline>'', arg] (
     bindp (print_priority ''Faulting thread'') (\<lambda>_.
     bindp
       (if use_pthreads then
          Call pthread_setcanceltype [VRef ''PTHREAD_CANCEL_ASYNCHRONOUS'', VRef ''NULL''] (\<lambda>r.
          asserting (ret r = VInt 0) (Ret ()))
        else Ret ()) (\<lambda>_.
     if arg = VInt 1 then
       Do printk [VStr ''Faulting thread Successfully restarted\<newline>''] (
       Do puts [VStr ''*** END OF POSIX Thread Restart ***''] (
       Do exit [VInt 0] Halt))
     else
       Do printk [VStr ''Faulting thread sending health event\<newline>''] (
       Get (\<lambda>g.
       Call rtems_event_send [Health_thread_id g, HEALTH_EVENT] (\<lambda>r.
       asserting (ret r = SUCCESSFUL) (
       Do printk [VStr ''Faulting thread should not be here\<newline>''] (
       forever n (\<lambda>_. Ret ()) ()))))))))"

definition start_health_thread :: "(thread_ids, unit) prog" where
  "start_health_thread =
     Call rtems_task_create
       [VOp ''rtems_build_name'' [VStr ''HLTH''], VInt 0, VOp ''*'' [VInt 16, VInt 1024], VRef ''RTEMS_DEFAULT_MODES'',
        VRef ''RTEMS_SYSTEM_TASK'', VRef ''&Health_thread_id''] (\<lambda>r.
     Put (\<lambda>g. g\<lparr>Health_thread_id := out r 0 (Health_thread_id g)\<rparr>) (
     asserting (ret r = SUCCESSFUL) (
     Get (\<lambda>g.
     Call rtems_task_start [Health_thread_id g, VRef ''Health_Thread'', VInt 0] (\<lambda>r.
     asserting (ret r = SUCCESSFUL) (
     Ret ()))))))"

definition start_faulting_thread :: "bool \<Rightarrow> (thread_ids, unit) prog" where
  "start_faulting_thread use_pthreads =
     (if use_pthreads then
        Do printk [VStr ''Main: pthread_create faulting ... \<newline>''] (
        Call pthread_create [VRef ''&Faulting_thread_id'', VRef ''NULL'', VRef ''Faulting_thread'', VRef ''NULL''] (\<lambda>r.
        Put (\<lambda>g. g\<lparr>Faulting_thread_id := out r 0 (Faulting_thread_id g)\<rparr>) (
        asserting (ret r = VInt 0) (
        Get (\<lambda>g.
        Call rtems_task_set_priority [Faulting_thread_id g, VInt 2, VRef ''&old''] (\<lambda>r.
        asserting (ret r = SUCCESSFUL) (
        Ret ())))))))
      else
        Do printk [VStr ''Main: rtems_task_create faulting ... \<newline>''] (
        Call rtems_task_create
          [VOp ''rtems_build_name'' [VStr ''FALT''], VInt 1, VOp ''*'' [VInt 16, VInt 1024], VRef ''RTEMS_DEFAULT_MODES'',
           VRef ''RTEMS_DEFAULT_ATTRIBUTES'', VRef ''&Faulting_thread_id''] (\<lambda>r.
        Put (\<lambda>g. g\<lparr>Faulting_thread_id := out r 0 (Faulting_thread_id g)\<rparr>) (
        asserting (ret r = SUCCESSFUL) (
        Get (\<lambda>g.
        Call rtems_task_start [Faulting_thread_id g, VRef ''Faulting_thread'', VInt 0] (\<lambda>r.
        asserting (ret r = SUCCESSFUL) (
        Ret ()))))))))"

definition task_restart_main :: "bool \<Rightarrow> (thread_ids, int) prog" where
  "task_restart_main use_pthreads =
     Do puts [VStr ''*** POSIX Thread Restart ***''] (
     bindp (print_priority ''main'') (\<lambda>_.
     bindp start_health_thread (\<lambda>_.
     bindp (start_faulting_thread use_pthreads) (\<lambda>_.
     Do sleep [VInt 5] (
     Do printk [VStr ''main() - Should not get here''] (
     asserting False (Ret 0)))))))"

section \<open>Both threads together\<close>

text \<open>
  The health thread and the faulting thread, in any interleaving.  A successful restart replaces
  what is left of the thread that the identifier names by that thread's entry point: of the faulting
  thread, or of the health thread itself; with any other identifier both threads go on.
\<close>

type_synonym pair_state = "(thread_ids, unit) prog \<times> (thread_ids, unit) prog \<times> thread_ids \<times> event list"

datatype thread = HealthThread | FaultingThread

definition named :: "thread_ids \<Rightarrow> val \<Rightarrow> thread option" where
  "named g i =
    (if i = Faulting_thread_id g then Some FaultingThread
     else if i = Health_thread_id g then Some HealthThread
     else None)"

inductive rstep :: "kernel \<Rightarrow> (val \<Rightarrow> (thread_ids, unit) prog) \<Rightarrow> (val \<Rightarrow> (thread_ids, unit) prog) \<Rightarrow>
    pair_state \<Rightarrow> pair_state \<Rightarrow> bool" for K hentry fentry where
  Health: "sstep K (hp, g, h) (hp', g', h') \<Longrightarrow> (\<And>args k. hp \<noteq> Call rtems_task_restart args k) \<Longrightarrow>
    rstep K hentry fentry (hp, fp, g, h) (hp', fp, g', h')"
| Restart: "K h (rtems_task_restart, [i, a]) = Some r \<Longrightarrow>
    rstep K hentry fentry (Call rtems_task_restart [i, a] k, fp, g, h)
      (if ret r = SUCCESSFUL \<and> named g i = Some HealthThread then hentry a else k r,
       if ret r = SUCCESSFUL \<and> named g i = Some FaultingThread then fentry a else fp,
       g, h @ [((rtems_task_restart, [i, a]), r)])"
| Faulting: "sstep K (fp, g, h) (fp', g', h') \<Longrightarrow> rstep K hentry fentry (hp, fp, g, h) (hp, fp', g', h')"

inductive_cases rstepE: "rstep K hentry fentry (hp, fp, g, h) c"

text \<open>
  The events pending for the task \<open>i\<close>, a set of bits as in \<open>rtems_event_set\<close>: a send to \<open>i\<close> adds its
  bits, and a receipt takes the bits it asks for.  The health thread is the only receiver.
\<close>

definition event_bits :: "val \<Rightarrow> int" where
  "event_bits v = (case v of VInt n \<Rightarrow> n | _ \<Rightarrow> 0)"

definition after_call :: "val \<Rightarrow> int \<Rightarrow> event \<Rightarrow> int" where
  "after_call i b e = (case e of ((f, args), r) \<Rightarrow>
     if f = rtems_event_send then
       (case args of [j, v] \<Rightarrow> if j = i then Bit_Operations.or b (event_bits v) else b | _ \<Rightarrow> b)
     else if f = rtems_event_receive then
       (case args of v # _ \<Rightarrow> Bit_Operations.and b (Bit_Operations.not (event_bits v)) | _ \<Rightarrow> b)
     else b)"

definition pending :: "val \<Rightarrow> event list \<Rightarrow> int" where
  "pending i h = foldl (after_call i) 0 h"

lemma pending_snoc [simp]: "pending i (h @ [e]) = after_call i (pending i h) e"
  by (simp add: pending_def)

lemma after_call_other [simp]:
  "f \<noteq> rtems_event_send \<Longrightarrow> f \<noteq> rtems_event_receive \<Longrightarrow> after_call i b ((f, args), r) = b"
  by (simp add: after_call_def)

text \<open>
  Every call is answered, with success, and the receipt of events by the task \<open>i\<close> exactly when all
  the events it asks for are pending for \<open>i\<close>.
\<close>

definition ok_reply :: "syscall \<Rightarrow> reply \<Rightarrow> bool" where
  "ok_reply c r \<longleftrightarrow>
    (fst c \<in> {rtems_event_receive, rtems_event_send, rtems_task_restart, rtems_task_set_priority} \<longrightarrow> ret r = SUCCESSFUL) \<and>
    (fst c = pthread_setcanceltype \<longrightarrow> ret r = VInt 0)"

definition receivable :: "val \<Rightarrow> event list \<Rightarrow> syscall \<Rightarrow> bool" where
  "receivable i h c \<longleftrightarrow> fst c = rtems_event_receive \<longrightarrow>
     (case snd c of
        v # _ \<Rightarrow> Bit_Operations.and (pending i h) (event_bits v) = event_bits v
      | _ \<Rightarrow> True)"

definition event_law :: "kernel \<Rightarrow> val \<Rightarrow> bool" where
  "event_law K i \<longleftrightarrow> obeys K ok_reply \<and> (\<forall>h c. K h c \<noteq> None \<longleftrightarrow> receivable i h c)"

section \<open>What the threads do in order\<close>

text \<open>\<open>leads f p\<close>: with successful calls \<open>p\<close> comes to a call of \<open>f\<close>.\<close>

primrec leads :: "sysfn \<Rightarrow> ('g, 'a) prog \<Rightarrow> bool" where
  "leads f (Ret x) = False"
| "leads f Halt = False"
| "leads f Cut = False"
| "leads f (Call h args k) = (h = f \<or> (\<forall>r. ok_reply (h, args) r \<longrightarrow> leads f (k r)))"
| "leads f (Get k) = (\<forall>g. leads f (k g))"
| "leads f (Put u p) = leads f p"

text \<open>\<open>unasserted p\<close>: with successful calls no assertion of \<open>p\<close> fails.\<close>

primrec unasserted :: "('g, 'a) prog \<Rightarrow> bool" where
  "unasserted (Ret x) = True"
| "unasserted Halt = True"
| "unasserted Cut = True"
| "unasserted (Call h args k) = (h \<noteq> assert_func \<and> (\<forall>r. ok_reply (h, args) r \<longrightarrow> unasserted (k r)))"
| "unasserted (Get k) = (\<forall>g. unasserted (k g))"
| "unasserted (Put u p) = unasserted p"

text \<open>
  \<open>aimed g p\<close>: \<open>p\<close> sends only the health event and only to the health thread, asks for no other
  event, restarts only the faulting thread, and leaves the identifiers alone.
\<close>

primrec aimed :: "thread_ids \<Rightarrow> (thread_ids, 'a) prog \<Rightarrow> bool" where
  "aimed g (Ret x) = True"
| "aimed g Halt = True"
| "aimed g Cut = True"
| "aimed g (Call f args k) =
    ((f = rtems_event_send \<longrightarrow> args = [Health_thread_id g, HEALTH_EVENT]) \<and>
     (f = rtems_event_receive \<longrightarrow> (\<exists>rest. args = HEALTH_EVENT # rest)) \<and>
     (f = rtems_task_restart \<longrightarrow> (\<exists>a. args = [Faulting_thread_id g, a])) \<and>
     (\<forall>r. aimed g (k r)))"
| "aimed g (Get k) = aimed g (k g)"
| "aimed g (Put u p) = (u g = g \<and> aimed g p)"

lemma aimed_bindp: "aimed g p \<Longrightarrow> (\<And>x. aimed g (q x)) \<Longrightarrow> aimed g (bindp p q)"
  by (induction p) auto

lemma aimed_forever: "(\<And>l. aimed g (body l)) \<Longrightarrow> aimed g (forever n body l)"
  by (induction n arbitrary: l) (auto intro: aimed_bindp)

text \<open>\<open>paired b p\<close>: each receipt is followed by one restart with the argument 1; \<open>b\<close>: after a receipt.\<close>

primrec paired :: "bool \<Rightarrow> ('g, 'a) prog \<Rightarrow> bool" where
  "paired b (Ret x) = (\<not> b)"
| "paired b Halt = True"
| "paired b Cut = True"
| "paired b (Call h args k) =
    (if h = rtems_task_restart then b \<and> (\<exists>i. args = [i, VInt 1]) \<and> (\<forall>r. paired False (k r))
     else if h = rtems_event_receive then \<not> b \<and> (\<forall>r. paired True (k r))
     else (\<forall>r. paired b (k r)))"
| "paired b (Get k) = (\<forall>g. paired b (k g))"
| "paired b (Put u p) = paired b p"

lemma paired_bindp: "paired b p \<Longrightarrow> (\<And>x. paired False (q x)) \<Longrightarrow> paired b (bindp p q)"
proof (induction p arbitrary: b)
  case (Call h args k)
  have "paired c (bindp (k r) q)" if "paired c (k r)" for c r
    using Call.IH [OF rangeI that Call.prems(2)] .
  then show ?case using Call.prems(1) by (auto split: if_splits)
qed auto

lemma paired_forever: "(\<And>l. paired False (body l)) \<Longrightarrow> paired False (forever n body l)"
  by (induction n arbitrary: l) (auto intro: paired_bindp)

lemma unasserted_bindp: "unasserted p \<Longrightarrow> (\<And>x. unasserted (q x)) \<Longrightarrow> unasserted (bindp p q)"
  by (induction p) auto

lemma unasserted_forever: "(\<And>l. unasserted (body l)) \<Longrightarrow> unasserted (forever n body l)"
  by (induction n arbitrary: l) (auto intro: unasserted_bindp)

lemmas thread_defs = Health_Thread_def Faulting_thread_def print_priority_def restart_faulting_def asserting_def

lemma health_facts:
  "paired False (Health_Thread n)" "unasserted (Health_Thread n)" "leads rtems_task_restart (Health_Thread (Suc n))"
  "at_most rtems_event_send (Health_Thread n) 0" "at_most exit (Health_Thread n) 0"
proof -
  have body: "paired False (restart_faulting l)" "unasserted (restart_faulting l)"
    "at_most rtems_event_send (restart_faulting l) 0" "at_most exit (restart_faulting l) 0" for l
    by (simp_all add: restart_faulting_def asserting_def ok_reply_def)
  show "paired False (Health_Thread n)" "unasserted (Health_Thread n)"
    "at_most rtems_event_send (Health_Thread n) 0" "at_most exit (Health_Thread n) 0"
    using paired_forever [of restart_faulting n "()"] unasserted_forever [of restart_faulting n "()"] body
    by (auto simp: Health_Thread_def print_priority_def asserting_def ok_reply_def)
  show "leads rtems_task_restart (Health_Thread (Suc n))"
    by (simp add: thread_defs ok_reply_def)
qed

lemma aimed_threads: "aimed g (Health_Thread n)" "aimed g (Faulting_thread u n a)"
proof -
  have "aimed g (restart_faulting l)" for l by (simp add: restart_faulting_def asserting_def)
  then show "aimed g (Health_Thread n)"
    using aimed_forever [of g restart_faulting n "()"]
    by (auto simp: Health_Thread_def print_priority_def asserting_def)
  show "aimed g (Faulting_thread u n a)"
    using aimed_forever [of g "\<lambda>_. Ret ()" n "()"]
    by (auto simp: Faulting_thread_def print_priority_def asserting_def bindp_if)
qed

lemma faulting_facts:
  "at_most rtems_event_receive (Faulting_thread u n a) 0" "at_most rtems_task_restart (Faulting_thread u n a) 0"
  "unasserted (Faulting_thread u n a)"
  "at_most rtems_event_send (Faulting_thread u n (VInt 1)) 0" "at_most exit (Faulting_thread u n (VInt 1)) 1"
  "leads exit (Faulting_thread u n (VInt 1))"
  using unasserted_forever [of "\<lambda>_. Ret ()" n "()"]
  by (auto simp: thread_defs ok_reply_def bindp_if)

lemma first_faulting_facts:
  assumes "a \<noteq> VInt 1"
  shows "at_most rtems_event_send (Faulting_thread u n a) 1" "at_most exit (Faulting_thread u n a) 0"
    "leads rtems_event_send (Faulting_thread u n a)"
  using assms by (auto simp: thread_defs ok_reply_def bindp_if)

section \<open>The invariant\<close>

abbreviation sent :: "event list \<Rightarrow> nat" where "sent \<equiv> calls_to rtems_event_send"
abbreviation received :: "event list \<Rightarrow> nat" where "received \<equiv> calls_to rtems_event_receive"
abbreviation restarted :: "event list \<Rightarrow> nat" where "restarted \<equiv> calls_to rtems_task_restart"
abbreviation exited :: "event list \<Rightarrow> nat" where "exited \<equiv> calls_to exit"

text \<open>\<open>p\<close> calls \<open>f\<close> at most once more than \<open>h\<close> leaves.\<close>

definition once :: "sysfn \<Rightarrow> ('g, 'a) prog \<Rightarrow> event list \<Rightarrow> bool" where
  "once f p h \<longleftrightarrow> (\<exists>n. at_most f p n \<and> calls_to f h + n \<le> 1)"

lemma once_call: "once f (Call f' args k) h \<Longrightarrow> once f (k r) (h @ [((f', args), r)])"
proof -
  assume "once f (Call f' args k) h"
  then obtain n where n: "at_most f (Call f' args k) n" "calls_to f h + n \<le> 1" by (auto simp: once_def)
  show "once f (k r) (h @ [((f', args), r)])"
    unfolding once_def by (rule exI [of _ "if f' = f then n - 1 else n"]) (use n in auto)
qed

lemma once_simps [simp]:
  "once f (Get k) h \<Longrightarrow> once f (k g) h" "once f (Put u p) h \<longleftrightarrow> once f p h"
  by (auto simp: once_def)

lemma once_le: "once f p h \<Longrightarrow> calls_to f h \<le> 1"
  by (auto simp: once_def)

lemma once_next: "once f (Call f args k) h \<Longrightarrow> calls_to f h = 0"
  by (auto simp: once_def)

lemma once_other: "once f p h \<Longrightarrow> fst c \<noteq> f \<Longrightarrow> once f p (h @ [(c, r)])"
  by (auto simp: once_def)

lemma ok_of: "event_law K i \<Longrightarrow> K h c = Some r \<Longrightarrow> ok_reply c r"
  unfolding event_law_def obeys_def by blast

definition fault_ok :: "(thread_ids, unit) prog \<Rightarrow> event list \<Rightarrow> bool" where
  "fault_ok fp h \<longleftrightarrow>
    once rtems_event_send fp h \<and> once exit fp h \<and> at_most rtems_event_receive fp 0 \<and> at_most rtems_task_restart fp 0 \<and> unasserted fp \<and>
    (restarted h = 0 \<longrightarrow> at_most exit fp 0 \<and> exited h = 0) \<and>
    (sent h = 0 \<longrightarrow> leads rtems_event_send fp) \<and>
    (0 < restarted h \<longrightarrow> exited h = 0 \<longrightarrow> leads exit fp)"

definition health_ok :: "(thread_ids, unit) prog \<Rightarrow> event list \<Rightarrow> bool" where
  "health_ok hp h \<longleftrightarrow>
    at_most rtems_event_send hp 0 \<and> at_most exit hp 0 \<and> unasserted hp \<and>
    (\<exists>b. paired b hp \<and> received h = restarted h + (if b then 1 else 0)) \<and>
    (restarted h = 0 \<longrightarrow> leads rtems_task_restart hp)"

definition events_ok :: "val \<Rightarrow> event list \<Rightarrow> bool" where
  "events_ok i h \<longleftrightarrow> received h \<le> sent h \<and> sent h \<le> 1 \<and>
     pending i h = (if received h < sent h then 1 else 0) \<and> calls_to assert_func h = 0"

text \<open>The identifiers \<open>g\<close> stay what they are while the two threads run.\<close>

fun inv :: "thread_ids \<Rightarrow> pair_state \<Rightarrow> bool" where
  "inv g (hp, fp, g', h) \<longleftrightarrow> g' = g \<and> aimed g hp \<and> aimed g fp \<and>
     health_ok hp h \<and> fault_ok fp h \<and> events_ok (Health_thread_id g) h"

lemma aimed_step: "sstep K (p, g, h) (p', g', h') \<Longrightarrow> aimed g p \<Longrightarrow> aimed g p' \<and> g' = g"
  by (cases rule: sstep.cases) auto

lemma fault_step:
  assumes "event_law K (Health_thread_id g)" "sstep K (fp, g, h) (fp', g', h')" "aimed g fp"
    and "health_ok hp h" "fault_ok fp h" "events_ok (Health_thread_id g) h"
  shows "health_ok hp h' \<and> fault_ok fp' h' \<and> events_ok (Health_thread_id g) h'"
  using assms(2)
proof cases
  case (SCall f args r k)
  have ok: "ok_reply (f, args) r" using ok_of [OF assms(1)] SCall by blast
  have other: "f \<noteq> rtems_event_receive" "f \<noteq> rtems_task_restart" "f \<noteq> assert_func"
    using assms(5) SCall by (auto simp: fault_ok_def)
  have "once rtems_event_send (Call f args k) h" "once exit (Call f args k) h"
    using assms(5) SCall by (auto simp: fault_ok_def)
  then have once: "once rtems_event_send (k r) h'" "once exit (k r) h'"
    using once_call SCall by blast+
  have "fault_ok (k r) h'"
    using assms(5) ok other once SCall by (auto simp: fault_ok_def split: if_splits)
  moreover have "events_ok (Health_thread_id g) h'"
  proof (cases "f = rtems_event_send")
    case True
    then have "sent h = 0" using once_next [of f args k h] assms(5) SCall by (auto simp: fault_ok_def)
    moreover have "args = [Health_thread_id g, HEALTH_EVENT]" using assms(3) SCall True by simp
    ultimately show ?thesis using assms(6) True SCall
      by (auto simp: events_ok_def after_call_def event_bits_def)
  next
    case False
    then show ?thesis using assms(6) other SCall by (simp add: events_ok_def)
  qed
  moreover have "health_ok hp h'" using assms(4) other SCall by (auto simp: health_ok_def)
  ultimately show ?thesis using SCall by simp
qed (use assms in \<open>auto simp: fault_ok_def\<close>)

lemma receive_pending:
  assumes "event_law K i" "events_ok i h" "aimed g (Call rtems_event_receive args k)"
  shows "K h (rtems_event_receive, args) \<noteq> None \<longleftrightarrow> received h < sent h"
proof -
  obtain rest where a: "args = HEALTH_EVENT # rest" using assms(3) by auto
  have "K h (rtems_event_receive, args) \<noteq> None \<longleftrightarrow> receivable i h (rtems_event_receive, args)"
    using assms(1) unfolding event_law_def by blast
  also have "\<dots> \<longleftrightarrow> received h < sent h"
    using assms(2) by (simp add: a receivable_def events_ok_def event_bits_def)
  finally show ?thesis .
qed

lemma health_step:
  assumes "event_law K (Health_thread_id g)" "sstep K (hp, g, h) (hp', g', h')" "aimed g hp"
    and "\<And>args k. hp \<noteq> Call rtems_task_restart args k"
    and "health_ok hp h" "fault_ok fp h" "events_ok (Health_thread_id g) h"
  shows "health_ok hp' h' \<and> fault_ok fp h' \<and> events_ok (Health_thread_id g) h'"
  using assms(2)
proof cases
  case (SCall f args r k)
  have ok: "ok_reply (f, args) r" using ok_of [OF assms(1)] SCall by blast
  have other: "f \<noteq> rtems_task_restart" "f \<noteq> rtems_event_send" "f \<noteq> exit" "f \<noteq> assert_func"
    using assms(4,5) SCall by (auto simp: health_ok_def)
  have fault: "fault_ok fp h'" using assms(6) other SCall by (auto simp: fault_ok_def intro: once_other)
  show ?thesis
  proof (cases "f = rtems_event_receive")
    case True
    then obtain rest where args: "args = HEALTH_EVENT # rest" using assms(3) SCall by auto
    have "received h < sent h"
      using receive_pending [OF assms(1,7), of g args k] assms(3) SCall True by auto
    then show ?thesis using assms(5,7) ok other True args fault SCall
      by (auto simp: health_ok_def events_ok_def after_call_def event_bits_def)
  next
    case False
    have hp: "health_ok (Call f args k) h" using assms(5) SCall by simp
    then obtain b where b: "paired b (Call f args k)" "received h = restarted h + (if b then 1 else 0)"
      by (auto simp: health_ok_def)
    have "paired b (k r)" using b(1) False other(1) by simp
    then have "health_ok (k r) (h @ [((f, args), r)])"
      using hp b(2) ok other False by (auto simp: health_ok_def)
    moreover have "events_ok (Health_thread_id g) (h @ [((f, args), r)])"
      using assms(7) other False by (simp add: events_ok_def)
    ultimately show ?thesis using fault SCall by simp
  qed
next
  case (SGet k)
  then obtain b where "paired b (Get k)" "received h = restarted h + (if b then 1 else 0)"
    using assms(5) by (auto simp: health_ok_def)
  then have "health_ok (k g) h" using assms(5) SGet by (auto simp: health_ok_def)
  then show ?thesis using assms(6,7) SGet by simp
next
  case (SPut u)
  then show ?thesis using assms(5-7) by (simp add: health_ok_def)
qed

lemma restart_step:
  assumes "event_law K (Health_thread_id g)" "K h (rtems_task_restart, [i, a]) = Some r"
    and "inv g (Call rtems_task_restart [i, a] k, fp, g, h)"
  shows "named g i = Some FaultingThread \<and> ret r = SUCCESSFUL \<and>
    inv g (k r, Faulting_thread u n a, g, h @ [((rtems_task_restart, [i, a]), r)])"
proof -
  let ?h = "h @ [((rtems_task_restart, [i, a]), r)]"
  have inv: "health_ok (Call rtems_task_restart [i, a] k) h" "fault_ok fp h" "events_ok (Health_thread_id g) h"
    and aim: "named g i = Some FaultingThread" "aimed g (k r)"
    using assms(3) by (auto simp: named_def)
  have ok: "ok_reply (rtems_task_restart, [i, a]) r" using ok_of [OF assms(1,2)] .
  have b: "a = VInt 1" "paired False (k r)" "received h = restarted h + 1" "unasserted (k r)"
    "at_most rtems_event_send (k r) 0" "at_most exit (k r) 0"
    using inv(1) ok by (auto simp: health_ok_def split: if_splits)
  then have "restarted h = 0" "sent h = 1" using inv(3) by (auto simp: events_ok_def)
  then have "exited h = 0" using inv(2) by (simp add: fault_ok_def)
  have "health_ok (k r) ?h" using b by (auto simp: health_ok_def)
  moreover have "fault_ok (Faulting_thread u n (VInt 1)) ?h"
    using faulting_facts [of u n] \<open>sent h = 1\<close> \<open>exited h = 0\<close>
    by (auto simp: fault_ok_def once_def)
  moreover have "events_ok (Health_thread_id g) ?h" using inv(3) by (simp add: events_ok_def)
  ultimately show ?thesis using ok b(1) aim aimed_threads(2) by (simp add: ok_reply_def)
qed

text \<open>A step of the two threads with their own entry points.\<close>

abbreviation tstep :: "kernel \<Rightarrow> nat \<Rightarrow> bool \<Rightarrow> nat \<Rightarrow> pair_state \<Rightarrow> pair_state \<Rightarrow> bool" where
  "tstep K m u n \<equiv> rstep K (\<lambda>_. Health_Thread m) (Faulting_thread u n)"

lemma inv_step:
  assumes "event_law K (Health_thread_id g)" "tstep K m u n c c'" "inv g c"
  shows "inv g c'"
  using assms(2)
proof cases
  case (Health hp g1 h hp' g' h' fp)
  then show ?thesis
    using health_step [OF assms(1), of hp h hp' g' h' fp] aimed_step [of K hp g h hp' g' h'] assms(3) by simp
next
  case (Restart h i a r k fp g1)
  then have "g1 = g" "inv g (Call rtems_task_restart [i, a] k, fp, g, h)" using assms(3) by auto
  with restart_step [OF assms(1) Restart(3) this(2), of u n] show ?thesis using Restart by auto
next
  case (Faulting fp g1 h fp' g' h' hp)
  then show ?thesis
    using fault_step [OF assms(1), of fp h fp' g' h' hp] aimed_step [of K fp g h fp' g' h'] assms(3) by simp
qed

lemma inv_reachable:
  assumes "event_law K (Health_thread_id g)" "(tstep K m u n)\<^sup>*\<^sup>* c c'" "inv g c"
  shows "inv g c'"
  using assms(2,3) by induction (blast intro: inv_step [OF assms(1)])+

lemma inv_start:
  assumes "a \<noteq> VInt 1"
  shows "inv g (Health_Thread (Suc m), Faulting_thread u n a, g, [])"
  using health_facts [where n = "Suc m"] health_facts(3) [of m] faulting_facts(1-3) [where u = u and n = n and a = a] first_faulting_facts [OF assms, of u n]
  by (auto simp: health_ok_def fault_ok_def events_ok_def pending_def once_def aimed_threads simp del: One_nat_def)

text \<open>
  C7: In every interleaving of the health thread and the faulting thread: an exit follows a
  restart, a restart follows the receipt of the event, a receipt follows its sending, each happens
  at most once, and no assertion fails.
\<close>

theorem restart_protocol:
  assumes "event_law K (Health_thread_id g)" "a \<noteq> VInt 1"
    and "(tstep K (Suc m) u n)\<^sup>*\<^sup>* (Health_Thread (Suc m), Faulting_thread u n a, g, []) (hp, fp, g', h)"
  shows "exited h \<le> restarted h \<and> restarted h \<le> received h \<and> received h \<le> sent h \<and> sent h \<le> 1 \<and>
    calls_to assert_func h = 0"
proof -
  have inv: "inv g (hp, fp, g', h)" by (rule inv_reachable [OF assms(1,3) inv_start [OF assms(2)]])
  then have "exited h \<le> 1" "restarted h = 0 \<longrightarrow> exited h = 0"
    using once_le by (auto simp: fault_ok_def)
  then have "exited h \<le> restarted h" by linarith
  moreover have "restarted h \<le> received h" using inv by (auto simp: health_ok_def)
  moreover have "received h \<le> sent h" "sent h \<le> 1" "calls_to assert_func h = 0" using inv by (simp_all add: events_ok_def)
  ultimately show ?thesis by blast
qed

section \<open>The restarted thread ends the program\<close>

abbreviation history :: "pair_state \<Rightarrow> event list" where "history c \<equiv> snd (snd (snd c))"

lemma fault_runs:
  assumes "event_law K (Health_thread_id g)" "inv g (hp, fp, g, h)" "leads f fp" "f \<noteq> rtems_event_receive"
  shows "\<exists>c'. (tstep K m u n)\<^sup>*\<^sup>* (hp, fp, g, h) c' \<and>
    calls_to f (history c') = Suc (calls_to f h) \<and> restarted (history c') = restarted h"
  using assms(2,3)
proof (induction fp arbitrary: h)
  case (Call f' args k)
  have other: "f' \<noteq> rtems_event_receive" "f' \<noteq> rtems_task_restart" using Call.prems(1) by (auto simp: fault_ok_def)
  then have "receivable (Health_thread_id g) h (f', args)" by (simp add: receivable_def)
  then obtain r where r: "K h (f', args) = Some r" using assms(1) unfolding event_law_def by blast
  let ?h = "h @ [((f', args), r)]"
  have step: "tstep K m u n (hp, Call f' args k, g, h) (hp, k r, g, ?h)"
    by (intro rstep.Faulting sstep.SCall r)
  show ?case
  proof (cases "f' = f")
    case True
    then show ?thesis using r_into_rtranclp [where r = "tstep K m u n", OF step] other
      by (intro exI [of _ "(hp, k r, g, ?h)"]) simp
  next
    case False
    have "inv g (hp, k r, g, ?h)" by (rule inv_step [OF assms(1) step Call.prems(1)])
    moreover have "leads f (k r)" using Call.prems(2) False ok_of [OF assms(1) r] by simp
    ultimately obtain c' where c': "(tstep K m u n)\<^sup>*\<^sup>* (hp, k r, g, ?h) c'"
      "calls_to f (history c') = Suc (calls_to f ?h)" "restarted (history c') = restarted ?h"
      using Call.IH [OF rangeI] by blast
    from converse_rtranclp_into_rtranclp [where r = "tstep K m u n", OF step c'(1)] show ?thesis
      using c'(2,3) False other by (intro exI [of _ c']) simp
  qed
next
  case (Get k)
  have step: "tstep K m u n (hp, Get k, g, h) (hp, k g, g, h)"
    by (intro rstep.Faulting sstep.SGet)
  have "leads f (k g)" using Get.prems(2) by simp
  from Get.IH [OF rangeI inv_step [OF assms(1) step Get.prems(1)] this] show ?case
    using converse_rtranclp_into_rtranclp [where r = "tstep K m u n", OF step] by blast
next
  case (Put w p)
  have step: "tstep K m u n (hp, Put w p, g, h) (hp, p, w g, h)"
    by (intro rstep.Faulting sstep.SPut)
  have "leads f p" using Put.prems(2) by simp
  have "inv g (hp, p, w g, h)" by (rule inv_step [OF assms(1) step Put.prems(1)])
  then have "w g = g" by simp
  then obtain c' where "(tstep K m u n)\<^sup>*\<^sup>* (hp, p, g, h) c'"
    "calls_to f (history c') = Suc (calls_to f h)" "restarted (history c') = restarted h"
    using Put.IH [OF _ \<open>leads f p\<close>] \<open>inv g (hp, p, w g, h)\<close> by metis
  with converse_rtranclp_into_rtranclp [where r = "tstep K m u n", OF step [unfolded \<open>w g = g\<close>]]
  show ?case by blast
qed auto

lemma health_runs:
  assumes "event_law K (Health_thread_id g)" "inv g (hp, fp, g, h)" "leads rtems_task_restart hp" "sent h = 1" "restarted h = 0"
  shows "\<exists>c'. (tstep K m u n)\<^sup>*\<^sup>* (hp, fp, g, h) c' \<and> 0 < restarted (history c')"
  using assms(2-5)
proof (induction hp arbitrary: h)
  case (Call f args k)
  obtain b where b: "paired b (Call f args k)" "received h = (if b then 1 else 0)"
    using Call.prems(1,4) by (auto simp: health_ok_def)
  have "K h (f, args) \<noteq> None"
  proof (cases "f = rtems_event_receive")
    case True
    then have "received h = 0" using b by (auto split: if_splits)
    then show ?thesis
      using receive_pending [OF assms(1), of h g args k] Call.prems(1,3) True by simp
  next
    case False
    then have "receivable (Health_thread_id g) h (f, args)" by (simp add: receivable_def)
    then show ?thesis using assms(1) unfolding event_law_def by blast
  qed
  then obtain r where r: "K h (f, args) = Some r" by blast
  let ?h = "h @ [((f, args), r)]"
  show ?case
  proof (cases "f = rtems_task_restart")
    case True
    then obtain i where "args = [i, VInt 1]" using b(1) by auto
    then show ?thesis
      using rstep.Restart [of K h i "VInt 1" r "\<lambda>_. Health_Thread m" "Faulting_thread u n" k fp g] r True
      by (intro exI conjI [OF r_into_rtranclp]) auto
  next
    case False
    have step: "tstep K m u n (Call f args k, fp, g, h) (k r, fp, g, ?h)"
      by (intro rstep.Health sstep.SCall r) (use False in simp)
    have "inv g (k r, fp, g, ?h)" by (rule inv_step [OF assms(1) step Call.prems(1)])
    moreover have "leads rtems_task_restart (k r)" using Call.prems(2) False ok_of [OF assms(1) r] by simp
    moreover have "f \<noteq> rtems_event_send" using Call.prems(1) by (auto simp: health_ok_def)
    ultimately obtain c' where "(tstep K m u n)\<^sup>*\<^sup>* (k r, fp, g, ?h) c'" "0 < restarted (history c')"
      using Call.IH [OF rangeI, of r ?h] Call.prems(3,4) False by auto
    then show ?thesis using step by (blast intro: converse_rtranclp_into_rtranclp)
  qed
next
  case (Get k)
  have step: "tstep K m u n (Get k, fp, g, h) (k g, fp, g, h)"
    by (intro rstep.Health sstep.SGet) simp
  from Get.IH [OF rangeI inv_step [OF assms(1) step Get.prems(1)]] Get.prems(2-) show ?case
    using converse_rtranclp_into_rtranclp [where r = "tstep K m u n", OF step] by simp blast
next
  case (Put w p)
  have step: "tstep K m u n (Put w p, fp, g, h) (p, fp, w g, h)"
    by (intro rstep.Health sstep.SPut) simp
  have "inv g (p, fp, w g, h)" by (rule inv_step [OF assms(1) step Put.prems(1)])
  then have "w g = g" by simp
  with Put.IH [of h] \<open>inv g (p, fp, w g, h)\<close> Put.prems(2-) step show ?case
    using converse_rtranclp_into_rtranclp [where r = "tstep K m u n"] by simp blast
qed auto

lemma some_restart:
  assumes "event_law K (Health_thread_id g)" "inv g c" "restarted (history c) = 0"
  shows "\<exists>c'. (tstep K m u n)\<^sup>*\<^sup>* c c' \<and> 0 < restarted (history c')"
proof -
  have "\<exists>c'. (tstep K m u n)\<^sup>*\<^sup>* c c' \<and> sent (history c') = 1 \<and> restarted (history c') = 0"
  proof (cases "sent (history c) = 0")
    case True
    obtain hp fp h where c: "c = (hp, fp, g, h)" using assms(2) by (cases c) auto
    then have "leads rtems_event_send fp" using assms(2) True by (simp add: fault_ok_def)
    from fault_runs [OF assms(1) assms(2) [unfolded c] this, of m u n] show ?thesis
      using True assms(3) by (simp add: c)
  next
    case False
    moreover obtain hp fp h where c: "c = (hp, fp, g, h)" using assms(2) by (cases c) auto
    ultimately have "sent (history c) = 1" using assms(2) by (simp add: events_ok_def)
    then show ?thesis using assms(3) by blast
  qed
  then obtain c1 where 1: "(tstep K m u n)\<^sup>*\<^sup>* c c1" "sent (history c1) = 1" "restarted (history c1) = 0"
    by blast
  obtain hp fp h where c1: "c1 = (hp, fp, g, h)" using inv_reachable [OF assms(1) 1(1) assms(2)] by (cases c1) auto
  have inv: "inv g (hp, fp, g, h)" using inv_reachable [OF assms(1) 1(1) assms(2)] c1 by simp
  then have "leads rtems_task_restart hp" using 1(3) c1 by (simp add: health_ok_def)
  from health_runs [OF assms(1) inv this, of m u n] 1 c1 show ?thesis
    by (metis rtranclp_trans snd_conv)
qed

lemma some_exit:
  assumes "event_law K (Health_thread_id g)" "inv g c"
  shows "\<exists>c'. (tstep K m u n)\<^sup>*\<^sup>* c c' \<and> exited (history c') = 1"
proof -
  obtain c1 where 1: "(tstep K m u n)\<^sup>*\<^sup>* c c1" "0 < restarted (history c1)"
    using some_restart [OF assms, of m u n] by (cases "restarted (history c) = 0") blast+
  obtain hp fp h where c1: "c1 = (hp, fp, g, h)" using inv_reachable [OF assms(1) 1(1) assms(2)] by (cases c1) auto
  have inv: "inv g (hp, fp, g, h)" using inv_reachable [OF assms(1) 1(1) assms(2)] c1 by simp
  show ?thesis
  proof (cases "exited h = 0")
    case True
    then have "leads exit fp" using inv 1(2) c1 by (simp add: fault_ok_def)
    from fault_runs [OF assms(1) inv this, of m u n] obtain c2 where
      "(tstep K m u n)\<^sup>*\<^sup>* (hp, fp, g, h) c2" "exited (history c2) = 1" using True by auto
    then show ?thesis using rtranclp_trans [OF 1(1)] c1 by blast
  next
    case False
    then have "exited h = 1" using inv once_le [of exit fp h] by (auto simp: fault_ok_def)
    then show ?thesis using 1(1) c1 by auto
  qed
qed

text \<open>
  C13: From every state that the two threads can reach there is a way on to the restarted thread's
  exit: the protocol cannot get stuck.
\<close>

theorem restart_can_always_finish:
  assumes "event_law K (Health_thread_id g)" "a \<noteq> VInt 1"
    and "(tstep K (Suc m) u n)\<^sup>*\<^sup>* (Health_Thread (Suc m), Faulting_thread u n a, g, []) c"
  shows "\<exists>c'. (tstep K (Suc m) u n)\<^sup>*\<^sup>* c c' \<and> exited (history c') = 1"
  by (rule some_exit [OF assms(1) inv_reachable [OF assms(1,3) inv_start [OF assms(2)]]])

section \<open>Example\<close>

text \<open>A kernel in which every call succeeds and an event that is not pending is waited for.\<close>

definition event_kernel :: "val \<Rightarrow> kernel" where
  "event_kernel i h c =
    (if receivable i h c then Some (Reply (if fst c = pthread_setcanceltype then VInt 0 else SUCCESSFUL) [])
     else None)"

lemma event_kernel_law: "event_law (event_kernel i) i"
  by (auto simp: event_law_def obeys_def ok_reply_def event_kernel_def)

definition example_ids :: thread_ids where
  "example_ids = \<lparr>Health_thread_id = VInt 10, Faulting_thread_id = VInt 11\<rparr>"

text \<open>The run to the end exists, and there every step of the protocol has happened once.\<close>

theorem restart_protocol_witness:
  "\<exists>c'. (tstep (event_kernel (VInt 10)) (Suc 0) False 1)\<^sup>*\<^sup>*
      (Health_Thread (Suc 0), Faulting_thread False 1 (VInt 0), example_ids, []) c' \<and>
    exited (history c') = 1 \<and> restarted (history c') = 1 \<and> received (history c') = 1 \<and> sent (history c') = 1"
proof -
  let ?c = "(Health_Thread (Suc 0), Faulting_thread False 1 (VInt 0), example_ids, [])"
  have law: "event_law (event_kernel (VInt 10)) (Health_thread_id example_ids)"
    by (simp add: event_kernel_law example_ids_def)
  obtain hp fp g h where 1: "(tstep (event_kernel (VInt 10)) (Suc 0) False 1)\<^sup>*\<^sup>* ?c (hp, fp, g, h)" "exited h = 1"
    using some_exit [OF law inv_start [of "VInt 0" example_ids 0 False 1], of "Suc 0" False 1]
    by (metis prod_cases4 snd_conv val.inject(1) zero_neq_one)
  from restart_protocol [OF law _ 1(1)] 1(2)
  have "restarted h = 1 \<and> received h = 1 \<and> sent h = 1" by auto
  then show ?thesis using 1 by (intro exI [of _ "(hp, fp, g, h)"]) simp
qed

theorem restart_can_always_finish_witness:
  "\<exists>c'. (tstep (event_kernel (VInt 10)) (Suc 0) False 1)\<^sup>*\<^sup>*
      (Health_Thread (Suc 0), Faulting_thread False 1 (VInt 0), example_ids, []) c' \<and> exited (history c') = 1"
  using restart_can_always_finish [where K = "event_kernel (VInt 10)" and a = "VInt 0" and u = False and n = 1 and m = 0
      and g = example_ids and c = "(Health_Thread (Suc 0), Faulting_thread False 1 (VInt 0), example_ids, [])"]
  by (simp add: event_kernel_law example_ids_def)

end
