(* ===== verification/Regulator.thy ===== *)
theory Regulator
  imports RT_Runs
begin

text \<open>
  The regulator example \<open>misc/regulator\<close>: two bursts of seven messages are handed to a regulator, which
  delivers three per second.  The regulator is a library of RTEMS; a buffer that is passed to it comes
  with its contents, \<open>VOp ''buffer''\<close> of the address and the string.
\<close>

section \<open>The example\<close>

record regulator_vars =
  regulator :: val
  delivered :: int

abbreviation NULL :: val where "NULL \<equiv> VRef ''NULL''"
abbreviation MAXIMUM_MESSAGE_LENGTH :: nat where "MAXIMUM_MESSAGE_LENGTH \<equiv> 32"

definition regulator_start :: regulator_vars where
  "regulator_start = \<lparr>regulator = NULL, delivered = 1\<rparr>"

definition example_deliverer :: "val \<Rightarrow> (regulator_vars, bool) prog" where
  "example_deliverer message =
     Call clock_gettime [VRef ''CLOCK_REALTIME'', VRef ''&current''] (\<lambda>r.
     asserting (ret r = VInt 0) (
     Do fprintf [VRef ''stderr'', VStr ''%lld:%9ld %s\<newline>'', out r 0 (VRef ''tv_sec''), out r 1 (VRef ''tv_nsec''), message] (
     Put (\<lambda>g. g\<lparr>delivered := delivered g + 1\<rparr>) (
     Ret True))))"

text \<open>\<open>%d\<close> of a natural number, and the message of a number.\<close>

definition decimal_digit :: "nat \<Rightarrow> char" where
  "decimal_digit d = char_of (48 + d)"

function decimal :: "nat \<Rightarrow> string" where
  "decimal n = (if n < 10 then [decimal_digit n] else decimal (n div 10) @ [decimal_digit (n mod 10)])"
  by pat_completeness auto
termination by (relation "measure id") auto

declare decimal.simps [simp del]

definition message_text :: "nat \<Rightarrow> string" where
  "message_text msg = ''message '' @ decimal msg"

definition regulator_attributes :: val where
  "regulator_attributes = VOp ''attributes''
     [VRef ''example_deliverer'', NULL, VInt (int MAXIMUM_MESSAGE_LENGTH), VInt 10, VInt 16, VInt 0,
      VOp ''RTEMS_MILLISECONDS_TO_TICKS'' [VInt 1000], VInt 3]"

text \<open>One message; \<open>snprintf\<close> stores at most 31 characters and returns the length of the full text.\<close>

definition send_message :: "nat \<Rightarrow> nat \<Rightarrow> (regulator_vars, nat) prog" where
  "send_message i msg =
     Get (\<lambda>g.
     Call rtems_regulator_obtain_buffer [regulator g, VRef ''&buffer''] (\<lambda>r.
     let buffer = out r 0 (VRef ''buffer'') in
     asserting (ret r = SUCCESSFUL) (
     asserting (buffer \<noteq> NULL) (
     let message = take (MAXIMUM_MESSAGE_LENGTH - 1) (message_text msg);
         length = length (message_text msg) in
     Get (\<lambda>g.
     Call rtems_regulator_send [regulator g, VOp ''buffer'' [buffer, VStr message], VInt (int length)] (\<lambda>r.
     asserting (ret r = SUCCESSFUL) (
     Ret (msg + 1))))))))"

definition send_burst :: "nat \<Rightarrow> nat \<Rightarrow> (regulator_vars, nat) prog" where
  "send_burst burst msg =
     Do fprintf [VRef ''stderr'', VStr ''Sending Burst %d of 7 messages with 3 delivered per second\<newline>'', VInt (int burst)] (
     bindp (for_each [1..<8] send_message msg) (\<lambda>msg.
     Do sleep [VInt 5] (
     Ret msg)))"

definition example_send_messages :: "(regulator_vars, unit) prog" where
  "example_send_messages =
     Call rtems_regulator_create [regulator_attributes, VRef ''&regulator''] (\<lambda>r.
     Put (\<lambda>g. g\<lparr>regulator := out r 0 (regulator g)\<rparr>) (
     asserting (ret r = SUCCESSFUL) (
     Get (\<lambda>g.
     asserting (regulator g \<noteq> NULL) (
     bindp (for_each [0..<2] send_burst 0) (\<lambda>_.
     Ret ()))))))"

definition test_regulator :: "(regulator_vars, unit) prog" where
  "test_regulator =
     Do puts [VStr ''*** START OF REGULATOR EXAMPLE 01 ***''] (
     bindp example_send_messages (\<lambda>_.
     Get (\<lambda>g.
     Call rtems_regulator_get_statistics [regulator g, VRef ''&stats''] (\<lambda>r.
     asserting (ret r = SUCCESSFUL) (
     Do fprintf [VRef ''stderr'',
       VStr ''\<newline>\<newline>*** Regulator Statistics ***\<newline>obtained/released/delivered: %lld/%lld/%lld\<newline>periods count/missed: %lld/%lld\<newline>'',
       out r 0 (VRef ''obtained''), out r 1 (VRef ''released''), out r 2 (VRef ''delivered''),
       out r 3 (VRef ''count''), out r 4 (VRef ''missed_count'')] (
     Do puts [VStr ''*** END OF EXAMPLE REGULATOR 01 ***''] (
     Do exit [VInt 0] Halt)))))))"

definition regulator_config :: config_macros where
  "regulator_config =
    [(CONFIGURE_APPLICATION_NEEDS_CLOCK_DRIVER, defined),
     (CONFIGURE_APPLICATION_NEEDS_CONSOLE_DRIVER, defined),
     (CONFIGURE_RTEMS_INIT_TASKS_TABLE, defined),
     (CONFIGURE_INIT_TASK_ENTRY_POINT, VRef ''test_regulator''),
     (CONFIGURE_INIT_TASK_ATTRIBUTES, VRef ''RTEMS_FLOATING_POINT''),
     (CONFIGURE_MAXIMUM_TASKS, VInt 2),
     (CONFIGURE_MAXIMUM_MESSAGE_QUEUES, VInt 1),
     (CONFIGURE_MAXIMUM_PARTITIONS, VInt 1),
     (CONFIGURE_MAXIMUM_PERIODS, VInt 1),
     (CONFIGURE_UNIFIED_WORK_AREAS, defined),
     (CONFIGURE_MINIMUM_TASK_STACK_SIZE, VOp ''*'' [VInt 8, VInt 1024]),
     (CONFIGURE_INIT, defined)]"

section \<open>What is sent\<close>

text \<open>The calls of the regulator succeed and give a regulator and buffers.\<close>

definition regulator_law :: "syscall \<Rightarrow> reply \<Rightarrow> bool" where
  "regulator_law c r \<longleftrightarrow>
    (fst c \<in> {rtems_regulator_create, rtems_regulator_obtain_buffer, rtems_regulator_send, rtems_regulator_get_statistics} \<longrightarrow>
      ret r = SUCCESSFUL) \<and>
    (fst c \<in> {rtems_regulator_create, rtems_regulator_obtain_buffer} \<longrightarrow> out r 0 NULL \<noteq> NULL)"

text \<open>The text and the length of a message that is sent.\<close>

definition message_sent :: "syscall \<Rightarrow> (val \<times> val) option" where
  "message_sent c =
    (if fst c = rtems_regulator_send
     then (case snd c of [_, VOp _ [_, m], n] \<Rightarrow> Some (m, n) | _ \<Rightarrow> None) else None)"

definition message_pair :: "nat \<Rightarrow> val \<times> val" where
  "message_pair msg = (VStr (message_text msg), VInt (int (length (message_text msg))))"

lemma out_not_NULL: "out r 0 NULL \<noteq> NULL \<Longrightarrow> out r 0 v \<noteq> NULL"
  by (auto simp: out_def split: if_splits)

lemma decimal_length: "n < 100 \<Longrightarrow> length (decimal n) \<le> 2"
  by (subst decimal.simps, simp, subst decimal.simps) simp

lemma message_fits: "msg < 100 \<Longrightarrow> length (message_text msg) < MAXIMUM_MESSAGE_LENGTH"
  using decimal_length [of msg] by (simp add: message_text_def)

lemma runs_send_message:
  assumes "responsive K" "obeys K regulator_law" "msg < 100"
  shows "runs K message_sent (send_message i msg) g (msg + 1) g [message_pair msg]"
proof -
  have full: "take 31 (message_text msg) = message_text msg" using message_fits [OF assms(3)] by simp
  have "runs K message_sent
      (Call rtems_regulator_send [regulator g, VOp ''buffer'' [b, VStr (message_text msg)], VInt (int (length (message_text msg)))]
        (\<lambda>r. asserting (ret r = SUCCESSFUL) (Ret (msg + 1)))) g (msg + 1) g [message_pair msg]" for b
    using runs_Call [OF assms(1,2), where f = rtems_regulator_send and obs = message_sent and
        args = "[regulator g, VOp ''buffer'' [b, VStr (message_text msg)], VInt (int (length (message_text msg)))]" and
        k = "\<lambda>r. asserting (ret r = SUCCESSFUL) (Ret (msg + 1))" and x = "msg + 1" and g = g and g' = g and ls = "[]"]
    by (simp add: message_sent_def message_pair_def regulator_law_def asserting_def)
  then show ?thesis
    unfolding send_message_def
    by (simp, intro runs_silent [OF assms(1,2)])
       (simp_all add: message_sent_def regulator_law_def asserting_def Let_def full out_not_NULL)
qed

lemma runs_send_messages:
  assumes "responsive K" "obeys K regulator_law"
  shows "msg + length xs \<le> 100 \<Longrightarrow> runs K message_sent (for_each xs send_message msg) g (msg + length xs) g
    (map message_pair [msg..<msg + length xs])"
proof (induction xs arbitrary: msg)
  case (Cons x xs)
  from runs_bindp [OF runs_send_message [OF assms, of msg x g], where q = "for_each xs send_message", OF _ Cons.IH [of "msg + 1"]] Cons.prems
  show ?case by (simp add: upt_conv_Cons del: upt.upt_Suc)
qed simp

lemma runs_send_burst:
  assumes "responsive K" "obeys K regulator_law" "msg + 7 \<le> 100"
  shows "runs K message_sent (send_burst b msg) g (msg + 7) g (map message_pair [msg..<msg + 7])"
proof -
  have 1: "runs K message_sent (for_each [1..<8] send_message msg) g (msg + 7) g (map message_pair [msg..<msg + 7])"
    using runs_send_messages [OF assms(1,2), of msg "[1..<8]" g] assms(3) by simp
  have 2: "runs K message_sent (Do sleep [VInt 5] (Ret (msg + 7))) g (msg + 7) g []"
    by (intro runs_silent [OF assms(1,2)]) (simp_all add: message_sent_def)
  show ?thesis
    unfolding send_burst_def
    by (intro runs_silent [OF assms(1,2)]) (use runs_bindp [OF 1, where q = "\<lambda>msg. Do sleep [VInt 5] (Ret msg)", OF 2] in
        \<open>simp_all add: message_sent_def del: upt.upt_Suc\<close>)
qed

lemma runs_two_bursts:
  assumes "responsive K" "obeys K regulator_law"
  shows "runs K message_sent (for_each [0..<2] send_burst 0) g 14 g (map message_pair [0..<14])"
proof -
  have "runs K message_sent (for_each [0, 1] send_burst 0) g (0 + 7 + 7) g
      (map message_pair [0..<0 + 7] @ map message_pair [0 + 7..<0 + 7 + 7] @ [])"
    unfolding for_each.simps
    by (rule runs_bindp [OF runs_send_burst [OF assms]], simp, rule runs_bindp [OF runs_send_burst [OF assms]], simp, rule runs_Ret)
  moreover have "[0..<7] @ [7..<14] = [0..<14 :: nat]" using upt_add_eq_append [of 0 7 7] by simp
  then have "map message_pair [0..<7] @ map message_pair [7..<14] = map message_pair [0..<14]" by (metis map_append)
  moreover have "[0..<2] = [0, 1 :: nat]" by (simp add: upt_rec)
  ultimately show ?thesis by simp
qed

text \<open>
  The regulator example sends the fourteen messages in order, each untruncated and with its
  own length, and ends with the statistics.
\<close>

theorem regulator_messages:
  assumes "responsive K" "obeys K regulator_law"
  shows "\<exists>g' h'. exec K test_regulator regulator_start [] = (Halted, g', h') \<and>
    observed message_sent h' = map message_pair [0..<14]"
proof -
  define ls where "ls = map message_pair [0..<14]"
  note 1 = runs_two_bursts [OF assms, folded ls_def]
  have 2: "ends K message_sent (Get (\<lambda>g.
     Call rtems_regulator_get_statistics [regulator g, VRef ''&stats''] (\<lambda>r.
     asserting (ret r = SUCCESSFUL) (
     Do fprintf (args r) (
     Do puts [VStr ''*** END OF EXAMPLE REGULATOR 01 ***''] (
     Do exit [VInt 0] Halt)))))) g []" for g :: regulator_vars and args
    by (simp, intro ends_silent [OF assms]) (auto simp: message_sent_def regulator_law_def asserting_def intro!: ends_silent [OF assms])
  have "ends K message_sent test_regulator regulator_start ls"
    unfolding test_regulator_def example_send_messages_def bindp.simps
  proof (intro ends_silent [OF assms], goal_cases)
    case (3 r1 r2)
    then have "ret r2 = SUCCESSFUL" "out r2 0 (regulator regulator_start) \<noteq> NULL"
      by (simp_all add: regulator_law_def out_not_NULL)
    then show ?case
      by (simp add: asserting_def [of True] bindp_assoc, intro ends_after [OF 1] 2)
  qed (simp_all add: message_sent_def)
  then show ?thesis unfolding ends_def ls_def by (metis append_Nil observed_simps(1))
qed

section \<open>Example\<close>

text \<open>A kernel whose regulator and buffers have an address.\<close>

definition regulating :: kernel where
  "regulating h c = Some (if fst c \<in> {rtems_regulator_create, rtems_regulator_obtain_buffer} then Reply SUCCESSFUL [VInt 1]
     else Reply SUCCESSFUL [])"

lemma regulating_laws: "responsive regulating" "obeys regulating regulator_law"
  by (auto simp: responsive_def obeys_def regulator_law_def regulating_def out_def)

theorem regulator_messages_witness:
  "\<exists>g' h'. exec regulating test_regulator regulator_start [] = (Halted, g', h') \<and>
    length (observed message_sent h') = 14 \<and> observed message_sent h' ! 13 = (VStr ''message 13'', VInt 10)"
proof -
  have "decimal 13 = ''13''" by code_simp
  then show ?thesis
    using regulator_messages [OF regulating_laws] by (auto simp: message_pair_def message_text_def)
qed

end
