(* ===== verification/Attr_Report.thy ===== *)
theory Attr_Report
  imports RT_Runs
begin

text \<open>
  The reports of default attributes: \<open>psx_pthread_report\<close>, \<open>psx_mutex_report\<close>, \<open>psx_condvar_report\<close>,
  \<open>psx_rwlock_report\<close>, \<open>psx_barrier_report\<close>, \<open>psx_mqueue_report\<close> and \<open>psx_sched_report\<close> under \<open>posix_api\<close>.

  The value of a POSIX macro is its name, a \<open>VRef\<close>; macros of one \<open>switch\<close> are different values.  The
  conditions that the preprocessor tests are boolean arguments.
\<close>

section \<open>One attribute\<close>

text \<open>The \<open>switch\<close> over the macros \<open>names\<close>, and a getter that must succeed.\<close>

definition switch_name :: "string list \<Rightarrow> val \<Rightarrow> string" where
  "switch_name names v = (case v of VRef s \<Rightarrow> if s \<in> set names then s else ''UNKNOWN'' | _ \<Rightarrow> ''UNKNOWN'')"

definition getting :: "sysfn \<Rightarrow> val list \<Rightarrow> (reply \<Rightarrow> (unit, 'a) prog) \<Rightarrow> (unit, 'a) prog" where
  "getting f args k = Call f args (\<lambda>r. asserting (ret r = VInt 0) (k r))"

abbreviation attr :: val where "attr \<equiv> VRef ''&attr''"

definition report_name :: "sysfn \<Rightarrow> string \<Rightarrow> string list \<Rightarrow> (unit, unit) prog" where
  "report_name f fmt names =
     getting f [attr, VRef ''&value''] (\<lambda>r.
     Do printf [VStr fmt, VStr (switch_name names (out r 0 (VRef ''value'')))] (Ret ()))"

definition ended :: "string \<Rightarrow> (unit, int) prog" where
  "ended s = Do puts [VStr s] (Do exit [VInt 0] Halt)"

section \<open>\<open>pthread_attr_report.c\<close>\<close>

definition print_stack_info :: "(unit, unit) prog" where
  "print_stack_info =
     getting pthread_attr_getstack [attr, VRef ''&addr'', VRef ''&size''] (\<lambda>r.
     Do printf [VStr ''Stack size: %zu\<newline>'', out r 1 (VRef ''size'')] (
     Do printf [VStr ''Stack address: %p\<newline>'', out r 0 (VRef ''addr'')] (
     getting pthread_attr_getguardsize [attr, VRef ''&size''] (\<lambda>r'.
     Do printf [VStr ''Stack guard size: %zu\<newline>'', out r' 0 (out r 1 (VRef ''size''))] (Ret ())))))"

definition print_inherit_scheduler :: "(unit, unit) prog" where
  "print_inherit_scheduler =
     report_name pthread_attr_getinheritsched ''Inherit scheduler: %s\<newline>''
       [''PTHREAD_INHERIT_SCHED'', ''PTHREAD_EXPLICIT_SCHED'']"

definition print_scope :: "(unit, unit) prog" where
  "print_scope =
     report_name pthread_attr_getscope ''Thread scope: %s\<newline>'' [''PTHREAD_SCOPE_SYSTEM'', ''PTHREAD_SCOPE_PROCESS'']"

definition print_detach_state :: "(unit, unit) prog" where
  "print_detach_state =
     report_name pthread_attr_getdetachstate ''Thread detach state: %s\<newline>''
       [''PTHREAD_CREATE_JOINABLE'', ''PTHREAD_CREATE_DETACHED'']"

text \<open>The outputs \<open>r\<close> of \<open>pthread_attr_getschedparam\<close>: the priority, and the six fields of the sporadic server.\<close>

definition policy_name :: "bool \<Rightarrow> val \<Rightarrow> string" where
  "policy_name sporadic policy =
    switch_name ([''SCHED_OTHER'', ''SCHED_FIFO'', ''SCHED_RR''] @ (if sporadic then [''SCHED_SPORADIC''] else [])) policy"

definition print_sched_param :: "bool \<Rightarrow> val \<Rightarrow> reply \<Rightarrow> (unit, unit) prog" where
  "print_sched_param sporadic policy r =
     Do printf [VStr ''Scheduler policy : %s\<newline>'', VStr (policy_name sporadic policy)] (
     Do printf [VStr ''Scheduler priority : %d\<newline>'', out r 0 (VRef ''sched_priority'')] (
     if sporadic \<and> policy = VRef ''SCHED_SPORADIC'' then
       Do printf
         [VStr ''Sporadic low priority : %d\<newline>Sporadic period: %lld:%ld\<newline>Sporadic initial budget: %lld:%ld\<newline>Sporadic max pending replenishments: %d\<newline>'',
          out r 1 (VRef ''low_priority''), out r 2 (VRef ''period_sec''), out r 3 (VRef ''period_nsec''),
          out r 4 (VRef ''budget_sec''), out r 5 (VRef ''budget_nsec''), out r 6 (VRef ''max_repl'')] (Ret ())
     else Ret ()))"

definition print_sched_info :: "bool \<Rightarrow> (unit, unit) prog" where
  "print_sched_info sporadic =
     getting pthread_attr_getschedpolicy [attr, VRef ''&policy''] (\<lambda>r.
     let policy = out r 0 (VRef ''policy'') in
     getting pthread_attr_getschedparam [attr, VRef ''&sched''] (print_sched_param sporadic policy))"

definition pthread_report_main :: "bool \<Rightarrow> (unit, int) prog" where
  "pthread_report_main sporadic =
     Do puts [VStr ''*** POSIX Thread Default Attributes Report ***''] (
     getting pthread_attr_init [attr] (\<lambda>_.
     bindp print_stack_info (\<lambda>_.
     bindp print_inherit_scheduler (\<lambda>_.
     bindp print_scope (\<lambda>_.
     bindp print_detach_state (\<lambda>_.
     bindp (print_sched_info sporadic) (\<lambda>_.
     ended ''*** END OF POSIX Thread Default Attributes Report ***'')))))))"

section \<open>\<open>mutex_attr_report.c\<close>\<close>

definition mutex_print_shared :: "(unit, unit) prog" where
  "mutex_print_shared =
     report_name pthread_mutexattr_getpshared ''Process shared: %s\<newline>'' [''PTHREAD_PROCESS_PRIVATE'', ''PTHREAD_PROCESS_SHARED'']"

definition print_type :: "bool \<Rightarrow> bool \<Rightarrow> bool \<Rightarrow> bool \<Rightarrow> (unit, unit) prog" where
  "print_type robust stalled default_normal no_gettype =
     bindp (if robust then Ret () else Do puts [VStr ''PTHREAD_MUTEX_ROBUST is not supported''] (Ret ())) (\<lambda>_.
     bindp (if stalled then Ret () else Do puts [VStr ''PTHREAD_MUTEX_STALLED is not supported''] (Ret ())) (\<lambda>_.
     bindp (if default_normal then Do puts [VStr ''PTHREAD_MUTEX_DEFAULT == PTHREAD_MUTEX_NORMAL''] (Ret ()) else Ret ()) (\<lambda>_.
     if no_gettype then
       Do printf [VStr ''Type: %s\<newline>'', VStr ''pthread_mutexattr_gettype() is not supported''] (Ret ())
     else
       report_name pthread_mutexattr_gettype ''Type: %s\<newline>''
         ((if default_normal then [] else [''PTHREAD_MUTEX_DEFAULT'']) @
          [''PTHREAD_MUTEX_ERRORCHECK'', ''PTHREAD_MUTEX_NORMAL'', ''PTHREAD_MUTEX_RECURSIVE''] @
          (if robust then [''PTHREAD_MUTEX_ROBUST''] else []) @
          (if stalled then [''PTHREAD_MUTEX_STALLED''] else [])))))"

text \<open>On RTEMS, which is neither Cygwin nor Linux.\<close>

definition print_protocol :: "(unit, unit) prog" where
  "print_protocol =
     report_name pthread_mutexattr_getprotocol ''Protocol: %s\<newline>''
       [''PTHREAD_PRIO_NONE'', ''PTHREAD_PRIO_INHERIT'', ''PTHREAD_PRIO_PROTECT'']"

definition mutex_report_main :: "bool \<Rightarrow> bool \<Rightarrow> bool \<Rightarrow> bool \<Rightarrow> (unit, int) prog" where
  "mutex_report_main robust stalled default_normal no_gettype =
     Do puts [VStr ''*** POSIX Mutex Default Attributes Report ***''] (
     getting pthread_mutexattr_init [attr] (\<lambda>_.
     bindp (print_type robust stalled default_normal no_gettype) (\<lambda>_.
     bindp mutex_print_shared (\<lambda>_.
     bindp print_protocol (\<lambda>_.
     ended ''*** END OF POSIX Mutex Default Attributes Report ***'')))))"

section \<open>\<open>condvar_attr_report.c\<close>, \<open>rwlock_attr_report.c\<close> and \<open>barrier_attr_report.c\<close>\<close>

definition condvar_print_shared :: "(unit, unit) prog" where
  "condvar_print_shared =
     report_name pthread_condattr_getpshared ''Process shared: %s\<newline>'' [''PTHREAD_PROCESS_PRIVATE'', ''PTHREAD_PROCESS_SHARED'']"

definition print_clock :: "(unit, unit) prog" where
  "print_clock =
     report_name pthread_condattr_getclock ''Clock: %s\<newline>''
       [''CLOCK_MONOTONIC'', ''CLOCK_PROCESS_CPUTIME_ID'', ''CLOCK_REALTIME'', ''CLOCK_THREAD_CPUTIME_ID'']"

definition condvar_report_main :: "(unit, int) prog" where
  "condvar_report_main =
     Do puts [VStr ''*** POSIX Condition Variable Default Attributes Report ***''] (
     getting pthread_condattr_init [attr] (\<lambda>_.
     bindp condvar_print_shared (\<lambda>_.
     bindp print_clock (\<lambda>_.
     ended ''*** END OF POSIX Condition Variable Default Attributes Report ***''))))"

definition rwlock_print_shared :: "(unit, unit) prog" where
  "rwlock_print_shared =
     report_name pthread_rwlockattr_getpshared ''Process shared: %s\<newline>'' [''PTHREAD_PROCESS_PRIVATE'', ''PTHREAD_PROCESS_SHARED'']"

definition rwlock_report_main :: "(unit, int) prog" where
  "rwlock_report_main =
     Do puts [VStr ''*** POSIX RWLock Default Attributes Report ***''] (
     getting pthread_rwlockattr_init [attr] (\<lambda>_.
     bindp rwlock_print_shared (\<lambda>_.
     ended ''*** END OF POSIX RWLock Default Attributes Report ***'')))"

definition barrier_print_shared :: "(unit, unit) prog" where
  "barrier_print_shared =
     report_name pthread_barrierattr_getpshared ''Process shared: %s\<newline>'' [''PTHREAD_PROCESS_PRIVATE'', ''PTHREAD_PROCESS_SHARED'']"

definition barrier_report_main :: "bool \<Rightarrow> (unit, int) prog" where
  "barrier_report_main no_barriers =
     Do puts [VStr ''*** POSIX Barrier Default Attributes Report ***''] (
     bindp
       (if no_barriers then Do printf [VStr ''Barriers are not supported\<newline>''] (Ret ())
        else getting pthread_barrierattr_init [attr] (\<lambda>_. barrier_print_shared)) (\<lambda>_.
     ended ''*** END OF POSIX Barrier Default Attributes Report ***''))"

section \<open>\<open>mqueue_attr_report.c\<close>\<close>

definition print_attr :: "val \<Rightarrow> (unit, unit) prog" where
  "print_attr mqd =
     getting mq_getattr [mqd, attr] (\<lambda>r.
     Do printf [VStr ''mq_maxmsg: %ld\<newline>'', out r 0 (VRef ''mq_maxmsg'')] (
     Do printf [VStr ''mq_msgsize: %ld\<newline>'', out r 1 (VRef ''mq_msgsize'')] (Ret ())))"

definition mqueue_report_main :: "(unit, int) prog" where
  "mqueue_report_main =
     Do puts [VStr ''*** POSIX Message Queue Default Attributes Report ***''] (
     Call mq_open [VStr ''/testq'', VOp ''|'' [VRef ''O_CREAT'', VRef ''O_RDWR''], VOp ''0777'' [], VRef ''NULL''] (\<lambda>r.
     let mqd = ret r in
     bindp (if mqd = VInt (- 1) then Do perror [VStr ''mq_open''] (Ret ()) else Ret ()) (\<lambda>_.
     asserting (mqd \<noteq> VInt (- 1)) (
     bindp (print_attr mqd) (\<lambda>_.
     ended ''*** END OF POSIX Message Queue Default Attributes Report ***'')))))"

section \<open>\<open>psx_sched_report.c\<close>\<close>

definition sched_levels :: "int \<Rightarrow> int \<Rightarrow> int" where
  "sched_levels low high = \<bar>high - low + 1\<bar>"

definition sched_print_info :: "string \<Rightarrow> (unit, unit) prog" where
  "sched_print_info policy =
     Do printf [VStr ''Information on %s\<newline>'', VStr policy] (
     Call sched_get_priority_min [VRef policy] (\<lambda>r.
     let low = as_int (ret r) in
     Call sched_get_priority_max [VRef policy] (\<lambda>r.
     let high = as_int (ret r) in
     Call getpid [] (\<lambda>r.
     Call sched_rr_get_interval [ret r, VRef ''&t''] (\<lambda>r.
     let levels = sched_levels low high in
     Do printf [VStr (CHR 0x09 # ''Supports %d priority levels (%d - %d)\<newline>''), VInt levels, VInt low, VInt high] (
     Do printf [VStr (if levels \<ge> 32 then (CHR 0x09 # ''Implementation is compliant on priority levels\<newline>'')
       else (CHR 0x09 # ''Implementation is NOT compliant on priority levels\<newline>''))] (
     Do printf [VStr (CHR 0x09 # ''Scheduling quantum is %ld seconds and %ld nanoseconds\<newline>''),
       out r 0 (VRef ''tv_sec''), out r 1 (VRef ''tv_nsec'')] (
     Do puts [VStr ''''] (Ret ())))))))))"

definition sched_report_main :: "bool \<Rightarrow> (unit, int) prog" where
  "sched_report_main sporadic =
     Do puts [VStr ''*** POSIX Scheduler Characteristics Report ***''] (
     bindp (sched_print_info ''SCHED_OTHER'') (\<lambda>_.
     bindp (sched_print_info ''SCHED_FIFO'') (\<lambda>_.
     bindp (sched_print_info ''SCHED_RR'') (\<lambda>_.
     bindp
       (if sporadic then sched_print_info ''SCHED_SPORADIC''
        else Do printf [VStr ''SCHED_SPORADIC is not supported\<newline>''] (Ret ())) (\<lambda>_.
     ended ''*** END OF POSIX Scheduler Characteristics Report ***'')))))"

section \<open>What the thread report prints\<close>

text \<open>Calls that succeed and store the values \<open>A\<close>; and the formatted lines.\<close>

definition attr_law :: "(sysfn \<Rightarrow> val list) \<Rightarrow> syscall \<Rightarrow> reply \<Rightarrow> bool" where
  "attr_law A c r \<longleftrightarrow> (fst c \<notin> {puts, printf, exit} \<longrightarrow> ret r = VInt 0 \<and> outs r = A (fst c))"

definition lines_of :: "syscall \<Rightarrow> val list option" where
  "lines_of c = (if fst c = printf then Some (snd c) else None)"

lemma runs_getting:
  assumes "responsive K" "obeys K (attr_law A)" "f \<notin> {puts, printf, exit}"
    and "\<And>r. outs r = A f \<Longrightarrow> runs K lines_of (k r) g x g' ls"
  shows "runs K lines_of (getting f args k) g x g' ls"
  unfolding getting_def
  by (rule runs_silent [OF assms(1,2)]) (use assms(3,4) in \<open>auto simp: lines_of_def attr_law_def asserting_def\<close>)

lemma runs_line:
  "responsive K \<Longrightarrow> runs K lines_of p g x g' ls \<Longrightarrow> runs K lines_of (Do printf args p) g x g' (args # ls)"
  using runs_Do [of K lines_of p g x g' ls printf args] by (simp add: seen_def lines_of_def)

lemma runs_report_name:
  assumes "responsive K" "obeys K (attr_law A)" "f \<notin> {puts, printf, exit}" "A f = [v]"
  shows "runs K lines_of (report_name f fmt names) g () g [[VStr fmt, VStr (switch_name names v)]]"
  unfolding report_name_def
  by (rule runs_getting [OF assms(1-3)]) (use assms(4) in \<open>auto simp: out_def intro!: runs_line assms(1)\<close>)

lemma ends_ended:
  assumes "responsive K"
  shows "ends K lines_of (ended s) g []"
  unfolding ended_def by (intro ends_silent [OF assms obeys_any]) (simp_all add: lines_of_def)

lemma runs_print_stack_info:
  assumes "responsive K" "obeys K (attr_law A)" "A pthread_attr_getstack = [addr, sz]" "A pthread_attr_getguardsize = [guard]"
  shows "runs K lines_of print_stack_info g () g
    [[VStr ''Stack size: %zu\<newline>'', sz], [VStr ''Stack address: %p\<newline>'', addr], [VStr ''Stack guard size: %zu\<newline>'', guard]]"
  unfolding print_stack_info_def
  by (rule runs_getting [OF assms(1,2)], simp)
     (simp add: assms(3,4) out_def, intro runs_line runs_getting [OF assms(1,2)] assms(1), auto simp: assms(4) intro!: runs_line assms(1))

text \<open>The lines of the scheduling parameters.\<close>

definition sched_lines :: "bool \<Rightarrow> val \<Rightarrow> val list \<Rightarrow> val list list" where
  "sched_lines sporadic policy param =
    [[VStr ''Scheduler policy : %s\<newline>'', VStr (policy_name sporadic policy)],
     [VStr ''Scheduler priority : %d\<newline>'', param ! 0]] @
    (if sporadic \<and> policy = VRef ''SCHED_SPORADIC''
     then [(VStr ''Sporadic low priority : %d\<newline>Sporadic period: %lld:%ld\<newline>Sporadic initial budget: %lld:%ld\<newline>Sporadic max pending replenishments: %d\<newline>''
         # tl param)] else [])"

lemma runs_print_sched_info:
  assumes "responsive K" "obeys K (attr_law A)" "A pthread_attr_getschedpolicy = [policy]"
    and "A pthread_attr_getschedparam = [prio, low, psec, pnsec, bsec, bnsec, repl]"
  shows "runs K lines_of (print_sched_info sporadic) g () g
    (sched_lines sporadic policy [prio, low, psec, pnsec, bsec, bnsec, repl])"
  unfolding print_sched_info_def Let_def
proof (rule runs_getting [OF assms(1,2)])
  fix r
  assume "outs r = A pthread_attr_getschedpolicy"
  then have pol: "out r 0 (VRef ''policy'') = policy" by (simp add: assms(3) out_def)
  show "runs K lines_of (getting pthread_attr_getschedparam [attr, VRef ''&sched'']
      (print_sched_param sporadic (out r 0 (VRef ''policy'')))) g () g
    (sched_lines sporadic policy [prio, low, psec, pnsec, bsec, bnsec, repl])"
  proof (rule runs_getting [OF assms(1,2)])
    fix r'
    assume "outs r' = A pthread_attr_getschedparam"
    then have "out r' i d = [prio, low, psec, pnsec, bsec, bnsec, repl] ! i" if "i < 7" for i d
      using that by (simp add: assms(4) out_def)
    then show "runs K lines_of (print_sched_param sporadic (out r 0 (VRef ''policy'')) r') g () g
        (sched_lines sporadic policy [prio, low, psec, pnsec, bsec, bnsec, repl])"
      unfolding pol print_sched_param_def sched_lines_def by (auto intro!: runs_line assms(1))
  qed simp
qed simp

text \<open>\<close>

theorem pthread_report_prints:
  assumes "responsive K" "obeys K (attr_law A)"
    and "A pthread_attr_getstack = [addr, sz]" "A pthread_attr_getguardsize = [guard]"
    and "A pthread_attr_getinheritsched = [inherit]" "A pthread_attr_getscope = [scope]"
    and "A pthread_attr_getdetachstate = [detach]" "A pthread_attr_getschedpolicy = [policy]"
    and "A pthread_attr_getschedparam = [prio, low, psec, pnsec, bsec, bnsec, repl]"
  shows "\<exists>g' h'. exec K (pthread_report_main sporadic) () [] = (Halted, g', h') \<and>
    observed lines_of h' =
      [[VStr ''Stack size: %zu\<newline>'', sz], [VStr ''Stack address: %p\<newline>'', addr], [VStr ''Stack guard size: %zu\<newline>'', guard],
       [VStr ''Inherit scheduler: %s\<newline>'', VStr (switch_name [''PTHREAD_INHERIT_SCHED'', ''PTHREAD_EXPLICIT_SCHED''] inherit)],
       [VStr ''Thread scope: %s\<newline>'', VStr (switch_name [''PTHREAD_SCOPE_SYSTEM'', ''PTHREAD_SCOPE_PROCESS''] scope)],
       [VStr ''Thread detach state: %s\<newline>'', VStr (switch_name [''PTHREAD_CREATE_JOINABLE'', ''PTHREAD_CREATE_DETACHED''] detach)]] @
      sched_lines sporadic policy [prio, low, psec, pnsec, bsec, bnsec, repl]"
    (is "\<exists>g' h'. _ \<and> _ = ?lines")
proof -
  note law = assms(1,2)
  have init: "ends K lines_of (getting pthread_attr_init [attr] (\<lambda>_. p)) () ls" if "ends K lines_of p () ls" for p :: "(unit, int) prog" and ls
    unfolding getting_def
    by (rule ends_silent [OF law]) (use that in \<open>auto simp: lines_of_def attr_law_def asserting_def\<close>)
  have scope: "runs K lines_of print_scope () () () [[VStr ''Thread scope: %s\<newline>'', VStr (switch_name [''PTHREAD_SCOPE_SYSTEM'', ''PTHREAD_SCOPE_PROCESS''] scope)]]"
    unfolding print_scope_def by (rule runs_report_name [OF law]) (simp_all add: assms(6))
  have inherit: "runs K lines_of print_inherit_scheduler () () () [[VStr ''Inherit scheduler: %s\<newline>'', VStr (switch_name [''PTHREAD_INHERIT_SCHED'', ''PTHREAD_EXPLICIT_SCHED''] inherit)]]"
    unfolding print_inherit_scheduler_def by (rule runs_report_name [OF law]) (simp_all add: assms(5))
  have detach: "runs K lines_of print_detach_state () () () [[VStr ''Thread detach state: %s\<newline>'', VStr (switch_name [''PTHREAD_CREATE_JOINABLE'', ''PTHREAD_CREATE_DETACHED''] detach)]]"
    unfolding print_detach_state_def by (rule runs_report_name [OF law]) (simp_all add: assms(7))
  have "ends K lines_of (pthread_report_main sporadic) () ?lines"
    unfolding pthread_report_main_def
    by (rule ends_silent [OF law], simp add: lines_of_def, rule init, rule ends_as,
        rule ends_bindp, rule runs_print_stack_info [OF law assms(3,4)], rule ends_bindp, rule inherit, rule ends_bindp, rule scope,
        rule ends_bindp, rule detach, rule ends_bindp, rule runs_print_sched_info [OF law assms(8,9)], rule ends_ended [OF law(1)])
       simp
  then show ?thesis unfolding ends_def by (metis append_Nil observed_simps(1))
qed

section \<open>Example\<close>

text \<open>The attributes of a thread with a scheduling policy that the report does not know.\<close>

definition example_attr :: "sysfn \<Rightarrow> val list" where
  "example_attr f =
    (if f = pthread_attr_getstack then [VInt 0, VInt 8192]
     else if f = pthread_attr_getguardsize then [VInt 0]
     else if f = pthread_attr_getinheritsched then [VRef ''PTHREAD_INHERIT_SCHED'']
     else if f = pthread_attr_getscope then [VRef ''PTHREAD_SCOPE_PROCESS'']
     else if f = pthread_attr_getdetachstate then [VRef ''PTHREAD_CREATE_JOINABLE'']
     else if f = pthread_attr_getschedpolicy then [VRef ''SCHED_SPORADIC'']
     else if f = pthread_attr_getschedparam then map VInt [2, 1, 0, 0, 0, 0, 0]
     else [])"

definition reporting :: "(sysfn \<Rightarrow> val list) \<Rightarrow> kernel" where
  "reporting A h c = Some (Reply (VInt 0) (A (fst c)))"

lemma reporting_laws: "responsive (reporting A)" "obeys (reporting A) (attr_law A)"
  by (auto simp: responsive_def obeys_def attr_law_def reporting_def)

theorem pthread_report_prints_witness:
  "\<exists>g' h'. exec (reporting example_attr) (pthread_report_main False) () [] = (Halted, g', h') \<and>
    observed lines_of h' ! 6 = [VStr ''Scheduler policy : %s\<newline>'', VStr ''UNKNOWN'']"
proof -
  have "\<exists>g' h'. exec (reporting example_attr) (pthread_report_main False) () [] = (Halted, g', h') \<and>
      observed lines_of h' = [[VStr ''Stack size: %zu\<newline>'', VInt 8192], [VStr ''Stack address: %p\<newline>'', VInt 0],
       [VStr ''Stack guard size: %zu\<newline>'', VInt 0],
       [VStr ''Inherit scheduler: %s\<newline>'', VStr (switch_name [''PTHREAD_INHERIT_SCHED'', ''PTHREAD_EXPLICIT_SCHED''] (VRef ''PTHREAD_INHERIT_SCHED''))],
       [VStr ''Thread scope: %s\<newline>'', VStr (switch_name [''PTHREAD_SCOPE_SYSTEM'', ''PTHREAD_SCOPE_PROCESS''] (VRef ''PTHREAD_SCOPE_PROCESS''))],
       [VStr ''Thread detach state: %s\<newline>'', VStr (switch_name [''PTHREAD_CREATE_JOINABLE'', ''PTHREAD_CREATE_DETACHED''] (VRef ''PTHREAD_CREATE_JOINABLE''))]] @
      sched_lines False (VRef ''SCHED_SPORADIC'') [VInt 2, VInt 1, VInt 0, VInt 0, VInt 0, VInt 0, VInt 0]"
    by (rule pthread_report_prints [OF reporting_laws]) (simp_all add: example_attr_def)
  then show ?thesis by (auto simp: sched_lines_def policy_name_def switch_name_def)
qed

end
