(* ===== verification/Pthreads.thy ===== *)
theory Pthreads
  imports RT_Runs
begin

text \<open>
  Small programs with POSIX threads and signals: \<open>livermore/pthread\<close>, \<open>psx_pthread_join\<close>,
  \<open>psx_pthread_join_condvar\<close>, \<open>psx_pthread_priority\<close> and \<open>psx_sigint\<close> under \<open>posix_api\<close>.
\<close>

abbreviation NULL :: val where "NULL \<equiv> VRef ''NULL''"

text \<open>\<open>if ( call ) q else p\<close>, for a call that returns 0 for success.\<close>

definition failed :: "reply \<Rightarrow> bool" where
  "failed r \<longleftrightarrow> ret r \<noteq> VInt 0"

section \<open>\<open>livermore/pthread/init.c\<close>\<close>

definition NUM_THREADS :: nat where "NUM_THREADS = 5"

definition Print_Hello :: "val \<Rightarrow> (unit, unit) prog" where
  "Print_Hello threadid =
     Do printf [VStr ''Hello World! It's me, thread #%ld!\<newline>'', threadid] (
     Do pthread_exit [NULL] Halt)"

text \<open>The array \<open>threads\<close> is the state.\<close>

definition create_thread :: "nat \<Rightarrow> unit \<Rightarrow> (val list, unit) prog" where
  "create_thread t _ =
     Do printf [VStr ''In main: creating thread %ld\<newline>'', VInt (int t)] (
     Call pthread_create [VOp ''&threads'' [VInt (int t)], NULL, VRef ''Print_Hello'', VInt (int t)] (\<lambda>r.
     Put (\<lambda>threads. threads[t := out r 0 (threads ! t)]) (
     if failed r then
       Do printf [VStr ''ERROR; return code from pthread_create() is %d\<newline>'', ret r] (
       Do exit [VInt (- 1)] Halt)
     else Ret ())))"

definition join_thread :: "nat \<Rightarrow> unit \<Rightarrow> (val list, unit) prog" where
  "join_thread t _ = Get (\<lambda>threads. Do pthread_join [threads ! t, NULL] (Ret ()))"

definition livermore_POSIX_Init :: "(val list, unit) prog" where
  "livermore_POSIX_Init =
     bindp (for_each [0..<NUM_THREADS] create_thread ()) (\<lambda>_.
     bindp (for_each [0..<NUM_THREADS] join_thread ()) (\<lambda>_.
     Do exit [VInt 0] Halt))"

definition livermore_config :: config_macros where
  "livermore_config =
    [(CONFIGURE_APPLICATION_DOES_NOT_NEED_CLOCK_DRIVER, defined),
     (CONFIGURE_APPLICATION_NEEDS_CONSOLE_DRIVER, defined),
     (CONFIGURE_MAXIMUM_TASKS, VInt 1),
     (CONFIGURE_USE_DEVFS_AS_BASE_FILESYSTEM, defined),
     (CONFIGURE_MAXIMUM_POSIX_THREADS, VInt 6),
     (CONFIGURE_POSIX_INIT_THREAD_TABLE, defined),
     (CONFIGURE_INIT, defined)]"

section \<open>\<open>psx_pthread_join/test1.c\<close>\<close>

definition join_print_hello :: "(unit, unit) prog" where
  "join_print_hello =
     Do sleep [VInt 1] (
     Do printf [VStr ''<child>: Hello World!\<newline>''] (
     Ret ()))"

definition join_POSIX_Init :: "(unit, unit) prog" where
  "join_POSIX_Init =
     Call pthread_create [VRef ''&child1'', NULL, VRef ''print_hello'', NULL] (\<lambda>r.
     let child1 = out r 0 (VRef ''child1'') in
     bindp (if failed r then Do perror [VStr ''Error on create child 1''] (Ret ()) else Ret ()) (\<lambda>_.
     Call pthread_create [VRef ''&child2'', NULL, VRef ''print_hello'', NULL] (\<lambda>r.
     bindp (if failed r then Do perror [VStr ''Error on create child 1''] (Ret ()) else Ret ()) (\<lambda>_.
     Do printf [VStr ''<main>: Wait for child2 thread...\<newline>''] (
     Call pthread_join [child1, NULL] (\<lambda>r.
     bindp (if failed r then Do perror [VStr ''Error on join''] (Ret ()) else Ret ()) (\<lambda>_.
     Do printf [VStr ''<main>: Successfully joined with child1\<newline>''] (
     Do exit [VInt 0] Halt))))))))"

definition join_config :: config_macros where
  "join_config =
    [(CONFIGURE_APPLICATION_NEEDS_CONSOLE_DRIVER, defined),
     (CONFIGURE_APPLICATION_NEEDS_CLOCK_DRIVER, defined),
     (CONFIGURE_MAXIMUM_POSIX_THREADS, VInt 10),
     (CONFIGURE_POSIX_INIT_THREAD_TABLE, defined),
     (CONFIGURE_INIT, defined)]"

section \<open>\<open>psx_pthread_join_condvar/test2.c\<close>\<close>

text \<open>A \<open>struct timespec\<close> is its two fields.\<close>

definition timespec :: "int \<Rightarrow> int \<Rightarrow> val" where
  "timespec sec nsec = VOp ''timespec'' [VInt sec, VInt nsec]"

definition condvar_print_hello :: "(unit, unit) prog" where
  "condvar_print_hello =
     Call gettimeofday [VRef ''&time'', NULL] (\<lambda>r.
     let sec = as_int (out r 0 (VInt 0)); usec = as_int (out r 1 (VInt 0)) in
     Do printf [VStr ''<child>: Hello World coming to wait!\<newline>''] (
     Call pthread_cond_timedwait [VRef ''&cond'', VRef ''&mutex'', timespec (sec + 2) (usec * 1000)] (\<lambda>r.
     bindp (if failed r then Do perror [VStr ''Error on pthread_cond_timedwait''] (Ret ()) else Ret ()) (\<lambda>_.
     Do printf [VStr ''<child>: Hello World exit to wait!\<newline>''] (
     Ret ())))))"

definition condvar_POSIX_Init :: "(unit, unit) prog" where
  "condvar_POSIX_Init =
     Call pthread_create [VRef ''&child'', NULL, VRef ''print_hello'', NULL] (\<lambda>r.
     let child = out r 0 (VRef ''child'') in
     bindp (if failed r then Do perror [VStr ''Error on pthread_create''] (Ret ()) else Ret ()) (\<lambda>_.
     Do printf [VStr ''<main>: Wait for child thread...\<newline>''] (
     Call pthread_join [child, NULL] (\<lambda>r.
     bindp (if failed r then Do perror [VStr ''Error on pthread_join''] (Ret ()) else Ret ()) (\<lambda>_.
     Ret ())))))"

definition condvar_config :: config_macros where
  "condvar_config =
    [(CONFIGURE_APPLICATION_NEEDS_CONSOLE_DRIVER, defined),
     (CONFIGURE_APPLICATION_NEEDS_CLOCK_DRIVER, defined),
     (CONFIGURE_MAXIMUM_POSIX_THREADS, VInt 10),
     (CONFIGURE_POSIX_INIT_THREAD_TABLE, defined),
     (CONFIGURE_INIT, defined)]"

section \<open>\<open>psx_pthread_priority/test3.c\<close>\<close>

definition priority_print_hello :: "(unit, unit) prog" where
  "priority_print_hello =
     Do puts [VStr ''<child>: Hello World! task with max priority''] (
     Call clock_gettime [VRef ''CLOCK_REALTIME'', VRef ''&now''] (\<lambda>r.
     let sec = as_int (out r 0 (VInt 0)); nsec = as_int (out r 1 (VInt 0)) in
     Do printf [VStr ''\<newline>now tv_sec = %lld, tv_nsec = %ld\<newline>'', VInt sec, VInt nsec] (
     Do printf [VStr ''timeout tv_sec = %lld, tv_nsec = %ld\<newline>'', VInt (sec + 3), VInt nsec] (
     Do puts [VStr ''The task is coming to enter in a timed wait''] (
     Do pthread_cond_timedwait [VRef ''&cond'', VRef ''&mutex'', timespec (sec + 3) nsec] (
     Do puts [VStr ''The task is coming out from the timed wait''] (
     Ret ())))))))"

definition priority_print_hello_a :: "(unit, unit) prog" where
  "priority_print_hello_a = Do puts [VStr ''<child>: Task with lowest priority''] (Ret ())"

text \<open>\<open>create || setschedparam\<close> is evaluated from the left and stops at the first failure.\<close>

definition create_with_priority :: "string \<Rightarrow> string \<Rightarrow> val \<Rightarrow> (unit, unit) prog \<Rightarrow> (val \<Rightarrow> (unit, int) prog) \<Rightarrow> (unit, int) prog" where
  "create_with_priority child entry prio complain k =
     Do pthread_attr_setschedparam [VRef ''&attr'', prio] (
     Call pthread_create [VRef child, VRef ''&attr'', VRef entry, NULL] (\<lambda>r.
     let thread = out r 0 (VRef child) in
     if failed r then bindp complain (\<lambda>_. Do exit [VInt 1] Halt)
     else
       Call pthread_setschedparam [thread, VRef ''SCHED_FIFO'', prio] (\<lambda>r.
       if failed r then bindp complain (\<lambda>_. Do exit [VInt 1] Halt)
       else k thread)))"

definition priority_main :: "(unit, int) prog" where
  "priority_main =
     Do pthread_attr_init [VRef ''&attr''] (
     Do pthread_attr_setschedpolicy [VRef ''&attr'', VRef ''SCHED_FIFO''] (
     Do pthread_mutex_init [VRef ''&mutex'', NULL] (
     Do pthread_cond_init [VRef ''&cond'', NULL] (
     Do printf [VStr ''*** POSIX Set Thread Priority Example ***\<newline>''] (
     Do printf [VStr ''Creating first task \<newline>''] (
     Call sched_get_priority_max [VRef ''SCHED_FIFO''] (\<lambda>r.
     create_with_priority ''&child1'' ''print_hello'' (VInt (as_int (ret r)))
       (Do printf [VStr ''Thread cannot be created or you do not have privileges\<newline>    to set priority!!!!\<newline>''] (Ret ())) (\<lambda>child1.
     Do puts [VStr ''Creating second task''] (
     Call sched_get_priority_max [VRef ''SCHED_FIFO''] (\<lambda>r.
     create_with_priority ''&child2'' ''print_hello_a'' (VInt (as_int (ret r) - 1))
       (Do puts [VStr ''Thread cannot be created or you have not enough privileges \<newline>    to set priority!!!!''] (Ret ())) (\<lambda>child2.
     Do puts [VStr ''<main> Wait for threads to exit''] (
     Do pthread_join [child1, NULL] (
     Do pthread_join [child2, NULL] (
     Do puts [VStr ''*** END OF POSIX Thread Priority Exapmle ***''] (
     Do exit [VInt 0] Halt)))))))))))))))"

definition priority_POSIX_Init :: "(unit, unit) prog" where
  "priority_POSIX_Init = bindp priority_main (\<lambda>_. Ret ())"

definition priority_config :: config_macros where
  "priority_config =
    [(CONFIGURE_APPLICATION_NEEDS_CONSOLE_DRIVER, defined),
     (CONFIGURE_APPLICATION_NEEDS_CLOCK_DRIVER, defined),
     (CONFIGURE_MAXIMUM_POSIX_THREADS, VInt 10),
     (CONFIGURE_POSIX_INIT_THREAD_TABLE, defined),
     (CONFIGURE_INIT, defined)]"

section \<open>\<open>psx_sigint/main.c\<close>\<close>

text \<open>
  With \<open>USE_SIGACTION\<close>, on a version of RTEMS in which the signals are not blocked by default.  The
  variable \<open>sent_signal\<close> is the state of the loop, of which at most \<open>n\<close> rounds are taken.
\<close>

definition sigintHandler :: "int \<Rightarrow> int \<Rightarrow> (unit, unit) prog" where
  "sigintHandler SIGINT signo =
     (if signo \<noteq> SIGINT then
        Do fprintf [VRef ''stderr'', VStr ''signalHandler: signal != SIGINT (%d != %d)\<newline>'', VInt signo, VInt SIGINT] (
        Do exit [VInt 1] Halt)
      else
        Do printf [VStr ''\<newline> Cannot be terminated using Ctrl+C \<newline>''] (
        Do fflush [VRef ''stdout''] (
        Ret ())))"

definition sigint_main :: "int \<Rightarrow> nat \<Rightarrow> (unit, int) prog" where
  "sigint_main SIGINT n =
     Call sigaction [VInt SIGINT, VOp ''sigaction'' [VRef ''sigintHandler'', VInt 0], NULL] (\<lambda>r.
     bindp
       (if failed r then
          Call strerror [VRef ''errno''] (\<lambda>e.
          Do fprintf [VRef ''stderr'', VStr ''sigaction -> %s\<newline>'', ret e] (Ret ()))
        else Ret ()) (\<lambda>_.
     forever n (\<lambda>sent_signal.
       if sent_signal = (0::int) then
         Call getpid [] (\<lambda>p.
         Do kill [ret p, VInt SIGINT] (
         Ret 1))
       else Ret sent_signal) 0))"

section \<open>Every thread is joined\<close>

text \<open>Threads are created with the identifiers \<open>ids\<close>, one after the other.\<close>

definition creation_law :: "kernel \<Rightarrow> (nat \<Rightarrow> val) \<Rightarrow> bool" where
  "creation_law K ids \<longleftrightarrow> (\<forall>h args r. K h (pthread_create, args) = Some r \<longrightarrow>
     ret r = VInt 0 \<and> outs r = [ids (calls_to pthread_create h)])"

datatype thread_event = Created val | Joined val

definition thread_events :: "syscall \<Rightarrow> thread_event option" where
  "thread_events c =
    (if fst c = pthread_create then Some (Created (last (snd c)))
     else if fst c = pthread_join then Some (Joined (hd (snd c))) else None)"

lemma exec_create_threads:
  assumes "responsive K" "creation_law K ids"
  shows "k \<le> N \<Longrightarrow> calls_to pthread_create h = k \<Longrightarrow> length g = N \<Longrightarrow> (\<forall>i<k. g ! i = ids i) \<Longrightarrow>
    \<exists>g' h'. exec K (for_each [k..<N] create_thread ()) g h = (Done (), g', h') \<and> g' = map ids [0..<N] \<and>
      observed thread_events h' = observed thread_events h @ map (\<lambda>i. Created (VInt (int i))) [k..<N]"
proof (induction "N - k" arbitrary: k g h)
  case 0
  then have "g = map ids [0..<N]" by (auto intro: nth_equalityI)
  then show ?case using 0 by (intro exI [of _ g] exI [of _ h]) (simp add: upt_conv_Nil)
next
  case (Suc d)
  then have lt: "k < N" by simp
  let ?p = "(printf, [VStr ''In main: creating thread %ld\<newline>'', VInt (int k)])"
  let ?c = "(pthread_create, [VOp ''&threads'' [VInt (int k)], NULL, VRef ''Print_Hello'', VInt (int k)])"
  obtain r where r: "K h ?p = Some r" using assms(1) unfolding responsive_def by blast
  let ?h1 = "h @ [(?p, r)]"
  obtain r2 where r2: "K ?h1 ?c = Some r2" using assms(1) unfolding responsive_def by blast
  then have ok: "ret r2 = VInt 0" "outs r2 = [ids (calls_to pthread_create ?h1)]"
    using assms(2) unfolding creation_law_def by blast+
  then have id: "outs r2 = [ids k]" using Suc.prems(2) by simp
  let ?g = "g[k := ids k]" and ?h2 = "?h1 @ [(?c, r2)]"
  have "\<exists>g' h'. exec K (for_each [Suc k..<N] create_thread ()) ?g ?h2 = (Done (), g', h') \<and> g' = map ids [0..<N] \<and>
      observed thread_events h' = observed thread_events ?h2 @ map (\<lambda>i. Created (VInt (int i))) [Suc k..<N]"
    using Suc lt by (intro Suc.hyps(1)) (auto simp: less_Suc_eq)
  moreover have "exec K (for_each [k..<N] create_thread ()) g h = exec K (for_each [Suc k..<N] create_thread ()) ?g ?h2"
    using r r2 ok(1) id lt by (simp add: upt_conv_Cons create_thread_def failed_def out_def del: append_assoc)
  ultimately show ?case using lt by (auto simp: thread_events_def upt_conv_Cons)
qed

lemma runs_join_threads:
  assumes "responsive K"
  shows "runs K thread_events (for_each ts join_thread ()) g () g (map (\<lambda>t. Joined (g ! t)) ts)"
proof (induction ts)
  case (Cons t ts)
  have "runs K thread_events (join_thread t ()) g () g [Joined (g ! t)]"
    using runs_last_Do [OF assms, of thread_events pthread_join "[g ! t, NULL]" "()" g]
    by (simp add: join_thread_def seen_def thread_events_def)
  from runs_bindp [OF this, where q = "for_each ts join_thread", OF Cons] show ?case by simp
qed simp

text \<open>
  The Livermore example creates its threads with their numbers as arguments, and joins every
  one of them, by the identifier it was given, after all have been created.
\<close>

theorem every_thread_is_joined:
  assumes "responsive K" "creation_law K ids" "length g = NUM_THREADS"
  shows "\<exists>g' h'. exec K livermore_POSIX_Init g [] = (Halted, g', h') \<and>
    observed thread_events h' =
      map (\<lambda>i. Created (VInt (int i))) [0..<NUM_THREADS] @ map (\<lambda>i. Joined (ids i)) [0..<NUM_THREADS]"
proof -
  let ?g = "map ids [0..<NUM_THREADS]"
  obtain h1 where 1: "exec K (for_each [0..<NUM_THREADS] create_thread ()) g [] = (Done (), ?g, h1)"
    "observed thread_events h1 = map (\<lambda>i. Created (VInt (int i))) [0..<NUM_THREADS]"
    using exec_create_threads [OF assms(1,2), of 0 NUM_THREADS "[]" g] assms(3) by auto
  have "map (\<lambda>t. Joined (?g ! t)) [0..<NUM_THREADS] = map (\<lambda>i. Joined (ids i)) [0..<NUM_THREADS]" by simp
  then obtain h2 where 2: "exec K (for_each [0..<NUM_THREADS] join_thread ()) ?g h1 = (Done (), ?g, h2)"
    "observed thread_events h2 = observed thread_events h1 @ map (\<lambda>i. Joined (ids i)) [0..<NUM_THREADS]"
    using runs_join_threads [OF assms(1), of "[0..<NUM_THREADS]" ?g] unfolding runs_def by metis
  obtain r where "K h2 (exit, [VInt 0]) = Some r" using assms(1) unfolding responsive_def by blast
  then show ?thesis using 1 2
    by (intro exI [of _ ?g] exI [of _ "h2 @ [((exit, [VInt 0]), r)]"])
       (simp add: livermore_POSIX_Init_def exec_bindp thread_events_def)
qed

section \<open>The timed waits\<close>

text \<open>
  The children of both programs wait for the condition variable although nothing has locked its
  mutex, which POSIX requires; their timeout is a valid time.
\<close>

lemma waits_without_lock:
  "at_most pthread_mutex_lock condvar_print_hello 0" "at_most pthread_mutex_lock condvar_POSIX_Init 0"
  "at_most pthread_mutex_lock priority_print_hello 0" "at_most pthread_mutex_lock priority_main 0"
  by (auto simp: condvar_print_hello_def condvar_POSIX_Init_def priority_print_hello_def priority_main_def
      create_with_priority_def Let_def)

section \<open>Example\<close>

definition creating :: kernel where
  "creating h c = Some (Reply (VInt 0) (if fst c = pthread_create then [VInt (100 + int (calls_to pthread_create h))] else []))"

lemma creating_laws: "responsive creating" "creation_law creating (\<lambda>k. VInt (100 + int k))"
  by (auto simp: responsive_def creation_law_def creating_def)

theorem every_thread_is_joined_witness:
  "\<exists>g' h'. exec creating livermore_POSIX_Init (replicate NUM_THREADS NULL) [] = (Halted, g', h') \<and>
    observed thread_events h' =
      map (\<lambda>i. Created (VInt (int i))) [0..<NUM_THREADS] @ map (\<lambda>i. Joined (VInt (100 + int i))) [0..<NUM_THREADS]"
  using every_thread_is_joined [OF creating_laws, of "replicate NUM_THREADS NULL"] by simp

end
