(* ===== verification/Disk_Init.thy ===== *)
theory Disk_Init
  imports RT_Runs
begin

text \<open>
  The disk examples: \<open>filesystem/fat_ramdisk/init.c\<close>, which unpacks a file system into memory, and
  \<open>misc/qemu_vfat/init.c\<close>, which mounts a partition of a disk and may start a shell.
\<close>

abbreviation NULL :: val where "NULL \<equiv> VRef ''NULL''"
abbreviation stderr :: val where "stderr \<equiv> VRef ''stderr''"

section \<open>\<open>fat_ramdisk/init.c\<close>\<close>

text \<open>The table of RAM disks: the sizes and numbers of their blocks.\<close>

definition rtems_ramdisk_configuration :: "(nat \<times> nat) list" where
  "rtems_ramdisk_configuration = [(512, 1024)]"

definition rtems_ramdisk_configuration_size :: nat where
  "rtems_ramdisk_configuration_size = 1"

definition complain_status :: "string \<Rightarrow> val \<Rightarrow> (unit, unit) prog" where
  "complain_status fmt sc =
     Call rtems_status_text [sc] (\<lambda>s. Do printf [VStr fmt, ret s, sc] (Ret ()))"

definition shell_init_script :: "(unit, unit) prog" where
  "shell_init_script =
     Do printf [VStr ''Running /shell-init....\<newline>\<newline>''] (
     Call rtems_shell_script
       [VStr ''fstst'', VOp ''*'' [VInt 60, VInt 1024], VInt 160, VStr ''/shell-init'', VStr ''stdout'', VInt 0, VInt 1, VInt 1] (\<lambda>r.
     if ret r \<noteq> SUCCESSFUL then complain_status ''error: running shell script: %s (%d)\<newline>'' (ret r) else Ret ()))"

definition shell_start :: "(unit, unit) prog" where
  "shell_start =
     Do printf [VStr ''Starting shell....\<newline>\<newline>''] (
     Call rtems_shell_init
       [VStr ''fstst'', VOp ''*'' [VInt 60, VInt 1024], VInt 150, VStr ''/dev/console'', VInt 0, VInt 1, NULL] (\<lambda>r.
     if ret r \<noteq> SUCCESSFUL then complain_status ''error: starting shell: %s (%d)\<newline>'' (ret r) else Ret ()))"

definition fat_ramdisk_Init :: "(unit, unit) prog" where
  "fat_ramdisk_Init =
     Do puts [VStr ''\<newline>\<newline>*** ramdisk/fat example ***''] (
     Do printf [VStr ''Unpacking tar filesystem\<newline>This may take awhile...\<newline>''] (
     Call untar_from_memory [VRef ''fs_root_tar'', VRef ''fs_root_tar_size''] (\<lambda>r.
     if ret r \<noteq> VInt 0 then
       Do printf [VStr ''Can't unpack tar filesystem\<newline>''] (
       Do exit [VInt 1] Halt)
     else
       bindp shell_init_script (\<lambda>_.
       bindp shell_start (\<lambda>_.
       Do printf [VStr ''*** end of demonstration ***\<newline>''] (
       Do exit [VInt 0] Halt))))))"

definition fat_ramdisk_config :: config_macros where
  "fat_ramdisk_config =
    [(CONFIGURE_MAXIMUM_POSIX_KEYS, VInt 16),
     (CONFIGURE_MAXIMUM_POSIX_KEY_VALUE_PAIRS, VInt 16),
     (CONFIGURE_SHELL_COMMANDS_INIT, defined),
     (CONFIGURE_SHELL_COMMANDS_ALL, defined),
     (CONFIGURE_SHELL_MOUNT_MSDOS, defined),
     (CONFIGURE_APPLICATION_NEEDS_CLOCK_DRIVER, defined),
     (CONFIGURE_APPLICATION_NEEDS_CONSOLE_DRIVER, defined),
     (CONFIGURE_APPLICATION_EXTRA_DRIVERS, VRef ''RAMDISK_DRIVER_TABLE_ENTRY''),
     (CONFIGURE_FILESYSTEM_DOSFS, defined),
     (CONFIGURE_MAXIMUM_FILE_DESCRIPTORS, VInt 40),
     (CONFIGURE_IMFS_MEMFILE_BYTES_PER_BLOCK, VInt 512),
     (CONFIGURE_APPLICATION_NEEDS_LIBBLOCK, defined),
     (CONFIGURE_SWAPOUT_TASK_PRIORITY, VInt 10),
     (CONFIGURE_MAXIMUM_TASKS, VOp ''rtems_resource_unlimited'' [VInt 10]),
     (CONFIGURE_MAXIMUM_SEMAPHORES, VOp ''rtems_resource_unlimited'' [VInt 10]),
     (CONFIGURE_MAXIMUM_MESSAGE_QUEUES, VOp ''rtems_resource_unlimited'' [VInt 5]),
     (CONFIGURE_MAXIMUM_PARTITIONS, VOp ''rtems_resource_unlimited'' [VInt 2]),
     (CONFIGURE_UNIFIED_WORK_AREAS, defined),
     (CONFIGURE_RTEMS_INIT_TASKS_TABLE, defined),
     (CONFIGURE_INIT, defined)]"

section \<open>\<open>qemu_vfat/init.c\<close>\<close>

abbreviation MOUNT_POINT :: string where "MOUNT_POINT \<equiv> ''/mnt/test''"

definition fs_table :: "val list" where
  "fs_table =
    [VOp ''fstab'' [VStr ''/dev/hda1'', VStr MOUNT_POINT, VStr ''dosfs'', VRef ''RTEMS_FILESYSTEM_READ_WRITE'',
       VOp ''|'' [VRef ''FSMOUNT_MNT_OK'', VRef ''FSMOUNT_MNTPNT_CRTERR'', VRef ''FSMOUNT_MNT_FAILED''], VInt 0]]"

text \<open>A complaint with the text of \<open>errno\<close>.\<close>

definition complain_errno :: "val list \<Rightarrow> (unit, unit) prog" where
  "complain_errno args = Call strerror [VRef ''errno''] (\<lambda>e. Do printf (args @ [ret e]) (Ret ()))"

definition writeFile :: "string \<Rightarrow> nat \<Rightarrow> string \<Rightarrow> (unit, unit) prog" where
  "writeFile name mode contents =
     Call setuid [VInt 0] (\<lambda>r.
     bindp (if ret r \<noteq> VInt 0 then complain_errno [VStr ''setuid failed: %s: %s\<newline>'', VStr name] else Ret ()) (\<lambda>_.
     Do rtems_shell_write_file [VStr name, VStr contents] (
     Call chmod [VStr name, VInt (int mode)] (\<lambda>r.
     if ret r \<noteq> VInt 0 then complain_errno [VStr ''chmod %s: %s\<newline>'', VStr name] else Ret ()))))"

definition passwd_contents :: string where
  "passwd_contents =
    ''root:7QR4o148UPtb.:0:0:root::/:/bin/sh\<newline>'' @
    ''rtems:*:1:1:RTEMS Application::/:/bin/sh\<newline>'' @
    ''test:8Yy.AaxynxbLI:2:2:test account::/:/bin/sh\<newline>'' @
    ''tty:!:3:3:tty owner::/:/bin/false\<newline>''"

definition group_contents :: string where
  "group_contents =
    ''root:x:0:root\<newline>'' @ ''rtems:x:1:rtems\<newline>'' @ ''test:x:2:test\<newline>'' @ ''tty:x:3:tty\<newline>''"

text \<open>\<open>0777\<close> and \<open>0644\<close> are octal.\<close>

definition fileio_start_shell :: "(unit, unit) prog" where
  "fileio_start_shell =
     Call mkdir [VStr ''/scripts'', VInt 511] (\<lambda>r.
     bindp (if ret r \<noteq> VInt 0 then complain_errno [VStr ''mkdir /scripts: %s:\<newline>''] else Ret ()) (\<lambda>_.
     Call mkdir [VStr ''/etc'', VInt 511] (\<lambda>r.
     bindp (if ret r \<noteq> VInt 0 then complain_errno [VStr ''mkdir /etc: %s:\<newline>''] else Ret ()) (\<lambda>_.
     Do fprintf [stderr, VStr ''Creating /etc/passwd and group with three useable accounts\<newline>root/pwd , test/pwd, rtems/NO PASSWORD''] (
     bindp (writeFile ''/etc/passwd'' 420 passwd_contents) (\<lambda>_.
     bindp (writeFile ''/etc/group'' 420 group_contents) (\<lambda>_.
     Do rtems_shell_init
       [VStr ''SHLL'', VOp ''*'' [VRef ''RTEMS_MINIMUM_STACK_SIZE'', VInt 4], VInt 100, VStr ''/dev/console'', VInt 0, VInt 1,
        VRef ''rtems_shell_login_check''] (Ret ()))))))))"

text \<open>\<open>start_test\<close> is not part of the example.\<close>

definition qemu_vfat_Init :: "bool \<Rightarrow> (unit, unit) prog option \<Rightarrow> (unit, unit) prog" where
  "qemu_vfat_Init use_shell start_test =
     Do puts [VStr ''\<newline>\<newline>*** QEMU VFAT AND SHELL TEST ***''] (
     Call rtems_bdpart_register_from_disk [VStr ''/dev/hda''] (\<lambda>r.
     if ret r \<noteq> SUCCESSFUL then
       Do fprintf [stderr, VStr ''Unable to initialize partition table from /dev/hda\<newline>''] (
       Do exit [VInt 1] Halt)
     else
       Call rtems_fsmount [VOp ''fs_table'' fs_table, VInt (int (length fs_table)), NULL] (\<lambda>r.
       if ret r \<noteq> SUCCESSFUL then
         Do fprintf [stderr, VStr ''Unable to mount /dev/hda1\<newline>''] (
         Do exit [VInt 1] Halt)
       else
         bindp (if use_shell then fileio_start_shell else Ret ()) (\<lambda>_.
         bindp (case start_test of None \<Rightarrow> Ret () | Some p \<Rightarrow> Do chdir [VStr MOUNT_POINT] p) (\<lambda>_.
         Do puts [VStr ''*** END OF QEMU VFAT AND SHELL TEST ***''] (
         Do exit [VInt 0] Halt))))))"

definition qemu_shell_config :: config_macros where
  "qemu_shell_config =
    [(CONFIGURE_SHELL_COMMANDS_INIT, defined),
     (CONFIGURE_SHELL_COMMANDS_ALL, defined),
     (CONFIGURE_SHELL_MOUNT_MSDOS, defined)]"

definition qemu_vfat_config :: "bool \<Rightarrow> config_macros" where
  "qemu_vfat_config ide =
    [(CONFIGURE_APPLICATION_NEEDS_CONSOLE_DRIVER, defined),
     (CONFIGURE_APPLICATION_NEEDS_CLOCK_DRIVER, defined)] @
    (if ide then [(CONFIGURE_APPLICATION_NEEDS_IDE_DRIVER, defined)] else []) @
    [(CONFIGURE_APPLICATION_NEEDS_LIBBLOCK, defined),
     (CONFIGURE_USE_IMFS_AS_BASE_FILESYSTEM, defined),
     (CONFIGURE_MAXIMUM_TASKS, VInt 20),
     (CONFIGURE_MAXIMUM_SEMAPHORES, VInt 20),
     (CONFIGURE_MAXIMUM_MESSAGE_QUEUES, VInt 20),
     (CONFIGURE_MAXIMUM_FILE_DESCRIPTORS, VInt 20),
     (CONFIGURE_STACK_CHECKER_ENABLED, defined),
     (CONFIGURE_RTEMS_INIT_TASKS_TABLE, defined),
     (CONFIGURE_EXTRA_TASK_STACKS, VOp ''*'' [VInt 6, VRef ''RTEMS_MINIMUM_STACK_SIZE'']),
     (CONFIGURE_MALLOC_STATISTICS, defined),
     (CONFIGURE_UNIFIED_WORK_AREAS, defined)]"

section \<open>Errors\<close>

text \<open>
  The status with which each program exits, as a function of the results of the calls that it checks,
  and whether it has started a shell by then.
\<close>

definition shells_and_exits :: "syscall \<Rightarrow> val option" where
  "shells_and_exits c =
    (if fst c \<in> {rtems_shell_init, rtems_shell_script} then Some (hd (snd c))
     else if fst c = exit then Some (hd (snd c)) else None)"

definition result_law :: "(sysfn \<Rightarrow> val) \<Rightarrow> syscall \<Rightarrow> reply \<Rightarrow> bool" where
  "result_law res c r \<longleftrightarrow> ret r = res (fst c)"

lemma ramdisk_finishes:
  "finishes (result_law res) shells_and_exits fat_ramdisk_Init
    (if res untar_from_memory \<noteq> VInt 0 then [VInt 1] else [VStr ''fstst'', VStr ''fstst'', VInt 0])"
  by (auto simp: fat_ramdisk_Init_def shell_init_script_def shell_start_def complain_status_def bindp_if
      shells_and_exits_def result_law_def)

lemma finishes_bindp:
  "emits R obs p Q ls \<Longrightarrow> whole p \<Longrightarrow> unhalted R p \<Longrightarrow> (\<And>x. Q x \<Longrightarrow> finishes R obs (q x) ls') \<Longrightarrow> finishes R obs (bindp p q) (ls @ ls')"
proof (induction p arbitrary: ls)
  case (Call f args k)
  show ?case
  proof (cases "obs (f, args)")
    case None
    then show ?thesis using Call.IH [OF rangeI] Call.prems by simp
  next
    case (Some b)
    then have "finishes R obs (bindp (k r) q) (tl ls @ ls')" if "R (f, args) r" for r
      using Call.IH [OF rangeI] Call.prems that by simp
    then show ?thesis using Some Call.prems(1) by simp
  qed
qed auto

lemma shell_emits:
  "emits (result_law res) shells_and_exits fileio_start_shell (\<lambda>_. True) [VStr ''SHLL'']"
  "whole fileio_start_shell" "unhalted R fileio_start_shell"
  by (auto simp: fileio_start_shell_def writeFile_def complain_errno_def bindp_if shells_and_exits_def)

lemma vfat_finishes:
  "finishes (result_law res) shells_and_exits (qemu_vfat_Init use_shell None)
    (if res rtems_bdpart_register_from_disk \<noteq> SUCCESSFUL \<or> res rtems_fsmount \<noteq> SUCCESSFUL then [VInt 1]
     else (if use_shell then [VStr ''SHLL''] else []) @ [VInt 0])"
  using finishes_bindp [OF shell_emits, of res "\<lambda>_. Do puts [VStr ''*** END OF QEMU VFAT AND SHELL TEST ***''] (Do exit [VInt 0] Halt)" "[VInt 0]"]
  by (auto simp: qemu_vfat_Init_def shells_and_exits_def result_law_def)

text \<open>\<close>

theorem disk_programs_end:
  assumes "responsive K" "obeys K (result_law res)"
  shows "(\<exists>h. exec K fat_ramdisk_Init () [] = (Halted, (), h) \<and>
      observed shells_and_exits h =
        (if res untar_from_memory \<noteq> VInt 0 then [VInt 1] else [VStr ''fstst'', VStr ''fstst'', VInt 0])) \<and>
    (\<exists>h. exec K (qemu_vfat_Init use_shell None) () [] = (Halted, (), h) \<and>
      observed shells_and_exits h =
        (if res rtems_bdpart_register_from_disk \<noteq> SUCCESSFUL \<or> res rtems_fsmount \<noteq> SUCCESSFUL then [VInt 1]
         else (if use_shell then [VStr ''SHLL''] else []) @ [VInt 0]))"
  using finishes_exec [OF assms ramdisk_finishes, where g = "()" and h = "[]"]
    finishes_exec [OF assms vfat_finishes, where g = "()" and h = "[]" and use_shell1 = use_shell]
  by simp

section \<open>Example\<close>

definition disk_results :: "sysfn \<Rightarrow> val" where
  "disk_results f = (if f = rtems_fsmount then VRef ''RTEMS_IO_ERROR'' else if f = rtems_bdpart_register_from_disk then SUCCESSFUL else VInt 0)"

theorem disk_programs_end_witness:
  "\<exists>h. exec (\<lambda>h c. Some (Reply (disk_results (fst c)) [])) (qemu_vfat_Init True None) () [] = (Halted, (), h) \<and>
    observed shells_and_exits h = [VInt 1]"
  using disk_programs_end [of "\<lambda>h c. Some (Reply (disk_results (fst c)) [])" disk_results True]
  by (simp add: responsive_def obeys_def result_law_def disk_results_def)

end
