(* ===== verification/Std_Map.thy ===== *)
theory Std_Map
  imports RT_Runs "HOL-Library.Char_ord" "HOL-Library.List_Lexorder"
begin

text \<open>
  The C++ example \<open>cxx/cxx_stdmap/main.cc\<close>: a \<open>std::map\<close> from words to counts is copied into a
  \<open>std::set\<close> that orders the pairs by their counts.  Both containers keep their elements in the order
  of a comparison and insert an element only if no equivalent one is there.
\<close>

section \<open>Ordered containers\<close>

fun set_insert :: "('a \<Rightarrow> 'a \<Rightarrow> bool) \<Rightarrow> 'a \<Rightarrow> 'a list \<Rightarrow> 'a list" where
  "set_insert lt x [] = [x]"
| "set_insert lt x (y # ys) =
    (if lt x y then x # y # ys else if lt y x then y # set_insert lt x ys else y # ys)"

definition std_set :: "('a \<Rightarrow> 'a \<Rightarrow> bool) \<Rightarrow> 'a list \<Rightarrow> 'a list" where
  "std_set lt xs = foldl (\<lambda>s x. set_insert lt x s) [] xs"

text \<open>What the containers require of a comparison: a strict weak order.\<close>

locale strict_weak_order =
  fixes lt :: "'a \<Rightarrow> 'a \<Rightarrow> bool"
  assumes irrefl: "\<not> lt x x"
    and trans: "lt x y \<Longrightarrow> lt y z \<Longrightarrow> lt x z"
    and incomparable: "lt x z \<Longrightarrow> lt x y \<or> lt y z"
begin

lemma insert_sorted:
  "sorted_wrt lt s \<Longrightarrow> sorted_wrt lt (set_insert lt x s) \<and>
    set s \<subseteq> set (set_insert lt x s) \<and> set (set_insert lt x s) \<subseteq> insert x (set s)"
proof (induction s)
  case (Cons y s)
  then show ?case by (auto intro: trans)
qed simp

lemma insert_covers: "\<exists>y\<in>set (set_insert lt x s). \<not> lt x y \<and> \<not> lt y x"
  by (induction s) (auto simp: irrefl)

lemma insert_old:
  "sorted_wrt lt s \<Longrightarrow> y \<in> set s \<Longrightarrow> \<not> lt x y \<Longrightarrow> \<not> lt y x \<Longrightarrow> set (set_insert lt x s) = set s"
proof (induction s)
  case (Cons z s)
  show ?case
  proof (cases "y = z")
    case False
    then have "y \<in> set s" "lt z y" using Cons.prems by auto
    then have "lt z x" using incomparable [of z y x] Cons.prems(4) incomparable [of z y] Cons.prems(3) by blast
    then have "\<not> lt x z" using trans irrefl by blast
    then show ?thesis using Cons \<open>y \<in> set s\<close> \<open>lt z x\<close> by simp
  qed (use Cons.prems in simp)
qed simp

lemma std_set_snoc: "std_set lt (xs @ [x]) = set_insert lt x (std_set lt xs)"
  by (simp add: std_set_def)

lemma std_set_sorted: "sorted_wrt lt (std_set lt xs)"
proof (induction xs rule: rev_induct)
  case (snoc x xs)
  then show ?case using insert_sorted by (simp add: std_set_snoc)
qed (simp add: std_set_def)

lemma std_set_subset: "set (std_set lt xs) \<subseteq> set xs"
proof (induction xs rule: rev_induct)
  case (snoc x xs)
  then show ?case using insert_sorted [OF std_set_sorted, of x xs] by (auto simp: std_set_snoc)
qed (simp add: std_set_def)

lemma std_set_covers: "x \<in> set xs \<Longrightarrow> \<exists>y\<in>set (std_set lt xs). \<not> lt x y \<and> \<not> lt y x"
proof (induction xs rule: rev_induct)
  case (snoc z xs)
  then show ?case using insert_sorted [OF std_set_sorted, of z xs] insert_covers by (auto simp: std_set_snoc)
qed simp

end

section \<open>The program\<close>

type_synonym word_count = "string \<times> int"

text \<open>A map compares the keys of its pairs; the set, as \<open>compFunctor\<close> says, the second components.\<close>

definition less_key :: "word_count \<Rightarrow> word_count \<Rightarrow> bool" where
  "less_key elem1 elem2 = (fst elem1 < fst elem2)"

definition compFunctor :: "word_count \<Rightarrow> word_count \<Rightarrow> bool" where
  "compFunctor elem1 elem2 = (snd elem1 < snd elem2)"

interpretation by_key: strict_weak_order less_key
  by unfold_locales (auto simp: less_key_def)

interpretation by_count: strict_weak_order compFunctor
  by unfold_locales (auto simp: compFunctor_def)

definition map_initializer :: "word_count list" where
  "map_initializer = [(''aaa'', 10), (''ddd'', 41), (''bbb'', 62), (''ccc'', 13)]"

definition mapOfWordCount :: "word_count list \<Rightarrow> word_count list" where
  "mapOfWordCount items = std_set less_key items"

definition setOfWords :: "word_count list \<Rightarrow> word_count list" where
  "setOfWords items = std_set compFunctor (mapOfWordCount items)"

definition print_element :: "word_count \<Rightarrow> unit \<Rightarrow> (unit, unit) prog" where
  "print_element element _ =
     Do cout [VStr (fst element), VStr '' :: '', VInt (snd element), VRef ''std::endl''] (Ret ())"

definition stdmap_main :: "word_count list \<Rightarrow> (unit, int) prog" where
  "stdmap_main items =
     bindp (for_each (setOfWords items) print_element ()) (\<lambda>_.
     Ret 0)"

section \<open>What it prints\<close>

definition word_shown :: "syscall \<Rightarrow> word_count option" where
  "word_shown c = (case c of (Libc Cout, [VStr w, _, VInt n, _]) \<Rightarrow> Some (w, n) | _ \<Rightarrow> None)"

lemma runs_print_elements:
  assumes "responsive K"
  shows "runs K word_shown (for_each es print_element ()) () () () es"
proof (induction es)
  case (Cons e es)
  have "runs K word_shown (print_element e ()) () () () [e]"
    unfolding print_element_def by (rule runs_as [OF runs_last_Do [OF assms]]) (simp_all add: seen_def word_shown_def)
  then show ?case using runs_bindp [where q = "for_each es print_element", OF _ Cons.IH] by fastforce
qed simp

text \<open>
  C31: The C++ container example prints the elements of its map in the order of their counts,
  strictly ascending: every count of the map exactly once, every pair from the initializer, one
  pair for each word.
\<close>

theorem words_by_count:
  assumes "responsive K"
  shows "runs K word_shown (stdmap_main items) () 0 () (setOfWords items) \<and>
    sorted_wrt (\<lambda>a b. snd a < snd b) (setOfWords items) \<and> set (setOfWords items) \<subseteq> set items \<and>
    (\<forall>e\<in>set (mapOfWordCount items). \<exists>e'\<in>set (setOfWords items). snd e' = snd e) \<and>
    (\<forall>e\<in>set items. \<exists>e'\<in>set (mapOfWordCount items). fst e' = fst e) \<and> distinct (map fst (mapOfWordCount items))"
proof (intro conjI)
  show "runs K word_shown (stdmap_main items) () 0 () (setOfWords items)"
    unfolding stdmap_main_def
    by (rule runs_as [OF runs_bindp [OF runs_print_elements [OF assms] runs_Ret]]) simp_all
  show "sorted_wrt (\<lambda>a b. snd a < snd b) (setOfWords items)"
    using by_count.std_set_sorted [of "mapOfWordCount items"] by (simp add: setOfWords_def compFunctor_def [abs_def])
  show "set (setOfWords items) \<subseteq> set items"
    using by_count.std_set_subset by_key.std_set_subset unfolding setOfWords_def mapOfWordCount_def by blast
  show "\<forall>e\<in>set (mapOfWordCount items). \<exists>e'\<in>set (setOfWords items). snd e' = snd e"
    using by_count.std_set_covers unfolding setOfWords_def compFunctor_def by (metis linorder_neq_iff)
  show "\<forall>e\<in>set items. \<exists>e'\<in>set (mapOfWordCount items). fst e' = fst e"
    using by_key.std_set_covers unfolding mapOfWordCount_def less_key_def by (metis linorder_neq_iff)
  have "sorted_wrt (<) (map fst (mapOfWordCount items))"
    using by_key.std_set_sorted by (simp add: mapOfWordCount_def sorted_wrt_map less_key_def [abs_def])
  then show "distinct (map fst (mapOfWordCount items))" by (simp add: strict_sorted_iff)
qed

lemma stdmap_output: "setOfWords map_initializer = [(''aaa'', 10), (''ccc'', 13), (''ddd'', 41), (''bbb'', 62)]"
  by (simp add: setOfWords_def mapOfWordCount_def map_initializer_def std_set_def less_key_def compFunctor_def)

theorem words_by_count_witness:
  "runs silent_kernel word_shown (stdmap_main map_initializer) () 0 () [(''aaa'', 10), (''ccc'', 13), (''ddd'', 41), (''bbb'', 62)]"
  using words_by_count [OF silent_kernel_responsive, of map_initializer] by (simp add: stdmap_output)

end
