(* ===== verification/Crc_Init.thy ===== *)
theory Crc_Init
  imports Crc32 RT_Runs
begin

text \<open>
  The program around the checksum, \<open>file_io/crc/init.c\<close>: it unpacks an archive into memory and prints
  the CRC of the file \<open>/image.img\<close> in it.  The file system is the argument \<open>files\<close>: what reading a
  path delivers after the archive was unpacked, as \<open>crc32file\<close> sees it.
\<close>

definition crc_Init :: "(string \<Rightarrow> (u8 list \<times> bool) option) \<Rightarrow> u32 \<Rightarrow> (unit, unit) prog" where
  "crc_Init files junk =
     (let in_file = ''/image.img'' in
     Do puts [VStr ''\<newline>\<newline>*** untar/imfs/crc example ***''] (
     Do printf [VStr ''Unpacking tar filesystem\<newline>This may take awhile...\<newline>''] (
     Call untar_from_memory [VRef ''fs_root_tar'', VRef ''fs_root_tar_size''] (\<lambda>r.
     if ret r \<noteq> VInt 0 then
       Do printf [VStr ''Can't unpack tar filesystem\<newline>''] (
       Do exit [VInt 1] Halt)
     else
       let (_, crc, charcnt) = crc32file (files in_file) junk in
       Do printf [VStr ''%08lX %7ld %s\<newline>'', VInt (uint crc), VInt (sint charcnt), VStr in_file] (
       Do printf [VStr ''*** end of demonstration ***\<newline>''] (
       Do exit [VInt 0] Halt))))))"

definition crc_config :: config_macros where
  "crc_config =
    [(CONFIGURE_APPLICATION_NEEDS_CLOCK_DRIVER, defined),
     (CONFIGURE_APPLICATION_NEEDS_CONSOLE_DRIVER, defined),
     (CONFIGURE_USE_IMFS_AS_BASE_FILESYSTEM, defined),
     (CONFIGURE_MAXIMUM_FILE_DESCRIPTORS, VInt 40),
     (CONFIGURE_IMFS_MEMFILE_BYTES_PER_BLOCK, VInt 512),
     (CONFIGURE_MAXIMUM_TASKS, VInt 4),
     (CONFIGURE_RTEMS_INIT_TASKS_TABLE, defined),
     (CONFIGURE_EXTRA_TASK_STACKS, VOp ''*'' [VInt 3, VRef ''RTEMS_MINIMUM_STACK_SIZE'']),
     (CONFIGURE_INIT, defined)]"

text \<open>What the program says about the file, and how it exits.\<close>

definition crc_told :: "syscall \<Rightarrow> val list option" where
  "crc_told c =
    (if fst c = exit then Some (snd c)
     else if fst c = printf \<and> hd (snd c) = VStr ''%08lX %7ld %s\<newline>'' then Some (tl (snd c)) else None)"

definition untar_answers :: "val \<Rightarrow> syscall \<Rightarrow> reply \<Rightarrow> bool" where
  "untar_answers v c r \<longleftrightarrow> (fst c = untar_from_memory \<longrightarrow> ret r = v)"

text \<open>The output: the exit code, and before it the checksum, the size and the name.\<close>

definition crc_output :: "val \<Rightarrow> (u8 list \<times> bool) option \<Rightarrow> u32 \<Rightarrow> val list list" where
  "crc_output v file junk =
    (if v \<noteq> VInt 0 then [[VInt 1]]
     else case file of
       None \<Rightarrow> [[VInt (uint junk), VInt 0, VStr ''/image.img''], [VInt 0]]
     | Some (bytes, err) \<Rightarrow>
         [[VInt (uint (crc32_spec bytes)), VInt (if err then - 1 else sint (word_of_nat (length bytes) :: int32)),
           VStr ''/image.img''], [VInt 0]])"

text \<open>
  C32: The CRC program exits with 1 when the archive cannot be unpacked, and otherwise prints the
  bitwise CRC-32 and the size of the image file and exits with 0; for a file that cannot be opened
  it prints its uninitialised checksum.
\<close>

theorem crc_program_prints:
  assumes "responsive K" "obeys K (untar_answers v)"
  shows "ends K crc_told (crc_Init files junk) () (crc_output v (files ''/image.img'') junk)"
proof -
  have "finishes (untar_answers v) crc_told (crc_Init files junk) (crc_output v (files ''/image.img'') junk)"
    by (simp add: crc_Init_def crc_told_def untar_answers_def Let_def crc32file_reference crc_output_def
        split: option.split prod.split)
  from finishes_exec [OF assms this] show ?thesis unfolding ends_def by blast
qed

text \<open>A file of nine bytes, the digits from 1 to 9, whose CRC is known.\<close>

definition check_file :: "string \<Rightarrow> (u8 list \<times> bool) option" where
  "check_file path = (if path = ''/image.img'' then Some ([49, 50, 51, 52, 53, 54, 55, 56, 57], False) else None)"

theorem crc_program_prints_witness:
  "ends silent_kernel crc_told (crc_Init check_file 0) ()
    [[VInt 0xCBF43926, VInt 9, VStr ''/image.img''], [VInt 0]]"
proof -
  have "obeys silent_kernel (untar_answers (VInt 0))"
    by (simp add: obeys_def silent_kernel_def untar_answers_def)
  note prints = crc_program_prints [OF silent_kernel_responsive this, of check_file 0]
  have "crc32_spec [49, 50, 51, 52, 53, 54, 55, 56, 57] = 0xCBF43926"
    by (simp add: crc32_spec_def UPDC32_def crc_32_tab_def flip: UPDC32_crc_byte)
  then show ?thesis using prints by (simp add: check_file_def crc_output_def)
qed

end
