(* ===== verification/Monitors.thy ===== *)
theory Monitors
  imports RT_Prog
begin

text \<open>
  Threads that share a mutex and a condition variable.  Every step of \<open>mstep\<close> is one access or one
  call of one thread; a call that waits for the condition gives the mutex back and takes it again
  before it returns.  \<open>vc\<close> is a program logic for such threads: the globals are accessed only by the
  thread that holds the mutex, and a resource invariant holds whenever nobody does.
\<close>

section \<open>Threads, one mutex and one condition\<close>

datatype role = Lock | Unlock | Wait | Wake | Destroy | Init | Other

definition role :: "sysfn \<Rightarrow> role" where
  "role f =
    (if f \<in> {mtx_lock, pthread_mutex_lock} then Lock
     else if f \<in> {mtx_unlock, pthread_mutex_unlock} then Unlock
     else if f \<in> {cnd_wait, pthread_cond_wait} then Wait
     else if f \<in> {cnd_signal, pthread_cond_signal} then Wake
     else if f \<in> {mtx_destroy, pthread_mutex_destroy} then Destroy
     else if f \<in> {mtx_init, pthread_mutex_init} then Init
     else Other)"

lemma role_simps [simp]:
  "role mtx_lock = Lock" "role mtx_unlock = Unlock" "role cnd_wait = Wait" "role cnd_signal = Wake"
  "role mtx_destroy = Destroy" "role mtx_init = Init" "role pthread_mutex_lock = Lock"
  "role pthread_mutex_unlock = Unlock" "role pthread_cond_wait = Wait" "role pthread_cond_signal = Wake"
  "role pthread_mutex_destroy = Destroy" "role pthread_mutex_init = Init" "role puts = Other"
  "role printf = Other" "role fprintf = Other" "role fputs = Other" "role assert_func = Other"
  "role sleep = Other" "role thrd_sleep = Other" "role thrd_yield = Other" "role thrd_create = Other"
  "role cnd_init = Other" "role cnd_destroy = Other" "role pthread_create = Other"
  "role pthread_cond_init = Other"
  by (simp_all add: role_def)

definition success :: "sysfn \<Rightarrow> reply" where
  "success f = Reply (case f of C11 _ \<Rightarrow> VRef ''thrd_success'' | _ \<Rightarrow> VInt 0) []"

lemma success_simps [simp]:
  "success (C11 f) = Reply (VRef ''thrd_success'') []" "success (Posix p) = Reply (VInt 0) []"
  by (simp_all add: success_def)

text \<open>A thread runs, or it waits for the condition, or it was woken and waits for the mutex.\<close>

datatype 'g thread = Running "('g, unit) prog" | Asleep "('g, unit) prog" | Woken "('g, unit) prog"

datatype mutex = Uninit | Free | Held nat

type_synonym log = "(nat \<times> syscall) list"
type_synonym 'g mstate = "'g thread list \<times> mutex \<times> 'g \<times> log"

text \<open>
  \<open>R\<close> restricts the replies of the calls that do not concern the mutex and the condition.  A signal
  wakes one of the threads that wait, if there is any; a thread may also wake without one, which
  POSIX and C11 allow.
\<close>

inductive mstep :: "(syscall \<Rightarrow> reply \<Rightarrow> bool) \<Rightarrow> 'g mstate \<Rightarrow> 'g mstate \<Rightarrow> bool" for R where
  MGet: "i < length ths \<Longrightarrow> ths ! i = Running (Get k) \<Longrightarrow>
    mstep R (ths, mu, g, h) (ths[i := Running (k g)], mu, g, h)"
| MPut: "i < length ths \<Longrightarrow> ths ! i = Running (Put u p) \<Longrightarrow>
    mstep R (ths, mu, g, h) (ths[i := Running p], mu, u g, h)"
| MLock: "i < length ths \<Longrightarrow> ths ! i = Running (Call f args k) \<Longrightarrow> role f = Lock \<Longrightarrow> mu = Free \<Longrightarrow>
    mstep R (ths, mu, g, h) (ths[i := Running (k (success f))], Held i, g, h @ [(i, f, args)])"
| MUnlock: "i < length ths \<Longrightarrow> ths ! i = Running (Call f args k) \<Longrightarrow> role f = Unlock \<Longrightarrow> mu = Held i \<Longrightarrow>
    mstep R (ths, mu, g, h) (ths[i := Running (k (success f))], Free, g, h @ [(i, f, args)])"
| MWait: "i < length ths \<Longrightarrow> ths ! i = Running (Call f args k) \<Longrightarrow> role f = Wait \<Longrightarrow> mu = Held i \<Longrightarrow>
    mstep R (ths, mu, g, h) (ths[i := Asleep (k (success f))], Free, g, h @ [(i, f, args)])"
| MSignal: "i < length ths \<Longrightarrow> ths ! i = Running (Call f args k) \<Longrightarrow> role f = Wake \<Longrightarrow>
    j < length ths \<Longrightarrow> ths ! j = Asleep p \<Longrightarrow>
    mstep R (ths, mu, g, h) (ths[i := Running (k (success f)), j := Woken p], mu, g, h @ [(i, f, args)])"
| MNobody: "i < length ths \<Longrightarrow> ths ! i = Running (Call f args k) \<Longrightarrow> role f = Wake \<Longrightarrow>
    \<forall>j<length ths. \<forall>p. ths ! j \<noteq> Asleep p \<Longrightarrow>
    mstep R (ths, mu, g, h) (ths[i := Running (k (success f))], mu, g, h @ [(i, f, args)])"
| MSpurious: "i < length ths \<Longrightarrow> ths ! i = Asleep p \<Longrightarrow>
    mstep R (ths, mu, g, h) (ths[i := Woken p], mu, g, h)"
| MResume: "i < length ths \<Longrightarrow> ths ! i = Woken p \<Longrightarrow> mu = Free \<Longrightarrow>
    mstep R (ths, mu, g, h) (ths[i := Running p], Held i, g, h)"
| MInit: "i < length ths \<Longrightarrow> ths ! i = Running (Call f args k) \<Longrightarrow> role f = Init \<Longrightarrow> mu = Uninit \<Longrightarrow>
    mstep R (ths, mu, g, h) (ths[i := Running (k (success f))], Free, g, h @ [(i, f, args)])"
| MDestroy: "i < length ths \<Longrightarrow> ths ! i = Running (Call f args k) \<Longrightarrow> role f = Destroy \<Longrightarrow> mu = Free \<Longrightarrow>
    mstep R (ths, mu, g, h) (ths[i := Running (k (success f))], Uninit, g, h @ [(i, f, args)])"
| MOther: "i < length ths \<Longrightarrow> ths ! i = Running (Call f args k) \<Longrightarrow> role f = Other \<Longrightarrow> R (f, args) r \<Longrightarrow>
    mstep R (ths, mu, g, h) (ths[i := Running (k r)], mu, g, h @ [(i, f, args)])"

text \<open>The calls of one thread.\<close>

definition log_of :: "nat \<Rightarrow> log \<Rightarrow> syscall list" where
  "log_of i h = map snd (filter (\<lambda>e. fst e = i) h)"

lemma log_of_simps [simp]:
  "log_of i [] = []"
  "log_of i (h @ [(j, c)]) = log_of i h @ (if j = i then [c] else [])"
  by (simp_all add: log_of_def)

definition asleep :: "'g thread list \<Rightarrow> nat set" where
  "asleep ths = {i. i < length ths \<and> (\<exists>p. ths ! i = Asleep p)}"

lemma asleep_update:
  "i < length ths \<Longrightarrow> asleep (ths[i := t]) = (if \<exists>p. t = Asleep p then insert i (asleep ths) else asleep ths - {i})"
  by (auto simp: asleep_def nth_list_update split: if_splits)

text \<open>A schedule, as the list of the threads that take the steps, determines a run.\<close>

datatype choice = Step nat | Waking nat nat | Spuriously nat

fun move :: "(syscall \<Rightarrow> reply) \<Rightarrow> choice \<Rightarrow> 'g mstate \<Rightarrow> 'g mstate option" where
  "move rep (Step i) (ths, mu, g, h) =
    (if length ths \<le> i then None else
     case ths ! i of
       Asleep p \<Rightarrow> None
     | Woken p \<Rightarrow> if mu = Free then Some (ths[i := Running p], Held i, g, h) else None
     | Running p \<Rightarrow>
        (case p of
           Get k \<Rightarrow> Some (ths[i := Running (k g)], mu, g, h)
         | Put u q \<Rightarrow> Some (ths[i := Running q], mu, u g, h)
         | Call f args k \<Rightarrow>
            (let go = \<lambda>t mu'. Some (ths[i := t], mu', g, h @ [(i, f, args)]); ok = k (success f) in
             case role f of
               Lock \<Rightarrow> if mu = Free then go (Running ok) (Held i) else None
             | Unlock \<Rightarrow> if mu = Held i then go (Running ok) Free else None
             | Wait \<Rightarrow> if mu = Held i then go (Asleep ok) Free else None
             | Wake \<Rightarrow> if asleep ths = {} then go (Running ok) mu else None
             | Init \<Rightarrow> if mu = Uninit then go (Running ok) Free else None
             | Destroy \<Rightarrow> if mu = Free then go (Running ok) Uninit else None
             | Other \<Rightarrow> go (Running (k (rep (f, args)))) mu)
         | _ \<Rightarrow> None))"
| "move rep (Waking i j) (ths, mu, g, h) =
    (if length ths \<le> i \<or> length ths \<le> j then None else
     case (ths ! i, ths ! j) of
       (Running (Call f args k), Asleep p) \<Rightarrow>
         if role f = Wake then Some (ths[i := Running (k (success f)), j := Woken p], mu, g, h @ [(i, f, args)]) else None
     | _ \<Rightarrow> None)"
| "move rep (Spuriously i) (ths, mu, g, h) =
    (if length ths \<le> i then None else
     case ths ! i of Asleep p \<Rightarrow> Some (ths[i := Woken p], mu, g, h) | _ \<Rightarrow> None)"

primrec moves :: "(syscall \<Rightarrow> reply) \<Rightarrow> choice list \<Rightarrow> 'g mstate \<Rightarrow> 'g mstate option" where
  "moves rep [] c = Some c"
| "moves rep (x # xs) c = do { c' \<leftarrow> move rep x c; moves rep xs c' }"

lemma nobody_asleep: "asleep ths = {} \<Longrightarrow> \<forall>j<length ths. \<forall>p. ths ! j \<noteq> Asleep p"
  by (auto simp: asleep_def)

lemma move_call:
  assumes "move rep (Step i) (ths, mu, g, h) = Some c'" "R (f, args) (rep (f, args))"
    and "i < length ths" "ths ! i = Running (Call f args k)"
  shows "mstep R (ths, mu, g, h) c'"
proof (cases "role f")
  case Wake
  then have "asleep ths = {}" "c' = (ths[i := Running (k (success f))], mu, g, h @ [(i, f, args)])"
    using assms by (auto split: if_splits)
  then show ?thesis using MNobody [OF assms(3,4) Wake nobody_asleep] by simp
next
  case Other
  then have "c' = (ths[i := Running (k (rep (f, args)))], mu, g, h @ [(i, f, args)])" using assms by simp
  then show ?thesis using assms(2-4) Other by (auto intro!: MOther)
qed (use assms in \<open>auto split: if_splits intro: mstep.intros\<close>)

lemma move_mstep:
  assumes "move rep x c = Some c'" "\<And>c. R c (rep c)"
  shows "mstep R c c'"
proof (cases c)
  case (fields ths mu g h)
  show ?thesis
  proof (cases x)
    case (Step i)
    then have i: "i < length ths" using assms fields by (auto split: if_splits)
    show ?thesis
    proof (cases "ths ! i")
      case (Running p)
      then show ?thesis using assms fields Step i move_call [OF _ _ i]
        by (cases p) (auto simp del: move.simps simp: move.simps(1) intro: mstep.intros)
    qed (use assms fields Step i in \<open>auto split: if_splits intro: mstep.intros\<close>)
  next
    case (Waking i j)
    then have m: "move rep (Waking i j) (ths, mu, g, h) = Some c'" and ij: "i < length ths" "j < length ths"
      using assms(1) fields by (auto split: if_splits)
    obtain f args k where i: "ths ! i = Running (Call f args k)" "role f = Wake"
      using m ij by (cases "ths ! i") (auto split: prog.splits thread.splits if_splits)
    obtain p where j: "ths ! j = Asleep p" using m ij i by (cases "ths ! j") auto
    then show ?thesis using m ij i fields MSignal [OF ij(1) i ij(2) j] by auto
  next
    case (Spuriously i)
    then show ?thesis using assms fields by (auto split: if_splits thread.splits intro: mstep.intros)
  qed
qed

lemma moves_mstep:
  assumes "moves rep xs c = Some c'" "\<And>c. R c (rep c)"
  shows "(mstep R)\<^sup>*\<^sup>* c c'"
  using assms(1)
proof (induction xs arbitrary: c)
  case (Cons x xs)
  then obtain c1 where "move rep x c = Some c1" "moves rep xs c1 = Some c'"
    by (auto simp: bind_eq_Some_conv)
  then show ?case using move_mstep [where R = R and rep = rep] assms(2) Cons.IH by (meson converse_rtranclp_into_rtranclp)
qed simp

section \<open>The logic\<close>

text \<open>
  The thread that holds the mutex knows the globals, the ghost values of all threads and a bound of
  the set of threads that wait; the others know only their own ghost value.  \<open>I g l S\<close> is the
  resource invariant over the globals, the ghost values and the waiting threads, \<open>J i s t\<close> relates
  the ghost value of thread \<open>i\<close> to its calls.
\<close>

type_synonym ('g, 's) mode = "('g \<times> (nat \<Rightarrow> 's) \<times> nat set) option"

definition woken_set :: "nat set \<Rightarrow> nat set \<Rightarrow> bool" where
  "woken_set S S' \<longleftrightarrow> (S = {} \<and> S' = {}) \<or> (\<exists>j\<in>S. S' = S - {j})"

primrec vc :: "('g \<Rightarrow> (nat \<Rightarrow> 's) \<Rightarrow> nat set \<Rightarrow> bool) \<Rightarrow> (nat \<Rightarrow> 's \<Rightarrow> syscall list \<Rightarrow> bool) \<Rightarrow>
    (syscall \<Rightarrow> reply \<Rightarrow> bool) \<Rightarrow> nat \<Rightarrow> ('g, 'a) prog \<Rightarrow> ('g, 's) mode \<Rightarrow> 's \<Rightarrow> syscall list \<Rightarrow>
    ('a \<Rightarrow> ('g, 's) mode \<Rightarrow> 's \<Rightarrow> syscall list \<Rightarrow> bool) \<Rightarrow> bool" where
  "vc I J R i (Ret x) m s t Q = Q x m s t"
| "vc I J R i Halt m s t Q = True"
| "vc I J R i Cut m s t Q = True"
| "vc I J R i (Call f args k) m s t Q =
    (case role f of
       Lock \<Rightarrow> m = None \<and> J i s (t @ [(f, args)]) \<and>
         (\<forall>g l S. l i = s \<longrightarrow> I g l S \<longrightarrow> vc I J R i (k (success f)) (Some (g, l, S)) s (t @ [(f, args)]) Q)
     | Unlock \<Rightarrow> (\<exists>g l S s'. m = Some (g, l, S) \<and> I g (l(i := s')) S \<and> J i s' (t @ [(f, args)]) \<and>
         vc I J R i (k (success f)) None s' (t @ [(f, args)]) Q)
     | Wait \<Rightarrow> (\<exists>g l S s'. m = Some (g, l, S) \<and> I g (l(i := s')) (insert i S) \<and> J i s' (t @ [(f, args)]) \<and>
         (\<forall>g l S. l i = s' \<longrightarrow> I g l S \<longrightarrow> vc I J R i (k (success f)) (Some (g, l, S)) s' (t @ [(f, args)]) Q))
     | Wake \<Rightarrow> J i s (t @ [(f, args)]) \<and>
         (case m of None \<Rightarrow> vc I J R i (k (success f)) None s (t @ [(f, args)]) Q
          | Some (g, l, S) \<Rightarrow>
              (\<forall>S'. woken_set S S' \<longrightarrow> vc I J R i (k (success f)) (Some (g, l, S')) s (t @ [(f, args)]) Q))
     | Destroy \<Rightarrow> m = None \<and> J i s (t @ [(f, args)]) \<and> vc I J R i (k (success f)) None s (t @ [(f, args)]) Q
     | Init \<Rightarrow> False
     | Other \<Rightarrow> J i s (t @ [(f, args)]) \<and>
         (\<forall>r. R (f, args) r \<longrightarrow> vc I J R i (k r) m s (t @ [(f, args)]) Q))"
| "vc I J R i (Get k) m s t Q = (\<exists>g l S. m = Some (g, l, S) \<and> vc I J R i (k g) m s t Q)"
| "vc I J R i (Put u p) m s t Q = (\<exists>g l S. m = Some (g, l, S) \<and> vc I J R i p (Some (u g, l, S)) s t Q)"

lemma vc_mono:
  "vc I J R i p m s t P \<Longrightarrow> (\<And>x m s t. P x m s t \<Longrightarrow> Q x m s t) \<Longrightarrow> vc I J R i p m s t Q"
proof (induction p arbitrary: m s t)
  case (Call f args k)
  have IH: "\<And>r m s t. vc I J R i (k r) m s t P \<Longrightarrow> vc I J R i (k r) m s t Q"
    using Call.IH [OF rangeI] Call.prems(2) by blast
  show ?case using Call.prems(1)
    by (cases "role f"; cases m) (auto dest!: IH intro: IH split: prod.splits, (blast intro: IH)+)
next
  case (Get k)
  show ?case using Get.IH [OF rangeI _ Get.prems(2)] Get.prems(1) by auto
next
  case (Put u p)
  show ?case using Put.IH [OF _ Put.prems(2)] Put.prems(1) by auto
qed auto

lemma vc_bindp:
  "vc I J R i p m s t (\<lambda>x m s t. vc I J R i (q x) m s t Q) \<Longrightarrow> vc I J R i (bindp p q) m s t Q"
proof (induction p arbitrary: m s t)
  case (Call f args k)
  let ?Q = "\<lambda>x m s t. vc I J R i (q x) m s t Q"
  have IH: "\<And>r m s t. vc I J R i (k r) m s t ?Q \<Longrightarrow> vc I J R i (bindp (k r) q) m s t Q"
    using Call.IH [OF rangeI] by blast
  show ?case using Call.prems
    by (cases "role f"; cases m) (auto dest!: IH intro: IH split: prod.splits, (blast intro: IH)+)
qed auto

lemma vc_for_each:
  assumes "\<And>x l m s t. x \<in> set xs \<Longrightarrow> P l m s t \<Longrightarrow> vc I J R i (body x l) m s t P" "P l m s t"
  shows "vc I J R i (for_each xs body l) m s t P"
  using assms
proof (induction xs arbitrary: l m s t)
  case (Cons x xs)
  have "vc I J R i (body x l) m s t P" using Cons.prems by simp
  then have "vc I J R i (body x l) m s t (\<lambda>l m s t. vc I J R i (for_each xs body l) m s t P)"
    by (rule vc_mono) (rule Cons.IH, use Cons.prems in auto)
  then show ?case by (simp add: vc_bindp)
qed simp

lemma vc_forever:
  assumes "\<And>x m s t. P x m s t \<Longrightarrow> vc I J R i (body x) m s t P" "P x m s t"
  shows "vc I J R i (forever n body x) m s t Q"
  using assms(2)
proof (induction n arbitrary: x m s t)
  case (Suc n)
  have "vc I J R i (body x) m s t (\<lambda>x m s t. vc I J R i (forever n body x) m s t Q)"
    using vc_mono [OF assms(1) [OF Suc.prems] Suc.IH] .
  then show ?case by (simp add: vc_bindp)
qed simp

section \<open>Soundness\<close>

definition resumes :: "('g \<Rightarrow> (nat \<Rightarrow> 's) \<Rightarrow> nat set \<Rightarrow> bool) \<Rightarrow> (nat \<Rightarrow> 's \<Rightarrow> syscall list \<Rightarrow> bool) \<Rightarrow>
    (syscall \<Rightarrow> reply \<Rightarrow> bool) \<Rightarrow> nat \<Rightarrow> ('g, unit) prog \<Rightarrow> 's \<Rightarrow> syscall list \<Rightarrow> bool" where
  "resumes I J R i p s t \<longleftrightarrow>
    (\<forall>g l S. l i = s \<longrightarrow> I g l S \<longrightarrow> vc I J R i p (Some (g, l, S)) s t (\<lambda>_ _ _ _. True))"

primrec follows :: "('g \<Rightarrow> (nat \<Rightarrow> 's) \<Rightarrow> nat set \<Rightarrow> bool) \<Rightarrow> (nat \<Rightarrow> 's \<Rightarrow> syscall list \<Rightarrow> bool) \<Rightarrow>
    (syscall \<Rightarrow> reply \<Rightarrow> bool) \<Rightarrow> nat \<Rightarrow> ('g, 's) mode \<Rightarrow> 's \<Rightarrow> syscall list \<Rightarrow> 'g thread \<Rightarrow> bool" where
  "follows I J R i m s t (Running p) = vc I J R i p m s t (\<lambda>_ _ _ _. True)"
| "follows I J R i m s t (Asleep p) = (m = None \<and> resumes I J R i p s t)"
| "follows I J R i m s t (Woken p) = (m = None \<and> resumes I J R i p s t)"

definition mode_of :: "mutex \<Rightarrow> nat \<Rightarrow> 'g \<Rightarrow> (nat \<Rightarrow> 's) \<Rightarrow> nat set \<Rightarrow> ('g, 's) mode" where
  "mode_of mu i g l S = (if mu = Held i then Some (g, l, S) else None)"

fun minv :: "('g \<Rightarrow> (nat \<Rightarrow> 's) \<Rightarrow> nat set \<Rightarrow> bool) \<Rightarrow> (nat \<Rightarrow> 's \<Rightarrow> syscall list \<Rightarrow> bool) \<Rightarrow>
    (syscall \<Rightarrow> reply \<Rightarrow> bool) \<Rightarrow> 'g mstate \<Rightarrow> (nat \<Rightarrow> 's) \<Rightarrow> nat set \<Rightarrow> bool" where
  "minv I J R (ths, mu, g, h) l S \<longleftrightarrow>
    (\<exists>g0 S0. I g0 l S0) \<and> (\<forall>i<length ths. J i (l i) (log_of i h)) \<and>
    (mu = Free \<longrightarrow> I g l (asleep ths)) \<and> (\<forall>i. mu = Held i \<longrightarrow> i < length ths \<and> asleep ths \<subseteq> S) \<and>
    (\<forall>i<length ths. follows I J R i (mode_of mu i g l S) (l i) (log_of i h) (ths ! i))"

declare minv.simps [simp del]

lemma minv_update:
  assumes "minv I J R (ths, mu, g, h) l S" "i < length ths"
    and "\<And>j. j \<noteq> i \<Longrightarrow> mode_of mu' j g' (l(i := s')) S' = mode_of mu j g l S"
    and "\<exists>g0 S0. I g0 (l(i := s')) S0" "J i s' (log_of i h')" "\<And>j. j \<noteq> i \<Longrightarrow> log_of j h' = log_of j h"
    and "follows I J R i (mode_of mu' i g' (l(i := s')) S') s' (log_of i h') T'"
    and "mu' = Free \<Longrightarrow> I g' (l(i := s')) (asleep (ths[i := T']))"
    and "\<And>j. mu' = Held j \<Longrightarrow> j < length ths \<and> asleep (ths[i := T']) \<subseteq> S'"
  shows "minv I J R (ths[i := T'], mu', g', h') (l(i := s')) S'"
proof -
  have "J j ((l(i := s')) j) (log_of j h')" if "j < length ths" for j
    using assms(1,5,6) that by (cases "j = i") (auto simp: minv.simps)
  moreover have "follows I J R j (mode_of mu' j g' (l(i := s')) S') ((l(i := s')) j) (log_of j h') (ths[i := T'] ! j)"
    if "j < length ths" for j
    using assms(1,2,3,6,7) that by (cases "j = i") (auto simp: minv.simps)
  ultimately show ?thesis using assms(4,8,9) by (simp add: minv.simps del: fun_upd_apply)
qed

lemma mode_of_other: "mu = Held i \<Longrightarrow> j \<noteq> i \<Longrightarrow> mode_of mu j g l S = None"
  by (simp add: mode_of_def)

lemma running_not_asleep: "ths ! i = Running p \<Longrightarrow> i \<notin> asleep ths"
  by (auto simp: asleep_def)

locale monitor =
  fixes I :: "'g \<Rightarrow> (nat \<Rightarrow> 's) \<Rightarrow> nat set \<Rightarrow> bool"
    and J :: "nat \<Rightarrow> 's \<Rightarrow> syscall list \<Rightarrow> bool"
    and R :: "syscall \<Rightarrow> reply \<Rightarrow> bool"
  assumes antitone: "I g l S \<Longrightarrow> S' \<subseteq> S \<Longrightarrow> I g l S'"
begin

lemma running:
  assumes "minv I J R (ths, mu, g, h) l S" "i < length ths" "ths ! i = Running p"
  shows "vc I J R i p (mode_of mu i g l S) (l i) (log_of i h) (\<lambda>_ _ _ _. True)"
  using assms by (metis minv.simps follows.simps(1))

lemma wakes:
  assumes "minv I J R (ths, mu, g, h) l S" "j < length ths" "ths ! j = Asleep p"
  shows "minv I J R (ths[j := Woken p], mu, g, h) l S"
proof -
  have ok: "mode_of mu j g l S = None" "resumes I J R j p (l j) (log_of j h)"
    using assms by (metis minv.simps follows.simps(2))+
  have a: "asleep (ths[j := Woken p]) \<subseteq> asleep ths" using assms(2) by (simp add: asleep_update)
  have "minv I J R (ths[j := Woken p], mu, g, h) (l(j := l j)) S"
    by (rule minv_update [OF assms(1,2)]) (use assms ok a antitone [OF _ a] in \<open>auto simp: minv.simps\<close>)
  then show ?thesis by simp
qed

lemma runs_on:
  assumes "minv I J R (ths, mu, g, h) l S" "i < length ths" "ths ! i = Running p"
    and "J i (l i) (log_of i h')" "\<And>j. j \<noteq> i \<Longrightarrow> log_of j h' = log_of j h"
    and "vc I J R i p' (mode_of mu i g l S) (l i) (log_of i h') (\<lambda>_ _ _ _. True)"
  shows "minv I J R (ths[i := Running p'], mu, g, h') l S"
proof -
  have a: "asleep (ths[i := Running p']) = asleep ths"
    using assms(2) running_not_asleep [OF assms(3)] by (simp add: asleep_update)
  have "minv I J R (ths[i := Running p'], mu, g, h') (l(i := l i)) S"
    by (rule minv_update [OF assms(1,2)]) (use assms a in \<open>auto simp: minv.simps\<close>)
  then show ?thesis by simp
qed

lemma locks:
  assumes "minv I J R (ths, Free, g, h) l S" "i < length ths"
    and "\<And>p. ths ! i \<noteq> Asleep p" "J i (l i) (log_of i h')" "\<And>j. j \<noteq> i \<Longrightarrow> log_of j h' = log_of j h"
    and "\<And>g l' S. l' i = l i \<Longrightarrow> I g l' S \<Longrightarrow> vc I J R i p' (Some (g, l', S)) (l i) (log_of i h') (\<lambda>_ _ _ _. True)"
  shows "minv I J R (ths[i := Running p'], Held i, g, h') l (asleep ths)"
proof -
  have a: "asleep (ths[i := Running p']) \<subseteq> asleep ths" using assms(2) by (auto simp: asleep_update)
  have ig: "I g l (asleep ths)" using assms(1) by (simp add: minv.simps)
  have "minv I J R (ths[i := Running p'], Held i, g, h') (l(i := l i)) (asleep ths)"
    by (rule minv_update [OF assms(1,2)]) (use assms a ig in \<open>auto simp: minv.simps mode_of_def\<close>)
  then show ?thesis by simp
qed

lemma unlocks:
  assumes "minv I J R (ths, Held i, g, h) l S" "i < length ths" "ths ! i = Running p"
    and "I g (l(i := s')) (asleep (ths[i := T']))" "J i s' (log_of i h')" "\<And>j. j \<noteq> i \<Longrightarrow> log_of j h' = log_of j h"
    and "follows I J R i None s' (log_of i h') T'"
  shows "minv I J R (ths[i := T'], Free, g, h') (l(i := s')) S"
  by (rule minv_update [OF assms(1,2)]) (use assms in \<open>auto simp: minv.simps mode_of_def\<close>)

lemma held_sleepers:
  assumes "minv I J R (ths, Held i, g, h) l S"
  shows "asleep ths \<subseteq> S"
  using assms by (simp add: minv.simps)

lemma minv_wake:
  assumes "minv I J R (ths, mu, g, h) l S" "i < length ths" "ths ! i = Running (Call f args k)" "role f = Wake"
    and "minv I J R (ths', mu, g, h) l S" "length ths' = length ths" "ths' ! i = Running (Call f args k)"
    and "mu = Held i \<Longrightarrow> \<exists>S'. woken_set S S' \<and> asleep ths' \<subseteq> S'"
  shows "\<exists>S. minv I J R (ths'[i := Running (k (success f))], mu, g, h @ [(i, f, args)]) l S"
proof (cases "mu = Held i")
  case True
  then obtain S' where S': "woken_set S S'" "asleep ths' \<subseteq> S'" using assms(8) by blast
  have v: "J i (l i) (log_of i h @ [(f, args)])"
    "vc I J R i (k (success f)) (Some (g, l, S')) (l i) (log_of i h @ [(f, args)]) (\<lambda>_ _ _ _. True)"
    using running [OF assms(1-3)] assms(4) S'(1) True by (auto simp: mode_of_def)
  have a: "asleep (ths'[i := Running (k (success f))]) \<subseteq> S'"
    using assms(2,6) S'(2) by (auto simp: asleep_update)
  have "minv I J R (ths'[i := Running (k (success f))], mu, g, h @ [(i, f, args)]) (l(i := l i)) S'"
    by (rule minv_update [OF assms(5)]) (use assms v a True in \<open>auto simp: minv.simps mode_of_def\<close>)
  then have "minv I J R (ths'[i := Running (k (success f))], mu, g, h @ [(i, f, args)]) l S'"
    by (simp only: fun_upd_triv)
  then show ?thesis by blast
next
  case False
  then have v: "J i (l i) (log_of i h @ [(f, args)])"
    "vc I J R i (k (success f)) (mode_of mu i g l S) (l i) (log_of i h @ [(f, args)]) (\<lambda>_ _ _ _. True)"
    using running [OF assms(1-3)] assms(4) by (auto simp: mode_of_def)
  then have "minv I J R (ths'[i := Running (k (success f))], mu, g, h @ [(i, f, args)]) l S"
    using runs_on [OF assms(5)] assms(2,6,7) by simp
  then show ?thesis by blast
qed

lemma minv_step:
  assumes "mstep R c c'" "minv I J R c l S"
  shows "\<exists>l S. minv I J R c' l S"
  using assms
proof (induction rule: mstep.induct)
  case (MGet i ths k mu g h)
  have "vc I J R i (k g) (mode_of mu i g l S) (l i) (log_of i h) (\<lambda>_ _ _ _. True)"
    using running [OF MGet.prems MGet.hyps] by (auto simp: mode_of_def split: if_splits)
  moreover have "J i (l i) (log_of i h)" using MGet by (simp add: minv.simps)
  ultimately show ?case using runs_on [OF MGet.prems MGet.hyps] by blast
next
  case (MPut i ths u p mu g h)
  have v: "mu = Held i" "vc I J R i p (Some (u g, l, S)) (l i) (log_of i h) (\<lambda>_ _ _ _. True)"
    using running [OF MPut.prems MPut.hyps] by (auto simp: mode_of_def split: if_splits)
  have a: "asleep (ths[i := Running p]) = asleep ths"
    using MPut.hyps running_not_asleep [OF MPut.hyps(2)] by (simp add: asleep_update)
  have "minv I J R (ths[i := Running p], mu, u g, h) (l(i := l i)) S"
    by (rule minv_update [OF MPut.prems MPut.hyps(1)]) (use MPut v a in \<open>auto simp: minv.simps mode_of_def\<close>)
  then show ?case by blast
next
  case (MLock i ths f args k mu g h)
  have "J i (l i) (log_of i h @ [(f, args)]) \<and> (\<forall>g l' S. l' i = l i \<longrightarrow> I g l' S \<longrightarrow>
      vc I J R i (k (success f)) (Some (g, l', S)) (l i) (log_of i h @ [(f, args)]) (\<lambda>_ _ _ _. True))"
    using running [OF MLock.prems MLock.hyps(1,2)] MLock.hyps(3,4) by (simp add: mode_of_def)
  then have "minv I J R (ths[i := Running (k (success f))], Held i, g, h @ [(i, f, args)]) l (asleep ths)"
    using MLock by (intro locks) auto
  then show ?case by blast
next
  case (MUnlock i ths f args k mu g h)
  obtain s' where s': "I g (l(i := s')) S" "J i s' (log_of i h @ [(f, args)])"
    "vc I J R i (k (success f)) None s' (log_of i h @ [(f, args)]) (\<lambda>_ _ _ _. True)"
    using running [OF MUnlock.prems MUnlock.hyps(1,2)] MUnlock.hyps(3,4) by (auto simp: mode_of_def)
  have m: "minv I J R (ths, Held i, g, h) l S" using MUnlock by simp
  have "asleep (ths[i := Running (k (success f))]) \<subseteq> S"
    using held_sleepers [OF m] MUnlock.hyps(1) by (auto simp: asleep_update)
  then have "minv I J R (ths[i := Running (k (success f))], Free, g, h @ [(i, f, args)]) (l(i := s')) S"
    using unlocks [OF m MUnlock.hyps(1,2)] s' antitone [OF s'(1)] by simp
  then show ?case by blast
next
  case (MWait i ths f args k mu g h)
  obtain s' where s': "I g (l(i := s')) (insert i S)" "J i s' (log_of i h @ [(f, args)])"
    "resumes I J R i (k (success f)) s' (log_of i h @ [(f, args)])"
    using running [OF MWait.prems MWait.hyps(1,2)] MWait.hyps(3,4) by (auto simp: mode_of_def resumes_def)
  have m: "minv I J R (ths, Held i, g, h) l S" using MWait by simp
  have "asleep (ths[i := Asleep (k (success f))]) \<subseteq> insert i S"
    using held_sleepers [OF m] MWait.hyps(1) by (auto simp: asleep_update)
  then have "minv I J R (ths[i := Asleep (k (success f))], Free, g, h @ [(i, f, args)]) (l(i := s')) S"
    using unlocks [OF m MWait.hyps(1,2)] s' antitone [OF s'(1)] by simp
  then show ?case by blast
next
  case (MSignal i ths f args k j p mu g h)
  have ij: "i \<noteq> j" using MSignal.hyps by auto
  have w: "minv I J R (ths[j := Woken p], mu, g, h) l S" using wakes MSignal by blast
  have "\<exists>S'. woken_set S S' \<and> asleep (ths[j := Woken p]) \<subseteq> S'" if "mu = Held i"
  proof -
    have "asleep ths \<subseteq> S" using that MSignal.prems held_sleepers by blast
    moreover have "j \<in> asleep ths" using MSignal.hyps(4,5) by (simp add: asleep_def)
    ultimately have "asleep ths \<subseteq> S" "j \<in> S" by auto
    then show ?thesis using MSignal.hyps(4) by (intro exI [of _ "S - {j}"]) (auto simp: woken_set_def asleep_update)
  qed
  from minv_wake [OF MSignal.prems MSignal.hyps(1-3) w _ _ this]
  show ?case using ij MSignal.hyps(2) by (auto simp: list_update_swap)
next
  case (MNobody i ths f args k mu g h)
  have e: "asleep ths = {}" using MNobody.hyps(4) by (auto simp: asleep_def)
  have "\<exists>S'. woken_set S S' \<and> asleep ths \<subseteq> S'"
    by (cases "S = {}") (auto simp: e woken_set_def)
  from minv_wake [OF MNobody.prems MNobody.hyps(1-3) MNobody.prems _ _ this]
  show ?case using MNobody.hyps(2) by blast
next
  case (MSpurious i ths p mu g h)
  then show ?case using wakes by blast
next
  case (MResume i ths p mu g h)
  have r: "resumes I J R i p (l i) (log_of i h)" "J i (l i) (log_of i h)"
    using MResume by (metis minv.simps follows.simps(3))+
  have "minv I J R (ths[i := Running p], Held i, g, h) l (asleep ths)"
    using MResume r by (intro locks) (auto simp: resumes_def)
  then show ?case by blast
next
  case (MInit i ths f args k mu g h)
  then show ?case using running [OF MInit.prems MInit.hyps(1,2)] by simp
next
  case (MDestroy i ths f args k mu g h)
  have v: "J i (l i) (log_of i h @ [(f, args)])"
    "vc I J R i (k (success f)) None (l i) (log_of i h @ [(f, args)]) (\<lambda>_ _ _ _. True)"
    using running [OF MDestroy.prems MDestroy.hyps(1,2)] MDestroy.hyps(3,4) by (simp_all add: mode_of_def)
  have "minv I J R (ths[i := Running (k (success f))], Uninit, g, h @ [(i, f, args)]) (l(i := l i)) S"
    by (rule minv_update [OF MDestroy.prems MDestroy.hyps(1)]) (use MDestroy v in \<open>auto simp: minv.simps mode_of_def\<close>)
  then show ?case by blast
next
  case (MOther i ths f args k r mu g h)
  have v: "J i (l i) (log_of i h @ [(f, args)])"
    "vc I J R i (k r) (mode_of mu i g l S) (l i) (log_of i h @ [(f, args)]) (\<lambda>_ _ _ _. True)"
    using running [OF MOther.prems MOther.hyps(1,2)] MOther.hyps(3,4) by simp_all
  then have "minv I J R (ths[i := Running (k r)], mu, g, h @ [(i, f, args)]) l S"
    using runs_on [OF MOther.prems MOther.hyps(1,2)] by simp
  then show ?case by blast
qed

text \<open>Whatever the threads do: the relations to the calls hold, and the resource invariant between them.\<close>

lemma sound:
  assumes "(mstep R)\<^sup>*\<^sup>* (map Running ps, Free, g, []) (ths, mu, g', h)"
    and "I g l {}" "\<And>i. i < length ps \<Longrightarrow> J i (l i) []"
    and "\<And>i. i < length ps \<Longrightarrow> vc I J R i (ps ! i) None (l i) [] (\<lambda>_ _ _ _. True)"
  shows "\<exists>l. (\<exists>g0 S0. I g0 l S0) \<and> (\<forall>i<length ths. J i (l i) (log_of i h)) \<and> (mu = Free \<longrightarrow> I g' l (asleep ths))"
proof -
  have e: "asleep (map Running ps) = {}" by (auto simp: asleep_def)
  have init: "\<exists>l S. minv I J R (map Running ps, Free, g, []) l S"
    using assms(2-4) by (intro exI [of _ l]) (auto simp: e mode_of_def minv.simps)
  have "\<exists>l S. minv I J R (ths, mu, g', h) l S" using assms(1)
  proof (induction rule: rtranclp_induct)
    case base
    then show ?case by (rule init)
  next
    case (step c c')
    then show ?case using minv_step by blast
  qed
  then show ?thesis by (auto simp: minv.simps)
qed

end

end
