(* ===== verification/C11_Buffer.thy ===== *)
theory C11_Buffer
  imports Monitors RT_Runs
begin

text \<open>
  The condition variable example \<open>c11/c11_cndvar01/test.c\<close>: a buffer of one value, -1 when empty,
  behind a mutex and a condition variable; \<open>main\<close> puts three values, \<open>Thread1\<close> gets them for ever.
  A put does not wait for the buffer to be empty.  The assertions inside the two functions assign
  instead of comparing, so they ask only whether \<open>thrd_success\<close>, which the C library defines, is not
  zero: the argument \<open>ts\<close>.
\<close>

abbreviation THRD_SUCCESS :: val where
  "THRD_SUCCESS \<equiv> VRef ''thrd_success''"

abbreviation buffer_mutex :: val where
  "buffer_mutex \<equiv> VRef ''&buffer_mutex''"

abbreviation buffer_cnd :: val where
  "buffer_cnd \<equiv> VRef ''&buffer_cnd''"

record buffer_vars =
  thread1 :: val
  buffer_value :: int

section \<open>The program\<close>

definition buffer_init :: "(buffer_vars, unit) prog" where
  "buffer_init =
     Do puts [VStr ''buffer - mtx_init()''] (
     Call mtx_init [buffer_mutex, VRef ''mtx_timed''] (\<lambda>r.
     asserting (ret r = THRD_SUCCESS) (
     Do puts [VStr ''buffer - cnd_init()''] (
     Call cnd_init [buffer_cnd] (\<lambda>r.
     asserting (ret r = THRD_SUCCESS) (
     Put (\<lambda>g. g\<lparr>buffer_value := - 1\<rparr>) (
     Ret ())))))))"

definition buffer_destroy :: "(buffer_vars, unit) prog" where
  "buffer_destroy =
     Do puts [VStr ''buffer - mtx_destroy()''] (
     Do mtx_destroy [buffer_mutex] (
     Do puts [VStr ''buffer - cnd_destroy()''] (
     Do cnd_destroy [buffer_cnd] (
     Ret ()))))"

text \<open>\<open>while (buffer_value == -1)\<close>, for at most \<open>w\<close> waits.\<close>

primrec wait_for_value :: "bool \<Rightarrow> nat \<Rightarrow> (buffer_vars, unit) prog" where
  "wait_for_value ts 0 = Get (\<lambda>g. if buffer_value g = - 1 then Cut else Ret ())"
| "wait_for_value ts (Suc w) =
     Get (\<lambda>g.
     if buffer_value g = - 1 then
       Call cnd_wait [buffer_cnd, buffer_mutex] (\<lambda>r.
       asserting ts (
       wait_for_value ts w))
     else Ret ())"

definition buffer_get :: "bool \<Rightarrow> nat \<Rightarrow> (buffer_vars, int) prog" where
  "buffer_get ts w =
     Call mtx_lock [buffer_mutex] (\<lambda>r.
     asserting (ret r = THRD_SUCCESS) (
     bindp (wait_for_value ts w) (\<lambda>_.
     Get (\<lambda>g.
     let value = buffer_value g in
     Put (\<lambda>g. g\<lparr>buffer_value := - 1\<rparr>) (
     Call mtx_unlock [buffer_mutex] (\<lambda>r.
     asserting (ret r = THRD_SUCCESS) (
     Ret value)))))))"

definition buffer_put :: "bool \<Rightarrow> int \<Rightarrow> (buffer_vars, unit) prog" where
  "buffer_put ts value =
     Call mtx_lock [buffer_mutex] (\<lambda>r.
     asserting (ret r = THRD_SUCCESS) (
     Get (\<lambda>g.
     let old_value = buffer_value g in
     Put (\<lambda>g. g\<lparr>buffer_value := value\<rparr>) (
     bindp
       (if old_value = - 1 then Call cnd_signal [buffer_cnd] (\<lambda>r. asserting ts (Ret ()))
        else Ret ()) (\<lambda>_.
     Call mtx_unlock [buffer_mutex] (\<lambda>r.
     asserting (ret r = THRD_SUCCESS) (
     Ret ())))))))"

definition Thread1_Body :: "bool \<Rightarrow> nat \<Rightarrow> nat \<Rightarrow> (buffer_vars, unit) prog" where
  "Thread1_Body ts w n =
     Do puts [VStr ''Thread1 - Loop for values''] (
     forever n (\<lambda>_.
       bindp (buffer_get ts w) (\<lambda>value.
       Do printf [VStr ''Thread1 value = %d\<newline>'', VInt value] (
       Ret ()))) ())"

text \<open>
  \<open>main\<close> in three parts: the creation of the thread, the initialization of the buffer, and the rest
  from the yield on.
\<close>

definition cndvar_create :: "(buffer_vars, unit) prog" where
  "cndvar_create =
     Do puts [VStr ''*** START OF C11 CONDITION VARIABLE EXAMPLE ***''] (
     Do puts [VStr ''main - Create Thread1''] (
     Call thrd_create [VRef ''&thread1'', VRef ''Thread1_Body'', VRef ''&thread1''] (\<lambda>r.
     Put (\<lambda>g. g\<lparr>thread1 := out r 0 (thread1 g)\<rparr>) (
     asserting (ret r = THRD_SUCCESS) (
     Ret ())))))"

definition put_round :: "bool \<Rightarrow> nat \<Rightarrow> unit \<Rightarrow> (buffer_vars, unit) prog" where
  "put_round ts value _ =
     Do printf [VStr ''main - put value = %d\<newline>'', VInt (int value * 10)] (
     bindp (buffer_put ts (int value * 10)) (\<lambda>_.
     Do puts [VStr ''main - sleep to let Thread1 get the value''] (
     Call thrd_sleep [VOp ''timespec'' [VInt 1, VInt 0], VRef ''NULL''] (\<lambda>r.
     asserting (ret r = VInt 0) (
     Ret ())))))"

definition cndvar_rest :: "bool \<Rightarrow> (buffer_vars, int) prog" where
  "cndvar_rest ts =
     Do puts [VStr ''main - yield to Thread1''] (
     Do thrd_yield [] (
     bindp (for_each [1..<4] (put_round ts) ()) (\<lambda>_.
     bindp buffer_destroy (\<lambda>_.
     Do puts [VStr ''*** END OF C11 CONDITION VARIABLE EXAMPLE ***''] (
     Ret 0)))))"

definition cndvar_main :: "bool \<Rightarrow> (buffer_vars, int) prog" where
  "cndvar_main ts =
     bindp cndvar_create (\<lambda>_.
     bindp buffer_init (\<lambda>_.
     cndvar_rest ts))"

section \<open>Order and wake-ups\<close>

text \<open>The values that \<open>main\<close> announces and those that \<open>Thread1\<close> reports.\<close>

definition announced :: "syscall \<Rightarrow> int option" where
  "announced c = (case c of
     (Libc Printf, [VStr fmt, VInt v]) \<Rightarrow> if fmt = ''main - put value = %d\<newline>'' then Some v else None | _ \<Rightarrow> None)"

definition reported :: "syscall \<Rightarrow> int option" where
  "reported c = (case c of
     (Libc Printf, [VStr fmt, VInt v]) \<Rightarrow> if fmt = ''Thread1 value = %d\<newline>'' then Some v else None | _ \<Rightarrow> None)"

definition values_told :: "(syscall \<Rightarrow> int option) \<Rightarrow> syscall list \<Rightarrow> int list" where
  "values_told obs t = List.map_filter obs t"

lemma values_told_simps [simp]:
  "values_told obs [] = []"
  "values_told obs (c # t) = (case obs c of None \<Rightarrow> [] | Some v \<Rightarrow> [v]) @ values_told obs t"
  "values_told obs (t @ t') = values_told obs t @ values_told obs t'"
  by (simp_all add: values_told_def List.map_filter_def split: option.split)

definition no_failure :: "syscall list \<Rightarrow> bool" where
  "no_failure t \<longleftrightarrow> assert_func \<notin> fst ` set t"

lemma no_failure_simps [simp]:
  "no_failure []"
  "no_failure (c # t) \<longleftrightarrow> fst c \<noteq> assert_func \<and> no_failure t"
  "no_failure (t @ t') \<longleftrightarrow> no_failure t \<and> no_failure t'"
  by (auto simp: no_failure_def)

text \<open>The sleep is not interrupted.\<close>

definition sleep_law :: "syscall \<Rightarrow> reply \<Rightarrow> bool" where
  "sleep_law c r \<longleftrightarrow> (fst c = thrd_sleep \<longrightarrow> ret r = VInt 0)"

text \<open>
  The ghost values: what \<open>main\<close>, thread 0, has put, and what \<open>Thread1\<close>, thread 1, has taken.  What
  was taken, with what is in the buffer, is part of what was put, in order; and when \<open>Thread1\<close> waits
  for the condition the buffer is empty.
\<close>

definition buffer_inv :: "buffer_vars \<Rightarrow> (nat \<Rightarrow> int list) \<Rightarrow> nat set \<Rightarrow> bool" where
  "buffer_inv g l S \<longleftrightarrow>
    subseq (l 1 @ (if buffer_value g = - 1 then [] else [buffer_value g])) (l 0) \<and>
    S \<subseteq> {1} \<and> (1 \<in> S \<longrightarrow> buffer_value g = - 1)"

definition buffer_calls :: "nat \<Rightarrow> int list \<Rightarrow> syscall list \<Rightarrow> bool" where
  "buffer_calls i s t \<longleftrightarrow> no_failure t \<and>
    (i = 0 \<longrightarrow> prefix s (values_told announced t)) \<and> (i = 1 \<longrightarrow> prefix (values_told reported t) s)"

interpretation buf: monitor buffer_inv buffer_calls sleep_law
  by unfold_locales (auto simp: buffer_inv_def)

lemma buffer_calls_simps [simp]:
  "buffer_calls 0 s t \<longleftrightarrow> no_failure t \<and> prefix s (values_told announced t)"
  "buffer_calls (Suc 0) s t \<longleftrightarrow> no_failure t \<and> prefix (values_told reported t) s"
  by (auto simp: buffer_calls_def)

text \<open>Between its rounds a thread does not hold the mutex, and its ghost value is exactly what it told.\<close>

definition level :: "(syscall \<Rightarrow> int option) \<Rightarrow> 'a \<Rightarrow> (buffer_vars, int list) mode \<Rightarrow> int list \<Rightarrow> syscall list \<Rightarrow> bool" where
  "level obs x m s t \<longleftrightarrow> m = None \<and> no_failure t \<and> s = values_told obs t"

lemma announced_simps [simp]:
  "announced (printf, [VStr ''main - put value = %d\<newline>'', VInt v]) = Some v"
  "announced (puts, args) = None" "announced (C11 f, args) = None"
  by (simp_all add: announced_def)

lemma reported_simps [simp]:
  "reported (printf, [VStr ''Thread1 value = %d\<newline>'', VInt v]) = Some v"
  "reported (puts, args) = None" "reported (C11 f, args) = None"
  by (simp_all add: reported_def)

lemma woken_one: "woken_set S S' \<Longrightarrow> S \<subseteq> {Suc 0} \<Longrightarrow> S' = {}"
  unfolding woken_set_def by auto

lemma subseq_front: "subseq (xs @ ys) zs \<Longrightarrow> subseq xs zs"
  by (metis list_emb_prefix subseq_order.order_refl subseq_order.trans)

lemma vc_put:
  assumes "v \<noteq> - 1" "no_failure t" "values_told announced t = s @ [v]"
  shows "vc buffer_inv buffer_calls sleep_law 0 (buffer_put True v) None s t (level announced)"
  using assms
  by (auto simp: buffer_put_def asserting_def Let_def buffer_inv_def level_def
      dest: woken_one subseq_front intro!: exI)

lemma vc_put_round:
  assumes "level announced u m s t" "0 < v"
  shows "vc buffer_inv buffer_calls sleep_law 0 (put_round True v ()) m s t (level announced)"
proof -
  let ?t = "t @ [(printf, [VStr ''main - put value = %d\<newline>'', VInt (int v * 10)])]"
  have t: "no_failure ?t" "values_told announced ?t = s @ [int v * 10]" "m = None" "s = values_told announced t"
    using assms by (simp_all add: level_def)
  have "vc buffer_inv buffer_calls sleep_law 0 (buffer_put True (int v * 10)) None s ?t (level announced)"
    by (rule vc_put) (use assms t in auto)
  then have "vc buffer_inv buffer_calls sleep_law 0
     (bindp (buffer_put True (int v * 10)) (\<lambda>_. Do puts [VStr ''main - sleep to let Thread1 get the value''] (
       Call thrd_sleep [VOp ''timespec'' [VInt 1, VInt 0], VRef ''NULL''] (\<lambda>r. asserting (ret r = VInt 0) (Ret ())))))
     None s ?t (level announced)"
    by (rule vc_bindp [OF vc_mono])
       (auto simp: level_def asserting_def sleep_law_def)
  then show ?thesis using t by (simp add: put_round_def)
qed

lemma vc_rest:
  assumes "level announced u m s t"
  shows "vc buffer_inv buffer_calls sleep_law 0 (cndvar_rest True) m s t (level announced)"
proof -
  let ?t = "t @ [(puts, [VStr ''main - yield to Thread1'']), (thrd_yield, [])]"
  have t: "level announced () None s ?t" "m = None" "no_failure t" "s = values_told announced t"
    using assms by (simp_all add: level_def)
  have "vc buffer_inv buffer_calls sleep_law 0 (for_each [1..<4] (put_round True) ()) None s ?t (level announced)"
    by (rule vc_for_each [where P = "level announced"]) (use t(1) in \<open>auto intro: vc_put_round\<close>)
  then have "vc buffer_inv buffer_calls sleep_law 0
     (bindp (for_each [1..<4] (put_round True) ()) (\<lambda>_. bindp buffer_destroy (\<lambda>_.
       Do puts [VStr ''*** END OF C11 CONDITION VARIABLE EXAMPLE ***''] (Ret (0 :: int))))) None s ?t (level announced)"
    by (rule vc_bindp [OF vc_mono])
       (auto simp: level_def buffer_destroy_def)
  then show ?thesis using t by (simp add: cndvar_rest_def)
qed

text \<open>The other thread: after the wait, it holds the mutex and the buffer may be full.\<close>

definition holding :: "'a \<Rightarrow> (buffer_vars, int list) mode \<Rightarrow> int list \<Rightarrow> syscall list \<Rightarrow> bool" where
  "holding x m s t \<longleftrightarrow> no_failure t \<and> s = values_told reported t \<and>
    (\<exists>g l S. m = Some (g, l, S) \<and> l 1 = s \<and> buffer_inv g l S \<and> buffer_value g \<noteq> - 1)"

lemma vc_wait:
  assumes "no_failure t" "s = values_told reported t" "l 1 = s" "buffer_inv g l S"
  shows "vc buffer_inv buffer_calls sleep_law 1 (wait_for_value True w) (Some (g, l, S)) s t holding"
  using assms
proof (induction w arbitrary: g l S t)
  case 0
  then show ?case by (auto simp: holding_def)
next
  case (Suc w)
  have "buffer_value g \<noteq> - 1 \<Longrightarrow> holding () (Some (g, l, S)) s t"
    using Suc.prems by (auto simp: holding_def)
  moreover have "buffer_inv g (l(1 := s)) (insert 1 S)" if "buffer_value g = - 1"
    using Suc.prems that by (simp add: buffer_inv_def fun_upd_idem)
  moreover have "vc buffer_inv buffer_calls sleep_law 1 (wait_for_value True w) (Some (g', l', S')) s
      (t @ [(cnd_wait, [buffer_cnd, buffer_mutex])]) holding" if "l' 1 = s" "buffer_inv g' l' S'" for g' l' S'
    using Suc.IH [of "t @ [(cnd_wait, [buffer_cnd, buffer_mutex])]" l' g' S'] Suc.prems that by simp
  ultimately show ?case
    using Suc.prems by (auto simp: asserting_def intro!: exI [of _ s])
qed

lemma vc_get_round:
  assumes "level reported u m s t"
  shows "vc buffer_inv buffer_calls sleep_law 1
    (bindp (buffer_get True w) (\<lambda>value. Do printf [VStr ''Thread1 value = %d\<newline>'', VInt value] (Ret ())))
    m s t (level reported)"
proof -
  let ?t = "t @ [(mtx_lock, [buffer_mutex])]"
  have "vc buffer_inv buffer_calls sleep_law 1
     (bindp (wait_for_value True w) (\<lambda>_. Get (\<lambda>g. let value = buffer_value g in
       Put (\<lambda>g. g\<lparr>buffer_value := - 1\<rparr>) (Call mtx_unlock [buffer_mutex] (\<lambda>r.
       asserting (ret r = THRD_SUCCESS) (Do printf [VStr ''Thread1 value = %d\<newline>'', VInt value] (Ret ())))))))
     (Some (g, l, S)) s ?t (level reported)"
    if "l 1 = s" "buffer_inv g l S" for g l S
    using assms that
    by - (rule vc_bindp, rule vc_mono [OF vc_wait],
       auto simp: level_def holding_def asserting_def Let_def buffer_inv_def,
       (intro exI conjI, assumption, auto)+)
  moreover have "m = None" "no_failure t" "s = values_told reported t" using assms by (simp_all add: level_def)
  ultimately show ?thesis
    by (simp add: buffer_get_def asserting_def bindp_assoc bindp_if Let_def cong: if_cong)
qed

lemma vc_Thread1: "vc buffer_inv buffer_calls sleep_law 1 (Thread1_Body True w n) None [] [] (\<lambda>_ _ _ _. True)"
proof -
  have "vc buffer_inv buffer_calls sleep_law 1
    (forever n (\<lambda>_. bindp (buffer_get True w) (\<lambda>value.
       Do printf [VStr ''Thread1 value = %d\<newline>'', VInt value] (Ret ()))) () :: (buffer_vars, unit) prog)
    None [] [(puts, [VStr ''Thread1 - Loop for values''])] (\<lambda>_ _ _ _. True)"
    by (rule vc_forever [where P = "level reported", OF vc_get_round]) (auto simp: level_def)
  then show ?thesis by (simp add: Thread1_Body_def)
qed

lemma vc_main: "vc buffer_inv buffer_calls sleep_law 0 (bindp (cndvar_rest True) (\<lambda>_. Ret ())) None [] [] (\<lambda>_ _ _ _. True)"
  by (rule vc_bindp, rule vc_mono [OF vc_rest]) (auto simp: level_def)

text \<open>The state in which \<open>main\<close> gives \<open>Thread1\<close> its first chance to run.\<close>

definition at_the_yield :: "bool \<Rightarrow> nat \<Rightarrow> nat \<Rightarrow> buffer_vars \<Rightarrow> buffer_vars mstate" where
  "at_the_yield ts w n g =
    (map Running [bindp (cndvar_rest ts) (\<lambda>_. Ret ()), Thread1_Body ts w n], Free, g, [])"

lemma buffer_init_value:
  "exec K (bindp cndvar_create (\<lambda>_. buffer_init)) g0 [] = (Done (), g, h) \<Longrightarrow> buffer_value g = - 1"
  by (auto simp: cndvar_create_def buffer_init_def asserting_def split: option.splits if_splits)

lemma buffer_run:
  assumes "exec K (bindp cndvar_create (\<lambda>_. buffer_init)) g0 [] = (Done (), g, h0)"
    and "(mstep sleep_law)\<^sup>*\<^sup>* (at_the_yield True w n g) (ths, mu, g', h)"
  shows "\<exists>l. (\<exists>g0 S0. buffer_inv g0 l S0) \<and> (\<forall>i<length ths. buffer_calls i (l i) (log_of i h)) \<and>
    (mu = Free \<longrightarrow> buffer_inv g' l (asleep ths))"
proof (rule buf.sound [OF assms(2) [unfolded at_the_yield_def], where l = "\<lambda>_. []"])
  show "buffer_inv g (\<lambda>_. []) {}" using buffer_init_value [OF assms(1)] by (simp add: buffer_inv_def)
next
  fix i assume "i < length [bindp (cndvar_rest True) (\<lambda>_. Ret ()), Thread1_Body True w n]"
  then have "i = 0 \<or> i = 1" by auto
  then show "buffer_calls i [] []"
    and "vc buffer_inv buffer_calls sleep_law i ([bindp (cndvar_rest True) (\<lambda>_. Ret ()), Thread1_Body True w n] ! i)
      None [] [] (\<lambda>_ _ _ _. True)"
    using vc_main vc_Thread1 by auto
qed

lemma all_less_two: "(\<forall>i < (2::nat). P i) \<longleftrightarrow> P 0 \<and> P 1"
  by (auto simp: less_2_cases_iff)

lemma mstep_length: "mstep R c c' \<Longrightarrow> length (fst c') = length (fst c)"
  by (induction rule: mstep.induct) simp_all

lemma run_length: "(mstep R)\<^sup>*\<^sup>* c c' \<Longrightarrow> length (fst c') = length (fst c)"
  by (induction rule: rtranclp_induct) (auto dest: mstep_length)

text \<open>
  C8: In every interleaving of main and Thread1 from the yield on, with spurious wake-ups: the
  values that Thread1 reports are among those that main has announced, in the same order and none
  twice, and no assertion fails.
\<close>

theorem values_in_order:
  assumes "exec K (bindp cndvar_create (\<lambda>_. buffer_init)) g0 [] = (Done (), g, h0)"
    and "(mstep sleep_law)\<^sup>*\<^sup>* (at_the_yield True w n g) (ths, mu, g', h)"
  shows "subseq (values_told reported (log_of 1 h)) (values_told announced (log_of 0 h)) \<and> no_failure (log_of 0 h @ log_of 1 h)"
proof -
  obtain l g0' S0 where l: "buffer_inv g0' l S0" "\<forall>i<length ths. buffer_calls i (l i) (log_of i h)"
    using buffer_run [OF assms] by blast
  have n: "length ths = 2" using run_length [OF assms(2)] by (simp add: at_the_yield_def)
  have "prefix (l 0) (values_told announced (log_of 0 h))" "prefix (values_told reported (log_of 1 h)) (l 1)"
    "no_failure (log_of 0 h)" "no_failure (log_of 1 h)"
    using l(2) n by (auto simp: all_less_two)
  moreover have "subseq (l 1) (l 0)" using l(1) subseq_front by (auto simp: buffer_inv_def)
  ultimately show ?thesis by (auto dest: prefix_imp_subseq intro: subseq_order.trans)
qed

text \<open>
  C9: No wake-up is lost: whenever nobody holds the mutex and the buffer is full, no thread waits
  for the condition.
\<close>

theorem no_lost_wakeup:
  assumes "exec K (bindp cndvar_create (\<lambda>_. buffer_init)) g0 [] = (Done (), g, h0)"
    and "(mstep sleep_law)\<^sup>*\<^sup>* (at_the_yield True w n g) (ths, mu, g', h)"
    and "mu = Free" "buffer_value g' \<noteq> - 1"
  shows "asleep ths = {}"
  using buffer_run [OF assms(1,2)] assms(3,4) by (auto simp: buffer_inv_def)

section \<open>What goes wrong\<close>

text \<open>Static variables start as zero.  The state after \<open>thrd_create\<close>, before the buffer is initialized.\<close>

definition just_created :: "bool \<Rightarrow> nat \<Rightarrow> nat \<Rightarrow> buffer_vars mstate" where
  "just_created ts w n =
    (map Running [bindp buffer_init (\<lambda>_. bindp (cndvar_rest ts) (\<lambda>_. Ret ())), Thread1_Body ts w n],
     Uninit, \<lparr>thread1 = VInt 0, buffer_value = 0\<rparr>, [])"

definition plain_reply :: "syscall \<Rightarrow> reply" where
  "plain_reply c = Reply (VInt 0) []"

lemma plain_sleep: "sleep_law c (plain_reply c)"
  by (simp add: sleep_law_def plain_reply_def)

lemmas program_defs = buffer_init_def buffer_destroy_def buffer_get_def buffer_put_def Thread1_Body_def
  put_round_def cndvar_rest_def asserting_def Let_def log_of_def asleep_def plain_reply_def

text \<open>\<open>main\<close> puts a value, waking \<open>Thread1\<close> if it waits; \<open>Thread1\<close> takes it, reports it and waits again.\<close>

definition put_moves :: "bool \<Rightarrow> choice list" where
  "put_moves wakes =
    [Step 0, Step 0, Step 0, Step 0] @ (if wakes then [Waking 0 1] else []) @ [Step 0, Step 0, Step 0]"

definition get_moves :: "choice list" where
  "get_moves = replicate 9 (Step 1)"

definition started_buffer :: buffer_vars where
  "started_buffer = \<lparr>thread1 = VInt 1, buffer_value = - 1\<rparr>"

lemma early_moves:
  "\<exists>c. moves plain_reply (map Step [0, 0, 1, 1, 1, 1, 1, 1, 1]) (just_created True 0 1) = Some c \<and>
    values_told reported (log_of 1 (snd (snd (snd c)))) = [0] \<and> values_told announced (log_of 0 (snd (snd (snd c)))) = []"
  by (simp add: just_created_def program_defs)

lemma destroy_moves:
  "\<exists>c. moves plain_reply
      ([Step 0, Step 0] @ replicate 4 (Step 1) @ concat (replicate 3 (put_moves True @ get_moves)) @ [Step 0, Step 0])
      (at_the_yield True 1 4 started_buffer) = Some c \<and>
    values_told reported (log_of 1 (snd (snd (snd c)))) = [10, 20, 30] \<and>
    last (log_of 0 (snd (snd (snd c)))) = (mtx_destroy, [buffer_mutex]) \<and> 1 \<in> asleep (fst c)"
  by (simp add: at_the_yield_def started_buffer_def program_defs put_moves_def get_moves_def numeral_eq_Suc)

lemma overwrite_moves:
  "\<exists>c. moves plain_reply
      ([Step 0, Step 0] @ replicate 4 (Step 1) @ put_moves True @ put_moves False @ put_moves False @ replicate 6 (Step 1))
      (at_the_yield True 1 4 started_buffer) = Some c \<and>
    values_told reported (log_of 1 (snd (snd (snd c)))) = [30] \<and>
    values_told announced (log_of 0 (snd (snd (snd c)))) = [10, 20, 30]"
  by (simp add: at_the_yield_def started_buffer_def program_defs put_moves_def get_moves_def numeral_eq_Suc)

lemma moves_run:
  assumes "\<exists>c. moves plain_reply xs c0 = Some c \<and> P c"
  shows "\<exists>ths mu g h. (mstep sleep_law)\<^sup>*\<^sup>* c0 (ths, mu, g, h) \<and> P (ths, mu, g, h)"
  using assms moves_mstep [where R = sleep_law, OF _ plain_sleep] by (metis prod_cases4)

text \<open>
  
\<close>

theorem early_start_reads_zero:
  "\<exists>ths mu g h. (mstep sleep_law)\<^sup>*\<^sup>* (just_created True 0 1) (ths, mu, g, h) \<and>
    values_told reported (log_of 1 h) = [0] \<and> values_told announced (log_of 0 h) = []"
  using moves_run [OF early_moves] by simp

text \<open>
  
\<close>

theorem destroyed_in_use:
  "\<exists>ths mu g h. (mstep sleep_law)\<^sup>*\<^sup>* (at_the_yield True 1 4 started_buffer) (ths, mu, g, h) \<and>
    values_told reported (log_of 1 h) = [10, 20, 30] \<and>
    last (log_of 0 h) = (mtx_destroy, [buffer_mutex]) \<and> 1 \<in> asleep ths"
  using moves_run [OF destroy_moves] by simp

text \<open>
  
\<close>

theorem values_are_overwritten:
  "\<exists>ths mu g h. (mstep sleep_law)\<^sup>*\<^sup>* (at_the_yield True 1 4 started_buffer) (ths, mu, g, h) \<and>
    values_told reported (log_of 1 h) = [30] \<and> values_told announced (log_of 0 h) = [10, 20, 30]"
  using moves_run [OF overwrite_moves] by simp

section \<open>Examples\<close>

definition succeeding :: kernel where
  "succeeding h c = Some (Reply THRD_SUCCESS (if fst c = thrd_create then [VInt 1] else []))"

lemma started_by_main:
  "\<exists>h0. exec succeeding (bindp cndvar_create (\<lambda>_. buffer_init)) started_buffer [] = (Done (), started_buffer, h0)"
  by (simp add: cndvar_create_def buffer_init_def asserting_def succeeding_def started_buffer_def out_def)

theorem values_in_order_witness:
  "\<exists>h. values_told reported (log_of 1 h) = [30] \<and> subseq [30] (values_told announced (log_of 0 h))"
proof -
  obtain h0 where "exec succeeding (bindp cndvar_create (\<lambda>_. buffer_init)) started_buffer [] = (Done (), started_buffer, h0)"
    using started_by_main by blast
  moreover obtain ths mu g h where
    "(mstep sleep_law)\<^sup>*\<^sup>* (at_the_yield True 1 4 started_buffer) (ths, mu, g, h)" "values_told reported (log_of 1 h) = [30]"
    using moves_run [OF overwrite_moves] by auto
  ultimately show ?thesis using values_in_order by metis
qed

lemma full_moves:
  "\<exists>c. moves plain_reply ([Step 0, Step 0] @ replicate 4 (Step 1) @ put_moves True)
      (at_the_yield True 1 4 started_buffer) = Some c \<and>
    fst (snd c) = Free \<and> buffer_value (fst (snd (snd c))) = 10"
  by (simp add: at_the_yield_def started_buffer_def program_defs put_moves_def numeral_eq_Suc)

theorem no_lost_wakeup_witness:
  "\<exists>ths mu g h. (mstep sleep_law)\<^sup>*\<^sup>* (at_the_yield True 1 4 started_buffer) (ths, mu, g, h) \<and>
    buffer_value g = 10 \<and> asleep ths = {}"
proof -
  obtain h0 where "exec succeeding (bindp cndvar_create (\<lambda>_. buffer_init)) started_buffer [] = (Done (), started_buffer, h0)"
    using started_by_main by blast
  moreover obtain ths mu g h where
    "(mstep sleep_law)\<^sup>*\<^sup>* (at_the_yield True 1 4 started_buffer) (ths, mu, g, h)" "mu = Free" "buffer_value g = 10"
    using moves_run [OF full_moves] by auto
  ultimately show ?thesis using no_lost_wakeup [of succeeding started_buffer started_buffer h0 1 4 ths mu g h] by auto
qed

end
