(* ===== verification/Led_Posix.thy ===== *)
theory Led_Posix
  imports Monitors Led_Props
begin

text \<open>
  The LED examples with POSIX threads: \<open>led/posix_delay_sleep\<close>, \<open>led/posix_delay_nanosleep\<close>,
  \<open>led/posix_mutex_server\<close>, \<open>led/posix_cond_server\<close>, \<open>led/ratemon_cond_server\<close> and
  \<open>led/posix_message_server\<close> (each the file \<open>test.c\<close>).
\<close>

abbreviation Mutex :: val where "Mutex \<equiv> VRef ''&Mutex''"
abbreviation Condition :: val where "Condition \<equiv> VRef ''&Condition''"
abbreviation NULL :: val where "NULL \<equiv> VRef ''NULL''"

text \<open>A status that is not zero is printed and otherwise ignored.\<close>

definition unless_zero :: "reply \<Rightarrow> string \<Rightarrow> ('g, 'a) prog \<Rightarrow> ('g, 'a) prog" where
  "unless_zero r msg p = (if ret r = VInt 0 then p else Do fprintf [VRef ''stderr'', VStr msg, ret r] p)"

section \<open>The two blinkers\<close>

definition sleep_POSIX_Init :: "nat \<Rightarrow> (unit, unit) prog" where
  "sleep_POSIX_Init n =
     Do puts [VStr ''\<newline>\<newline>*** LED BLINKER -- sleep ***''] (
     LED_INIT (
     forever n (\<lambda>_.
       Do sleep [VInt 1] (
       LED_OFF (
       Do sleep [VInt 1] (
       LED_ON (
       Ret ()))))) ()))"

definition nanosleep_POSIX_Init :: "nat \<Rightarrow> (unit, unit) prog" where
  "nanosleep_POSIX_Init n =
     Do puts [VStr ''\<newline>\<newline>*** LED BLINKER -- nanosleep ***''] (
     LED_INIT (
     let delay = VOp ''timespec'' [VInt 1, VInt 0] in
     forever n (\<lambda>_.
       Do nanosleep [delay, NULL] (
       LED_OFF (
       Do nanosleep [delay, NULL] (
       LED_ON (
       Ret ()))))) ()))"

definition posix_delay_config :: config_macros where
  "posix_delay_config =
    [(CONFIGURE_APPLICATION_NEEDS_CONSOLE_DRIVER, defined),
     (CONFIGURE_APPLICATION_NEEDS_CLOCK_DRIVER, defined),
     (CONFIGURE_POSIX_INIT_THREAD_TABLE, defined),
     (CONFIGURE_MAXIMUM_POSIX_THREADS, VInt 1),
     (CONFIGURE_INIT, defined)]"

section \<open>\<open>posix_mutex_server\<close>\<close>

definition mutex_Server :: "nat \<Rightarrow> (unit, unit) prog" where
  "mutex_Server n =
     LED_INIT (
     forever n (\<lambda>_.
       Call pthread_mutex_lock [Mutex] (\<lambda>r.
       unless_zero r ''Server - lock did not work (%d)\<newline>'' (
       LED_ON (
       Do sleep [VInt 1] (
       Call pthread_mutex_unlock [Mutex] (\<lambda>r.
       unless_zero r ''Server - unlock did not work (%d)\<newline>'' (
       Ret ()))))))) ())"

text \<open>\<open>POSIX_Init\<close> up to the creation of the server, without \<open>DEFINE_MUTEX_ATTRIBUTES\<close>, and from there.\<close>

definition mutex_start :: "(unit, unit) prog" where
  "mutex_start =
     Do puts [VStr ''\<newline>\<newline>*** LED BLINKER -- pthread_mutex ***''] (
     Call pthread_mutex_init [Mutex, NULL] (\<lambda>r.
     unless_zero r ''mutex init (%d) \<newline>'' (
     Call pthread_create [VRef ''&thread_id'', NULL, VRef ''Server'', NULL] (\<lambda>r.
     unless_zero r ''pthread_create --> %d\<newline>'' (
     Ret ())))))"

definition mutex_loop :: "nat \<Rightarrow> (unit, unit) prog" where
  "mutex_loop n =
     Call pthread_mutex_lock [Mutex] (\<lambda>r.
     unless_zero r ''Main -- first lock did not work (%d)\<newline>'' (
     forever n (\<lambda>_.
       LED_OFF (
       Do sleep [VInt 1] (
       Call pthread_mutex_unlock [Mutex] (\<lambda>r.
       unless_zero r ''Main - unlock did not work (%d)\<newline>'' (
       Call pthread_mutex_lock [Mutex] (\<lambda>r.
       unless_zero r ''Main - lock did not work (%d)\<newline>'' (
       Ret ()))))))) ()))"

definition mutex_POSIX_Init :: "nat \<Rightarrow> (unit, unit) prog" where
  "mutex_POSIX_Init n = bindp mutex_start (\<lambda>_. mutex_loop n)"

definition posix_server_config :: config_macros where
  "posix_server_config =
    [(CONFIGURE_APPLICATION_NEEDS_CONSOLE_DRIVER, defined),
     (CONFIGURE_APPLICATION_NEEDS_CLOCK_DRIVER, defined),
     (CONFIGURE_POSIX_INIT_THREAD_TABLE, defined),
     (CONFIGURE_MAXIMUM_POSIX_THREADS, VInt 2),
     (CONFIGURE_INIT, defined)]"

section \<open>\<open>posix_cond_server\<close> and \<open>ratemon_cond_server\<close>\<close>

text \<open>The thread of both; \<open>count\<close> is an \<open>int\<close>, whose overflow C leaves undefined.\<close>

definition cond_Server :: "nat \<Rightarrow> (unit, unit) prog" where
  "cond_Server n =
     LED_INIT (
     Call pthread_mutex_lock [Mutex] (\<lambda>r.
     unless_zero r ''Server - lock did not work (%d)\<newline>'' (
     forever n (\<lambda>count :: int.
       Call pthread_cond_wait [Condition, Mutex] (\<lambda>r.
       unless_zero r ''Server - condition wait did not work (%d)\<newline>'' (
       let next = (if count = 2147483647 then Halt else Ret (count + 1)) in
       if count mod 2 = 0 then LED_OFF next else LED_ON next))) 0)))"

definition cond_init :: "string \<Rightarrow> (unit, unit) prog" where
  "cond_init banner =
     Do puts [VStr banner] (
     Call pthread_mutex_init [Mutex, NULL] (\<lambda>r.
     unless_zero r ''mutex init (%d) \<newline>'' (
     Call pthread_cond_init [Condition, NULL] (\<lambda>r.
     unless_zero r ''cond init (%d) \<newline>'' (
     Ret ())))))"

definition cond_signals :: "nat \<Rightarrow> (unit, unit) prog" where
  "cond_signals n =
     forever n (\<lambda>_.
       Do sleep [VInt 1] (
       Call pthread_cond_signal [Condition] (\<lambda>r.
       unless_zero r ''Condition - signal did not work (%d)\<newline>'' (
       Ret ())))) ()"

definition cond_POSIX_Init :: "nat \<Rightarrow> (unit, unit) prog" where
  "cond_POSIX_Init n =
     bindp (cond_init ''\<newline>\<newline>*** LED BLINKER -- sleep with pthread condition variables ***'') (\<lambda>_.
     Call pthread_create [VRef ''&thread_id'', NULL, VRef ''Server'', NULL] (\<lambda>r.
     unless_zero r ''pthread_create --> %d\<newline>'' (
     cond_signals n)))"

text \<open>
  In \<open>ratemon_cond_server\<close> the result of the period is never looked at: the test is of the status of
  the call before it.
\<close>

definition ratemon_cond_Init :: "nat \<Rightarrow> val \<Rightarrow> (unit, unit) prog" where
  "ratemon_cond_Init n uninit =
     Do puts [VStr ''\<newline>\<newline>*** LED BLINKER -- rate monotonic period with pthread condition variables ***''] (
     Call pthread_mutex_init [Mutex, NULL] (\<lambda>r.
     unless_zero r ''mutex init (%d) \<newline>'' (
     Call pthread_cond_init [Condition, NULL] (\<lambda>r.
     let status = r in
     unless_zero r ''cond init (%d) \<newline>'' (
     Call rtems_rate_monotonic_create [VStr ''PER1'', VRef ''&period_id''] (\<lambda>r.
     let period_id = out r 0 uninit in
     (if ret r = SUCCESSFUL then (\<lambda>p. p)
      else Do fprintf [VRef ''stderr'', VStr ''Period - did not work (%d)\<newline>'', ret r]) (
     Call rtems_clock_get_ticks_per_second [] (\<lambda>t.
     forever n (\<lambda>status.
       Do rtems_rate_monotonic_period [period_id, ret t] (
       unless_zero status ''Period - did not work (%d)\<newline>'' (
       Call pthread_cond_signal [Condition] (\<lambda>status.
       unless_zero status ''Condition - signal did not work (%d)\<newline>'' (
       Ret status))))) status))))))))"

definition ratemon_cond_config :: config_macros where
  "ratemon_cond_config =
    [(CONFIGURE_APPLICATION_NEEDS_CONSOLE_DRIVER, defined),
     (CONFIGURE_APPLICATION_NEEDS_CLOCK_DRIVER, defined),
     (CONFIGURE_POSIX_INIT_THREAD_TABLE, defined),
     (CONFIGURE_RTEMS_INIT_TASKS_TABLE, defined),
     (CONFIGURE_MAXIMUM_TASKS, VInt 1),
     (CONFIGURE_MAXIMUM_PERIODS, VInt 1),
     (CONFIGURE_MAXIMUM_POSIX_THREADS, VInt 2),
     (CONFIGURE_INIT, defined)]"

section \<open>\<open>posix_message_server\<close>\<close>

text \<open>\<open>(mqd_t)-1\<close> is what \<open>mq_open\<close> returns when it fails.\<close>

definition Message_Server :: "nat \<Rightarrow> (unit, unit) prog" where
  "Message_Server n =
     Call mq_open [VStr ''LED'', VRef ''O_RDONLY''] (\<lambda>r.
     let rx_queue = ret r in
     if rx_queue = VInt (- 1) then Do perror [VStr ''mq_open''] (Do exit [VInt 0] Halt)
     else
       forever n (\<lambda>_.
         Call mq_receive [rx_queue, VRef ''&count'', VInt 4, VRef ''&prio''] (\<lambda>r.
         let count = word_of_int (as_int (out r 0 (VInt 0xFFFFFFFF))) :: u32 in
         if ret r \<noteq> VInt 4 then
           Do printf [VStr ''mq_receive %d expected %d\<newline>'', ret r, VInt 4] (Do exit [VInt 0] Halt)
         else if count mod 2 = 0 then LED_OFF (Ret ()) else LED_ON (Ret ()))) ())"

definition mq_Attr :: val where
  "mq_Attr = VOp ''mq_attr'' [VInt 0, VInt 10, VInt 4, VInt 0]"

definition message_POSIX_Init :: "nat \<Rightarrow> (unit, unit) prog" where
  "message_POSIX_Init n =
     Do puts [VStr ''\<newline>\<newline>*** LED BLINKER -- POSIX message receive server ***''] (
     LED_INIT (
     Call mq_open [VStr ''LED'', VOp ''|'' [VRef ''O_RDWR'', VRef ''O_CREAT''], VInt 0x1B6, mq_Attr] (\<lambda>r.
     let tx_queue = ret r in
     asserting (tx_queue \<noteq> VInt (- 1)) (
     Call pthread_create [VRef ''&thread_id'', NULL, VRef ''Message_Server'', NULL] (\<lambda>r.
     asserting (ret r = VInt 0) (
     forever n (\<lambda>count :: u32.
       Call mq_send [tx_queue, VInt (uint count), VInt 4, VInt 1] (\<lambda>r.
       asserting (ret r = VInt 0) (
       Do sleep [VInt 1] (
       Ret (count + 1))))) 0))))))"

definition message_config :: config_macros where
  "message_config =
    [(CONFIGURE_APPLICATION_NEEDS_CONSOLE_DRIVER, defined),
     (CONFIGURE_APPLICATION_NEEDS_CLOCK_DRIVER, defined),
     (CONFIGURE_MAXIMUM_POSIX_MESSAGE_QUEUES, VInt 1),
     (CONFIGURE_MESSAGE_BUFFER_MEMORY, VOp ''CONFIGURE_MESSAGE_BUFFERS_FOR_QUEUE'' [VInt 10, VInt 4]),
     (CONFIGURE_POSIX_INIT_THREAD_TABLE, defined),
     (CONFIGURE_MAXIMUM_POSIX_THREADS, VInt 20),
     (CONFIGURE_MAXIMUM_PROCESSORS, VInt 1),
     (CONFIGURE_INIT, defined)]"

section \<open>Commands and the mutex\<close>

definition commands_led :: "syscall \<Rightarrow> bool" where
  "commands_led c \<longleftrightarrow> fst c = fputs"

text \<open>
  Whether a thread holds the mutex after these calls, and whether it holds it at each of its
  commands; the calls are those that the mutex server makes, without waits for a condition.
\<close>

definition after_call :: "bool \<Rightarrow> syscall \<Rightarrow> bool" where
  "after_call b c = (case role (fst c) of Lock \<Rightarrow> True | Unlock \<Rightarrow> False | _ \<Rightarrow> b)"

definition holds :: "bool \<Rightarrow> syscall list \<Rightarrow> bool" where
  "holds = foldl after_call"

primrec guards :: "bool \<Rightarrow> syscall list \<Rightarrow> bool" where
  "guards b [] = True"
| "guards b (c # t) = (role (fst c) \<in> {Lock, Unlock, Other} \<and> (commands_led c \<longrightarrow> b) \<and> guards (after_call b c) t)"

lemma holds_simps [simp]:
  "holds b [] = b" "holds b (c # t) = holds (after_call b c) t" "holds b (t @ t') = holds (holds b t) t'"
  by (simp_all add: holds_def)

lemma guards_append [simp]: "guards b (t @ t') \<longleftrightarrow> guards b t \<and> guards (holds b t) t'"
  by (induction t arbitrary: b) auto

text \<open>No resource needs protection but the LED.\<close>

definition any_resource :: "unit \<Rightarrow> (nat \<Rightarrow> unit) \<Rightarrow> nat set \<Rightarrow> bool" where
  "any_resource g l S = True"

definition guarded_calls :: "nat \<Rightarrow> unit \<Rightarrow> syscall list \<Rightarrow> bool" where
  "guarded_calls i s t = guards False t"

definition any_answer :: "syscall \<Rightarrow> reply \<Rightarrow> bool" where
  "any_answer c r = True"

lemmas resource_defs = any_resource_def guarded_calls_def any_answer_def

interpretation led: monitor any_resource guarded_calls any_answer
  by unfold_locales (simp add: any_resource_def)

text \<open>Between its rounds the server is without the mutex, and the other thread has it.\<close>

definition free_led :: "'a \<Rightarrow> (unit, unit) mode \<Rightarrow> unit \<Rightarrow> syscall list \<Rightarrow> bool" where
  "free_led x m s t \<longleftrightarrow> m = None \<and> guards False t \<and> \<not> holds False t"

definition own_led :: "'a \<Rightarrow> (unit, unit) mode \<Rightarrow> unit \<Rightarrow> syscall list \<Rightarrow> bool" where
  "own_led x m s t \<longleftrightarrow> m \<noteq> None \<and> guards False t \<and> holds False t"

lemmas led_defs = resource_defs unless_zero_def LED_ON_def LED_OFF_def LED_INIT_def commands_led_def after_call_def

lemma vc_mutex_Server: "vc any_resource guarded_calls any_answer i (mutex_Server n) None s [] (\<lambda>_ _ _ _. True)"
  unfolding mutex_Server_def LED_INIT_def
  by (rule vc_forever [where P = free_led]) (auto simp: led_defs free_led_def)

lemma vc_mutex_loop: "vc any_resource guarded_calls any_answer i (mutex_loop n) None s [] (\<lambda>_ _ _ _. True)"
proof -
  let ?body = "\<lambda>_. LED_OFF (Do sleep [VInt 1] (Call pthread_mutex_unlock [Mutex] (\<lambda>r.
       unless_zero r ''Main - unlock did not work (%d)\<newline>'' (
       Call pthread_mutex_lock [Mutex] (\<lambda>r.
       unless_zero r ''Main - lock did not work (%d)\<newline>'' (Ret ()))))))"
  have "vc any_resource guarded_calls any_answer i (?body u) m s t own_led" if "own_led u m s t" for u m s t
    using that by (auto simp: led_defs own_led_def)
  then have "vc any_resource guarded_calls any_answer i (forever n ?body () :: (unit, unit) prog) (Some (g, l, S)) s
      [(pthread_mutex_lock, [Mutex])] (\<lambda>_ _ _ _. True)" for g l S
    by (rule vc_forever [where P = own_led]) (auto simp: own_led_def led_defs)
  then show ?thesis by (simp add: mutex_loop_def resource_defs unless_zero_def commands_led_def after_call_def)
qed

text \<open>Every command is given by the thread that holds the mutex, and no other thread holds it.\<close>

definition exclusive :: "log \<Rightarrow> bool" where
  "exclusive h \<longleftrightarrow> (\<forall>h1 i c h2. h = h1 @ (i, c) # h2 \<longrightarrow> commands_led c \<longrightarrow>
     holds False (log_of i h1) \<and> (\<forall>j. j \<noteq> i \<longrightarrow> \<not> holds False (log_of j h1)))"

lemma snoc_split: "t @ [c] = t1 @ d # t2 \<longleftrightarrow> (t2 = [] \<and> t1 = t \<and> d = c) \<or> (\<exists>t3. t2 = t3 @ [c] \<and> t = t1 @ d # t3)"
  by (cases t2 rule: rev_cases) auto

lemma exclusive_Nil: "exclusive []"
  by (simp add: exclusive_def)

lemma exclusive_snoc:
  "exclusive (h @ [(i, c)]) \<longleftrightarrow> exclusive h \<and>
    (commands_led c \<longrightarrow> holds False (log_of i h) \<and> (\<forall>j. j \<noteq> i \<longrightarrow> \<not> holds False (log_of j h)))"
  (is "_ \<longleftrightarrow> _ \<and> ?new")
proof
  assume e: "exclusive (h @ [(i, c)])"
  have "exclusive h"
    unfolding exclusive_def
  proof (intro allI impI)
    fix h1 i' c' h2 assume "h = h1 @ (i', c') # h2" "commands_led c'"
    then show "holds False (log_of i' h1) \<and> (\<forall>j. j \<noteq> i' \<longrightarrow> \<not> holds False (log_of j h1))"
      using e unfolding exclusive_def by (metis append_Cons append_assoc)
  qed
  moreover have ?new using e unfolding exclusive_def by blast
  ultimately show "exclusive h \<and> ?new" by blast
next
  assume e: "exclusive h \<and> ?new"
  then show "exclusive (h @ [(i, c)])" unfolding exclusive_def snoc_split by blast
qed

lemmas exclusive_simps = exclusive_Nil exclusive_snoc

definition lock_state :: "unit mstate \<Rightarrow> bool" where
  "lock_state c = (case c of (ths, mu, g, h) \<Rightarrow>
    (\<forall>i<length ths. \<exists>p. ths ! i = Running p) \<and> (\<forall>i. holds False (log_of i h) \<longleftrightarrow> mu = Held i) \<and> exclusive h)"

lemma lock_state_step:
  assumes "mstep R c c'" "lock_state c" "\<forall>i<length (fst c'). guards False (log_of i (snd (snd (snd c'))))"
  shows "lock_state c'"
  using assms
proof (induction rule: mstep.induct)
  case (MOther i ths f args k r mu g h)
  have gd: "guards False (log_of i h @ [(f, args)])" using MOther.prems(2) MOther.hyps(1) by (auto dest!: spec [of _ i])
  show ?case using MOther.prems(1) MOther.hyps gd
    by (auto simp: lock_state_def exclusive_simps nth_list_update after_call_def)
next
  case (MLock i ths f args k mu g h)
  have gd: "guards False (log_of i h @ [(f, args)])" using MLock.prems(2) MLock.hyps(1) by (auto dest!: spec [of _ i])
  show ?case using MLock.prems(1) MLock.hyps gd
    by (auto simp: lock_state_def exclusive_simps nth_list_update after_call_def)
next
  case (MUnlock i ths f args k mu g h)
  have gd: "guards False (log_of i h @ [(f, args)])" using MUnlock.prems(2) MUnlock.hyps(1) by (auto dest!: spec [of _ i])
  show ?case using MUnlock.prems(1) MUnlock.hyps gd
    by (auto simp: lock_state_def exclusive_simps nth_list_update after_call_def)
next
  case (MResume i ths p mu g h)
  then show ?case by (auto simp: lock_state_def)
next
  case (MSpurious i ths p mu g h)
  then show ?case by (auto simp: lock_state_def)
qed (auto simp: lock_state_def nth_list_update dest!: spec split: if_splits)

text \<open>The state after the creation of the server.\<close>

definition mutex_threads :: "nat \<Rightarrow> nat \<Rightarrow> unit mstate" where
  "mutex_threads n m = (map Running [mutex_loop n, mutex_Server m], Free, (), [])"

lemma mutex_run:
  assumes "(mstep any_answer)\<^sup>*\<^sup>* (mutex_threads n m) (ths, mu, g, h)"
  shows "\<forall>i<length ths. guards False (log_of i h)"
proof -
  have "vc any_resource guarded_calls any_answer i ([mutex_loop n, mutex_Server m] ! i) None () [] (\<lambda>_ _ _ _. True)"
    if "i < length [mutex_loop n, mutex_Server m]" for i
    using that vc_mutex_loop vc_mutex_Server by (auto simp: less_Suc_eq)
  from led.sound [OF assms [unfolded mutex_threads_def], of "\<lambda>_. ()"] this
  show ?thesis by (auto simp: resource_defs)
qed

lemma mutex_lock_state:
  assumes "(mstep any_answer)\<^sup>*\<^sup>* (mutex_threads n m) c"
  shows "lock_state c"
  using assms
proof (induction rule: rtranclp_induct)
  case base
  show ?case by (auto simp: mutex_threads_def lock_state_def exclusive_simps less_Suc_eq)
next
  case (step c c')
  obtain ths mu g h where c': "c' = (ths, mu, g, h)" by (metis prod_cases4)
  have "(mstep any_answer)\<^sup>*\<^sup>* (mutex_threads n m) (ths, mu, g, h)" using step.hyps c' by simp
  from mutex_run [OF this] show ?case using lock_state_step [OF step.hyps(2) step.IH] c' by simp
qed

text \<open>
  C10: In every interleaving of the two threads of the mutex example, each LED command is given by
  a thread that holds the mutex, and at that time no other thread holds it.
\<close>

theorem commands_hold_mutex:
  assumes "(mstep any_answer)\<^sup>*\<^sup>* (mutex_threads n m) (ths, mu, g, h)"
    and "h = h1 @ (i, c) # h2" "commands_led c"
  shows "holds False (log_of i h1) \<and> (\<forall>j. j \<noteq> i \<longrightarrow> \<not> holds False (log_of j h1))"
proof -
  have "exclusive h" using mutex_lock_state [OF assms(1)] by (simp add: lock_state_def)
  then show ?thesis using assms(2,3) unfolding exclusive_def by blast
qed

lemma mutex_moves:
  "\<exists>c. moves (\<lambda>_. Reply (VInt 0) []) [Step 1, Step 1] (mutex_threads 1 1) = Some c \<and>
    snd (snd (snd c)) = [(1, pthread_mutex_lock, [Mutex]), (1, fputs, [VStr ''LED ON\<newline>'', VRef ''stderr''])]"
  by (simp add: mutex_threads_def mutex_Server_def unless_zero_def LED_INIT_def LED_ON_def)

theorem commands_hold_mutex_witness:
  "holds False (log_of 1 [(1, pthread_mutex_lock, [Mutex])]) \<and> \<not> holds False (log_of 0 [(1, pthread_mutex_lock, [Mutex])])"
proof -
  obtain ths mu g where "(mstep any_answer)\<^sup>*\<^sup>* (mutex_threads 1 1)
    (ths, mu, g, [(1, pthread_mutex_lock, [Mutex]), (1, fputs, [VStr ''LED ON\<newline>'', VRef ''stderr''])])"
    using mutex_moves moves_mstep [where R = any_answer] by (metis any_answer_def prod.collapse)
  from commands_hold_mutex [OF this, of "[(1, pthread_mutex_lock, [Mutex])]" 1 _ "[]"]
  show ?thesis by (simp add: commands_led_def)
qed

section \<open>The condition server alternates\<close>

definition commands :: "syscall list \<Rightarrow> bool list" where
  "commands t = List.map_filter led_cmd t"

definition alternating :: "nat \<Rightarrow> unit \<Rightarrow> syscall list \<Rightarrow> bool" where
  "alternating i s t \<longleftrightarrow> (\<exists>k. commands t = map odd [0..<k])"

lemma commands_simps [simp]:
  "commands [] = []"
  "commands (t @ [c]) = commands t @ (case led_cmd c of None \<Rightarrow> [] | Some b \<Rightarrow> [b])"
  by (simp_all add: commands_def List.map_filter_def split: option.split)

interpretation cond: monitor any_resource alternating any_answer
  by unfold_locales (simp add: any_resource_def)

definition counted :: "int \<Rightarrow> (unit, unit) mode \<Rightarrow> unit \<Rightarrow> syscall list \<Rightarrow> bool" where
  "counted count m s t \<longleftrightarrow> m \<noteq> None \<and> 0 \<le> count \<and> commands t = map odd [0..<nat count]"

lemma commands_Cons [simp]:
  "commands (c # t) = (case led_cmd c of None \<Rightarrow> [] | Some b \<Rightarrow> [b]) @ commands t"
  "commands (t @ t') = commands t @ commands t'"
  by (simp_all add: commands_def List.map_filter_def split: option.split)

lemma alternating_same: "commands t' = commands t \<Longrightarrow> alternating i s t \<Longrightarrow> alternating i s t'"
  by (simp add: alternating_def)

lemma vc_round:
  assumes "counted count m s t"
  shows "vc any_resource alternating any_answer i
    (Call pthread_cond_wait [Condition, Mutex] (\<lambda>r.
       unless_zero r ''Server - condition wait did not work (%d)\<newline>'' (
       let next = (if count = 2147483647 then Halt else Ret (count + 1)) in
       if count mod 2 = 0 then LED_OFF next else LED_ON next))) m s t counted"
proof -
  obtain g l S where m: "m = Some (g, l, S)" using assms by (auto simp: counted_def)
  have t: "commands t = map odd [0..<nat count]" "0 \<le> count" using assms by (auto simp: counted_def)
  have next_count: "nat (count + 1) = Suc (nat count)" using t(2) by simp
  have parity: "odd (nat count) \<longleftrightarrow> count mod 2 \<noteq> 0" using t(2) by (simp add: even_nat_iff odd_iff_mod_2_eq_one)
  have "alternating i s t" using t unfolding alternating_def by blast
  moreover have "\<exists>k. map odd [0..<nat count] @ [count mod 2 \<noteq> 0] = map odd [0..<k]"
    using parity by (intro exI [of _ "Suc (nat count)"]) simp
  ultimately show ?thesis using t parity next_count
    by (auto simp: m any_resource_def alternating_def any_answer_def unless_zero_def blinker_defs counted_def)
qed

lemma vc_cond_Server: "vc any_resource alternating any_answer i (cond_Server n) None s [] (\<lambda>_ _ _ _. True)"
proof -
  have "alternating i s [(pthread_mutex_lock, [Mutex])]"
    unfolding alternating_def by (intro exI [of _ 0]) (simp add: led_cmd_def)
  moreover have "vc any_resource alternating any_answer i
    (forever n (\<lambda>count :: int. Call pthread_cond_wait [Condition, Mutex] (\<lambda>r.
       unless_zero r ''Server - condition wait did not work (%d)\<newline>'' (
       let next = (if count = 2147483647 then Halt else Ret (count + 1)) in
       if count mod 2 = 0 then LED_OFF next else LED_ON next))) 0 :: (unit, unit) prog)
    (Some (g, l, S)) s [(pthread_mutex_lock, [Mutex])] (\<lambda>_ _ _ _. True)" for g l S
    by (rule vc_forever [where P = counted, OF vc_round]) (auto simp: counted_def led_cmd_def)
  ultimately show ?thesis by (simp add: cond_Server_def LED_INIT_def unless_zero_def)
qed

lemma vc_cond_signals: "vc any_resource alternating any_answer i (cond_signals n) None s [] (\<lambda>_ _ _ _. True)"
  unfolding cond_signals_def
  by (rule vc_forever [where P = "\<lambda>_ m _ t. m = None \<and> commands t = []"])
     (auto simp: alternating_def unless_zero_def led_cmd_def intro: exI [of _ 0])

text \<open>
  Whatever wakes the server, its commands alternate, the first being off.
\<close>

theorem cond_server_alternates:
  assumes "(mstep any_answer)\<^sup>*\<^sup>* (map Running [cond_signals n, cond_Server m], Free, (), []) (ths, mu, g, h)"
    and "i < length ths"
  shows "\<exists>k. commands (log_of i h) = map odd [0..<k]"
proof -
  have "vc any_resource alternating any_answer i ([cond_signals n, cond_Server m] ! i) None () [] (\<lambda>_ _ _ _. True)"
    if "i < length [cond_signals n, cond_Server m]" for i
    using that vc_cond_signals vc_cond_Server by (auto simp: less_Suc_eq)
  moreover have "alternating i () []" for i by (auto simp: alternating_def intro: exI [of _ 0])
  ultimately show ?thesis using cond.sound [OF assms(1), of "\<lambda>_. ()"] assms(2)
    by (auto simp: any_resource_def alternating_def)
qed

end
