(* ===== verification/Spec2Isabelle.thy ===== *)
theory Spec2Isabelle
  imports Misc_Rand Sysspec Num_Sort Bitfield Idea_Cipher Emfloat_Run Crc32 Monlib_App Led_Props
    Ticker_Props Triple_Period Posix_Init LED_Server_Props Mqueue_Lock Menu_Props Periodic_Props
    Userdrv Adamain_Props Schedsim Cxx_Objects Tick_Wrap Overwrite Sigmask Task_Restart Regulator
    Attr_Report Pthreads Disk_Init Std_Map Crc_Init C11_Buffer Led_Posix
begin

text \<open>
  The RTEMS example programs, verified.

  The repository is a collection of programs for the real-time operating system RTEMS.  They share
  no code except a few headers: each directory is one application, a set of tasks or threads that
  the configuration macros in the same directory create, and that talk to each other through the
  operating system (events, semaphores, message queues, timers, signals) and through global
  variables.  RTEMS, POSIX, the C library and the MicroMonitor boot monitor are not part of the
  repository; they appear here as parameters only.

  How programs are modelled.  \<open>NB_Prelude\<close> has the C integer types of the 32-bit targets (words,
  with the wrap-around of the machine) and generic lemmas.  \<open>RT_Names\<close> names the functions that the
  programs call and the configuration macros that they define; a name carries no behaviour.
  \<open>RT_Prog\<close> defines programs: a tree of \<open>Call f args k\<close> (a call of the system, continued with its
  reply), \<open>Get\<close> and \<open>Put\<close> (one access to the program's own global variables, which are a record
  named after the source's variables), \<open>Halt\<close> (a failed assertion, an exit, or an access that C
  leaves undefined), and \<open>Ret\<close>.  A \<open>kernel\<close> answers the calls; it is any function of the calls made
  so far, and a property that needs more of it says so in a named hypothesis.  Tasks that run at the
  same time are interleaved at every access and every call (\<open>sstep\<close>, \<open>istep\<close>, \<open>pstep\<close>: inductive step
  relations); the statements about them are about every reachable state.  \<open>RT_Runs\<close> is the logic for
  a single program against a kernel that need not answer, \<open>RT_Keeps\<close> the one for invariants of
  shared globals.

  Bounds and fuel.  A loop that the source never leaves is \<open>forever n\<close>: \<open>n\<close> rounds and then \<open>Cut\<close>;
  the statements hold for every \<open>n\<close>, so for every prefix of the endless run.  A loop that ends only
  when its input lets it (the menus, the queue's wait, the script reader, the typed command line)
  has a number of rounds as an argument too, and the properties that say that it returns also say
  how many rounds are enough (the number of typed lines up to the first acceptable one, of pending
  messages up to the shutdown, and so on).  An access outside an array is \<open>Halt\<close> or \<open>None\<close>, never a
  default value.

  Which theory models what (paths under \<open>src/\<close>):

  \<^item> \<open>led/\<close>: \<open>Led\<close> has the board macros of \<open>led.h\<close> and the nine Classic API programs \<open>delay\<close>,
    \<open>ratemon1\<close>, \<open>ratemon2\<close>, \<open>timeout_event\<close>, \<open>timer\<close>, \<open>timer_server\<close>, \<open>sem_server\<close>, \<open>msg_server\<close>,
    \<open>event_server\<close>.  \<open>Led_Props\<close>: the order of the LED commands, the objects used against those
    configured, the race of the timer program, and the message server behind its queue.
  \<^item> \<open>led/complex1\<close>: \<open>Mqueue\<close> is the message queue (\<open>LocalMessageQueuePOSIX10031c.h\<close>,
    \<open>MessageQueueT.h\<close>, \<open>MessageQueueT_BASE.h\<close>), \<open>LED_Server\<close> the thread behind it (\<open>ledServer.h\<close>),
    \<open>Menu\<close> the text menus (\<open>menu.cc\<close>), \<open>Periodic\<close> the periodic tasks and their menu (\<open>periodic.c\<close>,
    \<open>main.cc\<close>, \<open>test.cc\<close>).  \<open>Queue_Interface\<close> states as a locale what a client relies on, a bounded
    first-in first-out queue; \<open>Mqueue_Props\<close> interprets it on the code's queue, and \<open>LED_Server_Props\<close>
    proves the server against a specification that only knows the list of messages.  \<open>Mqueue_Lock\<close>
    is the mutual exclusion of its users, \<open>Menu_Props\<close> and \<open>Periodic_Props\<close> the bounds of what is
    typed and of the arrays in every interleaving.
  \<^item> \<open>ticker/\<close> and \<open>testmacros.h\<close>: \<open>Ticker\<close>, \<open>Ticker_Props\<close>; \<open>classic_api/triple_period\<close>:
    \<open>Triple_Period\<close>; the files \<open>rtems_config.c\<close> of seventeen programs: \<open>Posix_Init\<close>.
  \<^item> \<open>micromonitor/diagnostics\<close>: \<open>Monlib\<close> is \<open>monlib.c\<close>, its pointers, its lock and every \<open>mon_\<close>
    wrapper, over an arbitrary monitor; \<open>Monlib_Lock\<close> its discipline, as one call between a lock and
    an unlock, and the back door that breaks it; \<open>Monlib_App\<close> the program \<open>main.c\<close>, \<open>cstart.c\<close>.
  \<^item> \<open>misc/\<close>: \<open>Userdrv\<close> (\<open>userdrv\<close>, the driver and the program over it), \<open>Adamain\<close> and
    \<open>Adamain_Props\<close> (\<open>adamain\<close>, the command-line parser), \<open>Regulator\<close> (\<open>regulator\<close>), \<open>Tick_Wrap\<close>
    (\<open>nanosecond_tick_wrap\<close>), \<open>Disk_Init\<close> (\<open>qemu_vfat\<close> and \<open>filesystem/fat_ramdisk\<close>).
  \<^item> \<open>posix_api/\<close>: \<open>Sigmask\<close> (\<open>psx_initial_sigmask\<close>), \<open>Task_Restart\<close> (\<open>psx_task_restart\<close>, two threads of
    which one restarts the other), \<open>Attr_Report\<close> (the seven reports), \<open>Pthreads\<close> (\<open>livermore\<close>,
    \<open>psx_pthread_join\<close>, \<open>psx_pthread_join_condvar\<close>, \<open>psx_pthread_priority\<close>, \<open>psx_sigint\<close>).
  \<^item> \<open>schedsim\<close>: \<open>Schedsim\<close>, the interpreter of scheduler scripts.  \<open>gdb/overwrite\<close>: \<open>Overwrite\<close>.
    \<open>cxx/cxx_throw\<close>: \<open>Cxx_Objects\<close>, with an explicit heap of strings.  \<open>cxx/cxx_stdmap\<close>:
    \<open>Std_Map\<close>, with the C++ containers as a locale of strict weak orders.
  \<^item> Threads on a mutex and a condition variable: \<open>Monitors\<close> has their step relation (\<open>mstep\<close>: locking,
    waiting, signals, spurious wake-ups) and a program logic with a resource invariant, the locale
    \<open>monitor\<close>, proved sound once.  \<open>C11_Buffer\<close> (\<open>c11/c11_cndvar01\<close>) and \<open>Led_Posix\<close>
    (\<open>led/posix_delay_sleep\<close>, \<open>posix_delay_nanosleep\<close>, \<open>posix_mutex_server\<close>, \<open>posix_cond_server\<close>,
    \<open>ratemon_cond_server\<close>, \<open>posix_message_server\<close>) interpret it.
  \<^item> \<open>file_io/crc\<close>: \<open>Crc32\<close>, the table-driven checksum against the bitwise definition, and \<open>Crc_Init\<close>,
    the program that prints it.
  \<^item> \<open>benchmarks/nbench\<close>: \<open>Misc_Rand\<close> (the generator), \<open>Sysspec\<close> (the memory table and the stopwatch),
    \<open>Heap_Order\<close> and \<open>Num_Sort\<close> (heapsort), \<open>Bitfield\<close>, \<open>Idea\<close> and \<open>Idea_Cipher\<close> (the cipher and
    its inverse), \<open>Emfloat\<close> with \<open>Emfloat_Mant\<close>, \<open>Emfloat_Ops\<close>, \<open>Emfloat_Spec\<close>, \<open>Emfloat_Add\<close>,
    \<open>Emfloat_Run\<close> (the floating-point emulation).

  What is not modelled, and why.  Calls of RTEMS, POSIX, the C library and the monitor: they are
  parameters, and \<open>printf\<close> formats are kept as the strings of the source.  The image data and the
  graphics calls of \<open>lvgl\<close>; \<open>uboot\<close> and \<open>umon\<close>, which print what a library returns; the headers
  \<open>tfs.h\<close> and \<open>cli.h\<close>, which declare structures and commands of the monitor that no program of the
  repository uses; the command-line options of builds other than the repository's own (Linux and
  Cygwin in the reports, networking in \<open>adamain\<close>).  Of the files \<open>test.c\<close>, those of \<open>led/\<close> and of
  \<open>c11_cndvar01\<close> are modelled, and of \<open>led/complex1/test.cc\<close> the menu of the periodic threads; the
  others are straight-line tests of library functions.  Of nbench, the drivers that adjust the
  amount of work to the clock and repeat an iteration, and the other six tests, among them those on
  floating-point numbers, whose results depend on the rounding of the target.  Time, preemption by
  priority and the length of a tick are left open: a property that holds for every interleaving
  holds for the scheduler's.
\<close>

end
